(* ===== verification/Prelude.thy ===== *)
theory Prelude
  imports Main "HOL-Library.Word" "HOL-Library.Multiset"
begin

text \<open>
  Shared vocabulary of the easyRDMA development: the machine-integer types of the C++ code, the
  result type in which every exception and every failed \<open>assert\<close> is a value, the sequencing
  operators of exception-throwing code with and without state, and the generic lemmas on lists,
  sums and words that the component theories use.
\<close>

section \<open>Types\<close>

type_synonym u8 = "8 word"
type_synonym u16 = "16 word"
type_synonym u32 = "32 word"
type_synonym u64 = "64 word"

text \<open>
  A computation that may throw returns \<open>Inl e\<close> or \<open>Inr v\<close>.  A computation on an object also
  returns the object as it is left, on the exceptional paths too: what C++ code writes before a
  \<open>throw\<close> stays written.
\<close>

type_synonym ('e, 'a, 's) outcome = "('e + 'a) \<times> 's"

named_theorems sequencing \<open>rewrite rules of the sequencing operators\<close>
named_theorems word_nat \<open>rules that move a word expression to nat\<close>

section \<open>Sequencing\<close>

definition bind_res :: "'e + 'a \<Rightarrow> ('a \<Rightarrow> 'e + 'b) \<Rightarrow> 'e + 'b" where
  "bind_res r f = (case r of Inl e \<Rightarrow> Inl e | Inr a \<Rightarrow> f a)"

definition bind_out :: "('e, 'a, 's) outcome \<Rightarrow> ('a \<Rightarrow> 's \<Rightarrow> ('e, 'b, 's) outcome) \<Rightarrow> ('e, 'b, 's) outcome"
  where "bind_out p f = (case p of (Inl e, s) \<Rightarrow> (Inl e, s) | (Inr a, s) \<Rightarrow> f a s)"

lemma bind_res_Inl [simp, sequencing]: "bind_res (Inl e) f = Inl e"
  by (simp add: bind_res_def)

lemma bind_res_Inr [simp, sequencing]: "bind_res (Inr a) f = f a"
  by (simp add: bind_res_def)

lemma bind_res_eq_Inr: "bind_res r f = Inr b \<longleftrightarrow> (\<exists>a. r = Inr a \<and> f a = Inr b)"
  by (cases r) auto

lemma bind_res_eq_Inl: "bind_res r f = Inl e \<longleftrightarrow> r = Inl e \<or> (\<exists>a. r = Inr a \<and> f a = Inl e)"
  by (cases r) auto

lemma bind_out_Inl [simp, sequencing]: "bind_out (Inl e, s) f = (Inl e, s)"
  by (simp add: bind_out_def)

lemma bind_out_Inr [simp, sequencing]: "bind_out (Inr a, s) f = f a s"
  by (simp add: bind_out_def)

section \<open>Lists\<close>

lemma remove1_append_notin: "x \<notin> set xs \<Longrightarrow> remove1 x (xs @ ys) = xs @ remove1 x ys"
  by (induction xs) auto

lemma mset_perm_distinct: "mset xs = mset ys \<Longrightarrow> distinct xs = distinct ys"
  by (metis mset_eq_imp_distinct_iff)

lemma mset_move: "x \<in> set xs \<Longrightarrow> mset (remove1 x xs) + {#x#} = mset xs"
  by simp

lemma rotate_nth_mod:
  "n < length xs \<Longrightarrow> (h + n) mod length xs < length xs"
  by (cases xs) auto

lemma sum_list_map_eq_0_nat: "sum_list (map f xs) = (0::nat) \<longleftrightarrow> (\<forall>x\<in>set xs. f x = 0)"
  by (induction xs) auto

lemma sum_list_bounded_nat:
  "(\<And>x. x \<in> set xs \<Longrightarrow> f x \<le> b) \<Longrightarrow> sum_list (map f xs) \<le> length xs * (b::nat)"
  by (induction xs) (auto simp: add_mono)

section \<open>Words\<close>

lemma unat_plus_small [word_nat]:
  "unat (a::'a::len word) + unat b < 2 ^ LENGTH('a) \<Longrightarrow> unat (a + b) = unat a + unat b"
  by (simp add: unat_word_ariths)

lemma unat_sum_list_words:
  fixes f :: "'a \<Rightarrow> 'b::len word"
  assumes "sum_list (map (\<lambda>x. unat (f x)) xs) < 2 ^ LENGTH('b)"
  shows "unat (sum_list (map f xs)) = sum_list (map (\<lambda>x. unat (f x)) xs)"
  using assms
proof (induction xs)
  case Nil
  then show ?case by simp
next
  case (Cons x xs)
  then have "unat (sum_list (map f xs)) = sum_list (map (\<lambda>x. unat (f x)) xs)" by simp
  with Cons.prems show ?case by (simp add: unat_plus_small)
qed

lemma of_nat_inverse_word:
  "n < 2 ^ LENGTH('a) \<Longrightarrow> unat (of_nat n :: 'a::len word) = n"
  by (simp add: unsigned_of_nat take_bit_nat_eq_self)

end
