(* ===== verification/Errors.thy ===== *)
theory Errors
  imports Prelude
begin

text \<open>
  The error machinery: the error codes of \<^verbatim>\<open>core/api/easyrdma.h\<close>, the class \<open>RdmaError\<close> and
  the throwing macros of \<^verbatim>\<open>core/common/RdmaError.h\<close> and \<^verbatim>\<open>core/linux/RdmaCommon.h\<close>, the
  translation tables of \<^verbatim>\<open>core/linux/RdmaErrorTranslation.cpp\<close>, the thread-local last error of
  \<^verbatim>\<open>core/api/errorhandling.cpp\<close> and the error texts of \<^verbatim>\<open>core/api/errorElaboration.cpp\<close>.
\<close>

section \<open>Error codes\<close>

definition easyrdma_Error_Success :: int where "easyrdma_Error_Success = 0"
definition easyrdma_Error_Timeout :: int where "easyrdma_Error_Timeout = -734001"
definition easyrdma_Error_InvalidSession :: int where "easyrdma_Error_InvalidSession = -734002"
definition easyrdma_Error_InvalidArgument :: int where "easyrdma_Error_InvalidArgument = -734003"
definition easyrdma_Error_InvalidOperation :: int where "easyrdma_Error_InvalidOperation = -734004"
definition easyrdma_Error_NoBuffersQueued :: int where "easyrdma_Error_NoBuffersQueued = -734005"
definition easyrdma_Error_OperatingSystemError :: int where
  "easyrdma_Error_OperatingSystemError = -734006"
definition easyrdma_Error_InvalidSize :: int where "easyrdma_Error_InvalidSize = -734007"
definition easyrdma_Error_OutOfMemory :: int where "easyrdma_Error_OutOfMemory = -734008"
definition easyrdma_Error_InternalError :: int where "easyrdma_Error_InternalError = -734009"
definition easyrdma_Error_InvalidAddress :: int where "easyrdma_Error_InvalidAddress = -734010"
definition easyrdma_Error_OperationCancelled :: int where
  "easyrdma_Error_OperationCancelled = -734011"
definition easyrdma_Error_InvalidProperty :: int where "easyrdma_Error_InvalidProperty = -734012"
definition easyrdma_Error_SessionNotConfigured :: int where
  "easyrdma_Error_SessionNotConfigured = -734013"
definition easyrdma_Error_NotConnected :: int where "easyrdma_Error_NotConnected = -734014"
definition easyrdma_Error_UnableToConnect :: int where "easyrdma_Error_UnableToConnect = -734015"
definition easyrdma_Error_AlreadyConfigured :: int where "easyrdma_Error_AlreadyConfigured = -734016"
definition easyrdma_Error_Disconnected :: int where "easyrdma_Error_Disconnected = -734017"
definition easyrdma_Error_BufferWaitInProgress :: int where
  "easyrdma_Error_BufferWaitInProgress = -734018"
definition easyrdma_Error_AlreadyConnected :: int where "easyrdma_Error_AlreadyConnected = -734019"
definition easyrdma_Error_InvalidDirection :: int where "easyrdma_Error_InvalidDirection = -734020"
definition easyrdma_Error_IncompatibleProtocol :: int where
  "easyrdma_Error_IncompatibleProtocol = -734021"
definition easyrdma_Error_IncompatibleVersion :: int where
  "easyrdma_Error_IncompatibleVersion = -734022"
definition easyrdma_Error_ConnectionRefused :: int where
  "easyrdma_Error_ConnectionRefused = -734023"
definition easyrdma_Error_ReadOnlyProperty :: int where "easyrdma_Error_ReadOnlyProperty = -734024"
definition easyrdma_Error_WriteOnlyProperty :: int where
  "easyrdma_Error_WriteOnlyProperty = -734025"
definition easyrdma_Error_OperationNotSupported :: int where
  "easyrdma_Error_OperationNotSupported = -734026"
definition easyrdma_Error_AddressInUse :: int where "easyrdma_Error_AddressInUse = -734027"
definition easyrdma_Error_SendTooLargeForRecvBuffer :: int where
  "easyrdma_Error_SendTooLargeForRecvBuffer = -734028"

lemmas error_code_defs =
  easyrdma_Error_Success_def easyrdma_Error_Timeout_def easyrdma_Error_InvalidSession_def
  easyrdma_Error_InvalidArgument_def easyrdma_Error_InvalidOperation_def
  easyrdma_Error_NoBuffersQueued_def easyrdma_Error_OperatingSystemError_def
  easyrdma_Error_InvalidSize_def easyrdma_Error_OutOfMemory_def easyrdma_Error_InternalError_def
  easyrdma_Error_InvalidAddress_def easyrdma_Error_OperationCancelled_def
  easyrdma_Error_InvalidProperty_def easyrdma_Error_SessionNotConfigured_def
  easyrdma_Error_NotConnected_def easyrdma_Error_UnableToConnect_def
  easyrdma_Error_AlreadyConfigured_def easyrdma_Error_Disconnected_def
  easyrdma_Error_BufferWaitInProgress_def easyrdma_Error_AlreadyConnected_def
  easyrdma_Error_InvalidDirection_def easyrdma_Error_IncompatibleProtocol_def
  easyrdma_Error_IncompatibleVersion_def easyrdma_Error_ConnectionRefused_def
  easyrdma_Error_ReadOnlyProperty_def easyrdma_Error_WriteOnlyProperty_def
  easyrdma_Error_OperationNotSupported_def easyrdma_Error_AddressInUse_def
  easyrdma_Error_SendTooLargeForRecvBuffer_def

section \<open>The class RdmaError\<close>

text \<open>\<open>filename\<close> is a \<open>const char*\<close>; \<open>None\<close> is the null pointer.\<close>

record RdmaError =
  errorCode :: int
  errorSubCode :: int
  filename :: "string option"
  fileLineNumber :: int

definition RdmaError_new :: RdmaError where
  "RdmaError_new = \<lparr>errorCode = 0, errorSubCode = 0, filename = None, fileLineNumber = 0\<rparr>"

definition RdmaError_of :: "int \<Rightarrow> int \<Rightarrow> string \<Rightarrow> int \<Rightarrow> RdmaError" where
  "RdmaError_of code subcode file line =
     \<lparr>errorCode = code, errorSubCode = subcode, filename = Some file, fileLineNumber = line\<rparr>"

definition RdmaError_Clear :: "RdmaError \<Rightarrow> RdmaError" where
  "RdmaError_Clear s =
     s\<lparr>errorCode := 0, errorSubCode := 0, filename := None, fileLineNumber := 0\<rparr>"

definition GetCode :: "RdmaError \<Rightarrow> int" where
  "GetCode s = errorCode s"

definition IsError :: "RdmaError \<Rightarrow> bool" where
  "IsError s \<longleftrightarrow> errorCode s \<noteq> 0"

definition IsSuccess :: "RdmaError \<Rightarrow> bool" where
  "IsSuccess s \<longleftrightarrow> errorCode s = 0"

text \<open>\<open>Assign\<close> keeps the first error it was given.\<close>

definition RdmaError_Assign :: "RdmaError \<Rightarrow> RdmaError \<Rightarrow> RdmaError" where
  "RdmaError_Assign s other =
     (if errorCode s = 0
      then s\<lparr>errorCode := errorCode other, errorSubCode := errorSubCode other,
             filename := filename other, fileLineNumber := fileLineNumber other\<rparr>
      else s)"

definition RdmaError_Assign4 :: "RdmaError \<Rightarrow> int \<Rightarrow> int \<Rightarrow> string \<Rightarrow> int \<Rightarrow> RdmaError" where
  "RdmaError_Assign4 s code subcode file line =
     (if errorCode s = 0
      then s\<lparr>errorCode := code, errorSubCode := subcode,
             filename := Some file, fileLineNumber := line\<rparr>
      else s)"

definition RDMA_SET_ERROR :: "string \<Rightarrow> int \<Rightarrow> RdmaError \<Rightarrow> int \<Rightarrow> RdmaError" where
  "RDMA_SET_ERROR file line s code = RdmaError_Assign4 s code 0 file line"

section \<open>Exceptions\<close>

text \<open>
  What can leave a function abnormally: the three kinds of C++ exception the API layer
  distinguishes, and a process that stops (a failed \<open>assert\<close>, or an operation the language
  leaves undefined, such as a member call through a null pointer), which no handler catches.
\<close>

datatype exn =
    RdmaException RdmaError
  | BadAlloc
  | StdException
  | Crash string

definition catchable :: "exn \<Rightarrow> bool" where
  "catchable e = (case e of Crash _ \<Rightarrow> False | _ \<Rightarrow> True)"

definition RDMA_THROW :: "string \<Rightarrow> int \<Rightarrow> int \<Rightarrow> exn" where
  "RDMA_THROW file line code = RdmaException (RdmaError_of code 0 file line)"

definition RDMA_THROW_WITH_SUBCODE :: "string \<Rightarrow> int \<Rightarrow> int \<Rightarrow> int \<Rightarrow> exn" where
  "RDMA_THROW_WITH_SUBCODE file line code subcode = RdmaException (RdmaError_of code subcode file line)"

definition cpp_assert :: "string \<Rightarrow> bool \<Rightarrow> exn + unit" where
  "cpp_assert msg b = (if b then Inr () else Inl (Crash msg))"

definition ASSERT_ALWAYS :: "string \<Rightarrow> int \<Rightarrow> bool \<Rightarrow> exn + unit" where
  "ASSERT_ALWAYS file line b =
     (if b then Inr () else Inl (RDMA_THROW file line easyrdma_Error_InternalError))"

text \<open>The code of the error that an exception carries.\<close>

fun exn_code :: "exn \<Rightarrow> int option" where
  "exn_code (RdmaException s) = Some (errorCode s)"
| "exn_code _ = None"

section \<open>Translation of operating-system and verbs errors (Linux)\<close>

text \<open>The values of \<open>errno\<close> are those of the Linux ABI.\<close>

definition EINVAL :: int where "EINVAL = 22"
definition ETIMEDOUT :: int where "ETIMEDOUT = 110"
definition ENOMEM :: int where "ENOMEM = 12"
definition ECANCELED :: int where "ECANCELED = 125"
definition ECONNREFUSED :: int where "ECONNREFUSED = 111"
definition ECONNABORTED :: int where "ECONNABORTED = 103"
definition ENETUNREACH :: int where "ENETUNREACH = 101"
definition EADDRNOTAVAIL :: int where "EADDRNOTAVAIL = 99"
definition EADDRINUSE :: int where "EADDRINUSE = 98"

lemmas errno_defs = EINVAL_def ETIMEDOUT_def ENOMEM_def ECANCELED_def ECONNREFUSED_def
  ECONNABORTED_def ENETUNREACH_def EADDRNOTAVAIL_def EADDRINUSE_def

definition errorTranslations :: "(int \<times> int) list" where
  "errorTranslations =
    [(EINVAL, easyrdma_Error_InvalidArgument),
     (ETIMEDOUT, easyrdma_Error_Timeout),
     (EINVAL, easyrdma_Error_InvalidArgument),
     (ENOMEM, easyrdma_Error_OutOfMemory),
     (ECANCELED, easyrdma_Error_OperationCancelled),
     (ECONNREFUSED, easyrdma_Error_UnableToConnect),
     (ECONNABORTED, easyrdma_Error_Disconnected),
     (ENETUNREACH, easyrdma_Error_UnableToConnect),
     (EADDRNOTAVAIL, easyrdma_Error_InvalidAddress),
     (EADDRINUSE, easyrdma_Error_AddressInUse)]"

definition OSErrorToRdmaError :: "int \<Rightarrow> int" where
  "OSErrorToRdmaError osError =
     (case map_of errorTranslations osError of
        Some code \<Rightarrow> code | None \<Rightarrow> easyrdma_Error_OperatingSystemError)"

text \<open>The completion statuses of \<open>libibverbs\<close> that the table names; \<open>IBV_WC_OTHER\<close> stands for
  any status the table does not name.\<close>

datatype ibv_wc_status =
    IBV_WC_SUCCESS | IBV_WC_LOC_LEN_ERR | IBV_WC_LOC_QP_OP_ERR | IBV_WC_LOC_EEC_OP_ERR
  | IBV_WC_LOC_PROT_ERR | IBV_WC_WR_FLUSH_ERR | IBV_WC_MW_BIND_ERR | IBV_WC_BAD_RESP_ERR
  | IBV_WC_LOC_ACCESS_ERR | IBV_WC_REM_INV_REQ_ERR | IBV_WC_REM_ACCESS_ERR | IBV_WC_REM_OP_ERR
  | IBV_WC_RETRY_EXC_ERR | IBV_WC_RNR_RETRY_EXC_ERR | IBV_WC_LOC_RDD_VIOL_ERR
  | IBV_WC_REM_INV_RD_REQ_ERR | IBV_WC_REM_ABORT_ERR | IBV_WC_INV_EECN_ERR
  | IBV_WC_INV_EEC_STATE_ERR | IBV_WC_FATAL_ERR | IBV_WC_RESP_TIMEOUT_ERR | IBV_WC_GENERAL_ERR
  | IBV_WC_TM_ERR | IBV_WC_TM_RNDV_INCOMPLETE | IBV_WC_OTHER nat

definition ibvErrorTranslations :: "(ibv_wc_status \<times> int) list" where
  "ibvErrorTranslations =
    (IBV_WC_LOC_LEN_ERR, easyrdma_Error_InvalidSize) #
    map (\<lambda>s. (s, easyrdma_Error_OperatingSystemError))
      [IBV_WC_LOC_QP_OP_ERR, IBV_WC_LOC_EEC_OP_ERR, IBV_WC_LOC_PROT_ERR, IBV_WC_WR_FLUSH_ERR,
       IBV_WC_MW_BIND_ERR, IBV_WC_BAD_RESP_ERR, IBV_WC_LOC_ACCESS_ERR, IBV_WC_REM_INV_REQ_ERR,
       IBV_WC_REM_ACCESS_ERR, IBV_WC_REM_OP_ERR, IBV_WC_RETRY_EXC_ERR, IBV_WC_RNR_RETRY_EXC_ERR,
       IBV_WC_LOC_RDD_VIOL_ERR, IBV_WC_REM_INV_RD_REQ_ERR, IBV_WC_REM_ABORT_ERR,
       IBV_WC_INV_EECN_ERR, IBV_WC_INV_EEC_STATE_ERR, IBV_WC_FATAL_ERR, IBV_WC_RESP_TIMEOUT_ERR,
       IBV_WC_GENERAL_ERR, IBV_WC_TM_ERR, IBV_WC_TM_RNDV_INCOMPLETE]"

definition IBVErrorToRdmaError :: "ibv_wc_status \<Rightarrow> int" where
  "IBVErrorToRdmaError ibvError =
     (case map_of ibvErrorTranslations ibvError of
        Some code \<Rightarrow> code | None \<Rightarrow> easyrdma_Error_OperatingSystemError)"

definition THROW_OS_ERROR :: "string \<Rightarrow> int \<Rightarrow> int \<Rightarrow> exn" where
  "THROW_OS_ERROR file line osError =
     RdmaException (RdmaError_Assign4 RdmaError_new (OSErrorToRdmaError osError) osError file line)"

text \<open>
  \<open>HandleError\<close> wraps a call that returns \<open>-1\<close> and sets \<open>errno\<close>; \<open>HandleErrorFromPointer\<close> a
  call that returns a pointer.
\<close>

definition HandleError :: "string \<Rightarrow> int \<Rightarrow> int \<Rightarrow> int \<Rightarrow> exn + unit" where
  "HandleError file line result errno =
     (if result = -1 then Inl (THROW_OS_ERROR file line errno) else Inr ())"

definition HandleErrorFromPointer :: "string \<Rightarrow> int \<Rightarrow> 'p option \<Rightarrow> int \<Rightarrow> exn + unit" where
  "HandleErrorFromPointer file line result errno =
     (if result = None then Inl (THROW_OS_ERROR file line errno) else Inr ())"

section \<open>The thread-local last error\<close>

text \<open>
  \<open>lastRdmaError\<close> is a thread-local object: each thread that has used it owns one, and
  \<open>_allocatedLastRdmaErrors\<close> counts the live ones.  A thread's first use constructs its object,
  the end of the thread destroys it.
\<close>

record last_errors =
  lastRdmaError :: "nat \<Rightarrow> RdmaError option"
  allocatedLastRdmaErrors :: u64

definition last_errors_init :: last_errors where
  "last_errors_init = \<lparr>lastRdmaError = (\<lambda>_. None), allocatedLastRdmaErrors = 0\<rparr>"

definition LastRdmaError_ctor :: "nat \<Rightarrow> last_errors \<Rightarrow> last_errors" where
  "LastRdmaError_ctor t s =
     s\<lparr>lastRdmaError := (lastRdmaError s)(t := Some RdmaError_new),
       allocatedLastRdmaErrors := allocatedLastRdmaErrors s + 1\<rparr>"

definition LastRdmaError_use :: "nat \<Rightarrow> last_errors \<Rightarrow> last_errors" where
  "LastRdmaError_use t s = (if lastRdmaError s t = None then LastRdmaError_ctor t s else s)"

definition LastRdmaError_dtor :: "nat \<Rightarrow> last_errors \<Rightarrow> last_errors" where
  "LastRdmaError_dtor t s =
     (if lastRdmaError s t = None then s
      else s\<lparr>lastRdmaError := (lastRdmaError s)(t := None),
             allocatedLastRdmaErrors := allocatedLastRdmaErrors s - 1\<rparr>)"

definition the_last_error :: "nat \<Rightarrow> last_errors \<Rightarrow> RdmaError" where
  "the_last_error t s = (case lastRdmaError s t of Some e \<Rightarrow> e | None \<Rightarrow> RdmaError_new)"

definition set_last_error :: "nat \<Rightarrow> RdmaError \<Rightarrow> last_errors \<Rightarrow> last_errors" where
  "set_last_error t e s = s\<lparr>lastRdmaError := (lastRdmaError s)(t := Some e)\<rparr>"

definition PopulateLastRdmaError :: "nat \<Rightarrow> RdmaError \<Rightarrow> last_errors \<Rightarrow> last_errors" where
  "PopulateLastRdmaError t status s0 =
     (let s = LastRdmaError_use t s0;
          cleared = RdmaError_Clear (the_last_error t s)
      in set_last_error t
           (if GetCode status \<noteq> 0 then RdmaError_Assign cleared status else cleared) s)"

definition ClearLastRdmaError :: "nat \<Rightarrow> last_errors \<Rightarrow> last_errors" where
  "ClearLastRdmaError t s0 =
     (let s = LastRdmaError_use t s0
      in set_last_error t (RdmaError_Clear (the_last_error t s)) s)"

definition GetLastRdmaError :: "nat \<Rightarrow> RdmaError \<Rightarrow> last_errors \<Rightarrow> RdmaError \<times> last_errors" where
  "GetLastRdmaError t status s0 =
     (let s = LastRdmaError_use t s0 in (RdmaError_Assign status (the_last_error t s), s))"

definition DebugGetNumberOfAllocatedLastRdmaErrors :: "last_errors \<Rightarrow> u64" where
  "DebugGetNumberOfAllocatedLastRdmaErrors s = allocatedLastRdmaErrors s"

section \<open>Error texts\<close>

definition digit_char :: "nat \<Rightarrow> char" where
  "digit_char d = char_of (48 + d)"

fun nat_to_string :: "nat \<Rightarrow> string" where
  "nat_to_string n = (if n < 10 then [digit_char n] else nat_to_string (n div 10) @ [digit_char (n mod 10)])"

declare nat_to_string.simps [simp del]

text \<open>\<open>std::to_string\<close> on an \<open>int\<close>.\<close>

definition int_to_string :: "int \<Rightarrow> string" where
  "int_to_string i = (if i < 0 then CHR ''-'' # nat_to_string (nat (- i)) else nat_to_string (nat i))"

definition errorStringTranslations :: "(int \<times> string) list" where
  "errorStringTranslations =
    [(easyrdma_Error_Success, ''''),
     (easyrdma_Error_Timeout, ''Operation timed out.''),
     (easyrdma_Error_InvalidSession, ''The specified session could not be found.''),
     (easyrdma_Error_InvalidArgument, ''Invalid argument.''),
     (easyrdma_Error_InvalidOperation, ''Invalid operation.''),
     (easyrdma_Error_NoBuffersQueued, ''No buffers queued.''),
     (easyrdma_Error_OperatingSystemError, ''Operating system error.''),
     (easyrdma_Error_InvalidSize, ''The provided size was invalid.''),
     (easyrdma_Error_OutOfMemory, ''Out of memory.''),
     (easyrdma_Error_InternalError,
        ''An internal error occurred. Contact National Instruments for support.''),
     (easyrdma_Error_InvalidAddress, ''Invalid address.''),
     (easyrdma_Error_OperationCancelled, ''Operation cancelled.''),
     (easyrdma_Error_InvalidProperty, ''Invalid property.''),
     (easyrdma_Error_SessionNotConfigured, ''Session not configured.''),
     (easyrdma_Error_NotConnected, ''Not connected.''),
     (easyrdma_Error_UnableToConnect, ''Unable to connect.''),
     (easyrdma_Error_AlreadyConfigured, ''Already configured.''),
     (easyrdma_Error_Disconnected, ''Disconnected.''),
     (easyrdma_Error_BufferWaitInProgress, ''Blocking buffer operation already in progress.''),
     (easyrdma_Error_AlreadyConnected, ''Current session is already connected.''),
     (easyrdma_Error_InvalidDirection, ''Specified direction is invalid.''),
     (easyrdma_Error_IncompatibleProtocol, ''Incompatible protocol.''),
     (easyrdma_Error_IncompatibleVersion, ''Incompatible version.''),
     (easyrdma_Error_ConnectionRefused, ''Connection refused.''),
     (easyrdma_Error_ReadOnlyProperty, ''Writing a read-only property is not permitted.''),
     (easyrdma_Error_WriteOnlyProperty, ''Reading a write-only property is not permitted.''),
     (easyrdma_Error_OperationNotSupported, ''The current operation is not supported.''),
     (easyrdma_Error_AddressInUse, ''The requested address is already in use.''),
     (easyrdma_Error_SendTooLargeForRecvBuffer, ''The Send buffer is too large.'')]"

definition ConvertToErrorString :: "int \<Rightarrow> string" where
  "ConvertToErrorString statusCode =
     (case map_of errorStringTranslations statusCode of
        Some s \<Rightarrow> s | None \<Rightarrow> ''Unknown error '')"

definition newline :: string where
  "newline = [char_of (10::nat)]"

definition GetErrorDescription :: "RdmaError \<Rightarrow> string" where
  "GetErrorDescription status =
     (if IsError status then
        let errorDesc = ConvertToErrorString (GetCode status) in
        if GetCode status = easyrdma_Error_Success then errorDesc
        else
          let errorDesc = (if errorSubCode status \<noteq> 0
                           then errorDesc @ newline @ ''Subcode: '' @ int_to_string (errorSubCode status)
                           else errorDesc)
          in errorDesc @ newline @ ''Location: ''
               @ (case filename status of Some f \<Rightarrow> f | None \<Rightarrow> ''Unknown'')
               @ '':'' @ int_to_string (fileLineNumber status) @ newline
      else '''')"

section \<open>Facts on RdmaError\<close>

lemma RdmaError_eqI:
  "errorCode a = errorCode b \<Longrightarrow> errorSubCode a = errorSubCode b \<Longrightarrow> filename a = filename b
   \<Longrightarrow> fileLineNumber a = fileLineNumber b \<Longrightarrow> a = (b :: RdmaError)"
  by simp

lemma IsError_iff: "IsError s \<longleftrightarrow> \<not> IsSuccess s"
  by (simp add: IsError_def IsSuccess_def)

lemma IsError_new [simp]: "\<not> IsError RdmaError_new"
  by (simp add: IsError_def RdmaError_new_def)

lemma IsError_of [simp]: "IsError (RdmaError_of c d f l) \<longleftrightarrow> c \<noteq> 0"
  by (simp add: IsError_def RdmaError_of_def)

lemma errorCode_of [simp]: "errorCode (RdmaError_of c d f l) = c"
  by (simp add: RdmaError_of_def)

lemma Assign_on_error [simp]: "IsError s \<Longrightarrow> RdmaError_Assign s other = s"
  by (simp add: RdmaError_Assign_def IsError_def)

lemma Assign_on_success [simp]: "\<not> IsError s \<Longrightarrow> RdmaError_Assign s other = other"
  by (rule RdmaError_eqI) (simp_all add: RdmaError_Assign_def IsError_def)

lemma IsError_Assign [simp]: "IsError (RdmaError_Assign s other) \<longleftrightarrow> IsError s \<or> IsError other"
  by (cases "IsError s") simp_all

lemma Assign4_eq: "RdmaError_Assign4 s c d f l = RdmaError_Assign s (RdmaError_of c d f l)"
  by (rule RdmaError_eqI) (simp_all add: RdmaError_Assign_def RdmaError_Assign4_def RdmaError_of_def)

lemma SET_ERROR_eq: "RDMA_SET_ERROR f l s c = RdmaError_Assign s (RdmaError_of c 0 f l)"
  by (simp add: RDMA_SET_ERROR_def Assign4_eq)

lemma Clear_eq [simp]: "RdmaError_Clear s = RdmaError_new"
  by (rule RdmaError_eqI) (simp_all add: RdmaError_Clear_def RdmaError_new_def)

lemma exn_code_THROW [simp]: "exn_code (RDMA_THROW f l c) = Some c"
  by (simp add: RDMA_THROW_def)

lemma exn_code_THROW_SUB [simp]: "exn_code (RDMA_THROW_WITH_SUBCODE f l c d) = Some c"
  by (simp add: RDMA_THROW_WITH_SUBCODE_def)

lemma exn_code_THROW_OS [simp]: "exn_code (THROW_OS_ERROR f l e) = Some (OSErrorToRdmaError e)"
  by (simp add: THROW_OS_ERROR_def Assign4_eq)

lemma cpp_assert_simps [simp]: "cpp_assert m True = Inr ()" "cpp_assert m False = Inl (Crash m)"
  by (simp_all add: cpp_assert_def)

lemma foldl_Assign_error: "IsError s \<Longrightarrow> foldl RdmaError_Assign s es = s"
  by (induction es arbitrary: s) simp_all

text \<open>
  A status that is assigned a sequence of results keeps the first error among them, whole:
  code, subcode, file and line; later errors never overwrite it.
\<close>

theorem first_error_wins:
  assumes "\<not> IsError s" and "find IsError es = Some e"
  shows "foldl RdmaError_Assign s es = e"
  using assms
proof (induction es arbitrary: s)
  case Nil
  then show ?case by simp
next
  case (Cons x es)
  show ?case
  proof (cases "IsError x")
    case True
    with Cons.prems show ?thesis by (simp add: foldl_Assign_error)
  next
    case False
    with Cons show ?thesis by simp
  qed
qed

theorem first_error_wins_witness:
  "foldl RdmaError_Assign RdmaError_new
     [RdmaError_new, RdmaError_of (-734017) 0 ''a'' 1, RdmaError_of (-734011) 0 ''b'' 2]
   = RdmaError_of (-734017) 0 ''a'' 1"
  by (rule first_error_wins) simp_all

section \<open>Facts on translation and texts\<close>

definition known_codes :: "int list" where
  "known_codes = map uminus (0 # [734001..734028])"

lemma known_codes_table: "map fst errorStringTranslations = known_codes"
  by code_simp

lemma OSErrorToRdmaError_range:
  "OSErrorToRdmaError e \<in> {-734003, -734001, -734008, -734011, -734015, -734017, -734010, -734027, -734006}"
  by (auto simp: OSErrorToRdmaError_def errorTranslations_def error_code_defs)

lemma IBVErrorToRdmaError_range: "IBVErrorToRdmaError e \<in> {-734007, -734006}"
  by (auto simp: IBVErrorToRdmaError_def ibvErrorTranslations_def error_code_defs)

lemma IBVErrorToRdmaError_nonzero: "IBVErrorToRdmaError e \<noteq> 0"
  using IBVErrorToRdmaError_range [of e] by auto

text \<open>
  The table of error texts has exactly one entry for every error code of the public header,
  in the header's order, with pairwise different texts; so every code the API can return is
  described, and two codes never share a description.
\<close>

theorem error_texts_complete:
  "map fst errorStringTranslations = known_codes \<and> distinct (map fst errorStringTranslations)
   \<and> distinct (map snd errorStringTranslations)"
proof -
  have "distinct (map fst errorStringTranslations)" by code_simp
  moreover have "distinct (map snd errorStringTranslations)" by code_simp
  ultimately show ?thesis by (simp add: known_codes_table)
qed

text \<open>
  An exception made from an operating-system error always carries a non-zero code that the
  text table describes, keeps the original \<open>errno\<close> as its subcode, and its description starts
  with the table's text.
\<close>

theorem os_errors_are_described:
  "\<exists>s descr rest. THROW_OS_ERROR file line e = RdmaException s \<and> IsError s \<and> errorSubCode s = e
     \<and> (errorCode s, descr) \<in> set errorStringTranslations
     \<and> GetErrorDescription s = descr @ newline @ rest"
proof -
  let ?s = "RdmaError_of (OSErrorToRdmaError e) e file line"
  have nz: "OSErrorToRdmaError e \<noteq> 0"
    using OSErrorToRdmaError_range [of e] by auto
  have "OSErrorToRdmaError e \<in> set (map fst errorStringTranslations)"
    using OSErrorToRdmaError_range [of e] by (auto simp: errorStringTranslations_def error_code_defs)
  then obtain descr where descr: "(OSErrorToRdmaError e, descr) \<in> set errorStringTranslations"
    by auto
  have "distinct (map fst errorStringTranslations)" by code_simp
  with descr have "map_of errorStringTranslations (OSErrorToRdmaError e) = Some descr"
    by (simp add: map_of_is_SomeI)
  with nz have "\<exists>rest. GetErrorDescription ?s = descr @ newline @ rest"
    by (auto simp: GetErrorDescription_def ConvertToErrorString_def GetCode_def
        easyrdma_Error_Success_def RdmaError_of_def IsError_def)
  moreover have "THROW_OS_ERROR file line e = RdmaException ?s"
    by (simp add: THROW_OS_ERROR_def Assign4_eq)
  ultimately show ?thesis
    using nz descr by (auto simp: IsError_def RdmaError_of_def)
qed

section \<open>Facts on the last error\<close>

lemma the_last_error_use [simp]: "the_last_error t (LastRdmaError_use u s) = the_last_error t s"
  by (simp add: the_last_error_def LastRdmaError_use_def LastRdmaError_ctor_def)

lemma the_last_error_set [simp]:
  "the_last_error t (set_last_error u e s) = (if t = u then e else the_last_error t s)"
  by (simp add: the_last_error_def set_last_error_def)

lemma the_last_error_populate:
  "the_last_error t (PopulateLastRdmaError u status s) =
     (if t = u then (if IsError status then status else RdmaError_new) else the_last_error t s)"
  by (auto simp: PopulateLastRdmaError_def Let_def GetCode_def IsError_def [of status])

text \<open>
  What a thread reads as its last error is what its own latest call stored: the whole error
  if that call failed and the cleared status if it succeeded; and storing it changes no other
  thread's last error.
\<close>

theorem last_error_per_thread:
  "fst (GetLastRdmaError t RdmaError_new (PopulateLastRdmaError t status s))
     = (if IsError status then status else RdmaError_new)
   \<and> (t' \<noteq> t \<longrightarrow> fst (GetLastRdmaError t' RdmaError_new (PopulateLastRdmaError t status s))
       = fst (GetLastRdmaError t' RdmaError_new s))"
  by (simp add: GetLastRdmaError_def Let_def the_last_error_populate)

theorem last_error_per_thread_witness:
  "fst (GetLastRdmaError 2 RdmaError_new
     (PopulateLastRdmaError 1 (RdmaError_of (-734001) 0 ''f'' 3)
       (PopulateLastRdmaError 2 (RdmaError_of (-734017) 0 ''g'' 4) last_errors_init)))
   = RdmaError_of (-734017) 0 ''g'' 4"
  using last_error_per_thread [of 1 "RdmaError_of (-734001) 0 ''f'' 3"
      "PopulateLastRdmaError 2 (RdmaError_of (-734017) 0 ''g'' 4) last_errors_init" 2]
  by (simp add: GetLastRdmaError_def Let_def the_last_error_populate)

definition last_errors_inv :: "last_errors \<Rightarrow> bool" where
  "last_errors_inv s \<longleftrightarrow> finite (dom (lastRdmaError s))
     \<and> allocatedLastRdmaErrors s = of_nat (card (dom (lastRdmaError s)))"

lemma last_errors_inv_init: "last_errors_inv last_errors_init"
  by (simp add: last_errors_inv_def last_errors_init_def)

lemma dom_use: "dom (lastRdmaError (LastRdmaError_use t s)) = insert t (dom (lastRdmaError s))"
  by (auto simp: LastRdmaError_use_def LastRdmaError_ctor_def)

lemma last_errors_inv_use: "last_errors_inv s \<Longrightarrow> last_errors_inv (LastRdmaError_use t s)"
  by (auto simp: last_errors_inv_def LastRdmaError_use_def LastRdmaError_ctor_def domIff)

lemma last_errors_inv_set:
  "last_errors_inv s \<Longrightarrow> last_errors_inv (set_last_error t e (LastRdmaError_use t s))"
  using last_errors_inv_use [of s t]
  by (simp add: last_errors_inv_def set_last_error_def dom_use insert_absorb2)

text \<open>
  The counter of live last-error objects is exact: it equals the number of threads that own
  one, and populating, clearing, reading and the end of a thread keep it so.
\<close>

theorem last_error_count_exact:
  assumes "last_errors_inv s"
  shows "last_errors_inv (PopulateLastRdmaError t status s)
    \<and> last_errors_inv (ClearLastRdmaError t s)
    \<and> last_errors_inv (snd (GetLastRdmaError t status s))
    \<and> last_errors_inv (LastRdmaError_dtor t s)
    \<and> DebugGetNumberOfAllocatedLastRdmaErrors s = of_nat (card (dom (lastRdmaError s)))"
proof -
  have "last_errors_inv (LastRdmaError_dtor t s)"
  proof (cases "lastRdmaError s t")
    case None
    with assms show ?thesis by (simp add: LastRdmaError_dtor_def)
  next
    case (Some e)
    then have "t \<in> dom (lastRdmaError s)" by auto
    then have "card (dom (lastRdmaError s)) = Suc (card (dom (lastRdmaError s) - {t}))"
      using assms card_Suc_Diff1 [of "dom (lastRdmaError s)" t] by (simp add: last_errors_inv_def)
    with Some assms show ?thesis
      by (simp add: last_errors_inv_def LastRdmaError_dtor_def)
  qed
  moreover have "last_errors_inv (PopulateLastRdmaError t status s)" "last_errors_inv (ClearLastRdmaError t s)"
    "last_errors_inv (snd (GetLastRdmaError t status s))"
    unfolding PopulateLastRdmaError_def ClearLastRdmaError_def GetLastRdmaError_def Let_def
    using last_errors_inv_set [OF assms] last_errors_inv_use [OF assms] by simp_all
  moreover have "DebugGetNumberOfAllocatedLastRdmaErrors s = of_nat (card (dom (lastRdmaError s)))"
    using assms by (simp add: last_errors_inv_def DebugGetNumberOfAllocatedLastRdmaErrors_def)
  ultimately show ?thesis by blast
qed

theorem last_error_count_exact_witness:
  "last_errors_inv (LastRdmaError_dtor 1 (PopulateLastRdmaError 1 RdmaError_new last_errors_init))"
proof -
  have "last_errors_inv (PopulateLastRdmaError 1 RdmaError_new last_errors_init)"
    using last_error_count_exact [OF last_errors_inv_init] by blast
  from last_error_count_exact [OF this] show ?thesis by blast
qed

end
