(* ===== verification/CircularFifo.thy ===== *)
theory CircularFifo
  imports Errors
begin

text \<open>
  The bounded queue \<open>tCircularFifo\<close> of \<^verbatim>\<open>core/common/tCircularFifo.h\<close>, at the width of
  \<open>size_t\<close>, and its interface: a bounded list queue.  The locale \<open>bounded_fifo\<close> states what a
  client may rely on; the interpretation \<open>circ\<close> discharges it for the ring buffer.
\<close>

section \<open>The ring buffer\<close>

record 'a tCircularFifo =
  fifo_buffer :: "'a list"
  fifo_head :: u64
  fifo_size :: u64

definition fifo_new :: "'a tCircularFifo" where
  "fifo_new = \<lparr>fifo_buffer = [], fifo_head = 0, fifo_size = 0\<rparr>"

text \<open>\<open>std::vector\<close> value-initialises the elements it adds; \<open>dflt\<close> is that value.\<close>

definition fifo_sized :: "'a \<Rightarrow> u64 \<Rightarrow> 'a tCircularFifo" where
  "fifo_sized dflt n = \<lparr>fifo_buffer = replicate (unat n) dflt, fifo_head = 0, fifo_size = 0\<rparr>"

definition fifo_clear :: "'a tCircularFifo \<Rightarrow> 'a tCircularFifo" where
  "fifo_clear q = q\<lparr>fifo_head := 0, fifo_size := 0\<rparr>"

definition vector_resize :: "'a \<Rightarrow> nat \<Rightarrow> 'a list \<Rightarrow> 'a list" where
  "vector_resize dflt n xs = take n xs @ replicate (n - length xs) dflt"

definition fifo_reallocate :: "'a \<Rightarrow> u64 \<Rightarrow> 'a tCircularFifo \<Rightarrow> 'a tCircularFifo" where
  "fifo_reallocate dflt n q =
     (let q = fifo_clear q in q\<lparr>fifo_buffer := vector_resize dflt (unat n) (fifo_buffer q)\<rparr>)"

definition fifo_count :: "'a tCircularFifo \<Rightarrow> u64" where
  "fifo_count q = fifo_size q"

definition fifo_capacity :: "'a tCircularFifo \<Rightarrow> u64" where
  "fifo_capacity q = of_nat (length (fifo_buffer q))"

definition fifo_unused :: "'a tCircularFifo \<Rightarrow> u64" where
  "fifo_unused q = fifo_capacity q - fifo_count q"

definition fifo_empty :: "'a tCircularFifo \<Rightarrow> bool" where
  "fifo_empty q \<longleftrightarrow> fifo_size q = 0"

definition getWriteIndex :: "u64 \<Rightarrow> 'a tCircularFifo \<Rightarrow> u64" where
  "getWriteIndex offset q = (fifo_head q + fifo_count q + offset) mod fifo_capacity q"

definition getReadIndex :: "u64 \<Rightarrow> 'a tCircularFifo \<Rightarrow> u64" where
  "getReadIndex offset q = (fifo_head q + offset) mod fifo_capacity q"

definition fifo_push :: "'a \<Rightarrow> 'a tCircularFifo \<Rightarrow> exn + 'a tCircularFifo" where
  "fifo_push elem q =
     (if fifo_size q + 1 \<le> fifo_capacity q
      then Inr (q\<lparr>fifo_buffer := (fifo_buffer q)[unat (getWriteIndex 0 q) := elem],
                  fifo_size := fifo_size q + 1\<rparr>)
      else Inl (Crash ''_size + 1 <= capacity()''))"

definition fifo_front :: "'a tCircularFifo \<Rightarrow> exn + 'a" where
  "fifo_front q =
     (if fifo_count q > 0 then Inr (fifo_buffer q ! unat (getReadIndex 0 q))
      else Inl (Crash ''size() > 0''))"

definition fifo_pop :: "'a tCircularFifo \<Rightarrow> exn + 'a tCircularFifo" where
  "fifo_pop q =
     (if fifo_count q \<ge> 1
      then Inr (q\<lparr>fifo_head := (fifo_head q + 1) mod fifo_capacity q, fifo_size := fifo_size q - 1\<rparr>)
      else Inl (Crash ''size() >= 1''))"

section \<open>The specification: a bounded list queue\<close>

definition spec_push :: "nat \<Rightarrow> 'a \<Rightarrow> 'a list \<Rightarrow> exn + 'a list" where
  "spec_push n x xs = (if length xs < n then Inr (xs @ [x]) else Inl (Crash ''_size + 1 <= capacity()''))"

definition spec_front :: "'a list \<Rightarrow> exn + 'a" where
  "spec_front xs = (case xs of [] \<Rightarrow> Inl (Crash ''size() > 0'') | x # _ \<Rightarrow> Inr x)"

definition spec_pop :: "'a list \<Rightarrow> exn + 'a list" where
  "spec_pop xs = (case xs of [] \<Rightarrow> Inl (Crash ''size() >= 1'') | _ # ys \<Rightarrow> Inr ys)"

lemma spec_Cons [simp]: "spec_front (x # xs) = Inr x" "spec_pop (x # xs) = Inr xs"
  by (simp_all add: spec_front_def spec_pop_def)

text \<open>A client's sequence of calls: \<open>Some x\<close> pushes \<open>x\<close>, \<open>None\<close> reads the front and pops it.\<close>

fun fifo_run ::
  "('a \<Rightarrow> 'q \<Rightarrow> exn + 'q) \<Rightarrow> ('q \<Rightarrow> exn + 'a) \<Rightarrow> ('q \<Rightarrow> exn + 'q)
   \<Rightarrow> 'a option list \<Rightarrow> 'q \<Rightarrow> exn + ('a list \<times> 'q)"
where
  "fifo_run push front pop [] q = Inr ([], q)"
| "fifo_run push front pop (Some x # ops) q =
     bind_res (push x q) (fifo_run push front pop ops)"
| "fifo_run push front pop (None # ops) q =
     bind_res (front q) (\<lambda>x. bind_res (pop q) (\<lambda>q'.
       bind_res (fifo_run push front pop ops q') (\<lambda>(out, q''). Inr (x # out, q''))))"

section \<open>The interface\<close>

locale bounded_fifo =
  fixes inv :: "'q \<Rightarrow> bool"
    and abs :: "'q \<Rightarrow> 'a list"
    and cap :: "'q \<Rightarrow> nat"
    and push :: "'a \<Rightarrow> 'q \<Rightarrow> exn + 'q"
    and front :: "'q \<Rightarrow> exn + 'a"
    and pop :: "'q \<Rightarrow> exn + 'q"
  assumes push_abs: "inv q \<Longrightarrow> map_sum id abs (push x q) = spec_push (cap q) x (abs q)"
    and front_abs: "inv q \<Longrightarrow> front q = spec_front (abs q)"
    and pop_abs: "inv q \<Longrightarrow> map_sum id abs (pop q) = spec_pop (abs q)"
    and push_inv: "inv q \<Longrightarrow> push x q = Inr q' \<Longrightarrow> inv q' \<and> cap q' = cap q"
    and pop_inv: "inv q \<Longrightarrow> pop q = Inr q' \<Longrightarrow> inv q' \<and> cap q' = cap q"
begin

lemma push_ok:
  assumes "inv q" and "length (abs q) < cap q"
  obtains q' where "push x q = Inr q'" and "inv q'" and "cap q' = cap q" and "abs q' = abs q @ [x]"
proof -
  from assms have "map_sum id abs (push x q) = Inr (abs q @ [x])"
    by (simp add: push_abs spec_push_def)
  then obtain q' where "push x q = Inr q'" and "abs q' = abs q @ [x]"
    by (cases "push x q") auto
  then show ?thesis using push_inv [OF assms(1)] that by blast
qed

lemma pop_ok:
  assumes "inv q" and "abs q = x # xs"
  obtains q' where "pop q = Inr q'" and "front q = Inr x" and "inv q'" and "cap q' = cap q"
    and "abs q' = xs"
proof -
  from assms have "map_sum id abs (pop q) = Inr xs"
    by (simp add: pop_abs spec_pop_def)
  then obtain q' where "pop q = Inr q'" and "abs q' = xs"
    by (cases "pop q") auto
  moreover have "front q = Inr x"
    using assms by (simp add: front_abs spec_front_def)
  ultimately show ?thesis using pop_inv [OF assms(1)] that by blast
qed

lemma run_refines:
  "inv q \<Longrightarrow> map_sum id (map_prod id abs) (fifo_run push front pop ops q)
     = fifo_run (spec_push (cap q)) spec_front spec_pop ops (abs q)"
proof (induction ops arbitrary: q)
  case Nil
  then show ?case by simp
next
  case (Cons op ops)
  show ?case
  proof (cases op)
    case None
    show ?thesis
    proof (cases "abs q")
      case Nil
      with None Cons.prems show ?thesis by (simp add: front_abs spec_front_def)
    next
      case abs_q: (Cons x xs)
      with Cons.prems obtain q' where q': "pop q = Inr q'" "front q = Inr x" "inv q'"
        "cap q' = cap q" "abs q' = xs"
        by (rule pop_ok)
      with Cons.IH [of q'] None abs_q show ?thesis
        by (cases "fifo_run push front pop ops q'"; cases "fifo_run (spec_push (cap q)) spec_front spec_pop ops xs")
           auto
    qed
  next
    case (Some x)
    show ?thesis
    proof (cases "length (abs q) < cap q")
      case True
      with Cons.prems obtain q' where "push x q = Inr q'" "inv q'" "cap q' = cap q" "abs q' = abs q @ [x]"
        by (rule push_ok)
      with Cons.IH [of q'] Some True show ?thesis by (simp add: spec_push_def)
    next
      case False
      with Cons.prems have "map_sum id abs (push x q) = Inl (Crash ''_size + 1 <= capacity()'')"
        by (simp add: push_abs spec_push_def)
      then have "push x q = Inl (Crash ''_size + 1 <= capacity()'')"
        by (cases "push x q") auto
      with Some False show ?thesis by (simp add: spec_push_def)
    qed
  qed
qed

end

section \<open>The ring buffer meets the interface\<close>

text \<open>
  The bound on the vector is that of \<open>std::vector<T*>::max_size()\<close>: fewer than \<open>2 ^ 60\<close>
  elements of eight bytes; it keeps the index arithmetic below \<open>2 ^ 64\<close>.
\<close>

definition fifo_inv :: "'a tCircularFifo \<Rightarrow> bool" where
  "fifo_inv q \<longleftrightarrow> length (fifo_buffer q) < 2 ^ 60
     \<and> unat (fifo_head q) < max 1 (length (fifo_buffer q))
     \<and> unat (fifo_size q) \<le> length (fifo_buffer q)"

definition fifo_cap :: "'a tCircularFifo \<Rightarrow> nat" where
  "fifo_cap q = length (fifo_buffer q)"

definition fifo_list :: "'a tCircularFifo \<Rightarrow> 'a list" where
  "fifo_list q = map (\<lambda>i. fifo_buffer q ! ((unat (fifo_head q) + i) mod length (fifo_buffer q)))
                   [0..<unat (fifo_size q)]"

lemma length_fifo_list [simp]: "length (fifo_list q) = unat (fifo_size q)"
  by (simp add: fifo_list_def)

lemma unat_capacity: "fifo_inv q \<Longrightarrow> unat (fifo_capacity q) = length (fifo_buffer q)"
  by (simp add: fifo_inv_def fifo_capacity_def of_nat_inverse_word)

lemma unat_getReadIndex:
  "fifo_inv q \<Longrightarrow> unat (getReadIndex 0 q) = unat (fifo_head q) mod length (fifo_buffer q)"
  by (simp add: getReadIndex_def unat_mod unat_capacity)

lemma unat_getWriteIndex:
  assumes "fifo_inv q"
  shows "unat (getWriteIndex 0 q) = (unat (fifo_head q) + unat (fifo_size q)) mod length (fifo_buffer q)"
proof -
  have "unat (fifo_head q) + unat (fifo_size q) < 2 ^ 64"
    using assms by (auto simp: fifo_inv_def)
  then show ?thesis
    using assms by (simp add: getWriteIndex_def fifo_count_def unat_mod unat_capacity unat_plus_small)
qed

lemma mod_ring_inj_le:
  assumes "i \<le> j" and "j < n" and "(h + i) mod n = (h + j) mod (n::nat)"
  shows "i = j"
proof -
  have "n dvd (h + j) - (h + i)"
    using assms mod_eq_dvd_iff_nat [of "h + i" "h + j" n] by simp
  with assms(1,2) show ?thesis by (auto dest: dvd_imp_le)
qed

lemma mod_ring_inj:
  "i < n \<Longrightarrow> j < n \<Longrightarrow> (h + i) mod n = (h + j) mod (n::nat) \<Longrightarrow> i = j"
  using mod_ring_inj_le [of i j n h] mod_ring_inj_le [of j i n h] by (metis linear)

lemma fifo_list_push:
  assumes "fifo_inv q" and "unat (fifo_size q) < length (fifo_buffer q)"
  shows "fifo_list (q\<lparr>fifo_buffer := (fifo_buffer q)[unat (getWriteIndex 0 q) := x],
                     fifo_size := fifo_size q + 1\<rparr>) = fifo_list q @ [x]"
    (is "fifo_list ?q = _")
proof (rule nth_equalityI)
  have sz: "unat (fifo_size q + 1) = unat (fifo_size q) + 1"
    using assms by (simp add: fifo_inv_def unat_plus_small)
  then show "length (fifo_list ?q) = length (fifo_list q @ [x])" by simp
  fix i
  assume "i < length (fifo_list ?q)"
  then have i: "i \<le> unat (fifo_size q)" by (simp add: sz)
  let ?n = "length (fifo_buffer q)"
  have "(unat (fifo_head q) + i) mod ?n = (unat (fifo_head q) + unat (fifo_size q)) mod ?n
      \<longleftrightarrow> i = unat (fifo_size q)"
    using mod_ring_inj [of i ?n "unat (fifo_size q)" "unat (fifo_head q)"] i assms(2) by auto
  moreover have "(unat (fifo_head q) + unat (fifo_size q)) mod ?n < ?n"
    using assms(2) by (intro mod_less_divisor) linarith
  ultimately show "fifo_list ?q ! i = (fifo_list q @ [x]) ! i"
    using i assms
    by (auto simp: fifo_list_def sz unat_getWriteIndex nth_append nth_list_update simp del: upt_Suc)
qed

lemma fifo_list_pop:
  assumes "fifo_inv q" and "0 < fifo_size q"
  shows "fifo_list (q\<lparr>fifo_head := (fifo_head q + 1) mod fifo_capacity q, fifo_size := fifo_size q - 1\<rparr>)
     = tl (fifo_list q)" (is "fifo_list ?q = _")
proof (rule nth_equalityI)
  have sz: "unat (fifo_size q - 1) = unat (fifo_size q) - 1"
    using assms(2) by (simp add: unat_minus_one word_neq_0_conv)
  then show "length (fifo_list ?q) = length (tl (fifo_list q))" by simp
  have "unat (fifo_head q) + unat (1::u64) < 2 ^ LENGTH(64)"
    using assms(1) by (auto simp: fifo_inv_def max_def split: if_splits)
  then have "unat (fifo_head q + 1) = unat (fifo_head q) + 1"
    using unat_plus_small [of "fifo_head q" 1] by simp
  then have hd: "unat ((fifo_head q + 1) mod fifo_capacity q) = Suc (unat (fifo_head q)) mod length (fifo_buffer q)"
    using assms(1) by (simp add: unat_mod unat_capacity)
  fix i
  assume "i < length (fifo_list ?q)"
  then have "i < unat (fifo_size q) - 1" and "[0..<unat (fifo_size q)] ! Suc i = Suc i"
    by (simp_all add: sz)
  then show "fifo_list ?q ! i = tl (fifo_list q) ! i"
    by (simp add: fifo_list_def sz hd nth_tl mod_add_left_eq)
qed

lemma fifo_push_guard:
  "fifo_inv q \<Longrightarrow> fifo_size q + 1 \<le> fifo_capacity q \<longleftrightarrow> unat (fifo_size q) < length (fifo_buffer q)"
  using unat_plus_small [of "fifo_size q" 1]
  by (auto simp: word_le_nat_alt unat_capacity fifo_inv_def)

lemma fifo_list_Nil: "fifo_list q = [] \<longleftrightarrow> fifo_size q = 0"
  by (simp add: fifo_list_def unat_eq_0)

lemma fifo_front_abs: "fifo_inv q \<Longrightarrow> fifo_front q = spec_front (fifo_list q)"
proof (cases "fifo_size q = 0")
  case True
  then show ?thesis by (simp add: fifo_front_def fifo_count_def spec_front_def fifo_list_def)
next
  case False
  assume inv: "fifo_inv q"
  from False have "0 < unat (fifo_size q)" by (simp add: unat_gt_0)
  then have "fifo_list q = fifo_buffer q ! (unat (fifo_head q) mod length (fifo_buffer q)) # tl (fifo_list q)"
    by (simp add: fifo_list_def upt_conv_Cons)
  then have "spec_front (fifo_list q) = Inr (fifo_buffer q ! (unat (fifo_head q) mod length (fifo_buffer q)))"
    by (metis spec_Cons(1))
  with False inv show ?thesis
    by (simp add: fifo_front_def fifo_count_def unat_getReadIndex word_gt_0)
qed

lemma fifo_push_abs: "fifo_inv q \<Longrightarrow> map_sum id fifo_list (fifo_push x q) = spec_push (fifo_cap q) x (fifo_list q)"
  by (simp add: fifo_push_def fifo_push_guard spec_push_def fifo_cap_def fifo_list_push)

lemma fifo_pop_abs: "fifo_inv q \<Longrightarrow> map_sum id fifo_list (fifo_pop q) = spec_pop (fifo_list q)"
proof (cases "fifo_list q")
  case Nil
  then have "fifo_size q = 0" by (simp add: fifo_list_Nil)
  with Nil show ?thesis by (simp add: fifo_pop_def fifo_count_def spec_pop_def)
next
  case (Cons x xs)
  assume inv: "fifo_inv q"
  from Cons have "fifo_size q \<noteq> 0" using fifo_list_Nil [of q] by auto
  then have "0 < fifo_size q" and "1 \<le> fifo_size q" by (simp_all add: word_gt_0 word_le_nat_alt unat_gt_0 Suc_leI)
  with inv Cons show ?thesis by (simp add: fifo_pop_def fifo_count_def fifo_list_pop)
qed

lemma fifo_push_inv:
  "fifo_inv q \<Longrightarrow> fifo_push x q = Inr q' \<Longrightarrow> fifo_inv q' \<and> fifo_cap q' = fifo_cap q"
  using unat_plus_small [of "fifo_size q" 1] fifo_push_guard [of q]
  by (auto simp: fifo_push_def fifo_inv_def fifo_cap_def split: if_splits)

lemma fifo_pop_inv:
  assumes "fifo_inv q" and "fifo_pop q = Inr q'"
  shows "fifo_inv q' \<and> fifo_cap q' = fifo_cap q"
proof -
  from assms(2) have sz: "fifo_size q \<noteq> 0" and q': "q' = q\<lparr>fifo_head := (fifo_head q + 1) mod fifo_capacity q,
      fifo_size := fifo_size q - 1\<rparr>"
    by (auto simp: fifo_pop_def fifo_count_def split: if_splits)
  then have "0 < length (fifo_buffer q)"
    using assms(1) by (auto simp: fifo_inv_def unat_eq_0)
  with sz assms(1) show ?thesis
    by (auto simp: q' fifo_inv_def fifo_cap_def unat_mod unat_capacity [OF assms(1)] unat_minus_one)
qed

interpretation circ: bounded_fifo fifo_inv fifo_list fifo_cap fifo_push fifo_front fifo_pop
  by unfold_locales
     (rule fifo_push_abs fifo_front_abs fifo_pop_abs fifo_push_inv fifo_pop_inv; assumption)+

text \<open>The forms in which the queue of buffers uses the interface.\<close>

lemma fifo_push_ok:
  assumes "fifo_inv q" and "length (fifo_list q) < fifo_cap q"
  shows "\<exists>q'. fifo_push x q = Inr q' \<and> fifo_inv q' \<and> fifo_cap q' = fifo_cap q \<and> fifo_list q' = fifo_list q @ [x]"
  using circ.push_ok [OF assms] by metis

lemma fifo_pop_ok:
  assumes "fifo_inv q" and "fifo_list q = x # xs"
  shows "\<exists>q'. fifo_pop q = Inr q' \<and> fifo_front q = Inr x \<and> fifo_inv q' \<and> fifo_cap q' = fifo_cap q \<and> fifo_list q' = xs"
  using circ.pop_ok [OF assms] by metis

lemma fifo_count_zero [simp]: "fifo_inv q \<Longrightarrow> fifo_count q = 0 \<longleftrightarrow> fifo_list q = []"
  by (simp add: fifo_count_def fifo_list_Nil)

lemma unat_fifo_count [simp]: "unat (fifo_count q) = length (fifo_list q)"
  by (simp add: fifo_count_def)

lemma fifo_empty_iff [simp]: "fifo_empty q \<longleftrightarrow> fifo_list q = []"
  by (simp add: fifo_empty_def fifo_list_Nil)

lemma fifo_length_le_cap: "fifo_inv q \<Longrightarrow> length (fifo_list q) \<le> fifo_cap q"
  by (simp add: fifo_inv_def fifo_cap_def)

lemma fifo_reallocate_props:
  assumes "unat n < 2 ^ 60"
  shows "fifo_inv (fifo_reallocate d n q)" and "fifo_cap (fifo_reallocate d n q) = unat n"
    and "fifo_list (fifo_reallocate d n q) = []"
  using assms
  by (auto simp: fifo_reallocate_def fifo_clear_def vector_resize_def fifo_inv_def fifo_cap_def
      fifo_list_def Let_def)

lemma fifo_new_props: "fifo_inv fifo_new" "fifo_cap fifo_new = 0" "fifo_list fifo_new = []"
  by (simp_all add: fifo_new_def fifo_inv_def fifo_cap_def fifo_list_def)

text \<open>
  C28.  The ring buffer with its wrapping 64-bit indices is a bounded list queue: every sequence
  of pushes and pops, started on an allocated ring, returns the same elements in the same order,
  fails with the same assertion at the same call, and leaves the same contents as the list queue.
\<close>

theorem ring_buffer_refines_list_queue:
  assumes "unat n < 2 ^ 60"
  shows "map_sum id (map_prod id fifo_list)
           (fifo_run fifo_push fifo_front fifo_pop ops (fifo_reallocate d n q))
         = fifo_run (spec_push (unat n)) spec_front spec_pop ops []"
  using circ.run_refines [OF fifo_reallocate_props(1) [OF assms], of ops d q]
  by (simp add: fifo_reallocate_props [OF assms])

theorem ring_buffer_refines_list_queue_witness:
  "map_sum id (map_prod id fifo_list)
     (fifo_run fifo_push fifo_front fifo_pop [Some 1, Some 2, None, Some 3, None]
       (fifo_reallocate 0 2 (fifo_new :: nat tCircularFifo))) = Inr ([1, 2], [3])"
  using ring_buffer_refines_list_queue [of 2 "[Some 1, Some 2, None, Some 3, None]" 0 "fifo_new :: nat tCircularFifo"]
  by (simp add: spec_push_def)

end
