(* ===== verification/AccessRequest.thy ===== *)
theory AccessRequest
  imports Errors
begin

text \<open>
  The parts of the access manager of \<^verbatim>\<open>core/api/tAccessManager.h\<close>: the event \<open>tEvent\<close>, the
  request \<open>tRequest\<close> with its bit-coded stack of nested accesses, and the counted request list
  \<open>tRequestList\<close>.  A thread id is a natural number.
\<close>

unbundle bit_operations_syntax

section \<open>Events\<close>

record tEvent =
  ev_autoReset :: bool
  ev_signalled :: bool

definition tEvent_new :: "bool \<Rightarrow> bool \<Rightarrow> tEvent" where
  "tEvent_new autoReset signalledInitially =
     \<lparr>ev_autoReset = autoReset, ev_signalled = signalledInitially\<rparr>"

definition tEvent_release :: "tEvent \<Rightarrow> tEvent" where
  "tEvent_release e = e\<lparr>ev_signalled := True\<rparr>"

definition tEvent_reset :: "tEvent \<Rightarrow> tEvent" where
  "tEvent_reset e = e\<lparr>ev_signalled := False\<rparr>"

text \<open>
  The wait loop.  \<open>wakes\<close> lists what each wait on the condition variable returns: whether it
  timed out, and the event as the thread then finds it; \<open>None\<close> is a thread that still waits.
\<close>

fun tEvent_acquireWithTimeout :: "int \<Rightarrow> (bool \<times> tEvent) list \<Rightarrow> tEvent \<Rightarrow> (exn + tEvent) option" where
  "tEvent_acquireWithTimeout timeoutMs wakes e =
     (if ev_signalled e then
        Some (Inr (if ev_autoReset e then e\<lparr>ev_signalled := False\<rparr> else e))
      else (case wakes of
              [] \<Rightarrow> None
            | (timedOut, e') # wakes' \<Rightarrow>
                if timeoutMs \<noteq> -1 \<and> timedOut
                then Some (Inl (RDMA_THROW ''tAccessManager.h'' 103 easyrdma_Error_Timeout))
                else tEvent_acquireWithTimeout timeoutMs wakes' e'))"

section \<open>Requests\<close>

datatype tRequestType = kShared | kExclusive | kYieldedTo

record tRequest =
  rq_tid :: nat
  rq_shared :: u32
  rq_exclusive :: u32
  rq_nesting :: u32
  rq_yieldedTo :: bool
  rq_signal :: tEvent

definition tRequest_Count :: "tRequest \<Rightarrow> u32" where
  "tRequest_Count r = rq_shared r + rq_exclusive r"

definition tRequest_CountExclusive :: "tRequest \<Rightarrow> u32" where
  "tRequest_CountExclusive r = rq_exclusive r"

definition tRequest_CountShared :: "tRequest \<Rightarrow> u32" where
  "tRequest_CountShared r = rq_shared r"

definition tRequest_GetTid :: "tRequest \<Rightarrow> nat" where
  "tRequest_GetTid r = rq_tid r"

definition tRequest_Signal :: "tRequest \<Rightarrow> tRequest" where
  "tRequest_Signal r = r\<lparr>rq_signal := tEvent_release (rq_signal r)\<rparr>"

definition tRequest_InitSignal :: "tRequest \<Rightarrow> tRequest" where
  "tRequest_InitSignal r = r\<lparr>rq_signal := tEvent_new True False\<rparr>"

text \<open>The exclusive branch of \<open>Add\<close>, which \<open>kYieldedTo\<close> falls through to.\<close>

definition tRequest_AddExclusive :: "tRequestType \<Rightarrow> tRequest \<Rightarrow> exn + tRequest" where
  "tRequest_AddExclusive type r =
     (if rq_yieldedTo r then Inr (r\<lparr>rq_yieldedTo := False\<rparr>)
      else bind_res (cpp_assert ''(shared + exclusive) < 32'' (rq_shared r + rq_exclusive r < 32))
        (\<lambda>_. Inr (r\<lparr>rq_exclusive := rq_exclusive r + 1,
                    rq_nesting := push_bit 1 (rq_nesting r) OR 0,
                    rq_yieldedTo := (type = kYieldedTo)\<rparr>)))"

definition tRequest_Add :: "tRequestType \<Rightarrow> tRequest \<Rightarrow> exn + tRequest" where
  "tRequest_Add type r =
     (case type of
        kShared \<Rightarrow>
          bind_res (cpp_assert ''(shared + exclusive) < 32'' (rq_shared r + rq_exclusive r < 32))
            (\<lambda>_. Inr (r\<lparr>rq_shared := rq_shared r + 1, rq_nesting := push_bit 1 (rq_nesting r) OR 1\<rparr>))
      | kYieldedTo \<Rightarrow> if rq_exclusive r \<noteq> 0 then Inr r else tRequest_AddExclusive type r
      | kExclusive \<Rightarrow> tRequest_AddExclusive type r)"

text \<open>The constructor leaves \<open>nesting\<close> and the preallocated signal as they are in memory.\<close>

definition tRequest_ctor :: "nat \<Rightarrow> tRequestType \<Rightarrow> tRequest \<Rightarrow> exn + tRequest" where
  "tRequest_ctor t type mem =
     tRequest_Add type (mem\<lparr>rq_tid := t, rq_shared := 0, rq_exclusive := 0, rq_yieldedTo := False\<rparr>)"

definition tRequest_RemoveLast :: "tRequest \<Rightarrow> exn + bool \<times> tRequest" where
  "tRequest_RemoveLast r =
     bind_res (cpp_assert ''!yieldedTo'' (\<not> rq_yieldedTo r)) (\<lambda>_.
       let r' = (if rq_nesting r AND 1 \<noteq> 0
                 then r\<lparr>rq_shared := rq_shared r - 1\<rparr>
                 else r\<lparr>rq_exclusive := rq_exclusive r - 1\<rparr>)
       in Inr (rq_nesting r AND 1 = 0, r'\<lparr>rq_nesting := drop_bit 1 (rq_nesting r)\<rparr>))"

section \<open>Request lists\<close>

text \<open>The linked list of requests is a HOL list; the counters are the source's.\<close>

record tRequestList =
  rl_requests :: "tRequest list"
  rl_shared :: u32
  rl_exclusive :: u32

definition tRequestList_new :: tRequestList where
  "tRequestList_new = \<lparr>rl_requests = [], rl_shared = 0, rl_exclusive = 0\<rparr>"

definition tRequestList_RemoveHead :: "tRequestList \<Rightarrow> tRequest option \<times> tRequestList" where
  "tRequestList_RemoveHead l =
     (case rl_requests l of
        [] \<Rightarrow> (None, l)
      | r # rs \<Rightarrow> (Some r, l\<lparr>rl_requests := rs,
                            rl_shared := rl_shared l - tRequest_CountShared r,
                            rl_exclusive := rl_exclusive l - tRequest_CountExclusive r\<rparr>))"

fun unlink_tid :: "nat \<Rightarrow> tRequest list \<Rightarrow> (tRequest \<times> tRequest list) option" where
  "unlink_tid t [] = None"
| "unlink_tid t (r # rs) =
     (if tRequest_GetTid r \<noteq> t
      then (case unlink_tid t rs of None \<Rightarrow> None | Some (r', rs') \<Rightarrow> Some (r', r # rs'))
      else Some (r, rs))"

definition tRequestList_Remove :: "nat \<Rightarrow> tRequestList \<Rightarrow> tRequest option \<times> tRequestList" where
  "tRequestList_Remove t l =
     (case unlink_tid t (rl_requests l) of
        None \<Rightarrow> (None, l)
      | Some (r, rs) \<Rightarrow> (Some r, l\<lparr>rl_requests := rs,
                                  rl_shared := rl_shared l - tRequest_CountShared r,
                                  rl_exclusive := rl_exclusive l - tRequest_CountExclusive r\<rparr>))"

definition tRequestList_AddAtHead :: "tRequest \<Rightarrow> tRequestList \<Rightarrow> tRequestList" where
  "tRequestList_AddAtHead r l =
     l\<lparr>rl_requests := r # rl_requests l,
       rl_shared := rl_shared l + tRequest_CountShared r,
       rl_exclusive := rl_exclusive l + tRequest_CountExclusive r\<rparr>"

definition tRequestList_AddAtTail :: "tRequest \<Rightarrow> tRequestList \<Rightarrow> tRequestList" where
  "tRequestList_AddAtTail r l =
     l\<lparr>rl_requests := rl_requests l @ [r],
       rl_shared := rl_shared l + tRequest_CountShared r,
       rl_exclusive := rl_exclusive l + tRequest_CountExclusive r\<rparr>"

definition tRequestList_Count :: "tRequestList \<Rightarrow> u32" where
  "tRequestList_Count l = rl_shared l + rl_exclusive l"

definition tRequestList_CountExclusive :: "tRequestList \<Rightarrow> u32" where
  "tRequestList_CountExclusive l = rl_exclusive l"

definition tRequestList_CountShared :: "tRequestList \<Rightarrow> u32" where
  "tRequestList_CountShared l = rl_shared l"

section \<open>A request is a stack of accesses\<close>

text \<open>
  The accesses of a request, innermost first; \<open>True\<close> is an exclusive one.  \<open>nesting\<close> holds a
  zero bit for an exclusive access; the bits above the number of accesses are whatever the memory
  held.
\<close>

definition req_stack :: "tRequest \<Rightarrow> bool list" where
  "req_stack r = map (\<lambda>i. \<not> bit (rq_nesting r) i) [0..<unat (rq_shared r) + unat (rq_exclusive r)]"

definition req_inv :: "tRequest \<Rightarrow> bool" where
  "req_inv r \<longleftrightarrow> unat (rq_shared r) + unat (rq_exclusive r) \<le> 32
     \<and> unat (rq_exclusive r) = length (filter id (req_stack r))"

definition req_count :: "tRequest \<Rightarrow> nat" where
  "req_count r = unat (rq_shared r) + unat (rq_exclusive r)"

lemma length_req_stack [simp]: "length (req_stack r) = req_count r"
  by (simp add: req_stack_def req_count_def)

lemma req_count_le: "req_inv r \<Longrightarrow> req_count r \<le> 32"
  by (simp add: req_inv_def req_count_def)

lemma unat_Count: "req_inv r \<Longrightarrow> unat (tRequest_Count r) = req_count r"
  by (simp add: tRequest_Count_def req_inv_def req_count_def unat_plus_small)

lemma req_inv_exclusive_iff: "req_inv r \<Longrightarrow> rq_exclusive r = 0 \<longleftrightarrow> True \<notin> set (req_stack r)"
  by (auto simp: req_inv_def unat_eq_0 [symmetric] filter_empty_conv)

lemma bit_nesting_shift:
  "bit (push_bit 1 n OR c) 0 = bit (c::u32) 0"
  "Suc i < 32 \<Longrightarrow> \<not> bit c (Suc i) \<Longrightarrow> bit (push_bit 1 n OR c) (Suc i) = bit (n::u32) i"
  unfolding bit_or_iff bit_push_bit_iff by auto

lemma upt_Suc_conv: "[0..<Suc n] = 0 # map Suc [0..<n]"
  by (simp add: map_Suc_upt upt_conv_Cons)

lemma stack_push:
  assumes "n < 32" and "\<And>i. \<not> bit (c::u32) (Suc i)"
  shows "map (\<lambda>i. \<not> bit (push_bit 1 m OR c) i) [0..<Suc n] = (\<not> bit c 0) # map (\<lambda>i. \<not> bit m i) [0..<n]"
proof -
  have "bit (push_bit 1 m OR c) (Suc i) = bit m i" if "i < n" for i
    using assms that by (intro bit_nesting_shift) simp_all
  then show ?thesis
    unfolding upt_Suc_conv list.map map_map o_def bit_nesting_shift(1) by (intro arg_cong2 [of _ _ _ _ Cons] refl map_cong) simp_all
qed

lemma stack_pop:
  "n < 32 \<Longrightarrow> map (\<lambda>i. \<not> bit (m::u32) i) [0..<Suc n] = (\<not> bit m 0) # map (\<lambda>i. \<not> bit (drop_bit 1 m) i) [0..<n]"
  unfolding upt_Suc_conv by (simp add: bit_drop_bit_eq)

lemma and_1_bit: "(m::u32) AND 1 = 0 \<longleftrightarrow> \<not> bit m 0"
  by (simp add: and_one_eq bit_0 even_iff_mod_2_eq_zero)

lemma unat_shared_exclusive_lt:
  "req_inv r \<Longrightarrow> rq_shared r + rq_exclusive r < 32 \<longleftrightarrow> req_count r < 32"
  using unat_Count [of r] by (simp add: word_less_nat_alt tRequest_Count_def)

lemma unat_inc: "unat (w::u32) < 100 \<Longrightarrow> unat (w + 1) = Suc (unat w)"
  by (simp add: unat_plus_small)

lemma req_stack_add:
  assumes "req_inv r" and "req_count r < 32"
  shows "req_stack (r\<lparr>rq_shared := rq_shared r + 1, rq_nesting := push_bit 1 (rq_nesting r) OR 1\<rparr>)
           = False # req_stack r" (is "req_stack ?s = _")
    and "req_stack (r\<lparr>rq_exclusive := rq_exclusive r + 1, rq_nesting := push_bit 1 (rq_nesting r) OR 0,
           rq_yieldedTo := y\<rparr>) = True # req_stack r" (is "req_stack ?x = _")
proof -
  have "unat (rq_shared r + 1) = Suc (unat (rq_shared r))" "unat (rq_exclusive r + 1) = Suc (unat (rq_exclusive r))"
    using assms by (simp_all add: unat_inc req_count_def)
  then show "req_stack ?s = False # req_stack r" "req_stack ?x = True # req_stack r"
    using assms(2) stack_push [of "req_count r" 1 "rq_nesting r"] stack_push [of "req_count r" 0 "rq_nesting r"]
    by (simp_all add: req_stack_def req_count_def bit_1_iff del: upt_Suc or.right_neutral)
qed

text \<open>\<open>Add\<close> pushes, \<open>RemoveLast\<close> pops.\<close>

lemma Add_kShared:
  assumes "req_inv r" and "req_count r < 32"
  shows "\<exists>r'. tRequest_Add kShared r = Inr r' \<and> req_stack r' = False # req_stack r \<and> req_inv r'
    \<and> rq_tid r' = rq_tid r \<and> rq_signal r' = rq_signal r \<and> rq_yieldedTo r' = rq_yieldedTo r
    \<and> req_count r' = Suc (req_count r) \<and> rq_exclusive r' = rq_exclusive r"
proof -
  let ?s = "r\<lparr>rq_shared := rq_shared r + 1, rq_nesting := push_bit 1 (rq_nesting r) OR 1\<rparr>"
  have st: "req_stack ?s = False # req_stack r" by (rule req_stack_add [OF assms])
  have "req_count ?s = Suc (req_count r)" using assms(2) by (simp add: req_count_def unat_inc)
  moreover have "req_inv ?s"
    using assms \<open>req_count ?s = _\<close> unfolding req_inv_def st by (simp add: req_count_def)
  ultimately show ?thesis
    using assms st by (intro exI [of _ ?s]) (simp add: tRequest_Add_def unat_shared_exclusive_lt)
qed

lemma Add_kExclusive:
  assumes "req_inv r" and "req_count r < 32" and "\<not> rq_yieldedTo r"
  shows "\<exists>r'. tRequest_Add kExclusive r = Inr r' \<and> req_stack r' = True # req_stack r \<and> req_inv r'
    \<and> rq_tid r' = rq_tid r \<and> rq_signal r' = rq_signal r \<and> \<not> rq_yieldedTo r'
    \<and> req_count r' = Suc (req_count r) \<and> rq_exclusive r' \<noteq> 0"
proof -
  let ?s = "r\<lparr>rq_exclusive := rq_exclusive r + 1, rq_nesting := push_bit 1 (rq_nesting r) OR 0,
              rq_yieldedTo := False\<rparr>"
  have st: "req_stack ?s = True # req_stack r" by (rule req_stack_add [OF assms(1,2)])
  have x: "unat (rq_exclusive r + 1) = Suc (unat (rq_exclusive r))"
    using assms(2) by (simp add: req_count_def unat_inc)
  then have cnt: "req_count ?s = Suc (req_count r)" by (simp add: req_count_def)
  then have inv: "req_inv ?s"
    using assms x unfolding req_inv_def st by (simp add: req_count_def)
  then have "rq_exclusive ?s \<noteq> 0" using x by (auto simp: unat_eq_0 [symmetric])
  then show ?thesis
    using assms st inv cnt
    by (intro exI [of _ ?s]) (simp add: tRequest_Add_def tRequest_AddExclusive_def unat_shared_exclusive_lt)
qed

lemma Add_full:
  assumes "req_inv r" and "req_count r = 32" and "\<not> rq_yieldedTo r"
  shows "tRequest_Add kShared r = Inl (Crash ''(shared + exclusive) < 32'')"
    and "tRequest_Add kExclusive r = Inl (Crash ''(shared + exclusive) < 32'')"
  using assms by (simp_all add: tRequest_Add_def tRequest_AddExclusive_def unat_shared_exclusive_lt)

lemma RemoveLast_pops:
  assumes "req_inv r" and "\<not> rq_yieldedTo r" and "req_stack r = b # bs"
  shows "\<exists>r'. tRequest_RemoveLast r = Inr (b, r') \<and> req_stack r' = bs \<and> req_inv r'
    \<and> rq_tid r' = rq_tid r \<and> rq_signal r' = rq_signal r \<and> \<not> rq_yieldedTo r' \<and> Suc (req_count r') = req_count r
    \<and> (rq_exclusive r = 0 \<longrightarrow> rq_exclusive r' = 0)"
proof -
  let ?r = "(if b then r\<lparr>rq_exclusive := rq_exclusive r - 1\<rparr> else r\<lparr>rq_shared := rq_shared r - 1\<rparr>)
              \<lparr>rq_nesting := drop_bit 1 (rq_nesting r)\<rparr>"
  from assms(3) have "length (b # bs) = req_count r" by (metis length_req_stack)
  then obtain n where n: "req_count r = Suc n" and len: "length bs = n" by simp
  then have "n < 32" using req_count_le [OF assms(1)] by simp
  then have "(\<not> bit (rq_nesting r) 0) # map (\<lambda>i. \<not> bit (drop_bit 1 (rq_nesting r)) i) [0..<n] = b # bs"
    using assms(3) n stack_pop [of n "rq_nesting r"] by (simp add: req_stack_def req_count_def del: upt_Suc)
  then have b: "b = (\<not> bit (rq_nesting r) 0)" and bs: "map (\<lambda>i. \<not> bit (drop_bit 1 (rq_nesting r)) i) [0..<n] = bs"
    by simp_all
  have ex: "unat (rq_exclusive r) = length (filter id (b # bs))"
    using assms(1,3) by (simp add: req_inv_def)
  have pos: "rq_exclusive r \<noteq> 0" if b using ex that by auto
  have spos: "rq_shared r \<noteq> 0" if "\<not> b"
  proof
    assume "rq_shared r = 0"
    with n that ex len show False using length_filter_le [of id bs] by (simp add: req_count_def)
  qed
  have cnt: "Suc (req_count ?r) = req_count r"
    using pos spos by (auto simp: req_count_def unat_minus_one unat_gt_0 dest!: unat_gt_0 [THEN iffD2])
  then have st: "req_stack ?r = bs"
    using bs n by (auto simp: req_stack_def req_count_def split: if_splits)
  have "unat (rq_exclusive ?r) = length (filter id bs)"
    using ex pos by (cases b) (auto simp: unat_minus_one)
  then have "req_inv ?r"
    using st cnt req_count_le [OF assms(1)] by (simp add: req_inv_def req_count_def)
  moreover have "tRequest_RemoveLast r = Inr (b, ?r)"
    using assms(2) b by (auto simp: tRequest_RemoveLast_def Let_def and_1_bit)
  ultimately show ?thesis
    using st cnt assms(2) pos by (intro exI [of _ ?r]) auto
qed

lemma req_inv_fresh:
  "req_inv (mem\<lparr>rq_tid := t, rq_shared := 0, rq_exclusive := 0, rq_yieldedTo := y\<rparr>)"
  "req_count (mem\<lparr>rq_tid := t, rq_shared := 0, rq_exclusive := 0, rq_yieldedTo := y\<rparr>) = 0"
  "req_stack (mem\<lparr>rq_tid := t, rq_shared := 0, rq_exclusive := 0, rq_yieldedTo := y\<rparr>) = []"
  by (simp_all add: req_inv_def req_count_def req_stack_def)

section \<open>Counted lists\<close>

definition rl_inv :: "tRequestList \<Rightarrow> bool" where
  "rl_inv l \<longleftrightarrow> rl_shared l = sum_list (map rq_shared (rl_requests l))
     \<and> rl_exclusive l = sum_list (map rq_exclusive (rl_requests l))"

abbreviation rl_tids :: "tRequestList \<Rightarrow> nat list" where
  "rl_tids l \<equiv> map rq_tid (rl_requests l)"

lemma unlink_tid_None: "unlink_tid t rs = None \<longleftrightarrow> t \<notin> rq_tid ` set rs"
  by (induction rs) (auto simp: tRequest_GetTid_def split: option.splits)

lemma unlink_tid_Some:
  "unlink_tid t rs = Some (r, rs') \<Longrightarrow>
     \<exists>xs ys. rs = xs @ r # ys \<and> rs' = xs @ ys \<and> rq_tid r = t \<and> t \<notin> rq_tid ` set xs"
proof (induction rs arbitrary: rs')
  case Nil
  then show ?case by simp
next
  case (Cons a rs)
  show ?case
  proof (cases "rq_tid a = t")
    case True
    with Cons.prems show ?thesis by (intro exI [of _ "[]"] exI [of _ rs]) (auto simp: tRequest_GetTid_def)
  next
    case False
    with Cons.prems obtain rs1 where "unlink_tid t rs = Some (r, rs1)" and rs': "rs' = a # rs1"
      by (auto simp: tRequest_GetTid_def split: option.splits)
    with Cons.IH obtain xs ys where "rs = xs @ r # ys" "rs1 = xs @ ys" "rq_tid r = t" "t \<notin> rq_tid ` set xs"
      by blast
    with False rs' show ?thesis by (intro exI [of _ "a # xs"] exI [of _ ys]) auto
  qed
qed

lemma Remove_None_iff:
  "fst (tRequestList_Remove t l) = None \<longleftrightarrow> t \<notin> set (rl_tids l)"
  using unlink_tid_None [of t "rl_requests l"]
  by (auto simp: tRequestList_Remove_def split: option.splits)

lemma Remove_NoneD: "tRequestList_Remove t l = (None, l') \<Longrightarrow> l' = l \<and> t \<notin> set (rl_tids l)"
  using Remove_None_iff [of t l] by (auto simp: tRequestList_Remove_def split: option.splits)

lemma Remove_SomeD:
  assumes "tRequestList_Remove t l = (Some r, l')" and "rl_inv l"
  obtains xs ys where "rl_requests l = xs @ r # ys" and "rl_requests l' = xs @ ys" and "rq_tid r = t"
    and "rl_inv l'"
proof -
  from assms(1) obtain rs where u: "unlink_tid t (rl_requests l) = Some (r, rs)" and
    l': "l' = l\<lparr>rl_requests := rs, rl_shared := rl_shared l - rq_shared r, rl_exclusive := rl_exclusive l - rq_exclusive r\<rparr>"
    by (auto simp: tRequestList_Remove_def tRequest_CountShared_def tRequest_CountExclusive_def split: option.splits)
  from unlink_tid_Some [OF u] obtain xs ys where "rl_requests l = xs @ r # ys" "rs = xs @ ys" "rq_tid r = t"
    by blast
  with l' assms(2) show ?thesis by (intro that [of xs ys]) (auto simp: rl_inv_def)
qed

lemma RemoveHead_simps:
  "rl_requests l = [] \<Longrightarrow> tRequestList_RemoveHead l = (None, l)"
  "rl_requests l = r # rs \<Longrightarrow> rl_inv l \<Longrightarrow>
     \<exists>l'. tRequestList_RemoveHead l = (Some r, l') \<and> rl_requests l' = rs \<and> rl_inv l'"
  by (auto simp: tRequestList_RemoveHead_def rl_inv_def tRequest_CountShared_def tRequest_CountExclusive_def)

lemma AddAtHead_simps [simp]:
  "rl_requests (tRequestList_AddAtHead r l) = r # rl_requests l"
  "rl_inv l \<Longrightarrow> rl_inv (tRequestList_AddAtHead r l)"
  by (simp_all add: tRequestList_AddAtHead_def rl_inv_def tRequest_CountShared_def tRequest_CountExclusive_def add.commute)

lemma AddAtTail_simps [simp]:
  "rl_requests (tRequestList_AddAtTail r l) = rl_requests l @ [r]"
  "rl_inv l \<Longrightarrow> rl_inv (tRequestList_AddAtTail r l)"
  by (simp_all add: tRequestList_AddAtTail_def rl_inv_def tRequest_CountShared_def tRequest_CountExclusive_def)

lemma rl_new [simp]: "rl_inv tRequestList_new" "rl_requests tRequestList_new = []"
  by (simp_all add: rl_inv_def tRequestList_new_def)

text \<open>
  The counters are 32-bit sums.  They are zero exactly when every request contributes zero, as
  long as the list holds fewer than \<open>2 ^ 26\<close> requests of at most 32 accesses each.
\<close>

lemma unat_rl_exclusive:
  assumes "rl_inv l" and "\<forall>r\<in>set (rl_requests l). req_inv r" and "length (rl_requests l) < 2 ^ 26"
  shows "unat (rl_exclusive l) = sum_list (map (\<lambda>r. unat (rq_exclusive r)) (rl_requests l))"
proof -
  have "sum_list (map (\<lambda>r. unat (rq_exclusive r)) (rl_requests l)) \<le> length (rl_requests l) * 32"
    using assms(2) by (intro sum_list_bounded_nat) (auto simp: req_inv_def)
  with assms(3) show ?thesis
    using assms(1) by (simp add: rl_inv_def unat_sum_list_words)
qed

lemma unat_rl_shared:
  assumes "rl_inv l" and "\<forall>r\<in>set (rl_requests l). req_inv r" and "length (rl_requests l) < 2 ^ 26"
  shows "unat (rl_shared l) = sum_list (map (\<lambda>r. unat (rq_shared r)) (rl_requests l))"
proof -
  have "sum_list (map (\<lambda>r. unat (rq_shared r)) (rl_requests l)) \<le> length (rl_requests l) * 32"
    using assms(2) by (intro sum_list_bounded_nat) (auto simp: req_inv_def)
  with assms(3) show ?thesis
    using assms(1) by (simp add: rl_inv_def unat_sum_list_words)
qed

lemma unat_rl_Count:
  assumes "rl_inv l" and "\<forall>r\<in>set (rl_requests l). req_inv r" and "length (rl_requests l) < 2 ^ 26"
  shows "unat (tRequestList_Count l) = sum_list (map req_count (rl_requests l))"
proof -
  have eq: "unat (rl_shared l) + unat (rl_exclusive l) = sum_list (map req_count (rl_requests l))"
    by (simp add: unat_rl_shared [OF assms] unat_rl_exclusive [OF assms] req_count_def [abs_def] sum_list_addf)
  have "sum_list (map req_count (rl_requests l)) \<le> length (rl_requests l) * 32"
    using assms(2) by (intro sum_list_bounded_nat) (auto simp: req_count_le)
  moreover have "length (rl_requests l) * 32 < 2 ^ 32" using assms(3) by simp
  ultimately have "unat (rl_shared l) + unat (rl_exclusive l) < 2 ^ 32" using eq by linarith
  with eq show ?thesis by (simp add: tRequestList_Count_def unat_plus_small)
qed

lemma rl_exclusive_zero_iff:
  assumes "rl_inv l" and "\<forall>r\<in>set (rl_requests l). req_inv r" and "length (rl_requests l) < 2 ^ 26"
  shows "rl_exclusive l = 0 \<longleftrightarrow> (\<forall>r\<in>set (rl_requests l). rq_exclusive r = 0)"
proof -
  have "rl_exclusive l = 0 \<longleftrightarrow> unat (rl_exclusive l) = 0" by (simp add: unat_eq_0)
  then show ?thesis
    by (simp add: unat_rl_exclusive [OF assms] sum_list_map_eq_0_nat unat_eq_0)
qed

lemma rl_Count_zero_iff:
  assumes "rl_inv l" and "\<forall>r\<in>set (rl_requests l). req_inv r \<and> 0 < req_count r"
    and "length (rl_requests l) < 2 ^ 26"
  shows "tRequestList_Count l = 0 \<longleftrightarrow> rl_requests l = []"
proof -
  have "tRequestList_Count l = 0 \<longleftrightarrow> unat (tRequestList_Count l) = 0" by (simp add: unat_eq_0)
  also have "\<dots> \<longleftrightarrow> (\<forall>r\<in>set (rl_requests l). req_count r = 0)"
    using assms by (simp add: unat_rl_Count sum_list_map_eq_0_nat)
  also have "\<dots> \<longleftrightarrow> rl_requests l = []"
    using assms(2) by (cases "rl_requests l") auto
  finally show ?thesis .
qed

end
