(* ===== verification/AccessManager.thy ===== *)
theory AccessManager
  imports AccessRequest
begin

text \<open>
  The access manager of \<^verbatim>\<open>core/api/tAccessManager.h\<close>: the lock that guards every session.
  It grants shared and exclusive accesses that nest, lets a thread suspend its accesses while it
  blocks, and counts references.  Every operation below runs under \<open>criticalSection\<close>; where the
  source leaves it to wait for a signal, the operation reports that the thread blocks, and
  \<open>WakeUp\<close> is the code that runs once the signal has come.
\<close>

section \<open>State\<close>

definition kHighPriority :: u32 where "kHighPriority = 1"
definition kDifferentThread :: u32 where "kDifferentThread = 2"
definition kInitialNumberOfRequestsInAccessManager :: nat where
  "kInitialNumberOfRequestsInAccessManager = 32"
definition kMaxNestLevel :: nat where "kMaxNestLevel = 32"

record tAccessManager =
  refcount :: u32
  activeRequests :: tRequestList
  pendingRequests :: tRequestList
  suspendedRequests :: tRequestList
  emptyRequests :: tRequestList
  allRefsReleased :: tEvent

section \<open>Allocation of requests\<close>

text \<open>\<open>MakeNewRequest\<close> initialises the signal of fresh memory, whose other contents are arbitrary.\<close>

definition MakeNewRequest :: "tRequest \<Rightarrow> tRequest" where
  "MakeNewRequest memory = tRequest_InitSignal memory"

definition tRequest_operator_new :: "tRequest \<Rightarrow> tAccessManager \<Rightarrow> tRequest \<times> tAccessManager" where
  "tRequest_operator_new memory m =
     (case tRequestList_RemoveHead (emptyRequests m) of
        (Some r, l) \<Rightarrow> (r, m\<lparr>emptyRequests := l\<rparr>)
      | (None, l) \<Rightarrow> (MakeNewRequest memory, m\<lparr>emptyRequests := l\<rparr>))"

definition tRequest_operator_delete :: "tRequest \<Rightarrow> tAccessManager \<Rightarrow> tAccessManager" where
  "tRequest_operator_delete r m = m\<lparr>emptyRequests := tRequestList_AddAtHead r (emptyRequests m)\<rparr>"

definition tAccessManager_new :: "(nat \<Rightarrow> tRequest) \<Rightarrow> tAccessManager" where
  "tAccessManager_new memory =
     foldl (\<lambda>m i. m\<lparr>emptyRequests := tRequestList_AddAtHead (MakeNewRequest (memory i)) (emptyRequests m)\<rparr>)
       \<lparr>refcount = 0, activeRequests = tRequestList_new, pendingRequests = tRequestList_new,
        suspendedRequests = tRequestList_new, emptyRequests = tRequestList_new,
        allRefsReleased = tEvent_new False True\<rparr>
       [0..<kInitialNumberOfRequestsInAccessManager]"

section \<open>Reference count\<close>

definition IncRef :: "tAccessManager \<Rightarrow> tAccessManager" where
  "IncRef m =
     (let m' = m\<lparr>refcount := refcount m + 1\<rparr>
      in if refcount m' = 1 then m'\<lparr>allRefsReleased := tEvent_reset (allRefsReleased m')\<rparr> else m')"

definition DecRef :: "tAccessManager \<Rightarrow> exn + tAccessManager" where
  "DecRef m =
     bind_res (cpp_assert ''refcount != 0'' (refcount m \<noteq> 0)) (\<lambda>_.
       let m' = m\<lparr>refcount := refcount m - 1\<rparr>
       in Inr (if refcount m' = 0 then m'\<lparr>allRefsReleased := tEvent_release (allRefsReleased m')\<rparr> else m'))"

definition WaitForAllReferencesToBeReleasedWithTimeout ::
  "int \<Rightarrow> (bool \<times> tEvent) list \<Rightarrow> tAccessManager \<Rightarrow> (exn + tEvent) option" where
  "WaitForAllReferencesToBeReleasedWithTimeout timeout wakes m =
     tEvent_acquireWithTimeout timeout wakes (allRefsReleased m)"

definition WaitForAllReferencesToBeReleased ::
  "(bool \<times> tEvent) list \<Rightarrow> tAccessManager \<Rightarrow> (exn + tEvent) option" where
  "WaitForAllReferencesToBeReleased wakes m = WaitForAllReferencesToBeReleasedWithTimeout (-1) wakes m"

section \<open>Granting requests\<close>

definition canBeSatisfied :: "tRequest \<Rightarrow> u32 \<Rightarrow> tAccessManager \<Rightarrow> bool" where
  "canBeSatisfied request flags m \<longleftrightarrow>
     \<not> (\<not> (flags AND kHighPriority \<noteq> 0) \<and> tRequestList_Count (pendingRequests m) \<noteq> 0)
     \<and> \<not> (tRequestList_CountExclusive (activeRequests m) \<noteq> 0)
     \<and> \<not> (tRequest_CountExclusive request \<noteq> 0 \<and> tRequestList_Count (activeRequests m) \<noteq> 0)"

lemma satisfy_flags [simp]:
  "(kHighPriority OR kDifferentThread) AND kHighPriority \<noteq> 0"
  "(kHighPriority OR kDifferentThread) AND kDifferentThread \<noteq> 0"
  "kHighPriority AND kHighPriority \<noteq> 0"
  "kHighPriority AND kDifferentThread = 0"
  "kHighPriority \<noteq> 0" "kDifferentThread \<noteq> 0"
  by (simp_all add: kHighPriority_def kDifferentThread_def)

text \<open>
  The result says whether the calling thread has to wait for the signal of its request.
\<close>

function SatisfyRequest :: "tRequest option \<Rightarrow> u32 \<Rightarrow> tAccessManager \<Rightarrow> bool \<times> tAccessManager" where
  "SatisfyRequest None flags m = (False, m)"
| "SatisfyRequest (Some request) flags m =
     (if \<not> canBeSatisfied request flags m then
        let m1 = (if flags AND kHighPriority \<noteq> 0
                  then m\<lparr>pendingRequests := tRequestList_AddAtHead request (pendingRequests m)\<rparr>
                  else (case tRequestList_RemoveHead (pendingRequests m) of
                          (h, l) \<Rightarrow>
                            (case SatisfyRequest h (kHighPriority OR kDifferentThread) (m\<lparr>pendingRequests := l\<rparr>) of
                               (_, m') \<Rightarrow> m'\<lparr>pendingRequests := tRequestList_AddAtTail request (pendingRequests m')\<rparr>)))
        in (\<not> flags AND kDifferentThread \<noteq> 0, m1)
      else if flags AND kDifferentThread \<noteq> 0
        then (False, m\<lparr>activeRequests := tRequestList_AddAtHead (tRequest_Signal request) (activeRequests m)\<rparr>)
        else (False, m\<lparr>activeRequests := tRequestList_AddAtHead request (activeRequests m)\<rparr>))"
  by pat_completeness auto
termination
  by (relation "measure (\<lambda>(r, f, m). if f AND kHighPriority \<noteq> 0 then 0 else 1)") auto

declare SatisfyRequest.simps(2) [simp del]

text \<open>\<open>SatisfyRequest(pendingRequests.RemoveHead(), kHighPriority | kDifferentThread)\<close>.\<close>

definition SatisfyPending :: "tAccessManager \<Rightarrow> tAccessManager" where
  "SatisfyPending m =
     (case tRequestList_RemoveHead (pendingRequests m) of
        (h, l) \<Rightarrow> snd (SatisfyRequest h (kHighPriority OR kDifferentThread) (m\<lparr>pendingRequests := l\<rparr>)))"

text \<open>
  The rest of \<open>SatisfyRequest\<close> after a wait: \<open>WaitForSignal\<close> consumes the signal of the
  thread's own request, which the granting thread has put on the active list; then the next
  pending request is tried.
\<close>

definition consume_signal :: "nat \<Rightarrow> tRequest \<Rightarrow> tRequest" where
  "consume_signal t r =
     (if rq_tid r = t \<and> ev_autoReset (rq_signal r)
      then r\<lparr>rq_signal := (rq_signal r)\<lparr>ev_signalled := False\<rparr>\<rparr> else r)"

definition WakeUp :: "nat \<Rightarrow> tAccessManager \<Rightarrow> tAccessManager" where
  "WakeUp ourTid m =
     SatisfyPending (m\<lparr>activeRequests := (activeRequests m)
       \<lparr>rl_requests := map (consume_signal ourTid) (rl_requests (activeRequests m))\<rparr>\<rparr>)"

definition signal_arrived :: "nat \<Rightarrow> tAccessManager \<Rightarrow> bool" where
  "signal_arrived ourTid m \<longleftrightarrow>
     (\<exists>r\<in>set (rl_requests (activeRequests m)). rq_tid r = ourTid \<and> ev_signalled (rq_signal r))"

section \<open>Operations\<close>

text \<open>In a build without \<open>_DEBUG\<close>, \<open>DebugAssertActive\<close> is empty; this is the condition it checks.\<close>

definition DebugAssertActive :: "nat \<Rightarrow> tAccessManager \<Rightarrow> bool" where
  "DebugAssertActive t m \<longleftrightarrow> fst (tRequestList_Remove t (activeRequests m)) \<noteq> None"

definition GetSharedAccess :: "tRequest \<Rightarrow> nat \<Rightarrow> tAccessManager \<Rightarrow> exn + bool \<times> tAccessManager" where
  "GetSharedAccess memory ourTid m =
     (case tRequestList_Remove ourTid (activeRequests m) of
        (Some ourRequest, l) \<Rightarrow>
          bind_res (tRequest_Add kShared ourRequest)
            (\<lambda>r. Inr (False, m\<lparr>activeRequests := tRequestList_AddAtHead r l\<rparr>))
      | (None, l) \<Rightarrow>
          (case tRequest_operator_new memory m of
             (mem, m1) \<Rightarrow> bind_res (tRequest_ctor ourTid kShared mem)
                (\<lambda>r. Inr (SatisfyRequest (Some r) 0 m1))))"

definition GetExclusiveAccess :: "tRequest \<Rightarrow> nat \<Rightarrow> tAccessManager \<Rightarrow> exn + bool \<times> tAccessManager" where
  "GetExclusiveAccess memory ourTid m =
     (case tRequestList_Remove ourTid (activeRequests m) of
        (Some ourRequest, l) \<Rightarrow>
          if tRequest_CountExclusive ourRequest \<noteq> 0
          then bind_res (tRequest_Add kExclusive ourRequest)
                 (\<lambda>r. Inr (False, m\<lparr>activeRequests := tRequestList_AddAtHead r l\<rparr>))
          else bind_res (tRequest_Add kExclusive ourRequest)
                 (\<lambda>r. Inr (SatisfyRequest (Some r) 0 (m\<lparr>activeRequests := l\<rparr>)))
      | (None, l) \<Rightarrow>
          (case tRequest_operator_new memory m of
             (mem, m1) \<Rightarrow> bind_res (tRequest_ctor ourTid kExclusive mem)
                (\<lambda>r. Inr (SatisfyRequest (Some r) 0 m1))))"

definition Acquire :: "tRequest \<Rightarrow> nat \<Rightarrow> bool \<Rightarrow> tAccessManager \<Rightarrow> exn + bool \<times> tAccessManager" where
  "Acquire memory ourTid exclusive m =
     (let m = IncRef m in
      if exclusive then GetExclusiveAccess memory ourTid m else GetSharedAccess memory ourTid m)"

definition Release :: "nat \<Rightarrow> tAccessManager \<Rightarrow> exn + bool \<times> tAccessManager" where
  "Release ourTid m =
     (case tRequestList_Remove ourTid (activeRequests m) of
        (None, l) \<Rightarrow> Inl (Crash ''ourRequest is null'')
      | (Some ourRequest, l) \<Rightarrow>
          bind_res (tRequest_RemoveLast ourRequest) (\<lambda>(exclusive, r).
            let m1 = (if tRequest_Count r \<noteq> 0
                      then m\<lparr>activeRequests := tRequestList_AddAtHead r l\<rparr>
                      else tRequest_operator_delete r (m\<lparr>activeRequests := l\<rparr>))
            in bind_res (DecRef (SatisfyPending m1)) (\<lambda>m2. Inr (exclusive, m2))))"

definition SuspendAccess :: "nat \<Rightarrow> tAccessManager \<Rightarrow> exn + tAccessManager" where
  "SuspendAccess ourTid m =
     (case tRequestList_Remove ourTid (activeRequests m) of
        (None, l) \<Rightarrow> Inl (Crash ''ourRequest is null'')
      | (Some ourRequest, l) \<Rightarrow>
          bind_res (if tRequest_CountExclusive ourRequest \<noteq> 0
                    then bind_res (tRequest_Add kExclusive ourRequest)
                           (\<lambda>r. bind_res (tRequest_RemoveLast r) (\<lambda>(_, r'). Inr r'))
                    else Inr ourRequest)
            (\<lambda>r. Inr (SatisfyPending (m\<lparr>activeRequests := l,
                        suspendedRequests := tRequestList_AddAtHead r (suspendedRequests m)\<rparr>))))"

definition ResumeAccess :: "nat \<Rightarrow> tAccessManager \<Rightarrow> bool \<times> tAccessManager" where
  "ResumeAccess ourTid m =
     (case tRequestList_Remove ourTid (suspendedRequests m) of
        (Some ourRequest, l) \<Rightarrow> SatisfyRequest (Some ourRequest) 0 (m\<lparr>suspendedRequests := l\<rparr>)
      | (None, l) \<Rightarrow> (False, m))"

definition ReleaseAndReacquireAtEnd :: "nat \<Rightarrow> tAccessManager \<Rightarrow> bool \<times> tAccessManager" where
  "ReleaseAndReacquireAtEnd ourTid m =
     (if tRequestList_Count (pendingRequests m) = 0 then (False, m)
      else (case tRequestList_Remove ourTid (activeRequests m) of
              (ourRequest, l) \<Rightarrow> SatisfyRequest ourRequest 0 (m\<lparr>activeRequests := l\<rparr>)))"

definition YieldExclusive :: "tRequest \<Rightarrow> nat \<Rightarrow> nat \<Rightarrow> tAccessManager \<Rightarrow> exn + bool \<times> tAccessManager" where
  "YieldExclusive memory ourTid yieldTid m =
     (case tRequestList_Remove ourTid (activeRequests m) of
        (None, _) \<Rightarrow> Inl (Crash ''ourRequest && ourRequest->CountExclusive()'')
      | (Some ourRequest, act) \<Rightarrow>
          bind_res (cpp_assert ''ourRequest && ourRequest->CountExclusive()''
                      (tRequest_CountExclusive ourRequest \<noteq> 0)) (\<lambda>_.
            let m1 = m\<lparr>activeRequests := act\<rparr> in
            bind_res
              (case tRequestList_Remove yieldTid (pendingRequests m1) of
                 (Some r, pend) \<Rightarrow>
                   bind_res (tRequest_Add kYieldedTo r) (\<lambda>r'.
                     Inr (snd (SatisfyRequest (Some r') (kDifferentThread OR kHighPriority)
                                 (m1\<lparr>pendingRequests := pend\<rparr>))))
               | (None, _) \<Rightarrow>
                   (case tRequestList_Remove yieldTid (suspendedRequests m1) of
                      (Some r, susp) \<Rightarrow>
                        bind_res (if tRequest_CountExclusive r = 0 then tRequest_Add kYieldedTo r else Inr r)
                          (\<lambda>r'. Inr (m1\<lparr>suspendedRequests := susp,
                                        activeRequests := tRequestList_AddAtHead r' (activeRequests m1)\<rparr>))
                    | (None, _) \<Rightarrow>
                        (case tRequest_operator_new memory m1 of
                           (mem, m2) \<Rightarrow> bind_res (tRequest_ctor yieldTid kYieldedTo mem) (\<lambda>r'.
                             Inr (m2\<lparr>activeRequests := tRequestList_AddAtHead r' (activeRequests m2)\<rparr>)))))
              (\<lambda>m3. Inr (SatisfyRequest (Some ourRequest) kHighPriority m3))))"

text \<open>\<open>HasExclusiveAccess\<close> and \<open>HasSharedAccess\<close> move the caller's request to the head of the list.\<close>

definition HasExclusiveAccess :: "nat \<Rightarrow> tAccessManager \<Rightarrow> bool \<times> tAccessManager" where
  "HasExclusiveAccess ourTid m =
     (case tRequestList_Remove ourTid (activeRequests m) of
        (None, l) \<Rightarrow> (False, m)
      | (Some request, l) \<Rightarrow>
          let m' = m\<lparr>activeRequests := tRequestList_AddAtHead request l\<rparr>
          in (tRequestList_CountExclusive (activeRequests m') > 0, m'))"

definition HasSharedAccess :: "nat \<Rightarrow> tAccessManager \<Rightarrow> bool \<times> tAccessManager" where
  "HasSharedAccess ourTid m =
     (case tRequestList_Remove ourTid (activeRequests m) of
        (None, l) \<Rightarrow> (False, m)
      | (Some request, l) \<Rightarrow>
          let m' = m\<lparr>activeRequests := tRequestList_AddAtHead request l\<rparr>
          in (tRequestList_CountExclusive (activeRequests m') = 0
              \<and> tRequestList_CountShared (activeRequests m') > 0, m'))"

text \<open>
  \<open>ReleaseAll\<close>: the loop stops the process when the stack is full, so it runs at most
  \<open>kMaxNestLevel\<close> times.
\<close>

function ReleaseAll_loop :: "nat \<Rightarrow> bool list \<Rightarrow> tAccessManager \<Rightarrow> exn + bool list \<times> tAccessManager" where
  "ReleaseAll_loop ourTid accessStack m =
     (case HasExclusiveAccess ourTid m of (ex, m1) \<Rightarrow>
        case (if ex then (True, m1) else HasSharedAccess ourTid m1) of (has, m2) \<Rightarrow>
          if has then
            (if length accessStack < kMaxNestLevel then
               (case Release ourTid m2 of
                  Inl e \<Rightarrow> Inl e
                | Inr (exclusive, m3) \<Rightarrow> ReleaseAll_loop ourTid (accessStack @ [exclusive]) m3)
             else Inl (Crash ''accessStack.size < sizeof(accessStack.val)''))
          else Inr (accessStack, m2))"
  by pat_completeness auto
termination
  by (relation "measure (\<lambda>(t, s, m). kMaxNestLevel - length s)") auto

declare ReleaseAll_loop.simps [simp del]

definition ReleaseAll :: "nat \<Rightarrow> tAccessManager \<Rightarrow> exn + bool list \<times> tAccessManager" where
  "ReleaseAll ourTid m = ReleaseAll_loop ourTid [] m"

text \<open>
  \<open>AcquireAll\<close> goes through the stack from its last entry to its first.  When an acquisition has
  to wait, the result is \<open>True\<close> with the accesses that remain to be acquired after the wait.
\<close>

fun AcquireAll_loop :: "tRequest \<Rightarrow> nat \<Rightarrow> bool list \<Rightarrow> tAccessManager \<Rightarrow> exn + bool \<times> bool list \<times> tAccessManager" where
  "AcquireAll_loop memory ourTid [] m = Inr (False, [], m)"
| "AcquireAll_loop memory ourTid (x # xs) m =
     bind_res (Acquire memory ourTid x m) (\<lambda>(blocked, m').
       if blocked then Inr (True, xs, m') else AcquireAll_loop memory ourTid xs m')"

definition AcquireAll :: "tRequest \<Rightarrow> nat \<Rightarrow> bool list \<Rightarrow> tAccessManager \<Rightarrow> exn + bool \<times> bool list \<times> tAccessManager" where
  "AcquireAll memory ourTid accessStack m =
     bind_res (cpp_assert ''accessStack.size > 0'' (0 < length accessStack)) (\<lambda>_.
     bind_res (cpp_assert ''accessStack.size <= kMaxNestLevel'' (length accessStack \<le> kMaxNestLevel)) (\<lambda>_.
       AcquireAll_loop memory ourTid (rev accessStack) m))"

definition DebugGetRefCount :: "tAccessManager \<Rightarrow> u32" where
  "DebugGetRefCount m = refcount m"

definition DebugGetActiveCount :: "tAccessManager \<Rightarrow> u32" where
  "DebugGetActiveCount m = tRequestList_Count (activeRequests m)"

definition DebugGetActiveSharedCount :: "tAccessManager \<Rightarrow> u32" where
  "DebugGetActiveSharedCount m = tRequestList_CountShared (activeRequests m)"

definition DebugGetActiveExclusiveCount :: "tAccessManager \<Rightarrow> u32" where
  "DebugGetActiveExclusiveCount m = tRequestList_CountExclusive (activeRequests m)"

text \<open>The destructor's assertions: no request is active, pending or suspended.\<close>

definition tAccessManager_dtor :: "tAccessManager \<Rightarrow> exn + unit" where
  "tAccessManager_dtor m =
     bind_res (cpp_assert ''activeRequests.RemoveHead() == NULL'' (rl_requests (activeRequests m) = [])) (\<lambda>_.
     bind_res (cpp_assert ''pendingRequests.RemoveHead() == NULL'' (rl_requests (pendingRequests m) = [])) (\<lambda>_.
       cpp_assert ''suspendedRequests.RemoveHead() == NULL'' (rl_requests (suspendedRequests m) = [])))"

end
