(* ===== verification/AccessSystem.thy ===== *)
theory AccessSystem
  imports AccessManager
begin

text \<open>
  The access manager under concurrency.  A system state is the manager with the set of threads
  that wait for a signal; a step is one critical section run by one thread, in any order the
  scheduler chooses.  The invariant gives mutual exclusion, exact counters and the absence of
  lost wake-ups in every reachable state.
\<close>

section \<open>Steps\<close>

record access_system =
  as_manager :: tAccessManager
  as_blocked :: "nat set"

text \<open>The number of threads of a process is below the kernel's limit \<open>PID_MAX_LIMIT\<close>.\<close>

definition max_threads :: nat where
  "max_threads = 2 ^ 22"

definition block_if :: "bool \<Rightarrow> nat \<Rightarrow> nat set \<Rightarrow> nat set" where
  "block_if b t B = (if b then insert t B else B)"

inductive access_step :: "access_system \<Rightarrow> access_system \<Rightarrow> bool" where
  step_acquire: "t \<notin> as_blocked s \<Longrightarrow> t < max_threads \<Longrightarrow>
     t \<notin> set (rl_tids (suspendedRequests (as_manager s))) \<Longrightarrow>
     Acquire memory t exclusive (as_manager s) = Inr (b, m') \<Longrightarrow>
     access_step s \<lparr>as_manager = m', as_blocked = block_if b t (as_blocked s)\<rparr>"
| step_release: "t \<notin> as_blocked s \<Longrightarrow> Release t (as_manager s) = Inr (x, m') \<Longrightarrow>
     access_step s (s\<lparr>as_manager := m'\<rparr>)"
| step_suspend: "t \<notin> as_blocked s \<Longrightarrow> SuspendAccess t (as_manager s) = Inr m' \<Longrightarrow>
     access_step s (s\<lparr>as_manager := m'\<rparr>)"
| step_resume: "t \<notin> as_blocked s \<Longrightarrow> ResumeAccess t (as_manager s) = (b, m') \<Longrightarrow>
     access_step s \<lparr>as_manager = m', as_blocked = block_if b t (as_blocked s)\<rparr>"
| step_reacquire: "t \<notin> as_blocked s \<Longrightarrow> DebugAssertActive t (as_manager s) \<Longrightarrow>
     ReleaseAndReacquireAtEnd t (as_manager s) = (b, m') \<Longrightarrow>
     access_step s \<lparr>as_manager = m', as_blocked = block_if b t (as_blocked s)\<rparr>"
| step_query_exclusive: "HasExclusiveAccess t (as_manager s) = (x, m') \<Longrightarrow>
     access_step s (s\<lparr>as_manager := m'\<rparr>)"
| step_query_shared: "HasSharedAccess t (as_manager s) = (x, m') \<Longrightarrow>
     access_step s (s\<lparr>as_manager := m'\<rparr>)"
| step_wake: "t \<in> as_blocked s \<Longrightarrow> signal_arrived t (as_manager s) \<Longrightarrow>
     access_step s \<lparr>as_manager = WakeUp t (as_manager s), as_blocked = as_blocked s - {t}\<rparr>"

inductive access_reachable :: "access_system \<Rightarrow> bool" where
  reach_init: "access_reachable \<lparr>as_manager = tAccessManager_new memory, as_blocked = {}\<rparr>"
| reach_step: "access_reachable s \<Longrightarrow> access_step s s' \<Longrightarrow> access_reachable s'"

section \<open>The invariant on lists of requests\<close>

abbreviation signalled :: "tRequest \<Rightarrow> bool" where
  "signalled r \<equiv> ev_signalled (rq_signal r)"

definition good_request :: "tRequest \<Rightarrow> bool" where
  "good_request r \<longleftrightarrow> req_inv r \<and> 0 < req_count r \<and> \<not> rq_yieldedTo r
     \<and> ev_autoReset (rq_signal r) \<and> rq_tid r < max_threads"

definition exclusion :: "tRequest list \<Rightarrow> bool" where
  "exclusion A \<longleftrightarrow> (\<forall>r\<in>set A. rq_exclusive r \<noteq> 0 \<longrightarrow> length A = 1)"

definition acc_inv :: "tRequest list \<Rightarrow> tRequest list \<Rightarrow> tRequest list \<Rightarrow> nat set \<Rightarrow> bool" where
  "acc_inv A P S B \<longleftrightarrow>
     (\<forall>r\<in>set (A @ P @ S). good_request r) \<and> distinct (map rq_tid (A @ P @ S)) \<and> exclusion A
     \<and> (\<forall>r\<in>set A. signalled r \<longleftrightarrow> rq_tid r \<in> B)
     \<and> (\<forall>r\<in>set P. \<not> signalled r \<and> rq_tid r \<in> B)
     \<and> (\<forall>r\<in>set S. \<not> signalled r \<and> rq_tid r \<notin> B)
     \<and> B \<subseteq> rq_tid ` (set A \<union> set P)"

text \<open>The request at the head of the pending list could run now.\<close>

definition grantable :: "tRequest \<Rightarrow> tRequest list \<Rightarrow> bool" where
  "grantable r A \<longleftrightarrow> (\<forall>a\<in>set A. rq_exclusive a = 0) \<and> (rq_exclusive r \<noteq> 0 \<longrightarrow> A = [])"

text \<open>Nobody waits in vain: the head of the queue cannot run, or a wake-up is on its way.\<close>

definition no_lost_wakeup :: "tRequest list \<Rightarrow> tRequest list \<Rightarrow> bool" where
  "no_lost_wakeup A P \<longleftrightarrow> (P \<noteq> [] \<longrightarrow> (\<exists>r\<in>set A. signalled r) \<or> \<not> grantable (hd P) A)"

definition grant :: "tRequest list \<Rightarrow> tRequest list \<Rightarrow> tRequest list \<times> tRequest list" where
  "grant A P = (case P of [] \<Rightarrow> (A, P)
                | p # ps \<Rightarrow> if grantable p A then (tRequest_Signal p # A, ps) else (A, P))"

lemma Signal_fields [simp]:
  "rq_tid (tRequest_Signal r) = rq_tid r" "rq_exclusive (tRequest_Signal r) = rq_exclusive r"
  "rq_shared (tRequest_Signal r) = rq_shared r" "rq_yieldedTo (tRequest_Signal r) = rq_yieldedTo r"
  "rq_nesting (tRequest_Signal r) = rq_nesting r" "signalled (tRequest_Signal r)"
  "ev_autoReset (rq_signal (tRequest_Signal r)) = ev_autoReset (rq_signal r)"
  by (simp_all add: tRequest_Signal_def tEvent_release_def)

lemma same_fields:
  assumes "rq_shared a = rq_shared b" and "rq_exclusive a = rq_exclusive b" and "rq_nesting a = rq_nesting b"
  shows "req_stack a = req_stack b" and "req_inv a = req_inv b" and "req_count a = req_count b"
  using assms by (simp_all add: req_stack_def req_inv_def req_count_def)

lemma good_Signal [simp]: "good_request (tRequest_Signal r) = good_request r"
  using same_fields [of "tRequest_Signal r" r] by (simp add: good_request_def)

lemma req_count_Signal [simp]: "req_count (tRequest_Signal r) = req_count r"
  by (simp add: req_count_def)

lemma grantable_exclusion: "grantable r A \<Longrightarrow> rq_exclusive q = rq_exclusive r \<Longrightarrow> exclusion (q # A)"
  by (auto simp: grantable_def exclusion_def)

lemma exclusion_subset: "exclusion (xs @ r # ys) \<Longrightarrow> exclusion (xs @ ys)"
  by (auto simp: exclusion_def)

text \<open>Granting the head of the queue keeps the invariant and leaves nobody waiting in vain.\<close>

lemma acc_inv_grant:
  assumes "acc_inv A P S B" and "grant A P = (A', P')"
  shows "acc_inv A' P' S B" and "no_lost_wakeup A' P'"
    and "sum_list (map req_count A') + sum_list (map req_count P')
         = sum_list (map req_count A) + sum_list (map req_count P)"
    and "P' = [] \<Longrightarrow> P = [] \<and> A' = A \<or> (\<exists>r\<in>set A'. signalled r)"
    and "rq_tid ` set A' \<union> rq_tid ` set P' = rq_tid ` set A \<union> rq_tid ` set P"
proof -
  consider "P = []" "A' = A" "P' = []"
    | p ps where "P = p # ps" "grantable p A" "A' = tRequest_Signal p # A" "P' = ps"
    | p ps where "P = p # ps" "\<not> grantable p A" "A' = A" "P' = P"
    using assms(2) by (cases P) (auto simp: grant_def split: if_splits)
  then show "acc_inv A' P' S B" "no_lost_wakeup A' P'"
    "sum_list (map req_count A') + sum_list (map req_count P')
       = sum_list (map req_count A) + sum_list (map req_count P)"
    "P' = [] \<Longrightarrow> P = [] \<and> A' = A \<or> (\<exists>r\<in>set A'. signalled r)"
    "rq_tid ` set A' \<union> rq_tid ` set P' = rq_tid ` set A \<union> rq_tid ` set P"
    using assms(1) grantable_exclusion
    by (cases; auto simp: acc_inv_def no_lost_wakeup_def)+
qed

section \<open>The manager implements the list view\<close>

abbreviation Act :: "tAccessManager \<Rightarrow> tRequest list" where "Act m \<equiv> rl_requests (activeRequests m)"
abbreviation Pend :: "tAccessManager \<Rightarrow> tRequest list" where "Pend m \<equiv> rl_requests (pendingRequests m)"
abbreviation Susp :: "tAccessManager \<Rightarrow> tRequest list" where "Susp m \<equiv> rl_requests (suspendedRequests m)"

definition rl_invs :: "tAccessManager \<Rightarrow> bool" where
  "rl_invs m \<longleftrightarrow> rl_inv (activeRequests m) \<and> rl_inv (pendingRequests m) \<and> rl_inv (suspendedRequests m)"

definition pool_ok :: "tAccessManager \<Rightarrow> bool" where
  "pool_ok m \<longleftrightarrow> (\<forall>r\<in>set (rl_requests (emptyRequests m)). \<not> signalled r \<and> ev_autoReset (rq_signal r))"

definition mgr_inv :: "tAccessManager \<Rightarrow> nat set \<Rightarrow> bool" where
  "mgr_inv m B \<longleftrightarrow> rl_invs m \<and> acc_inv (Act m) (Pend m) (Susp m) B \<and> pool_ok m"

definition total :: "tAccessManager \<Rightarrow> nat" where
  "total m = sum_list (map req_count (Act m)) + sum_list (map req_count (Pend m))
           + sum_list (map req_count (Susp m))"

text \<open>The fields that granting requests does not touch.\<close>

definition same_frame :: "tAccessManager \<Rightarrow> tAccessManager \<Rightarrow> bool" where
  "same_frame m m' \<longleftrightarrow> suspendedRequests m' = suspendedRequests m \<and> emptyRequests m' = emptyRequests m
     \<and> refcount m' = refcount m \<and> allRefsReleased m' = allRefsReleased m"

definition good_list :: "tRequestList \<Rightarrow> bool" where
  "good_list l \<longleftrightarrow> rl_inv l \<and> (\<forall>r\<in>set (rl_requests l). good_request r) \<and> distinct (rl_tids l)"

lemma distinct_bounded_length:
  assumes "distinct xs" and "\<forall>x\<in>set xs. x < (n::nat)"
  shows "length xs \<le> n"
proof -
  have "set xs \<subseteq> {..<n}" using assms(2) by auto
  then have "card (set xs) \<le> n" using card_mono [of "{..<n}" "set xs"] by simp
  with assms(1) show ?thesis by (simp add: distinct_card)
qed

lemma good_list_length: "good_list l \<Longrightarrow> length (rl_requests l) < 2 ^ 26"
  using distinct_bounded_length [of "rl_tids l" max_threads]
  by (auto simp: good_list_def good_request_def max_threads_def)

lemma good_list_counts:
  assumes "good_list l"
  shows "tRequestList_CountExclusive l = 0 \<longleftrightarrow> (\<forall>r\<in>set (rl_requests l). rq_exclusive r = 0)"
    and "tRequestList_Count l = 0 \<longleftrightarrow> rl_requests l = []"
  using assms rl_exclusive_zero_iff [of l] rl_Count_zero_iff [of l] good_list_length [OF assms]
  by (auto simp: good_list_def good_request_def tRequestList_CountExclusive_def)

lemma canBeSatisfied_iff:
  assumes "good_list (activeRequests m)" and "good_list (pendingRequests m)"
  shows "canBeSatisfied r flags m \<longleftrightarrow> (flags AND kHighPriority \<noteq> 0 \<or> Pend m = []) \<and> grantable r (Act m)"
  by (auto simp: canBeSatisfied_def good_list_counts [OF assms(1)] good_list_counts [OF assms(2)]
      grantable_def tRequest_CountExclusive_def)

lemma acc_inv_good_lists:
  assumes "rl_invs m" and "acc_inv (Act m) (Pend m) S B"
  shows "good_list (activeRequests m)" and "good_list (pendingRequests m)"
  using assms by (auto simp: rl_invs_def acc_inv_def good_list_def)

lemma rl_eqI: "rl_inv l \<Longrightarrow> rl_inv l' \<Longrightarrow> rl_requests l = rl_requests l' \<Longrightarrow> l = l'"
  by (simp add: rl_inv_def)

lemma good_list_tl:
  "good_list l \<Longrightarrow> rl_requests l = r # rs \<Longrightarrow> rl_inv l' \<Longrightarrow> rl_requests l' = rs \<Longrightarrow> good_list l'"
  by (auto simp: good_list_def)

lemma SatisfyPending_grant:
  assumes "rl_invs m" and "acc_inv (Act m) (Pend m) S B"
  shows "rl_invs (SatisfyPending m) \<and> same_frame m (SatisfyPending m)
    \<and> (Act (SatisfyPending m), Pend (SatisfyPending m)) = grant (Act m) (Pend m)"
proof (cases "Pend m")
  case Nil
  then have "SatisfyPending m = m" by (simp add: SatisfyPending_def RemoveHead_simps)
  with assms(1) Nil show ?thesis by (simp add: grant_def same_frame_def)
next
  case (Cons p ps)
  note good = acc_inv_good_lists [OF assms]
  obtain l where l: "tRequestList_RemoveHead (pendingRequests m) = (Some p, l)" "rl_requests l = ps" "rl_inv l"
    using RemoveHead_simps(2) [OF Cons] assms(1) by (auto simp: rl_invs_def)
  have gl: "good_list l" using good_list_tl [OF good(2) Cons l(3,2)] .
  let ?m = "m\<lparr>pendingRequests := l\<rparr>"
  have sat: "canBeSatisfied p (kHighPriority OR kDifferentThread) ?m \<longleftrightarrow> grantable p (Act m)"
    using canBeSatisfied_iff [of ?m p "kHighPriority OR kDifferentThread"] good(1) gl by simp
  have again: "tRequestList_AddAtHead p l = pendingRequests m"
    using l Cons assms(1) by (intro rl_eqI) (auto simp: rl_invs_def)
  show ?thesis
  proof (cases "grantable p (Act m)")
    case True
    with sat l have "SatisfyPending m
      = ?m\<lparr>activeRequests := tRequestList_AddAtHead (tRequest_Signal p) (activeRequests m)\<rparr>"
      by (simp add: SatisfyPending_def SatisfyRequest.simps(2))
    with True Cons l assms(1) show ?thesis by (simp add: grant_def same_frame_def rl_invs_def)
  next
    case False
    with sat l again have "SatisfyPending m = m"
      by (simp add: SatisfyPending_def SatisfyRequest.simps(2))
    with False Cons assms(1) show ?thesis by (simp add: grant_def same_frame_def)
  qed
qed

lemma SatisfyRequest_low:
  assumes "rl_invs m" and "acc_inv (Act m) (Pend m) S B"
    and "SatisfyRequest (Some r) 0 m = (b, m')"
  shows "rl_invs m' \<and> same_frame m m' \<and>
    (if Pend m = [] \<and> grantable r (Act m) then \<not> b \<and> Act m' = r # Act m \<and> Pend m' = []
     else b \<and> (\<exists>P1. grant (Act m) (Pend m) = (Act m', P1) \<and> Pend m' = P1 @ [r]))"
proof (cases "Pend m = [] \<and> grantable r (Act m)")
  case True
  then have "canBeSatisfied r 0 m"
    using canBeSatisfied_iff [OF acc_inv_good_lists [OF assms(1,2)]] by simp
  with True assms(1,3) show ?thesis
    by (auto simp: SatisfyRequest.simps(2) same_frame_def rl_invs_def)
next
  case False
  then have "\<not> canBeSatisfied r 0 m"
    using canBeSatisfied_iff [OF acc_inv_good_lists [OF assms(1,2)]] by simp
  then have "b" and "m' = (SatisfyPending m)
      \<lparr>pendingRequests := tRequestList_AddAtTail r (pendingRequests (SatisfyPending m))\<rparr>"
    using assms(3) by (auto simp: SatisfyRequest.simps(2) SatisfyPending_def split: prod.splits)
  with False SatisfyPending_grant [OF assms(1,2)] show ?thesis
    by (auto simp: same_frame_def rl_invs_def)
qed

lemma acc_inv_add_active:
  assumes "acc_inv A P S B" and "good_request r" and "rq_tid r \<notin> rq_tid ` (set A \<union> set P \<union> set S)"
    and "grantable r A" and "\<not> signalled r"
  shows "acc_inv (r # A) P S B"
  using assms grantable_exclusion [OF assms(4)] by (auto simp: acc_inv_def)

lemma acc_inv_add_pending:
  assumes "acc_inv A P S B" and "good_request r" and "rq_tid r \<notin> rq_tid ` (set A \<union> set P \<union> set S)"
    and "\<not> signalled r"
  shows "acc_inv A (P @ [r]) S (insert (rq_tid r) B)"
proof -
  have "\<forall>q\<in>set A \<union> set P \<union> set S. rq_tid q \<noteq> rq_tid r" using assms(3) by (metis imageI)
  with assms show ?thesis by (auto simp: acc_inv_def)
qed

lemma SatisfyRequest_low_inv:
  assumes "mgr_inv m B" and "good_request r" and "\<not> signalled r"
    and "rq_tid r \<notin> rq_tid ` (set (Act m) \<union> set (Pend m) \<union> set (Susp m))"
    and "SatisfyRequest (Some r) 0 m = (b, m')"
  shows "mgr_inv m' (block_if b (rq_tid r) B) \<and> no_lost_wakeup (Act m') (Pend m')
    \<and> total m' = total m + req_count r \<and> same_frame m m'"
proof -
  from assms(1) have rl: "rl_invs m" and acc: "acc_inv (Act m) (Pend m) (Susp m) B" and pool: "pool_ok m"
    by (simp_all add: mgr_inv_def)
  note low = SatisfyRequest_low [OF rl acc assms(5)]
  show ?thesis
  proof (cases "Pend m = [] \<and> grantable r (Act m)")
    case True
    with low have m': "\<not> b" "Act m' = r # Act m" "Pend m' = []" "rl_invs m'" "same_frame m m'" by auto
    moreover have "acc_inv (r # Act m) (Pend m) (Susp m) B"
      using True assms by (intro acc_inv_add_active acc) auto
    ultimately show ?thesis
      using True pool by (simp add: mgr_inv_def same_frame_def pool_ok_def block_if_def no_lost_wakeup_def total_def)
  next
    case False
    with low obtain P1 where m': "b" "grant (Act m) (Pend m) = (Act m', P1)" "Pend m' = P1 @ [r]"
      "rl_invs m'" "same_frame m m'" by auto
    note g = acc_inv_grant [OF acc m'(2)]
    have "acc_inv (Act m') (P1 @ [r]) (Susp m) (insert (rq_tid r) B)"
      using assms g(5) by (intro acc_inv_add_pending g(1)) auto
    moreover have "no_lost_wakeup (Act m') (P1 @ [r])"
      using g(2,4) False by (cases P1) (auto simp: no_lost_wakeup_def)
    ultimately show ?thesis
      using m' g(3) pool by (simp add: mgr_inv_def same_frame_def pool_ok_def block_if_def total_def)
  qed
qed

lemma SatisfyPending_inv:
  assumes "mgr_inv m B"
  shows "mgr_inv (SatisfyPending m) B \<and> no_lost_wakeup (Act (SatisfyPending m)) (Pend (SatisfyPending m))
    \<and> total (SatisfyPending m) = total m \<and> same_frame m (SatisfyPending m)"
proof -
  from assms have rl: "rl_invs m" and acc: "acc_inv (Act m) (Pend m) (Susp m) B" and pool: "pool_ok m"
    by (simp_all add: mgr_inv_def)
  note sp = SatisfyPending_grant [OF rl acc]
  then have "grant (Act m) (Pend m) = (Act (SatisfyPending m), Pend (SatisfyPending m))" by simp
  note g = acc_inv_grant [OF acc this]
  from sp g(1-3) pool show ?thesis
    by (auto simp: mgr_inv_def same_frame_def pool_ok_def total_def)
qed

section \<open>Every step keeps the invariant\<close>

text \<open>The reference count exceeds the number of accesses by \<open>n\<close>, and the event follows it.\<close>

definition ref_ok :: "nat \<Rightarrow> tAccessManager \<Rightarrow> bool" where
  "ref_ok n m \<longleftrightarrow> unat (refcount m) = total m + n
     \<and> (ev_signalled (allRefsReleased m) \<longleftrightarrow> refcount m = 0) \<and> \<not> ev_autoReset (allRefsReleased m)"

definition access_inv :: "access_system \<Rightarrow> bool" where
  "access_inv s \<longleftrightarrow> mgr_inv (as_manager s) (as_blocked s)
     \<and> no_lost_wakeup (Act (as_manager s)) (Pend (as_manager s)) \<and> ref_ok 0 (as_manager s)"

lemma mgr_inv_total_bound:
  assumes "mgr_inv m B"
  shows "total m \<le> 2 ^ 27"
proof -
  let ?L = "Act m @ Pend m @ Susp m"
  have "length (map rq_tid ?L) \<le> max_threads"
    using assms by (intro distinct_bounded_length) (auto simp: mgr_inv_def acc_inv_def good_request_def)
  moreover have "sum_list (map req_count ?L) \<le> length ?L * 32"
    using assms by (intro sum_list_bounded_nat) (auto simp: mgr_inv_def acc_inv_def good_request_def req_count_le)
  ultimately show ?thesis by (simp add: total_def max_threads_def)
qed

lemma same_frame_ref_ok: "same_frame m m' \<Longrightarrow> total m' + n = total m + k \<Longrightarrow> ref_ok k m \<Longrightarrow> ref_ok n m'"
  by (auto simp: same_frame_def ref_ok_def)

lemma acc_inv_replace:
  assumes "acc_inv (xs @ r # ys) P S B" and "good_request r'" and "rq_tid r' = rq_tid r"
    and "rq_signal r' = rq_signal r" and "rq_exclusive r' \<noteq> 0 \<Longrightarrow> rq_exclusive r \<noteq> 0 \<or> xs @ ys = []"
  shows "acc_inv (r' # xs @ ys) P S B"
proof -
  have "exclusion (r' # xs @ ys)"
    using assms(1,5) by (auto simp: acc_inv_def exclusion_def)
  moreover have "rq_tid ` set (r' # xs @ ys) = rq_tid ` set (xs @ r # ys)" using assms(3) by auto
  ultimately show ?thesis using assms(1-4) unfolding acc_inv_def by (auto simp: image_Un)
qed

lemma acc_inv_remove:
  assumes "acc_inv (xs @ r # ys) P S B" and "rq_tid r \<notin> B"
  shows "acc_inv (xs @ ys) P S B" and "rq_tid r \<notin> rq_tid ` (set (xs @ ys) \<union> set P \<union> set S)"
    and "good_request r" and "\<not> signalled r"
  using assms exclusion_subset [of xs r ys] by (auto simp: acc_inv_def)

lemma acc_inv_suspend:
  assumes "acc_inv A P S B" and "good_request r" and "\<not> signalled r" and "rq_tid r \<notin> B"
    and "rq_tid r \<notin> rq_tid ` (set A \<union> set P \<union> set S)"
  shows "acc_inv A P (r # S) B"
  using assms by (auto simp: acc_inv_def)

text \<open>Taking the caller's request off the active list.\<close>

lemma own_request:
  assumes "mgr_inv m B" and "t \<notin> B" and "tRequestList_Remove t (activeRequests m) = (Some r, l)"
  obtains xs ys where "Act m = xs @ r # ys" and "rl_requests l = xs @ ys" and "rl_inv l" and "rq_tid r = t"
    and "good_request r" and "\<not> signalled r" and "mgr_inv (m\<lparr>activeRequests := l\<rparr>) B"
    and "t \<notin> rq_tid ` (set (xs @ ys) \<union> set (Pend m) \<union> set (Susp m))"
    and "total m = total (m\<lparr>activeRequests := l\<rparr>) + req_count r"
proof -
  from assms(1) have "rl_inv (activeRequests m)" by (simp add: mgr_inv_def rl_invs_def)
  from Remove_SomeD [OF assms(3) this] obtain xs ys where
    l: "Act m = xs @ r # ys" "rl_requests l = xs @ ys" "rq_tid r = t" "rl_inv l" .
  from assms(1) l(1) have "acc_inv (xs @ r # ys) (Pend m) (Susp m) B" by (simp add: mgr_inv_def)
  from acc_inv_remove [OF this] assms(2) l(3)
  have r: "acc_inv (xs @ ys) (Pend m) (Susp m) B" "t \<notin> rq_tid ` (set (xs @ ys) \<union> set (Pend m) \<union> set (Susp m))"
    "good_request r" "\<not> signalled r" by auto
  then have "mgr_inv (m\<lparr>activeRequests := l\<rparr>) B"
    using assms(1) l by (simp add: mgr_inv_def rl_invs_def pool_ok_def)
  with l r show ?thesis by (intro that [of xs ys]) (auto simp: total_def)
qed

lemma mgr_inv_put_back:
  assumes "mgr_inv m B" and "Act m = xs @ r # ys" and "rl_requests l = xs @ ys" and "rl_inv l"
    and "good_request r'" and "rq_tid r' = rq_tid r" and "rq_signal r' = rq_signal r"
    and "rq_exclusive r' \<noteq> 0 \<Longrightarrow> rq_exclusive r \<noteq> 0 \<or> xs @ ys = []"
  shows "mgr_inv (m\<lparr>activeRequests := tRequestList_AddAtHead r' l\<rparr>) B"
  using assms acc_inv_replace [of xs r ys "Pend m" "Susp m" B r']
  by (simp add: mgr_inv_def rl_invs_def pool_ok_def)

text \<open>A longer active list grants no more than before.\<close>

lemma no_lost_wakeup_replace:
  assumes "no_lost_wakeup (xs @ r # ys) P" and "rq_signal r' = rq_signal r"
    and "rq_exclusive r \<noteq> 0 \<Longrightarrow> rq_exclusive r' \<noteq> 0"
  shows "no_lost_wakeup (r' # xs @ ys) P"
  using assms by (auto simp: no_lost_wakeup_def grantable_def)

lemma operator_new_inv:
  assumes "mgr_inv m B" and "tRequest_operator_new memory m = (mem, m1)"
  shows "mgr_inv m1 B" and "\<not> signalled mem" and "ev_autoReset (rq_signal mem)"
    and "Act m1 = Act m" and "Pend m1 = Pend m" and "Susp m1 = Susp m" and "total m1 = total m"
    and "refcount m1 = refcount m" and "allRefsReleased m1 = allRefsReleased m"
  using assms
  by (auto simp: tRequest_operator_new_def tRequestList_RemoveHead_def MakeNewRequest_def
      tRequest_InitSignal_def tEvent_new_def mgr_inv_def rl_invs_def pool_ok_def total_def
      split: list.splits)

lemma ctor_ok:
  assumes "tRequest_ctor t type mem = Inr r" and "type \<noteq> kYieldedTo" and "t < max_threads"
    and "\<not> signalled mem" and "ev_autoReset (rq_signal mem)"
  shows "good_request r" and "rq_tid r = t" and "\<not> signalled r" and "req_count r = 1"
    and "req_stack r = [type = kExclusive]"
proof -
  let ?m = "mem\<lparr>rq_tid := t, rq_shared := 0, rq_exclusive := 0, rq_yieldedTo := False\<rparr>"
  note fresh = req_inv_fresh [where mem = mem and t = t and y = False]
  have "\<exists>r'. tRequest_Add type ?m = Inr r' \<and> req_stack r' = [type = kExclusive] \<and> req_inv r'
    \<and> rq_tid r' = t \<and> rq_signal r' = rq_signal mem \<and> \<not> rq_yieldedTo r' \<and> req_count r' = 1"
    using assms(2) fresh Add_kShared [of ?m] Add_kExclusive [of ?m] by (cases type) fastforce+
  with assms show "good_request r" "rq_tid r = t" "\<not> signalled r" "req_count r = 1"
    "req_stack r = [type = kExclusive]"
    by (auto simp: tRequest_ctor_def good_request_def)
qed

lemma new_request_inv:
  assumes "mgr_inv m B" and "t \<notin> rq_tid ` (set (Act m) \<union> set (Pend m) \<union> set (Susp m))" and "t < max_threads"
    and "tRequest_operator_new memory m = (mem, m1)" and "tRequest_ctor t type mem = Inr r" and "type \<noteq> kYieldedTo"
    and "SatisfyRequest (Some r) 0 m1 = (b, m')"
  shows "mgr_inv m' (block_if b t B) \<and> no_lost_wakeup (Act m') (Pend m')
    \<and> total m' = total m + 1 \<and> refcount m' = refcount m \<and> allRefsReleased m' = allRefsReleased m"
proof -
  note n = operator_new_inv [OF assms(1,4)]
  note r = ctor_ok [OF assms(5,6,3) n(2,3)]
  have "rq_tid r \<notin> rq_tid ` (set (Act m1) \<union> set (Pend m1) \<union> set (Susp m1))"
    using assms(2) n r(2) by simp
  from SatisfyRequest_low_inv [OF n(1) r(1,3) this assms(7)] show ?thesis
    using r n by (auto simp: same_frame_def)
qed

lemma Add_good:
  assumes "good_request r" and "tRequest_Add type r = Inr r'" and "type \<noteq> kYieldedTo"
  shows "good_request r'" and "rq_tid r' = rq_tid r" and "rq_signal r' = rq_signal r"
    and "req_count r' = Suc (req_count r)" and "req_stack r' = (type = kExclusive) # req_stack r"
    and "type = kShared \<Longrightarrow> rq_exclusive r' = rq_exclusive r"
    and "type = kExclusive \<Longrightarrow> rq_exclusive r' \<noteq> 0"
proof -
  from assms(1) have inv: "req_inv r" and y: "\<not> rq_yieldedTo r" by (simp_all add: good_request_def)
  have "req_count r < 32"
  proof (rule ccontr)
    assume "\<not> req_count r < 32"
    with req_count_le [OF inv] have "req_count r = 32" by simp
    with Add_full [OF inv _ y] assms(2,3) show False by (cases type) auto
  qed
  with Add_kShared [OF inv] Add_kExclusive [OF inv _ y] assms(2,3)
  have "rq_tid r' = rq_tid r \<and> rq_signal r' = rq_signal r \<and> req_count r' = Suc (req_count r)
    \<and> req_stack r' = (type = kExclusive) # req_stack r \<and> req_inv r' \<and> \<not> rq_yieldedTo r'
    \<and> (type = kShared \<longrightarrow> rq_exclusive r' = rq_exclusive r) \<and> (type = kExclusive \<longrightarrow> rq_exclusive r' \<noteq> 0)"
    using y by (cases type) auto
  with assms(1) show "good_request r'" "rq_tid r' = rq_tid r" "rq_signal r' = rq_signal r"
    "req_count r' = Suc (req_count r)" "req_stack r' = (type = kExclusive) # req_stack r"
    "type = kShared \<Longrightarrow> rq_exclusive r' = rq_exclusive r" "type = kExclusive \<Longrightarrow> rq_exclusive r' \<noteq> 0"
    by (auto simp: good_request_def)
qed

lemma fresh_thread:
  assumes "mgr_inv m B" and "t \<notin> B" and "t \<notin> set (rl_tids (suspendedRequests m))"
    and "tRequestList_Remove t (activeRequests m) = (None, l)"
  shows "t \<notin> rq_tid ` (set (Act m) \<union> set (Pend m) \<union> set (Susp m))"
  using assms Remove_NoneD [OF assms(4)] by (auto simp: mgr_inv_def acc_inv_def)

definition grants_one :: "tAccessManager \<Rightarrow> nat \<Rightarrow> nat set \<Rightarrow> bool \<Rightarrow> tAccessManager \<Rightarrow> bool" where
  "grants_one m t B b m' \<longleftrightarrow> mgr_inv m' (block_if b t B) \<and> no_lost_wakeup (Act m') (Pend m')
     \<and> total m' = total m + 1 \<and> refcount m' = refcount m \<and> allRefsReleased m' = allRefsReleased m"

text \<open>Adding an access to a request that stays on the active list.\<close>

lemma add_in_place:
  assumes "mgr_inv m B" and "t \<notin> B" and "no_lost_wakeup (Act m) (Pend m)"
    and "tRequestList_Remove t (activeRequests m) = (Some r, l)"
    and "tRequest_Add type r = Inr r'" and "type \<noteq> kYieldedTo" and "type = kExclusive \<Longrightarrow> rq_exclusive r \<noteq> 0"
  shows "grants_one m t B False (m\<lparr>activeRequests := tRequestList_AddAtHead r' l\<rparr>)"
proof -
  obtain xs ys where l: "Act m = xs @ r # ys" "rl_requests l = xs @ ys" "rl_inv l" "rq_tid r = t" "good_request r"
    using own_request [OF assms(1,2,4)] by metis
  note a = Add_good [OF l(5) assms(5,6)]
  have ex: "rq_exclusive r' \<noteq> 0 \<longleftrightarrow> rq_exclusive r \<noteq> 0"
    using a assms(6,7) by (cases type) auto
  have "mgr_inv (m\<lparr>activeRequests := tRequestList_AddAtHead r' l\<rparr>) B"
    using ex by (intro mgr_inv_put_back [OF assms(1) l(1-3)] a(1-3)) auto
  moreover have "no_lost_wakeup (r' # xs @ ys) (Pend m)"
    using assms(3) ex a(3) l(1) by (intro no_lost_wakeup_replace [of xs r ys]) auto
  ultimately show ?thesis
    using l a(4) by (simp add: grants_one_def block_if_def total_def)
qed

lemma GetSharedAccess_inv:
  assumes "mgr_inv m B" and "t \<notin> B" and "t \<notin> set (rl_tids (suspendedRequests m))" and "t < max_threads"
    and "no_lost_wakeup (Act m) (Pend m)" and "GetSharedAccess memory t m = Inr (b, m')"
  shows "grants_one m t B b m'"
proof (cases "tRequestList_Remove t (activeRequests m)")
  case (Pair req l)
  show ?thesis
  proof (cases req)
    case None
    with assms(6) Pair obtain mem m1 r where new: "tRequest_operator_new memory m = (mem, m1)"
      and ctor: "tRequest_ctor t kShared mem = Inr r" and sat: "SatisfyRequest (Some r) 0 m1 = (b, m')"
      by (auto simp: GetSharedAccess_def bind_res_eq_Inr split: prod.splits)
    have "t \<notin> rq_tid ` (set (Act m) \<union> set (Pend m) \<union> set (Susp m))"
      using fresh_thread [OF assms(1-3)] Pair None by simp
    from new_request_inv [OF assms(1) this assms(4) new ctor _ sat] show ?thesis
      by (simp add: grants_one_def)
  next
    case (Some r)
    with assms(6) Pair obtain r' where "tRequest_Add kShared r = Inr r'" "\<not> b"
      "m' = m\<lparr>activeRequests := tRequestList_AddAtHead r' l\<rparr>"
      by (auto simp: GetSharedAccess_def bind_res_eq_Inr)
    with add_in_place [OF assms(1,2,5), of r l kShared r'] Pair Some show ?thesis by simp
  qed
qed

lemma GetExclusiveAccess_inv:
  assumes "mgr_inv m B" and "t \<notin> B" and "t \<notin> set (rl_tids (suspendedRequests m))" and "t < max_threads"
    and "no_lost_wakeup (Act m) (Pend m)" and "GetExclusiveAccess memory t m = Inr (b, m')"
  shows "grants_one m t B b m'"
proof (cases "tRequestList_Remove t (activeRequests m)")
  case (Pair req l)
  show ?thesis
  proof (cases req)
    case None
    with assms(6) Pair obtain mem m1 r where new: "tRequest_operator_new memory m = (mem, m1)"
      and ctor: "tRequest_ctor t kExclusive mem = Inr r" and sat: "SatisfyRequest (Some r) 0 m1 = (b, m')"
      by (auto simp: GetExclusiveAccess_def bind_res_eq_Inr split: prod.splits)
    have "t \<notin> rq_tid ` (set (Act m) \<union> set (Pend m) \<union> set (Susp m))"
      using fresh_thread [OF assms(1-3)] Pair None by simp
    from new_request_inv [OF assms(1) this assms(4) new ctor _ sat] show ?thesis
      by (simp add: grants_one_def)
  next
    case (Some r)
    show ?thesis
    proof (cases "rq_exclusive r = 0")
      case False
      with assms(6) Pair Some obtain r' where "tRequest_Add kExclusive r = Inr r'" "\<not> b"
        "m' = m\<lparr>activeRequests := tRequestList_AddAtHead r' l\<rparr>"
        by (auto simp: GetExclusiveAccess_def bind_res_eq_Inr tRequest_CountExclusive_def)
      with add_in_place [OF assms(1,2,5), of r l kExclusive r'] Pair Some False show ?thesis by simp
    next
      case True
      with assms(6) Pair Some obtain r' where r': "tRequest_Add kExclusive r = Inr r'"
        and sat: "SatisfyRequest (Some r') 0 (m\<lparr>activeRequests := l\<rparr>) = (b, m')"
        by (auto simp: GetExclusiveAccess_def bind_res_eq_Inr tRequest_CountExclusive_def)
      obtain xs ys where l: "rl_requests l = xs @ ys" "rq_tid r = t" "good_request r" "\<not> signalled r"
        "mgr_inv (m\<lparr>activeRequests := l\<rparr>) B" "t \<notin> rq_tid ` (set (xs @ ys) \<union> set (Pend m) \<union> set (Susp m))"
        "total m = total (m\<lparr>activeRequests := l\<rparr>) + req_count r"
        using own_request [OF assms(1,2)] Pair Some by metis
      note a = Add_good [OF l(3) r']
      from a(1-4) l sat SatisfyRequest_low_inv [OF l(5) _ _ _ sat] show ?thesis
        by (auto simp: grants_one_def same_frame_def)
    qed
  qed
qed

lemma IncRef_lists [simp]:
  "activeRequests (IncRef m) = activeRequests m" "pendingRequests (IncRef m) = pendingRequests m"
  "suspendedRequests (IncRef m) = suspendedRequests m" "emptyRequests (IncRef m) = emptyRequests m"
  by (simp_all add: IncRef_def Let_def)

lemma mgr_inv_IncRef [simp]: "mgr_inv (IncRef m) B = mgr_inv m B" "total (IncRef m) = total m"
  by (simp_all add: mgr_inv_def rl_invs_def pool_ok_def total_def)

lemma ref_ok_IncRef:
  assumes "mgr_inv m B" and "ref_ok 0 m"
  shows "ref_ok 1 (IncRef m)"
proof -
  have "unat (refcount m) < 2 ^ 28" using mgr_inv_total_bound [OF assms(1)] assms(2) by (simp add: ref_ok_def)
  then have "unat (refcount m + 1) = Suc (unat (refcount m))" by (simp add: unat_plus_small)
  moreover from this have "refcount m + 1 \<noteq> 0" by (auto simp: unat_eq_0 [symmetric])
  moreover have "refcount m + 1 = 1 \<longleftrightarrow> refcount m = 0" by simp
  moreover have "total (IncRef m) = total m" by simp
  ultimately show ?thesis using assms(2)
    by (auto simp: ref_ok_def IncRef_def Let_def tEvent_reset_def total_def)
qed

lemma Acquire_inv:
  assumes "access_inv s" and "t \<notin> as_blocked s" and "t < max_threads"
    and "t \<notin> set (rl_tids (suspendedRequests (as_manager s)))"
    and "Acquire memory t exclusive (as_manager s) = Inr (b, m')"
  shows "access_inv \<lparr>as_manager = m', as_blocked = block_if b t (as_blocked s)\<rparr>"
proof -
  let ?m = "IncRef (as_manager s)"
  from assms(1) have inv: "mgr_inv ?m (as_blocked s)" and nl: "no_lost_wakeup (Act ?m) (Pend ?m)"
    and ref: "ref_ok 1 ?m"
    using ref_ok_IncRef [of "as_manager s" "as_blocked s"] by (simp_all add: access_inv_def)
  have "grants_one ?m t (as_blocked s) b m'"
    using GetSharedAccess_inv [OF inv assms(2) _ assms(3) nl] GetExclusiveAccess_inv [OF inv assms(2) _ assms(3) nl]
      assms(4,5) by (auto simp: Acquire_def Let_def split: if_splits)
  with ref show ?thesis by (auto simp: access_inv_def grants_one_def ref_ok_def)
qed

lemma DecRef_ok:
  assumes "ref_ok 1 m"
  shows "\<exists>m'. DecRef m = Inr m' \<and> ref_ok 0 m' \<and> activeRequests m' = activeRequests m
    \<and> pendingRequests m' = pendingRequests m \<and> suspendedRequests m' = suspendedRequests m
    \<and> emptyRequests m' = emptyRequests m"
proof -
  have pos: "refcount m \<noteq> 0" using assms by (auto simp: ref_ok_def)
  then have "unat (refcount m - 1) = total m" using assms by (simp add: ref_ok_def unat_minus_one)
  with pos assms show ?thesis
    by (auto simp: DecRef_def ref_ok_def total_def Let_def tEvent_release_def)
qed

lemma mgr_inv_cong:
  "activeRequests m' = activeRequests m \<Longrightarrow> pendingRequests m' = pendingRequests m
   \<Longrightarrow> suspendedRequests m' = suspendedRequests m \<Longrightarrow> emptyRequests m' = emptyRequests m
   \<Longrightarrow> mgr_inv m' B = mgr_inv m B"
  by (simp add: mgr_inv_def rl_invs_def pool_ok_def)

lemma RemoveLast_good:
  assumes "good_request r"
  shows "\<exists>b bs r'. req_stack r = b # bs \<and> tRequest_RemoveLast r = Inr (b, r') \<and> req_stack r' = bs \<and> req_inv r'
    \<and> rq_tid r' = rq_tid r \<and> rq_signal r' = rq_signal r \<and> \<not> rq_yieldedTo r' \<and> Suc (req_count r') = req_count r
    \<and> (rq_exclusive r = 0 \<longrightarrow> rq_exclusive r' = 0) \<and> (tRequest_Count r' \<noteq> 0 \<longrightarrow> good_request r')
    \<and> (tRequest_Count r' = 0 \<longrightarrow> req_count r' = 0)"
proof -
  from assms have inv: "req_inv r" and y: "\<not> rq_yieldedTo r" and pos: "0 < req_count r"
    by (simp_all add: good_request_def)
  from pos obtain b bs where st: "req_stack r = b # bs"
    by (cases "req_stack r") (auto dest: arg_cong [where f = length])
  from RemoveLast_pops [OF inv y st] obtain r' where r': "tRequest_RemoveLast r = Inr (b, r')" "req_stack r' = bs"
    "req_inv r'" "rq_tid r' = rq_tid r" "rq_signal r' = rq_signal r" "\<not> rq_yieldedTo r'"
    "Suc (req_count r') = req_count r" "rq_exclusive r = 0 \<longrightarrow> rq_exclusive r' = 0" by blast
  moreover have "tRequest_Count r' = 0 \<longleftrightarrow> req_count r' = 0"
    using unat_Count [OF r'(3)] by (simp add: unat_eq_0 [symmetric])
  ultimately show ?thesis using st assms by (auto simp: good_request_def)
qed

text \<open>What is left of the caller's request goes back to the list or to the pool.\<close>

lemma release_own:
  assumes "mgr_inv m B" and "t \<notin> B" and "tRequestList_Remove t (activeRequests m) = (Some r, l)"
    and "tRequest_RemoveLast r = Inr (x, r')"
    and "m1 = (if tRequest_Count r' \<noteq> 0 then m\<lparr>activeRequests := tRequestList_AddAtHead r' l\<rparr>
               else tRequest_operator_delete r' (m\<lparr>activeRequests := l\<rparr>))"
  shows "mgr_inv m1 B \<and> total m = total m1 + 1 \<and> refcount m1 = refcount m
    \<and> allRefsReleased m1 = allRefsReleased m"
proof -
  obtain xs ys where l: "Act m = xs @ r # ys" "rl_requests l = xs @ ys" "rl_inv l" "rq_tid r = t"
    "good_request r" "\<not> signalled r" "mgr_inv (m\<lparr>activeRequests := l\<rparr>) B"
    "total m = total (m\<lparr>activeRequests := l\<rparr>) + req_count r"
    using own_request [OF assms(1-3)] by metis
  from RemoveLast_good [OF l(5)] assms(4) have r': "rq_tid r' = rq_tid r" "rq_signal r' = rq_signal r"
    "Suc (req_count r') = req_count r" "rq_exclusive r = 0 \<longrightarrow> rq_exclusive r' = 0"
    "tRequest_Count r' \<noteq> 0 \<longrightarrow> good_request r'" "tRequest_Count r' = 0 \<longrightarrow> req_count r' = 0"
    by auto
  show ?thesis
  proof (cases "tRequest_Count r' = 0")
    case True
    with assms(5) l r' show ?thesis
      by (auto simp: tRequest_operator_delete_def mgr_inv_def rl_invs_def pool_ok_def total_def good_request_def)
  next
    case False
    then have "mgr_inv m1 B"
      using assms(5) r' by (auto intro!: mgr_inv_put_back [OF assms(1) l(1-3)])
    with False assms(5) l r' show ?thesis by (auto simp: total_def)
  qed
qed

lemma Release_inv:
  assumes "access_inv s" and "t \<notin> as_blocked s" and "Release t (as_manager s) = Inr (x, m')"
  shows "access_inv (s\<lparr>as_manager := m'\<rparr>)"
proof -
  let ?m = "as_manager s"
  from assms(3) obtain r l r' m1 where rem: "tRequestList_Remove t (activeRequests ?m) = (Some r, l)"
    and last: "tRequest_RemoveLast r = Inr (x, r')"
    and m1: "m1 = (if tRequest_Count r' \<noteq> 0 then ?m\<lparr>activeRequests := tRequestList_AddAtHead r' l\<rparr>
               else tRequest_operator_delete r' (?m\<lparr>activeRequests := l\<rparr>))"
    and dec: "DecRef (SatisfyPending m1) = Inr m'"
    by (auto simp: Release_def bind_res_eq_Inr Let_def split: prod.splits option.splits)
  from assms(1) have inv: "mgr_inv ?m (as_blocked s)" and ref: "ref_ok 0 ?m" by (simp_all add: access_inv_def)
  from release_own [OF inv assms(2) rem last m1] have inv1: "mgr_inv m1 (as_blocked s)"
    and ref1: "ref_ok 1 m1" using ref by (auto simp: ref_ok_def)
  note sp = SatisfyPending_inv [OF inv1]
  from sp ref1 have "ref_ok 1 (SatisfyPending m1)" by (auto intro: same_frame_ref_ok)
  from DecRef_ok [OF this] dec sp show ?thesis
    by (auto simp: access_inv_def mgr_inv_cong [of m' "SatisfyPending m1"])
qed

text \<open>Suspending keeps the stack of accesses: the extra exclusive access is added and removed.\<close>

lemma suspend_roundtrip:
  assumes "good_request r" and "(if tRequest_CountExclusive r \<noteq> 0
             then bind_res (tRequest_Add kExclusive r) (\<lambda>r. bind_res (tRequest_RemoveLast r) (\<lambda>(_, r'). Inr r'))
             else Inr r) = Inr r'"
  shows "good_request r'" and "rq_tid r' = rq_tid r" and "rq_signal r' = rq_signal r"
    and "req_count r' = req_count r" and "req_stack r' = req_stack r"
proof -
  have "good_request r' \<and> rq_tid r' = rq_tid r \<and> rq_signal r' = rq_signal r \<and> req_count r' = req_count r
    \<and> req_stack r' = req_stack r"
  proof (cases "tRequest_CountExclusive r = 0")
    case True
    with assms show ?thesis by simp
  next
    case False
    with assms(2) obtain r1 b where add: "tRequest_Add kExclusive r = Inr r1"
      and last: "tRequest_RemoveLast r1 = Inr (b, r')"
      by (auto simp: bind_res_eq_Inr)
    note a = Add_good [OF assms(1) add]
    from RemoveLast_good [OF a(1)] last a assms(1) show ?thesis by (auto simp: good_request_def)
  qed
  then show "good_request r'" "rq_tid r' = rq_tid r" "rq_signal r' = rq_signal r"
    "req_count r' = req_count r" "req_stack r' = req_stack r" by auto
qed

lemma SuspendAccess_inv:
  assumes "access_inv s" and "t \<notin> as_blocked s" and "SuspendAccess t (as_manager s) = Inr m'"
  shows "access_inv (s\<lparr>as_manager := m'\<rparr>)"
proof -
  let ?m = "as_manager s"
  from assms(3) obtain r l r' where rem: "tRequestList_Remove t (activeRequests ?m) = (Some r, l)"
    and r': "(if tRequest_CountExclusive r \<noteq> 0
             then bind_res (tRequest_Add kExclusive r) (\<lambda>r. bind_res (tRequest_RemoveLast r) (\<lambda>(_, r'). Inr r'))
             else Inr r) = Inr r'"
    and m': "m' = SatisfyPending (?m\<lparr>activeRequests := l,
                    suspendedRequests := tRequestList_AddAtHead r' (suspendedRequests ?m)\<rparr>)"
    unfolding SuspendAccess_def by (auto simp: bind_res_eq_Inr split: prod.splits option.splits)
  let ?m1 = "?m\<lparr>activeRequests := l, suspendedRequests := tRequestList_AddAtHead r' (suspendedRequests ?m)\<rparr>"
  from assms(1) have inv: "mgr_inv ?m (as_blocked s)" and ref: "ref_ok 0 ?m" by (simp_all add: access_inv_def)
  obtain xs ys where l: "Act ?m = xs @ r # ys" "rl_requests l = xs @ ys" "rl_inv l" "rq_tid r = t"
    "good_request r" "\<not> signalled r" "mgr_inv (?m\<lparr>activeRequests := l\<rparr>) (as_blocked s)"
    "t \<notin> rq_tid ` (set (xs @ ys) \<union> set (Pend ?m) \<union> set (Susp ?m))"
    using own_request [OF inv assms(2) rem] by metis
  note su = suspend_roundtrip [OF l(5) r']
  have "acc_inv (xs @ ys) (Pend ?m) (r' # Susp ?m) (as_blocked s)"
    using l su assms(2) by (intro acc_inv_suspend) (auto simp: mgr_inv_def)
  then have "mgr_inv ?m1 (as_blocked s)" using l inv by (simp add: mgr_inv_def rl_invs_def pool_ok_def)
  from SatisfyPending_inv [OF this] have sp: "mgr_inv m' (as_blocked s)" "no_lost_wakeup (Act m') (Pend m')"
    "total m' = total ?m1" "same_frame ?m1 m'" by (simp_all add: m')
  moreover have "total ?m1 = total ?m" using l su by (simp add: total_def)
  moreover have "ref_ok 0 ?m1" using ref \<open>total ?m1 = total ?m\<close> by (simp add: ref_ok_def)
  ultimately show ?thesis by (auto simp: access_inv_def intro: same_frame_ref_ok)
qed

lemma ResumeAccess_inv:
  assumes "access_inv s" and "t \<notin> as_blocked s" and "ResumeAccess t (as_manager s) = (b, m')"
  shows "access_inv \<lparr>as_manager = m', as_blocked = block_if b t (as_blocked s)\<rparr>"
proof (cases "tRequestList_Remove t (suspendedRequests (as_manager s))")
  case (Pair req l)
  let ?m = "as_manager s"
  from assms(1) have inv: "mgr_inv ?m (as_blocked s)" and ref: "ref_ok 0 ?m" by (simp_all add: access_inv_def)
  show ?thesis
  proof (cases req)
    case None
    with Pair assms(3) have "b = False" "m' = ?m" by (simp_all add: ResumeAccess_def)
    with assms(1) show ?thesis by (simp add: block_if_def access_inv_def)
  next
    case (Some r)
    let ?m1 = "?m\<lparr>suspendedRequests := l\<rparr>"
    from inv have "rl_inv (suspendedRequests ?m)" by (simp add: mgr_inv_def rl_invs_def)
    from Remove_SomeD [OF Pair [unfolded Some] this] obtain xs ys where
      l: "Susp ?m = xs @ r # ys" "rl_requests l = xs @ ys" "rq_tid r = t" "rl_inv l" .
    from inv l have acc: "acc_inv (Act ?m) (Pend ?m) (xs @ r # ys) (as_blocked s)" by (simp add: mgr_inv_def)
    then have "acc_inv (Act ?m) (Pend ?m) (xs @ ys) (as_blocked s)" by (auto simp: acc_inv_def)
    with inv l have inv1: "mgr_inv ?m1 (as_blocked s)" by (simp add: mgr_inv_def rl_invs_def pool_ok_def)
    have r: "good_request r" "\<not> signalled r"
      and fresh: "rq_tid r \<notin> rq_tid ` (set (Act ?m1) \<union> set (Pend ?m1) \<union> set (Susp ?m1))"
      using acc l by (auto simp: acc_inv_def)
    have sat: "SatisfyRequest (Some r) 0 ?m1 = (b, m')"
      using assms(3) Pair Some by (simp add: ResumeAccess_def)
    have "total ?m = total ?m1 + req_count r" using l by (simp add: total_def)
    with SatisfyRequest_low_inv [OF inv1 r fresh sat] ref l(3) show ?thesis
      by (auto simp: access_inv_def same_frame_def ref_ok_def)
  qed
qed

lemma ReleaseAndReacquireAtEnd_inv:
  assumes "access_inv s" and "t \<notin> as_blocked s" and "DebugAssertActive t (as_manager s)"
    and "ReleaseAndReacquireAtEnd t (as_manager s) = (b, m')"
  shows "access_inv \<lparr>as_manager = m', as_blocked = block_if b t (as_blocked s)\<rparr>"
proof (cases "tRequestList_Count (pendingRequests (as_manager s)) = 0")
  case True
  with assms(4) have "b = False" "m' = as_manager s" by (simp_all add: ReleaseAndReacquireAtEnd_def)
  with assms(1) show ?thesis by (simp add: block_if_def access_inv_def)
next
  case False
  let ?m = "as_manager s"
  from assms(1) have inv: "mgr_inv ?m (as_blocked s)" and ref: "ref_ok 0 ?m" by (simp_all add: access_inv_def)
  from assms(3) obtain r l where rem: "tRequestList_Remove t (activeRequests ?m) = (Some r, l)"
    by (cases "tRequestList_Remove t (activeRequests ?m)") (auto simp: DebugAssertActive_def)
  with False assms(4) have sat: "SatisfyRequest (Some r) 0 (?m\<lparr>activeRequests := l\<rparr>) = (b, m')"
    by (simp add: ReleaseAndReacquireAtEnd_def)
  obtain xs ys where l: "rl_requests l = xs @ ys" "rq_tid r = t" "good_request r" "\<not> signalled r"
    "mgr_inv (?m\<lparr>activeRequests := l\<rparr>) (as_blocked s)"
    "t \<notin> rq_tid ` (set (xs @ ys) \<union> set (Pend ?m) \<union> set (Susp ?m))"
    "total ?m = total (?m\<lparr>activeRequests := l\<rparr>) + req_count r"
    using own_request [OF inv assms(2) rem] by metis
  from SatisfyRequest_low_inv [OF l(5,3,4) _ sat] l ref show ?thesis
    by (auto simp: access_inv_def same_frame_def ref_ok_def)
qed

lemma query_inv:
  assumes "access_inv s" and "HasExclusiveAccess t (as_manager s) = (x, m') \<or> HasSharedAccess t (as_manager s) = (x, m')"
  shows "access_inv (s\<lparr>as_manager := m'\<rparr>)"
proof (cases "tRequestList_Remove t (activeRequests (as_manager s))")
  case (Pair req l)
  let ?m = "as_manager s"
  from assms(1) have inv: "mgr_inv ?m (as_blocked s)" and nl: "no_lost_wakeup (Act ?m) (Pend ?m)"
    and ref: "ref_ok 0 ?m" by (simp_all add: access_inv_def)
  show ?thesis
  proof (cases req)
    case None
    with Pair assms show ?thesis by (auto simp: HasExclusiveAccess_def HasSharedAccess_def)
  next
    case (Some r)
    from inv have "rl_inv (activeRequests ?m)" by (simp add: mgr_inv_def rl_invs_def)
    from Remove_SomeD [OF Pair [unfolded Some] this] obtain xs ys where
      l: "Act ?m = xs @ r # ys" "rl_requests l = xs @ ys" "rl_inv l" by metis
    have "good_request r" using inv l by (auto simp: mgr_inv_def acc_inv_def)
    then have "mgr_inv (?m\<lparr>activeRequests := tRequestList_AddAtHead r l\<rparr>) (as_blocked s)"
      by (intro mgr_inv_put_back [OF inv l]) auto
    moreover have "no_lost_wakeup (r # xs @ ys) (Pend ?m)"
      using nl l by (intro no_lost_wakeup_replace [of xs r ys]) auto
    moreover have "m' = ?m\<lparr>activeRequests := tRequestList_AddAtHead r l\<rparr>"
      using Pair Some assms(2) by (auto simp: HasExclusiveAccess_def HasSharedAccess_def Let_def)
    ultimately show ?thesis using ref l by (simp add: access_inv_def ref_ok_def total_def)
  qed
qed

lemma consume_signal_fields [simp]:
  "rq_tid (consume_signal t r) = rq_tid r" "rq_exclusive (consume_signal t r) = rq_exclusive r"
  "rq_shared (consume_signal t r) = rq_shared r" "rq_nesting (consume_signal t r) = rq_nesting r"
  "rq_yieldedTo (consume_signal t r) = rq_yieldedTo r"
  "ev_autoReset (rq_signal (consume_signal t r)) = ev_autoReset (rq_signal r)"
  by (simp_all add: consume_signal_def)

lemma good_consume_signal [simp]: "good_request (consume_signal t r) = good_request r"
  using same_fields [of "consume_signal t r" r] by (simp add: good_request_def)

lemma req_count_consume_signal [simp]: "req_count (consume_signal t r) = req_count r"
  by (simp add: req_count_def)

lemma signalled_consume:
  "good_request r \<Longrightarrow> signalled (consume_signal t r) \<longleftrightarrow> signalled r \<and> rq_tid r \<noteq> t"
  by (auto simp: consume_signal_def good_request_def)

lemma acc_inv_wake:
  assumes "acc_inv A P S B" and "t \<in> rq_tid ` set A"
  shows "acc_inv (map (consume_signal t) A) P S (B - {t})"
proof -
  have "\<forall>r\<in>set P. rq_tid r \<noteq> t" using assms by (auto simp: acc_inv_def)
  moreover have "exclusion (map (consume_signal t) A)" using assms by (auto simp: acc_inv_def exclusion_def)
  moreover have "distinct (map rq_tid (map (consume_signal t) A @ P @ S))"
    using assms by (simp add: acc_inv_def o_def image_image)
  moreover have "\<forall>r\<in>set (map (consume_signal t) A). signalled r \<longleftrightarrow> rq_tid r \<in> B - {t}"
    using assms by (auto simp: acc_inv_def signalled_consume)
  moreover have "B - {t} \<subseteq> rq_tid ` (set (map (consume_signal t) A) \<union> set P)"
    using assms by (auto simp: acc_inv_def image_Un image_image)
  ultimately show ?thesis using assms by (auto simp: acc_inv_def)
qed

lemma WakeUp_inv:
  assumes "access_inv s" and "t \<in> as_blocked s" and "signal_arrived t (as_manager s)"
  shows "access_inv \<lparr>as_manager = WakeUp t (as_manager s), as_blocked = as_blocked s - {t}\<rparr>"
proof -
  let ?m = "as_manager s"
  let ?m1 = "?m\<lparr>activeRequests := (activeRequests ?m)
       \<lparr>rl_requests := map (consume_signal t) (Act ?m)\<rparr>\<rparr>"
  from assms(1) have inv: "mgr_inv ?m (as_blocked s)" and ref: "ref_ok 0 ?m" by (simp_all add: access_inv_def)
  have "t \<in> rq_tid ` set (Act ?m)" using assms(3) by (auto simp: signal_arrived_def)
  with inv have "acc_inv (map (consume_signal t) (Act ?m)) (Pend ?m) (Susp ?m) (as_blocked s - {t})"
    by (simp add: mgr_inv_def acc_inv_wake)
  with inv have "mgr_inv ?m1 (as_blocked s - {t})"
    by (simp add: mgr_inv_def rl_invs_def pool_ok_def rl_inv_def o_def)
  from SatisfyPending_inv [OF this] have sp: "mgr_inv (WakeUp t ?m) (as_blocked s - {t})"
    "no_lost_wakeup (Act (WakeUp t ?m)) (Pend (WakeUp t ?m))" "total (WakeUp t ?m) = total ?m1"
    "same_frame ?m1 (WakeUp t ?m)" by (simp_all add: WakeUp_def)
  have "total ?m1 = total ?m" by (simp add: total_def o_def)
  with ref have "ref_ok 0 ?m1" by (simp add: ref_ok_def)
  with sp show ?thesis by (auto simp: access_inv_def intro: same_frame_ref_ok)
qed

lemma foldl_pool:
  "foldl (\<lambda>m i. m\<lparr>emptyRequests := tRequestList_AddAtHead (MakeNewRequest (memory i)) (emptyRequests m)\<rparr>) m is
   = m\<lparr>emptyRequests := foldl (\<lambda>l i. tRequestList_AddAtHead (MakeNewRequest (memory i)) l) (emptyRequests m) is\<rparr>"
  by (induction "is" arbitrary: m) simp_all

lemma foldl_pool_requests:
  "rl_requests (foldl (\<lambda>l i. tRequestList_AddAtHead (MakeNewRequest (memory i)) l) l is)
     = rev (map (\<lambda>i. MakeNewRequest (memory i)) is) @ rl_requests l"
  by (induction "is" arbitrary: l) simp_all

lemma manager_new_fields:
  "activeRequests (tAccessManager_new memory) = tRequestList_new"
  "pendingRequests (tAccessManager_new memory) = tRequestList_new"
  "suspendedRequests (tAccessManager_new memory) = tRequestList_new"
  "refcount (tAccessManager_new memory) = 0"
  "allRefsReleased (tAccessManager_new memory) = tEvent_new False True"
  "rl_requests (emptyRequests (tAccessManager_new memory))
     = rev (map (\<lambda>i. MakeNewRequest (memory i)) [0..<kInitialNumberOfRequestsInAccessManager])"
  by (simp_all add: tAccessManager_new_def foldl_pool foldl_pool_requests)

lemma access_inv_init: "access_inv \<lparr>as_manager = tAccessManager_new memory, as_blocked = {}\<rparr>"
  by (auto simp: access_inv_def mgr_inv_def rl_invs_def pool_ok_def acc_inv_def exclusion_def
      no_lost_wakeup_def ref_ok_def total_def manager_new_fields tEvent_new_def MakeNewRequest_def
      tRequest_InitSignal_def)

lemma access_step_inv:
  assumes "access_step s s'" and "access_inv s"
  shows "access_inv s'"
  using assms
proof (induction rule: access_step.induct)
  case (step_acquire t s memory exclusive b m')
  then show ?case by (intro Acquire_inv)
next
  case (step_release t s x m')
  then show ?case by (intro Release_inv)
next
  case (step_suspend t s m')
  then show ?case by (intro SuspendAccess_inv)
next
  case (step_resume t s b m')
  then show ?case by (intro ResumeAccess_inv)
next
  case (step_reacquire t s b m')
  then show ?case by (intro ReleaseAndReacquireAtEnd_inv)
next
  case (step_query_exclusive t s x m')
  then show ?case by (intro query_inv) auto
next
  case (step_query_shared t s x m')
  then show ?case by (intro query_inv) auto
next
  case (step_wake t s)
  then show ?case by (intro WakeUp_inv)
qed

lemma access_reachable_inv: "access_reachable s \<Longrightarrow> access_inv s"
  by (induction rule: access_reachable.induct) (auto intro: access_inv_init access_step_inv)

end
