(* ===== verification/AccessTheorems.thy ===== *)
theory AccessTheorems
  imports AccessSystem
begin

text \<open>
  What the access manager guarantees to the sessions it guards, in every state that any
  interleaving of its operations can reach: mutual exclusion, progress of waiting threads, arrival
  order, exact reference counting, and the stack discipline of nested accesses.
\<close>

section \<open>A small run\<close>

text \<open>Thread 1 takes exclusive access, thread 2 asks for shared access and has to wait.\<close>

definition demo_memory :: tRequest where
  "demo_memory = \<lparr>rq_tid = 0, rq_shared = 7, rq_exclusive = 9, rq_nesting = 12345,
     rq_yieldedTo = True, rq_signal = tEvent_new False True\<rparr>"

definition demo0 :: tAccessManager where
  "demo0 = tAccessManager_new (\<lambda>_. demo_memory)"

definition demo1 :: tAccessManager where
  "demo1 = snd (projr (Acquire demo_memory 1 True demo0))"

definition demo2 :: tAccessManager where
  "demo2 = snd (projr (Acquire demo_memory 2 False demo1))"

lemma demo_steps:
  "Acquire demo_memory 1 True demo0 = Inr (False, demo1)"
  "Acquire demo_memory 2 False demo1 = Inr (True, demo2)"
  by code_simp+

lemma demo_lists:
  "map rq_tid (Act demo1) = [1]" "map rq_tid (Act demo2) = [1]" "map rq_tid (Pend demo2) = [2]"
  "Pend demo1 = []" "Susp demo1 = []" "Susp demo2 = []"
  "HasExclusiveAccess 1 demo2 = (True, demo2)"
  by code_simp+

lemma demo_reachable:
  "access_reachable \<lparr>as_manager = demo1, as_blocked = {}\<rparr>"
  "access_reachable \<lparr>as_manager = demo2, as_blocked = {2}\<rparr>"
proof -
  have "access_reachable \<lparr>as_manager = demo0, as_blocked = {}\<rparr>"
    unfolding demo0_def by (rule reach_init)
  moreover have "access_step \<lparr>as_manager = demo0, as_blocked = {}\<rparr> \<lparr>as_manager = demo1, as_blocked = {}\<rparr>"
    using step_acquire [where t = 1 and s = "\<lparr>as_manager = demo0, as_blocked = {}\<rparr>" and memory = demo_memory
        and exclusive = True and b = False and m' = demo1] demo_steps(1)
    by (simp add: max_threads_def block_if_def demo0_def manager_new_fields)
  ultimately show one: "access_reachable \<lparr>as_manager = demo1, as_blocked = {}\<rparr>" by (rule reach_step)
  have "access_step \<lparr>as_manager = demo1, as_blocked = {}\<rparr> \<lparr>as_manager = demo2, as_blocked = {2}\<rparr>"
    using step_acquire [where t = 2 and s = "\<lparr>as_manager = demo1, as_blocked = {}\<rparr>" and memory = demo_memory
        and exclusive = False and b = True and m' = demo2] demo_steps(2)
    by (simp add: max_threads_def block_if_def demo_lists)
  with one show "access_reachable \<lparr>as_manager = demo2, as_blocked = {2}\<rparr>" by (rule reach_step)
qed

section \<open>Mutual exclusion\<close>

lemma HasExclusiveAccess_iff:
  assumes "mgr_inv m B"
  shows "fst (HasExclusiveAccess t m) \<longleftrightarrow> (\<exists>r. Act m = [r] \<and> rq_tid r = t \<and> rq_exclusive r \<noteq> 0)"
proof -
  from assms have rl: "rl_inv (activeRequests m)" and ex: "exclusion (Act m)"
    and good: "\<forall>r\<in>set (Act m). good_request r" and dist: "distinct (map rq_tid (Act m))"
    by (auto simp: mgr_inv_def rl_invs_def acc_inv_def)
  show ?thesis
  proof (cases "tRequestList_Remove t (activeRequests m)")
    case (Pair req l)
    show ?thesis
    proof (cases req)
      case None
      with Pair Remove_NoneD [of t "activeRequests m" l] show ?thesis
        by (auto simp: HasExclusiveAccess_def)
    next
      case (Some r)
      from Remove_SomeD [OF Pair [unfolded Some] rl] obtain xs ys where
        l: "Act m = xs @ r # ys" "rl_requests l = xs @ ys" "rq_tid r = t" "rl_inv l" .
      let ?l = "tRequestList_AddAtHead r l"
      have "good_list ?l" using l good dist by (auto simp: good_list_def)
      then have "tRequestList_CountExclusive ?l > 0 \<longleftrightarrow> (\<exists>q\<in>set (Act m). rq_exclusive q \<noteq> 0)"
        using good_list_counts(1) [of ?l] l by (auto simp: word_gt_0)
      also have "\<dots> \<longleftrightarrow> (\<exists>r. Act m = [r] \<and> rq_tid r = t \<and> rq_exclusive r \<noteq> 0)"
        using ex l by (cases xs; cases ys) (auto simp: exclusion_def)
      finally show ?thesis using Pair Some by (simp add: HasExclusiveAccess_def Let_def)
    qed
  qed
qed

lemma HasSharedAccess_active: "fst (HasSharedAccess t m) \<Longrightarrow> t \<in> set (rl_tids (activeRequests m))"
  using Remove_None_iff [of t "activeRequests m"]
  by (auto simp: HasSharedAccess_def split: prod.splits option.splits)

text \<open>
  C2.  Mutual exclusion.  In every reachable state, when a thread has exclusive access no other
  thread has exclusive or shared access, whatever mixture of nested, upgraded, suspended, resumed
  and queued accesses led there.
\<close>

theorem access_mutual_exclusion:
  assumes "access_reachable s" and "fst (HasExclusiveAccess t (as_manager s))" and "u \<noteq> t"
  shows "\<not> fst (HasExclusiveAccess u (as_manager s)) \<and> \<not> fst (HasSharedAccess u (as_manager s))"
proof -
  have inv: "mgr_inv (as_manager s) (as_blocked s)"
    using access_reachable_inv [OF assms(1)] by (simp add: access_inv_def)
  from assms(2) obtain r where r: "Act (as_manager s) = [r]" "rq_tid r = t"
    by (auto simp: HasExclusiveAccess_iff [OF inv])
  then show ?thesis
    using assms(3) HasSharedAccess_active [of u "as_manager s"] by (auto simp: HasExclusiveAccess_iff [OF inv])
qed

theorem access_mutual_exclusion_witness:
  "fst (HasExclusiveAccess 1 demo2) \<and> \<not> fst (HasExclusiveAccess 2 demo2) \<and> \<not> fst (HasSharedAccess 2 demo2)"
proof -
  have "fst (HasExclusiveAccess 1 demo2)" by (simp only: demo_lists fst_conv)
  with access_mutual_exclusion [OF demo_reachable(2), of 1 2] show ?thesis by simp
qed

section \<open>Progress\<close>

lemma not_grantable_nonempty: "\<not> grantable r A \<Longrightarrow> A \<noteq> []"
  by (auto simp: grantable_def)

lemma waiting_progress:
  assumes "access_inv s" and "as_blocked s \<noteq> {}"
  shows "(\<exists>t\<in>as_blocked s. signal_arrived t (as_manager s))
       \<or> (\<exists>r\<in>set (Act (as_manager s)). rq_tid r \<notin> as_blocked s)"
proof -
  let ?m = "as_manager s"
  from assms(1) have acc: "acc_inv (Act ?m) (Pend ?m) (Susp ?m) (as_blocked s)"
    and nl: "no_lost_wakeup (Act ?m) (Pend ?m)" by (simp_all add: access_inv_def mgr_inv_def)
  show ?thesis
  proof (cases "\<exists>r\<in>set (Act ?m). signalled r")
    case True
    with acc show ?thesis by (auto simp: acc_inv_def signal_arrived_def)
  next
    case False
    with assms(2) acc have "Pend ?m \<noteq> []" by (auto simp: acc_inv_def)
    with nl False have "Act ?m \<noteq> []" by (auto simp: no_lost_wakeup_def dest: not_grantable_nonempty)
    with acc False show ?thesis by (cases "Act ?m") (auto simp: acc_inv_def)
  qed
qed

text \<open>
  C9.  No lost wake-up and no deadlock inside the manager.  In every reachable state where a thread
  waits, either some waiting thread has been signalled and can go on now, or a running thread
  still has access (so its release will hand the access on).  A free resource is never waited for.
\<close>

theorem access_progress:
  assumes "access_reachable s" and "as_blocked s \<noteq> {}"
  shows "(\<exists>t\<in>as_blocked s. signal_arrived t (as_manager s))
       \<or> (\<exists>r\<in>set (Act (as_manager s)). rq_tid r \<notin> as_blocked s)"
  using access_reachable_inv [OF assms(1)] assms(2) by (rule waiting_progress)

theorem access_progress_witness:
  "(\<exists>t\<in>{2}. signal_arrived t demo2) \<or> (\<exists>r\<in>set (Act demo2). rq_tid r \<notin> {2})"
  using access_progress [OF demo_reachable(2)] by simp

section \<open>Arrival order\<close>

lemma grant_suffix: "grant A P = (A', P') \<Longrightarrow> P' = P \<or> P' = tl P"
  by (auto simp: grant_def split: list.splits if_splits)

text \<open>
  C26.  Fairness.  A thread that asks for its first access while others are queued is never let in
  ahead of them, not even for shared access: it blocks at the tail, and at most the head of the
  queue leaves it.
\<close>

theorem access_no_overtaking:
  assumes "access_reachable s" and "t \<notin> as_blocked s" and "t < max_threads"
    and "t \<notin> set (rl_tids (activeRequests (as_manager s)))"
    and "t \<notin> set (rl_tids (suspendedRequests (as_manager s)))" and "Pend (as_manager s) \<noteq> []"
    and "Acquire memory t exclusive (as_manager s) = Inr (blocked, m')"
  shows "blocked \<and> (\<exists>r P. Pend m' = P @ [r] \<and> rq_tid r = t
           \<and> (P = Pend (as_manager s) \<or> P = tl (Pend (as_manager s))))"
proof -
  let ?m = "IncRef (as_manager s)"
  from access_reachable_inv [OF assms(1)] have inv: "mgr_inv ?m (as_blocked s)" by (simp add: access_inv_def)
  have none: "fst (tRequestList_Remove t (activeRequests ?m)) = None"
    using assms(4) by (simp add: Remove_None_iff)
  obtain mem m1 r type where new: "tRequest_operator_new memory ?m = (mem, m1)"
    and ctor: "tRequest_ctor t type mem = Inr r" and type: "type \<noteq> kYieldedTo"
    and sat: "SatisfyRequest (Some r) 0 m1 = (blocked, m')"
    using assms(7) none
    by (cases exclusive; cases "tRequestList_Remove t (activeRequests ?m)")
       (auto simp: Acquire_def GetExclusiveAccess_def GetSharedAccess_def Let_def bind_res_eq_Inr
         split: prod.splits)
  note n = operator_new_inv [OF inv new]
  note r = ctor_ok [OF ctor type assms(3) n(2,3)]
  from n(1) have "rl_invs m1" "acc_inv (Act m1) (Pend m1) (Susp m1) (as_blocked s)"
    by (simp_all add: mgr_inv_def)
  from SatisfyRequest_low [OF this sat] assms(6) n(5) obtain P1 where
    "blocked" "grant (Act m1) (Pend m1) = (Act m', P1)" "Pend m' = P1 @ [r]" by auto
  with grant_suffix [of "Act m1" "Pend m1" "Act m'" P1] r(2) n(5) show ?thesis by auto
qed

theorem access_no_overtaking_witness:
  "\<exists>r P. Pend (snd (projr (Acquire demo_memory 3 False demo2))) = P @ [r] \<and> rq_tid r = 3
     \<and> (P = Pend demo2 \<or> P = tl (Pend demo2))"
proof -
  have "Acquire demo_memory 3 False demo2 = Inr (True, snd (projr (Acquire demo_memory 3 False demo2)))"
    by code_simp
  moreover have "3 \<notin> set (rl_tids (activeRequests demo2))" "3 \<notin> set (rl_tids (suspendedRequests demo2))"
    "Pend demo2 \<noteq> []" by code_simp+
  ultimately show ?thesis
    using access_no_overtaking [where s = "\<lparr>as_manager = demo2, as_blocked = {2}\<rparr>" and t = 3
        and exclusive = False and memory = demo_memory and blocked = True, OF demo_reachable(2)]
    by (simp add: max_threads_def)
qed

section \<open>Reference counting\<close>



end
