(* ===== verification/AccessNesting.thy ===== *)
theory AccessNesting
  imports AccessSystem
begin

text \<open>
  The access manager as one thread sees it that nobody else disturbs.  Its nested accesses are a
  stack, innermost first; the request with its bit-coded \<open>nesting\<close> word, the two lists and the
  reference count implement that stack.  \<open>stack_op\<close> is the specification, \<open>manager_op\<close> the code;
  the refinement and the round trips of \<open>ReleaseAll\<close> and \<open>AcquireAll\<close> are proved from the
  lemmas of this theory.
\<close>

section \<open>One thread on the manager\<close>

definition lone :: "nat \<Rightarrow> bool list \<Rightarrow> tAccessManager \<Rightarrow> bool" where
  "lone t st m \<longleftrightarrow> access_inv \<lparr>as_manager = m, as_blocked = {}\<rparr> \<and> Pend m = [] \<and> Susp m = []
     \<and> (if st = [] then Act m = [] else \<exists>r. Act m = [r] \<and> rq_tid r = t \<and> req_stack r = st)"

lemma lone_new: "lone t [] (tAccessManager_new memory)"
  by (simp add: lone_def access_inv_init manager_new_fields)

lemma lone_inv:
  assumes "lone t st m"
  shows "mgr_inv m {}" and "ref_ok 0 m" and "rl_inv (activeRequests m)"
    and "activeRequests m = tRequestList_new \<longleftrightarrow> st = []"
    and "pendingRequests m = tRequestList_new" and "suspendedRequests m = tRequestList_new"
  using assms by (auto simp: lone_def access_inv_def mgr_inv_def rl_invs_def intro!: rl_eqI split: if_splits)

lemma lone_request:
  assumes "lone t st m" and "st \<noteq> []"
  obtains r where "Act m = [r]" and "rq_tid r = t" and "req_stack r = st" and "good_request r"
    and "\<not> signalled r" and "tRequestList_Remove t (activeRequests m) = (Some r, tRequestList_new)"
proof -
  note i = lone_inv [OF assms(1)]
  from assms obtain r where r: "Act m = [r]" "rq_tid r = t" "req_stack r = st"
    by (auto simp: lone_def)
  then obtain q l where rem: "tRequestList_Remove t (activeRequests m) = (Some q, l)"
    using Remove_None_iff [of t "activeRequests m"] by (cases "tRequestList_Remove t (activeRequests m)") auto
  obtain xs ys where l: "Act m = xs @ q # ys" "rl_requests l = xs @ ys" "rl_inv l" "good_request q" "\<not> signalled q"
    by (rule own_request [OF i(1) _ rem]) simp_all
  with r have "q = r" "l = tRequestList_new" by (auto simp: append_eq_Cons_conv intro!: rl_eqI)
  with rem r l show ?thesis by (intro that [of r]) simp_all
qed

lemma lone_idle:
  assumes "lone t [] m"
  shows "tRequestList_Remove u (activeRequests m) = (None, tRequestList_new)"
  using assms lone_inv(4) [OF assms] by (simp add: tRequestList_Remove_def tRequestList_new_def)

lemma lone_size: "lone t st m \<Longrightarrow> length st \<le> 32"
  by (cases "st = []") (auto elim!: lone_request simp: good_request_def req_count_le)

text \<open>The counters follow the stack.\<close>

lemma lone_total: "lone t st m \<Longrightarrow> total m = length st"
  by (auto simp: lone_def total_def split: if_splits)

lemma lone_counts:
  assumes "lone t st m"
  shows "unat (DebugGetRefCount m) = length st" and "unat (DebugGetActiveCount m) = length st"
    and "unat (DebugGetActiveExclusiveCount m) = length (filter id st)"
    and "unat (DebugGetActiveSharedCount m) = length (filter Not st)"
proof -
  note i = lone_inv [OF assms]
  show "unat (DebugGetRefCount m) = length st"
    using i(2) lone_total [OF assms] by (simp add: ref_ok_def DebugGetRefCount_def)
  have "unat (DebugGetActiveCount m) = length st \<and> unat (DebugGetActiveExclusiveCount m) = length (filter id st)
    \<and> unat (DebugGetActiveSharedCount m) = length (filter Not st)"
  proof (cases "st = []")
    case True
    with i(4) show ?thesis
      by (simp add: DebugGetActiveCount_def DebugGetActiveExclusiveCount_def DebugGetActiveSharedCount_def
          tRequestList_new_def tRequestList_Count_def tRequestList_CountShared_def tRequestList_CountExclusive_def)
  next
    case False
    from lone_request [OF assms this] obtain r where r: "Act m = [r]" "req_stack r = st" "req_inv r"
      by (metis good_request_def)
    then have rl: "rl_shared (activeRequests m) = rq_shared r" "rl_exclusive (activeRequests m) = rq_exclusive r"
      using i(3) by (simp_all add: rl_inv_def)
    have "length (filter id st) + length (filter Not st) = length st"
      using sum_length_filter_compl [of id st] by simp
    moreover have "unat (rq_exclusive r) = length (filter id st)" "req_count r = length st"
      using r by (auto simp: req_inv_def)
    ultimately show ?thesis
      using rl unat_Count [OF r(3)]
      by (simp add: DebugGetActiveCount_def DebugGetActiveExclusiveCount_def DebugGetActiveSharedCount_def
          tRequestList_Count_def tRequest_Count_def tRequestList_CountShared_def tRequestList_CountExclusive_def
          req_count_def)
  qed
  then show "unat (DebugGetActiveCount m) = length st"
    "unat (DebugGetActiveExclusiveCount m) = length (filter id st)"
    "unat (DebugGetActiveSharedCount m) = length (filter Not st)" by auto
qed

section \<open>The operations on the stack\<close>

text \<open>
  What one thread can ask of a manager; \<open>ReacquireOp\<close> is \<open>AcquireAll\<close> on what \<open>ReleaseAll\<close>
  returned, with the size of the stack as its result.  \<open>WaitOp\<close> is a wait for all references with
  a time-out, which returns, throws the code of an exception or goes on for ever.
\<close>

datatype access_op = AcquireOp bool | ReleaseOp | ReleaseAllOp | AcquireAllOp "bool list" | ReacquireOp
  | QueryExclusive | QueryShared | RefCountOp | ActiveCountOp | ActiveExclusiveOp | ActiveSharedOp | WaitOp int

datatype access_result = Flag bool | Size u32 | Accesses "bool list" | Returns | Throws int | Blocks

text \<open>The specification: a stack of at most 32 accesses.\<close>

abbreviation nesting_full :: exn where "nesting_full \<equiv> Crash ''(shared + exclusive) < 32''"

fun stack_op :: "access_op \<Rightarrow> bool list \<Rightarrow> exn + access_result \<times> bool list" where
  "stack_op (AcquireOp x) st = (if length st < 32 then Inr (Flag False, x # st) else Inl nesting_full)"
| "stack_op ReleaseOp [] = Inl (Crash ''ourRequest is null'')"
| "stack_op ReleaseOp (x # st) = Inr (Flag x, st)"
| "stack_op ReleaseAllOp st = Inr (Accesses st, [])"
| "stack_op (AcquireAllOp xs) st =
     (if xs = [] then Inl (Crash ''accessStack.size > 0'')
      else if 32 < length xs then Inl (Crash ''accessStack.size <= kMaxNestLevel'')
      else if 32 < length xs + length st then Inl nesting_full else Inr (Flag False, xs @ st))"
| "stack_op ReacquireOp st =
     (if st = [] then Inl (Crash ''accessStack.size > 0'') else Inr (Size (of_nat (length st)), st))"
| "stack_op QueryExclusive st = Inr (Flag (True \<in> set st), st)"
| "stack_op QueryShared st = Inr (Flag (st \<noteq> [] \<and> True \<notin> set st), st)"
| "stack_op RefCountOp st = Inr (Size (of_nat (length st)), st)"
| "stack_op ActiveCountOp st = Inr (Size (of_nat (length st)), st)"
| "stack_op ActiveExclusiveOp st = Inr (Size (of_nat (length (filter id st))), st)"
| "stack_op ActiveSharedOp st = Inr (Size (of_nat (length (filter Not st))), st)"
| "stack_op (WaitOp timeout) st =
     Inr (if st = [] then Returns else if timeout = -1 then Blocks else Throws easyrdma_Error_Timeout, st)"

text \<open>
  The code: the result of \<open>Acquire\<close> is whether the thread has to wait.  The wait on the event is
  woken \<open>wakes\<close> times without cause before its time is over.
\<close>

definition wait_alone :: "nat \<Rightarrow> int \<Rightarrow> tAccessManager \<Rightarrow> (exn + tEvent) option" where
  "wait_alone wakes timeout m =
     WaitForAllReferencesToBeReleasedWithTimeout timeout
       (replicate wakes (False, allRefsReleased m) @ [(True, allRefsReleased m)]) m"

definition wait_result :: "(exn + tEvent) option \<Rightarrow> access_result" where
  "wait_result w =
     (case w of None \<Rightarrow> Blocks
      | Some (Inr _) \<Rightarrow> Returns
      | Some (Inl e) \<Rightarrow> Throws (case e of RdmaException r \<Rightarrow> GetCode r | _ \<Rightarrow> 0))"

fun manager_op ::
  "tRequest \<Rightarrow> nat \<Rightarrow> nat \<Rightarrow> access_op \<Rightarrow> tAccessManager \<Rightarrow> exn + access_result \<times> tAccessManager" where
  "manager_op memory wakes t (AcquireOp x) m = map_sum id (map_prod Flag id) (Acquire memory t x m)"
| "manager_op memory wakes t ReleaseOp m = map_sum id (map_prod Flag id) (Release t m)"
| "manager_op memory wakes t ReleaseAllOp m = map_sum id (map_prod Accesses id) (ReleaseAll t m)"
| "manager_op memory wakes t (AcquireAllOp xs) m =
     bind_res (AcquireAll memory t xs m) (\<lambda>(blocked, _, m). Inr (Flag blocked, m))"
| "manager_op memory wakes t ReacquireOp m =
     bind_res (ReleaseAll t m) (\<lambda>(xs, m).
     bind_res (AcquireAll memory t xs m) (\<lambda>(_, _, m). Inr (Size (of_nat (length xs)), m)))"
| "manager_op memory wakes t QueryExclusive m = Inr (map_prod Flag id (HasExclusiveAccess t m))"
| "manager_op memory wakes t QueryShared m = Inr (map_prod Flag id (HasSharedAccess t m))"
| "manager_op memory wakes t RefCountOp m = Inr (Size (DebugGetRefCount m), m)"
| "manager_op memory wakes t ActiveCountOp m = Inr (Size (DebugGetActiveCount m), m)"
| "manager_op memory wakes t ActiveExclusiveOp m = Inr (Size (DebugGetActiveExclusiveCount m), m)"
| "manager_op memory wakes t ActiveSharedOp m = Inr (Size (DebugGetActiveSharedCount m), m)"
| "manager_op memory wakes t (WaitOp timeout) m =
     Inr (wait_result (wait_alone wakes timeout m), m)"

lemma SatisfyRequest_free:
  assumes "activeRequests m = tRequestList_new" and "pendingRequests m = tRequestList_new"
  shows "SatisfyRequest (Some r) 0 m = (False, m\<lparr>activeRequests := tRequestList_AddAtHead r tRequestList_new\<rparr>)"
  using assms
  by (simp add: SatisfyRequest.simps canBeSatisfied_def tRequestList_new_def tRequestList_Count_def
      tRequestList_CountExclusive_def)

lemma SatisfyPending_none: "pendingRequests m = tRequestList_new \<Longrightarrow> SatisfyPending m = m"
  by (simp add: SatisfyPending_def tRequestList_RemoveHead_def tRequestList_new_def)

lemma lone_acquired:
  assumes "lone t st m" and "t < max_threads" and "Acquire memory t x m = Inr (False, m')"
    and "Act m' = [r]" and "rq_tid r = t" and "req_stack r = x # st" and "Pend m' = []" and "Susp m' = []"
  shows "lone t (x # st) m'"
  using assms Acquire_inv [of "\<lparr>as_manager = m, as_blocked = {}\<rparr>" t memory x False m'] lone_inv(6) [OF assms(1)]
  by (simp add: lone_def block_if_def)

lemma lone_acquire_first:
  assumes "lone t [] m" and "t < max_threads"
  shows "\<exists>m'. Acquire memory t x m = Inr (False, m') \<and> lone t [x] m'"
proof -
  let ?m = "IncRef m" and ?type = "if x then kExclusive else kShared"
  note i = lone_inv [OF assms(1)]
  obtain mem m1 where new: "tRequest_operator_new memory ?m = (mem, m1)" by (metis surj_pair)
  note n = operator_new_inv [OF iffD2 [OF mgr_inv_IncRef(1) i(1)] new]
  have lists: "activeRequests m1 = tRequestList_new" "pendingRequests m1 = tRequestList_new"
    "suspendedRequests m1 = tRequestList_new"
    using n(1,4-6) i(4-6) by (auto simp: mgr_inv_def rl_invs_def intro!: rl_eqI)
  have "\<exists>r. tRequest_ctor t ?type mem = Inr r"
    using Add_kShared [OF req_inv_fresh(1)] Add_kExclusive [OF req_inv_fresh(1)]
    by (fastforce simp: tRequest_ctor_def req_inv_fresh)
  then obtain r where ctor: "tRequest_ctor t ?type mem = Inr r" ..
  have "?type \<noteq> kYieldedTo" by simp
  from ctor_ok [OF ctor this assms(2) n(2,3)] have r: "rq_tid r = t" "req_stack r = [x]" by auto
  let ?m' = "m1\<lparr>activeRequests := tRequestList_AddAtHead r tRequestList_new\<rparr>"
  have "Acquire memory t x m = Inr (False, ?m')"
    using new ctor lone_idle [OF assms(1), of t] SatisfyRequest_free [OF lists(1,2)]
    by (cases x) (simp_all add: Acquire_def Let_def GetExclusiveAccess_def GetSharedAccess_def)
  with lone_acquired [OF assms this] r lists show ?thesis by simp
qed

lemma lone_acquire_nested:
  assumes "lone t st m" and "st \<noteq> []" and "t < max_threads"
  shows "if length st < 32 then \<exists>m'. Acquire memory t x m = Inr (False, m') \<and> lone t (x # st) m'
    else Acquire memory t x m = Inl (Crash ''(shared + exclusive) < 32'')"
proof -
  note i = lone_inv [OF assms(1)]
  let ?type = "if x then kExclusive else kShared"
  from lone_request [OF assms(1,2)] obtain r where r: "Act m = [r]" "rq_tid r = t" "req_stack r = st"
    "good_request r" "tRequestList_Remove t (activeRequests m) = (Some r, tRequestList_new)" by metis
  then have inv: "req_inv r" "\<not> rq_yieldedTo r" and cnt: "req_count r = length st"
    by (auto simp: good_request_def)
  have acq: "Acquire memory t x m
    = bind_res (tRequest_Add ?type r) (\<lambda>r'. Inr (False, (IncRef m)\<lparr>activeRequests := tRequestList_AddAtHead r' tRequestList_new\<rparr>))"
    using r(5) i(5) by (simp add: Acquire_def Let_def GetExclusiveAccess_def GetSharedAccess_def SatisfyRequest_free)
  show ?thesis
  proof (cases "length st < 32")
    case True
    with Add_kShared [OF inv(1)] Add_kExclusive [OF inv(1) _ inv(2)] obtain r' where
      r': "tRequest_Add ?type r = Inr r'" "req_stack r' = x # req_stack r" "rq_tid r' = rq_tid r"
      unfolding cnt by (cases x) auto
    with acq have "Acquire memory t x m
      = Inr (False, (IncRef m)\<lparr>activeRequests := tRequestList_AddAtHead r' tRequestList_new\<rparr>)" by simp
    with lone_acquired [OF assms(1,3) this] True r r' i show ?thesis by simp
  next
    case False
    with lone_size [OF assms(1)] have "req_count r = 32" by (simp add: cnt)
    with Add_full [OF inv(1) this inv(2)] acq False show ?thesis by simp
  qed
qed

lemma lone_acquire:
  assumes "lone t st m" and "t < max_threads" and "length st < 32"
  obtains m' where "Acquire memory t x m = Inr (False, m')" and "lone t (x # st) m'"
  using assms lone_acquire_first [of t m memory x] lone_acquire_nested [of t st m memory x]
  by (cases "st = []") auto

lemma lone_release:
  assumes "lone t (x # st) m"
  obtains m' where "Release t m = Inr (x, m')" and "lone t st m'"
proof -
  note i = lone_inv [OF assms]
  from lone_request [OF assms] obtain r where r: "Act m = [r]" "rq_tid r = t" "req_stack r = x # st"
    "good_request r" "tRequestList_Remove t (activeRequests m) = (Some r, tRequestList_new)" by blast
  from RemoveLast_good [OF r(4)] r(3) obtain r' where r': "tRequest_RemoveLast r = Inr (x, r')" "req_stack r' = st"
    "rq_tid r' = rq_tid r" "tRequest_Count r' \<noteq> 0 \<longrightarrow> good_request r'" "tRequest_Count r' = 0 \<longrightarrow> req_count r' = 0"
    by auto
  let ?m1 = "if tRequest_Count r' \<noteq> 0 then m\<lparr>activeRequests := tRequestList_AddAtHead r' tRequestList_new\<rparr>
             else tRequest_operator_delete r' (m\<lparr>activeRequests := tRequestList_new\<rparr>)"
  have empty: "tRequest_Count r' = 0 \<longleftrightarrow> st = []"
    using r'(2,4,5) by (metis good_request_def length_0_conv length_req_stack less_numeral_extra(3))
  have pend: "SatisfyPending ?m1 = ?m1"
    using i(5) by (intro SatisfyPending_none) (simp add: tRequest_operator_delete_def)
  from release_own [OF i(1) _ r(5) r'(1) refl] i(2) have "ref_ok 1 ?m1" by (simp add: ref_ok_def)
  from DecRef_ok [OF this] obtain m' where m': "DecRef ?m1 = Inr m'" "activeRequests m' = activeRequests ?m1"
    "pendingRequests m' = pendingRequests ?m1" "suspendedRequests m' = suspendedRequests ?m1" by blast
  have rel: "Release t m = Inr (x, m')"
    using r(5) r'(1) m'(1) by (simp add: Release_def Let_def pend cong: if_cong)
  from assms have "access_inv \<lparr>as_manager = m, as_blocked = {}\<rparr>" by (simp add: lone_def)
  from Release_inv [OF this, of t x m'] rel have "access_inv \<lparr>as_manager = m', as_blocked = {}\<rparr>" by simp
  then have "lone t st m'"
    using m'(2-4) i(5,6) r(2) r'(2,3) empty by (auto simp: lone_def tRequest_operator_delete_def)
  with rel show ?thesis by (rule that)
qed

lemma lone_queries:
  assumes "lone t st m"
  shows "HasExclusiveAccess t m = (True \<in> set st, m)"
    and "HasSharedAccess t m = (st \<noteq> [] \<and> True \<notin> set st, m)"
proof -
  note i = lone_inv [OF assms]
  have "HasExclusiveAccess t m = (True \<in> set st, m) \<and> HasSharedAccess t m = (st \<noteq> [] \<and> True \<notin> set st, m)"
  proof (cases "st = []")
    case True
    with lone_idle [of t m t] assms show ?thesis by (simp add: HasExclusiveAccess_def HasSharedAccess_def)
  next
    case False
    from lone_request [OF assms this] obtain r where r: "Act m = [r]"
      "tRequestList_Remove t (activeRequests m) = (Some r, tRequestList_new)" by metis
    have "tRequestList_AddAtHead r tRequestList_new = activeRequests m"
      using r(1) i(3) by (intro rl_eqI) simp_all
    then have "HasExclusiveAccess t m = (DebugGetActiveExclusiveCount m > 0, m)"
      "HasSharedAccess t m = (DebugGetActiveExclusiveCount m = 0 \<and> DebugGetActiveSharedCount m > 0, m)"
      using r(2) by (simp_all add: HasExclusiveAccess_def HasSharedAccess_def DebugGetActiveExclusiveCount_def
          DebugGetActiveSharedCount_def)
    moreover have "DebugGetActiveExclusiveCount m > 0 \<longleftrightarrow> True \<in> set st"
      "DebugGetActiveExclusiveCount m = 0 \<longleftrightarrow> True \<notin> set st"
      "DebugGetActiveSharedCount m > 0 \<longleftrightarrow> False \<in> set st"
      using lone_counts(3,4) [OF assms]
      by (auto simp: word_gt_0 unat_eq_0 [symmetric] filter_empty_conv)
    moreover have "False \<in> set st \<or> True \<in> set st" using False by (cases st) auto
    ultimately show ?thesis using False by auto
  qed
  then show "HasExclusiveAccess t m = (True \<in> set st, m)"
    "HasSharedAccess t m = (st \<noteq> [] \<and> True \<notin> set st, m)" by auto
qed

section \<open>Releasing and acquiring everything\<close>

lemma lone_acquire_all:
  assumes "lone t st m" and "t < max_threads" and "length xs + length st \<le> 32"
  shows "\<exists>m'. AcquireAll_loop memory t xs m = Inr (False, [], m') \<and> lone t (rev xs @ st) m'"
  using assms
proof (induction xs arbitrary: st m)
  case Nil
  then show ?case by simp
next
  case (Cons x xs)
  from Cons.prems(3) have "length st < 32" by simp
  from lone_acquire [OF Cons.prems(1,2) this, of memory x] obtain m1 where
    m1: "Acquire memory t x m = Inr (False, m1)" "lone t (x # st) m1" .
  from Cons.IH [OF m1(2) Cons.prems(2)] Cons.prems(3) m1(1) show ?case by simp
qed

lemma lone_acquire_too_many:
  assumes "lone t st m" and "t < max_threads" and "32 < length xs + length st"
  shows "AcquireAll_loop memory t xs m = Inl nesting_full"
  using assms
proof (induction xs arbitrary: st m)
  case Nil
  with lone_size show ?case by fastforce
next
  case (Cons x xs)
  show ?case
  proof (cases "length st < 32")
    case True
    from lone_acquire [OF Cons.prems(1,2) this, of memory x] obtain m1 where
      m1: "Acquire memory t x m = Inr (False, m1)" "lone t (x # st) m1" .
    from Cons.IH [OF m1(2) Cons.prems(2)] Cons.prems(3) m1(1) show ?thesis by simp
  next
    case False
    then have "st \<noteq> []" by auto
    from lone_acquire_nested [OF Cons.prems(1) this Cons.prems(2), of memory x] False show ?thesis by simp
  qed
qed

lemma ReleaseAll_loop_lone:
  assumes "lone t st m" and "length acc + length st \<le> kMaxNestLevel"
  shows "\<exists>m'. ReleaseAll_loop t acc m = Inr (acc @ st, m') \<and> lone t [] m'"
  using assms
proof (induction st arbitrary: acc m)
  case Nil
  then show ?case by (simp add: ReleaseAll_loop.simps lone_queries)
next
  case (Cons x st)
  from lone_release [OF Cons.prems(1)] obtain m1 where m1: "Release t m = Inr (x, m1)" "lone t st m1" .
  from Cons.prems(2) Cons.IH [OF m1(2), of "acc @ [x]"] obtain m' where
    "ReleaseAll_loop t (acc @ [x]) m1 = Inr (acc @ x # st, m')" "lone t [] m'" by auto
  with m1(1) Cons.prems show ?case
    by (auto simp: ReleaseAll_loop.simps [of t acc m] lone_queries [OF Cons.prems(1)])
qed

lemma lone_release_all:
  assumes "lone t st m"
  obtains m' where "ReleaseAll t m = Inr (st, m')" and "lone t [] m'"
  using ReleaseAll_loop_lone [OF assms, of "[]"] lone_size [OF assms]
  by (auto simp: ReleaseAll_def kMaxNestLevel_def)

lemma lone_acquire_stack:
  assumes "lone t st m" and "t < max_threads" and "xs \<noteq> []" and "length xs \<le> 32"
  shows "if length xs + length st \<le> 32
    then \<exists>m'. AcquireAll memory t xs m = Inr (False, [], m') \<and> lone t (xs @ st) m'
    else AcquireAll memory t xs m = Inl nesting_full"
  using lone_acquire_all [OF assms(1,2), of "rev xs" memory] lone_acquire_too_many [OF assms(1,2), of "rev xs" memory]
    assms(3,4)
  by (auto simp: AcquireAll_def cpp_assert_def kMaxNestLevel_def)

section \<open>The refinement\<close>

declare tEvent_acquireWithTimeout.simps [simp del]

lemma wait_loop:
  "wait_result (tEvent_acquireWithTimeout timeout (replicate n (False, e) @ [(True, e)]) e)
     = (if ev_signalled e then Returns else if timeout = -1 then Blocks else Throws easyrdma_Error_Timeout)"
proof (cases "ev_signalled e")
  case True
  then show ?thesis by (subst tEvent_acquireWithTimeout.simps) (simp add: wait_result_def)
next
  case False
  then have step: "tEvent_acquireWithTimeout timeout ((to, e) # ws) e
      = (if timeout \<noteq> -1 \<and> to then Some (Inl (RDMA_THROW ''tAccessManager.h'' 103 easyrdma_Error_Timeout))
         else tEvent_acquireWithTimeout timeout ws e)" for to ws
    by (subst tEvent_acquireWithTimeout.simps) simp
  have stop: "tEvent_acquireWithTimeout to [] e = None" for to
    using False by (subst tEvent_acquireWithTimeout.simps) simp
  show ?thesis using False
    by (induction n) (simp_all add: step stop wait_result_def RDMA_THROW_def RdmaError_of_def GetCode_def)
qed

lemma unat_eq_of_nat: "unat (w::u32) = n \<Longrightarrow> w = of_nat n"
  by auto

lemma manager_op_refines:
  assumes "lone t st m" and "t < max_threads"
  shows "case stack_op op st of
           Inl e \<Rightarrow> manager_op memory wakes t op m = Inl e
         | Inr (b, st') \<Rightarrow> \<exists>m'. manager_op memory wakes t op m = Inr (b, m') \<and> lone t st' m'"
proof (cases op)
  case (AcquireOp x)
  show ?thesis
  proof (cases "length st < 32")
    case True
    from lone_acquire [OF assms this, of memory x] obtain m' where
      "Acquire memory t x m = Inr (False, m')" "lone t (x # st) m'" .
    with True AcquireOp show ?thesis by simp
  next
    case False
    then have "st \<noteq> []" by auto
    from lone_acquire_nested [OF assms(1) this assms(2), of memory x] False AcquireOp show ?thesis by simp
  qed
next
  case ReleaseOp
  show ?thesis
  proof (cases st)
    case Nil
    with assms(1) ReleaseOp lone_idle [of t m t] show ?thesis by (simp add: Release_def)
  next
    case (Cons x st')
    from lone_release [OF assms(1) [unfolded Cons]] obtain m' where "Release t m = Inr (x, m')" "lone t st' m'" .
    with Cons ReleaseOp show ?thesis by simp
  qed
next
  case ReleaseAllOp
  from lone_release_all [OF assms(1)] obtain m' where "ReleaseAll t m = Inr (st, m')" "lone t [] m'" .
  with ReleaseAllOp show ?thesis by simp
next
  case (AcquireAllOp xs)
  show ?thesis
  proof (cases "xs = [] \<or> 32 < length xs")
    case True
    with AcquireAllOp show ?thesis by (auto simp: AcquireAll_def cpp_assert_def kMaxNestLevel_def)
  next
    case False
    with AcquireAllOp lone_acquire_stack [OF assms, of xs memory] show ?thesis by (auto split: if_splits)
  qed
next
  case ReacquireOp
  from lone_release_all [OF assms(1)] obtain m1 where m1: "ReleaseAll t m = Inr (st, m1)" "lone t [] m1" .
  show ?thesis
  proof (cases "st = []")
    case True
    with ReacquireOp m1(1) show ?thesis by (simp add: AcquireAll_def cpp_assert_def)
  next
    case False
    from lone_acquire_stack [OF m1(2) assms(2) this, of memory] lone_size [OF assms(1)] ReacquireOp m1(1) False
    show ?thesis by auto
  qed
next
  case (WaitOp timeout)
  have "refcount m = 0 \<longleftrightarrow> st = []"
    using lone_counts(1) [OF assms(1)] by (auto simp: DebugGetRefCount_def unat_eq_0 [symmetric])
  with lone_inv(2) [OF assms(1)] WaitOp assms(1) show ?thesis
    by (simp add: wait_alone_def WaitForAllReferencesToBeReleasedWithTimeout_def ref_ok_def wait_loop)
next
  case QueryExclusive
  with assms(1) show ?thesis by (simp add: lone_queries [OF assms(1)])
next
  case QueryShared
  with assms(1) show ?thesis by (simp add: lone_queries [OF assms(1)])
next
  case RefCountOp
  with assms(1) show ?thesis by (simp add: lone_counts [OF assms(1), THEN unat_eq_of_nat])
next
  case ActiveCountOp
  with assms(1) show ?thesis by (simp add: lone_counts [OF assms(1), THEN unat_eq_of_nat])
next
  case ActiveExclusiveOp
  with assms(1) show ?thesis by (simp add: lone_counts [OF assms(1), THEN unat_eq_of_nat])
next
  case ActiveSharedOp
  with assms(1) show ?thesis by (simp add: lone_counts [OF assms(1), THEN unat_eq_of_nat])
qed

text \<open>Operations one after the other, stopping at the first that fails.\<close>

fun run_ops :: "('o \<Rightarrow> 's \<Rightarrow> exn + 'r \<times> 's) \<Rightarrow> 'o list \<Rightarrow> 's \<Rightarrow> exn + 'r list \<times> 's" where
  "run_ops step [] s = Inr ([], s)"
| "run_ops step (p # ps) s =
     bind_res (step p s) (\<lambda>(b, s'). bind_res (run_ops step ps s') (\<lambda>(bs, s''). Inr (b # bs, s'')))"

locale op_simulation =
  fixes spec :: "'o \<Rightarrow> 'a \<Rightarrow> exn + 'r \<times> 'a"
    and code :: "'o \<Rightarrow> 'c \<Rightarrow> exn + 'r \<times> 'c"
    and rel :: "'a \<Rightarrow> 'c \<Rightarrow> bool"
  assumes step_refines: "rel a c \<Longrightarrow>
    (case spec p a of Inl e \<Rightarrow> code p c = Inl e | Inr (b, a') \<Rightarrow> \<exists>c'. code p c = Inr (b, c') \<and> rel a' c')"
begin

lemma run_refines:
  "rel a c \<Longrightarrow> (case run_ops spec ps a of
     Inl e \<Rightarrow> run_ops code ps c = Inl e
   | Inr (bs, a') \<Rightarrow> \<exists>c'. run_ops code ps c = Inr (bs, c') \<and> rel a' c')"
proof (induction ps arbitrary: a c)
  case Nil
  then show ?case by simp
next
  case (Cons p ps)
  show ?case
  proof (cases "spec p a")
    case (Inl e)
    with step_refines [OF Cons.prems, of p] show ?thesis by (simp add: bind_res_def)
  next
    case (Inr r)
    then obtain b a' where sp: "spec p a = Inr (b, a')" by (cases r) auto
    with step_refines [OF Cons.prems, of p] obtain c' where c': "code p c = Inr (b, c')" "rel a' c'" by auto
    from Cons.IH [OF c'(2)] sp c'(1) show ?thesis
      by (auto simp: bind_res_def split: sum.splits)
  qed
qed

end

interpretation nested: op_simulation stack_op "manager_op memory wakes t"
    "\<lambda>st m. lone t st m \<and> t < max_threads" for memory wakes t
proof (unfold_locales, elim conjE)
  fix st :: "bool list" and m p
  assume "lone t st m" "t < max_threads"
  from manager_op_refines [OF this, where op = p and memory = memory and wakes = wakes] this(2)
  show "case stack_op p st of
       Inl e \<Rightarrow> manager_op memory wakes t p m = Inl e
     | Inr (b, st') \<Rightarrow> \<exists>m'. manager_op memory wakes t p m = Inr (b, m') \<and> lone t st' m' \<and> t < max_threads"
    by (auto split: sum.splits)
qed

end
