(* ===== verification/AccessPrivate.thy ===== *)
theory AccessPrivate
  imports AccessSystem
begin

text \<open>
  What the other threads do to a thread's nested accesses: nothing.  \<open>held\<close> maps each thread to
  the stack of accesses it holds, waits for or has suspended; under every interleaving an
  acquisition pushes on the caller's stack, a release pops from it, and every other operation,
  whoever runs it, leaves all stacks as they are.
\<close>

section \<open>Stacks of accesses\<close>

definition held :: "tAccessManager \<Rightarrow> nat \<Rightarrow> bool list" where
  "held m t = (case find (\<lambda>r. rq_tid r = t) (Act m @ Pend m @ Susp m) of None \<Rightarrow> [] | Some r \<Rightarrow> req_stack r)"

abbreviation claim :: "tRequest \<Rightarrow> nat \<times> bool list" where
  "claim r \<equiv> (rq_tid r, req_stack r)"

definition claims :: "tAccessManager \<Rightarrow> (nat \<times> bool list) set" where
  "claims m = claim ` (set (Act m) \<union> set (Pend m) \<union> set (Susp m))"

definition owns_stack :: "tAccessManager \<Rightarrow> nat \<Rightarrow> bool list \<Rightarrow> (nat \<times> bool list) set \<Rightarrow> bool" where
  "owns_stack m t st C \<longleftrightarrow> claims m = (if st = [] then C else insert (t, st) C) \<and> t \<notin> fst ` C"

lemma req_stack_cong:
  "rq_nesting r = rq_nesting q \<Longrightarrow> rq_shared r = rq_shared q \<Longrightarrow> rq_exclusive r = rq_exclusive q
   \<Longrightarrow> req_stack r = req_stack q"
  by (simp add: req_stack_def)

lemma req_stack_signals [simp]:
  "req_stack (tRequest_Signal r) = req_stack r" "req_stack (consume_signal t r) = req_stack r"
  by (rule req_stack_cong; simp add: tRequest_Signal_def)+

lemma good_request_stack: "good_request r \<Longrightarrow> req_stack r \<noteq> []"
  by (metis good_request_def length_greater_0_conv length_req_stack)

lemma held_iff:
  assumes "mgr_inv m B"
  shows "held m t = st \<longleftrightarrow> (if st = [] then t \<notin> fst ` claims m else (t, st) \<in> claims m)"
proof -
  obtain L where L: "L = Act m @ Pend m @ Susp m" by simp
  have good: "\<forall>r\<in>set L. req_stack r \<noteq> []" and inj: "inj_on rq_tid (set L)"
    using assms unfolding L mgr_inv_def acc_inv_def distinct_map by (auto simp: good_request_stack)
  have mem: "claims m = claim ` set L" by (auto simp: claims_def L)
  have h: "held m t = (case find (\<lambda>r. rq_tid r = t) L of None \<Rightarrow> [] | Some r \<Rightarrow> req_stack r)"
    by (simp add: held_def L)
  show ?thesis
  proof (cases "find (\<lambda>r. rq_tid r = t) L")
    case None
    then have "\<forall>r\<in>set L. rq_tid r \<noteq> t" by (simp add: find_None_iff)
    then have "t \<notin> fst ` claims m" "(t, st) \<notin> claims m" by (auto simp: mem)
    with None show ?thesis by (auto simp: h)
  next
    case (Some r)
    then have r: "r \<in> set L" "rq_tid r = t" by (auto simp: find_Some_iff)
    have uniq: "q = r" if "q \<in> set L" "rq_tid q = t" for q using inj_onD [OF inj] that r by metis
    have "(t, st) \<in> claims m \<longleftrightarrow> (\<exists>q\<in>set L. rq_tid q = t \<and> st = req_stack q)" by (auto simp: mem)
    then have "(t, st) \<in> claims m \<longleftrightarrow> st = req_stack r" using r uniq by blast
    moreover have "t \<in> fst ` claims m" using r by (force simp: mem)
    ultimately show ?thesis using Some good r(1) by (auto simp: h)
  qed
qed

lemma held_same: "mgr_inv m B \<Longrightarrow> mgr_inv m' B' \<Longrightarrow> claims m' = claims m \<Longrightarrow> held m' = held m"
  using held_iff by (intro ext) metis

lemma held_update:
  assumes "mgr_inv m B" and "mgr_inv m' B'" and "owns_stack m t st C" and "owns_stack m' t st' C"
  shows "held m t = st" and "held m' = (held m)(t := st')"
proof -
  show "held m t = st"
    using assms(1,3) by (simp add: held_iff owns_stack_def)
  show "held m' = (held m)(t := st')"
  proof
    fix u
    show "held m' u = ((held m)(t := st')) u"
    proof (cases "u = t")
      case True
      with assms(2,4) show ?thesis by (simp add: held_iff owns_stack_def)
    next
      case False
      then have "u \<in> fst ` claims m' \<longleftrightarrow> u \<in> fst ` claims m" "(u, s) \<in> claims m' \<longleftrightarrow> (u, s) \<in> claims m" for s
        using assms(3,4) by (auto simp: owns_stack_def split: if_splits)
      then have "held m' u = held m u" using held_iff [OF assms(1)] held_iff [OF assms(2)] by metis
      with False show ?thesis by simp
    qed
  qed
qed

section \<open>What granting does\<close>

lemma claims_grant: "grant A P = (A', P') \<Longrightarrow> claim ` (set A' \<union> set P') = claim ` (set A \<union> set P)"
  by (cases P) (auto simp: grant_def image_iff split: if_splits)

lemma claims_SatisfyPending: "mgr_inv m B \<Longrightarrow> claims (SatisfyPending m) = claims m"
  using SatisfyPending_grant [of m "Susp m" B] claims_grant [of "Act m" "Pend m"]
  by (fastforce simp: mgr_inv_def claims_def image_Un same_frame_def)

lemma claims_SatisfyRequest:
  assumes "mgr_inv m B" and "SatisfyRequest (Some r) 0 m = (b, m')"
  shows "claims m' = insert (claim r) (claims m)"
proof -
  from assms(1) have "rl_invs m" "acc_inv (Act m) (Pend m) (Susp m) B" by (auto simp: mgr_inv_def)
  note low = SatisfyRequest_low [OF this assms(2)]
  show ?thesis
  proof (cases "Pend m = [] \<and> grantable r (Act m)")
    case True
    with low show ?thesis by (auto simp: claims_def same_frame_def)
  next
    case False
    with low obtain P1 where "grant (Act m) (Pend m) = (Act m', P1)" "Pend m' = P1 @ [r]" "Susp m' = Susp m"
      by (auto simp: same_frame_def)
    with claims_grant [of "Act m" "Pend m" "Act m'" P1] show ?thesis
      by (auto simp: claims_def image_Un)
  qed
qed

lemma claims_own:
  assumes "mgr_inv m B" and "t \<notin> B" and "tRequestList_Remove t (activeRequests m) = (Some r, l)"
  shows "owns_stack m t (req_stack r) (claims (m\<lparr>activeRequests := l\<rparr>))" and "mgr_inv (m\<lparr>activeRequests := l\<rparr>) B"
    and "rq_tid r = t" and "good_request r" and "rl_inv l"
    and "\<And>r'. rq_tid r' = t \<Longrightarrow> req_stack r' \<noteq> [] \<Longrightarrow>
      owns_stack (m\<lparr>activeRequests := tRequestList_AddAtHead r' l\<rparr>) t (req_stack r') (claims (m\<lparr>activeRequests := l\<rparr>))"
proof -
  obtain xs ys where l: "Act m = xs @ r # ys" "rl_requests l = xs @ ys" "rq_tid r = t" "good_request r" "rl_inv l"
    "mgr_inv (m\<lparr>activeRequests := l\<rparr>) B" "t \<notin> rq_tid ` (set (xs @ ys) \<union> set (Pend m) \<union> set (Susp m))"
    using own_request [OF assms] by metis
  then show "mgr_inv (m\<lparr>activeRequests := l\<rparr>) B" "rq_tid r = t" "good_request r" "rl_inv l" by auto
  have out: "t \<notin> fst ` claims (m\<lparr>activeRequests := l\<rparr>)" using l(2,7) by (force simp: claims_def)
  then show "owns_stack m t (req_stack r) (claims (m\<lparr>activeRequests := l\<rparr>))"
    using l(1-4) good_request_stack [OF l(4)] by (auto simp: owns_stack_def claims_def)
  show "owns_stack (m\<lparr>activeRequests := tRequestList_AddAtHead r' l\<rparr>) t (req_stack r') (claims (m\<lparr>activeRequests := l\<rparr>))"
    if "rq_tid r' = t" "req_stack r' \<noteq> []" for r'
    using that out by (auto simp: owns_stack_def claims_def)
qed

section \<open>The operations\<close>

lemma claims_IncRef [simp]: "claims (IncRef m) = claims m"
  by (simp add: claims_def)

lemma owns_cong: "claims m' = claims m \<Longrightarrow> owns_stack m' t st C = owns_stack m t st C"
  by (simp add: owns_stack_def)

lemma owns_push:
  assumes "mgr_inv m B" and "SatisfyRequest (Some r) 0 m = (b, m')" and "t \<notin> fst ` claims m"
    and "rq_tid r = t" and "req_stack r = x # st"
  shows "owns_stack m' t (x # st) (claims m)"
  using claims_SatisfyRequest [OF assms(1,2)] assms(3-5) by (simp add: owns_stack_def)

text \<open>A thread's first access.\<close>

lemma claims_first:
  assumes "mgr_inv m B" and "t \<notin> B" and "t \<notin> set (rl_tids (suspendedRequests m))" and "t < max_threads"
    and "tRequestList_Remove t (activeRequests m) = (None, l)" and "tRequest_operator_new memory m = (mem, m1)"
    and "tRequest_ctor t type mem = Inr r" and "type \<noteq> kYieldedTo" and "SatisfyRequest (Some r) 0 m1 = (b, m')"
  shows "owns_stack m t [] (claims m) \<and> owns_stack m' t [type = kExclusive] (claims m)"
proof -
  note n = operator_new_inv [OF assms(1,6)]
  note r = ctor_ok [OF assms(7,8,4) n(2,3)]
  have same: "claims m1 = claims m" using n by (simp add: claims_def)
  have "t \<notin> fst ` claims m" using fresh_thread [OF assms(1-3,5)] by (force simp: claims_def)
  with owns_push [OF n(1) assms(9) _ r(2,5)] show ?thesis by (simp add: owns_stack_def same)
qed

text \<open>A nested access: \<open>m1\<close> is the manager without the thread's request.\<close>

lemma claims_nested:
  assumes "mgr_inv m B" and "t \<notin> B" and "tRequestList_Remove t (activeRequests m) = (Some r, l)"
    and "tRequest_Add type r = Inr r'" and "type \<noteq> kYieldedTo"
    and "m' = m\<lparr>activeRequests := tRequestList_AddAtHead r' l\<rparr>
         \<or> SatisfyRequest (Some r') 0 (m\<lparr>activeRequests := l\<rparr>) = (b, m')"
  shows "\<exists>st C. owns_stack m t st C \<and> owns_stack m' t ((type = kExclusive) # st) C"
proof -
  note o = claims_own [OF assms(1-3)]
  note a = Add_good [OF o(4) assms(4,5)]
  have "owns_stack m' t ((type = kExclusive) # req_stack r) (claims (m\<lparr>activeRequests := l\<rparr>))"
    using assms(6)
  proof
    assume "m' = m\<lparr>activeRequests := tRequestList_AddAtHead r' l\<rparr>"
    with o(6) [of r'] a o(3) show ?thesis by simp
  next
    assume "SatisfyRequest (Some r') 0 (m\<lparr>activeRequests := l\<rparr>) = (b, m')"
    from owns_push [OF o(2) this _ _ a(5)] o(1,3) a(2) show ?thesis by (simp add: owns_stack_def)
  qed
  with o(1) show ?thesis by blast
qed

lemma Acquire_claims:
  assumes "mgr_inv m B" and "t \<notin> B" and "t \<notin> set (rl_tids (suspendedRequests m))" and "t < max_threads"
    and "Acquire memory t x m = Inr (b, m')"
  shows "\<exists>st C. owns_stack m t st C \<and> owns_stack m' t (x # st) C"
proof -
  let ?m = "IncRef m" and ?type = "if x then kExclusive else kShared"
  have inv: "mgr_inv ?m B" using assms(1) by simp
  have type: "?type \<noteq> kYieldedTo" "(?type = kExclusive) = x" by simp_all
  have goal: "(\<exists>st C. owns_stack m t st C \<and> owns_stack m' t (x # st) C)
    \<longleftrightarrow> (\<exists>st C. owns_stack ?m t st C \<and> owns_stack m' t ((?type = kExclusive) # st) C)"
    by (simp add: type owns_cong [of ?m m])
  show ?thesis
  proof (cases "tRequestList_Remove t (activeRequests ?m)")
    case (Pair req l)
    show ?thesis
    proof (cases req)
      case None
      with assms(5) Pair obtain mem m1 r where new: "tRequest_operator_new memory ?m = (mem, m1)"
        and ctor: "tRequest_ctor t ?type mem = Inr r" and sat: "SatisfyRequest (Some r) 0 m1 = (b, m')"
        by (cases x) (auto simp: Acquire_def Let_def GetExclusiveAccess_def GetSharedAccess_def bind_res_eq_Inr
            split: prod.splits)
      from claims_first [OF inv assms(2) _ assms(4) Pair [unfolded None] new ctor type(1) sat] assms(3)
      show ?thesis unfolding goal by auto
    next
      case (Some r)
      with assms(5) Pair obtain r' where add: "tRequest_Add ?type r = Inr r'"
        and m': "m' = ?m\<lparr>activeRequests := tRequestList_AddAtHead r' l\<rparr>
          \<or> SatisfyRequest (Some r') 0 (?m\<lparr>activeRequests := l\<rparr>) = (b, m')"
        by (cases x; cases "tRequest_CountExclusive r = 0")
          (auto simp: Acquire_def Let_def GetExclusiveAccess_def GetSharedAccess_def bind_res_eq_Inr)
      from claims_nested [OF inv assms(2) Pair [unfolded Some] add type(1) m'] show ?thesis
        unfolding goal .
    qed
  qed
qed

lemma claims_DecRef: "DecRef m = Inr m' \<Longrightarrow> claims m' = claims m"
  by (auto simp: DecRef_def bind_res_eq_Inr Let_def claims_def split: if_splits)

lemma Release_claims:
  assumes "mgr_inv m B" and "t \<notin> B" and "Release t m = Inr (x, m')"
  shows "\<exists>st C. owns_stack m t (x # st) C \<and> owns_stack m' t st C"
proof -
  from assms(3) obtain r l r' m1 where rem: "tRequestList_Remove t (activeRequests m) = (Some r, l)"
    and last: "tRequest_RemoveLast r = Inr (x, r')"
    and m1: "m1 = (if tRequest_Count r' \<noteq> 0 then m\<lparr>activeRequests := tRequestList_AddAtHead r' l\<rparr>
               else tRequest_operator_delete r' (m\<lparr>activeRequests := l\<rparr>))"
    and dec: "DecRef (SatisfyPending m1) = Inr m'"
    by (auto simp: Release_def bind_res_eq_Inr Let_def split: prod.splits option.splits)
  note o = claims_own [OF assms(1,2) rem]
  from RemoveLast_good [OF o(4)] last have r': "req_stack r = x # req_stack r'" "rq_tid r' = rq_tid r"
    "tRequest_Count r' \<noteq> 0 \<longrightarrow> good_request r'" "tRequest_Count r' = 0 \<longrightarrow> req_count r' = 0" by auto
  have same: "claims m' = claims m1"
    using claims_DecRef [OF dec] claims_SatisfyPending [of m1 B] release_own [OF assms(1,2) rem last m1] by simp
  have "owns_stack m1 t (req_stack r') (claims (m\<lparr>activeRequests := l\<rparr>))"
  proof (cases "tRequest_Count r' = 0")
    case True
    with r'(4) have "req_stack r' = []" by (metis length_0_conv length_req_stack)
    with True m1 o(1) show ?thesis
      by (simp add: owns_stack_def claims_def tRequest_operator_delete_def)
  next
    case False
    with r'(2,3) m1 o(3,6) show ?thesis by (simp add: good_request_stack)
  qed
  with o(1) r'(1) show ?thesis by (auto simp: owns_cong [OF same])
qed

lemma claims_put_back:
  assumes "mgr_inv m B" and "tRequestList_Remove t (activeRequests m) = (Some r, l)"
  shows "claims (m\<lparr>activeRequests := tRequestList_AddAtHead r l\<rparr>) = claims m"
proof -
  have "rl_inv (activeRequests m)" using assms(1) by (simp add: mgr_inv_def rl_invs_def)
  from Remove_SomeD [OF assms(2) this] obtain xs ys where "Act m = xs @ r # ys" "rl_requests l = xs @ ys" .
  then show ?thesis by (simp add: claims_def)
qed

lemma query_claims:
  assumes "mgr_inv m B" and "HasExclusiveAccess t m = (x, m') \<or> HasSharedAccess t m = (x, m')"
  shows "claims m' = claims m"
  using assms(2) claims_put_back [OF assms(1), of t]
  by (cases "tRequestList_Remove t (activeRequests m)")
    (auto simp: HasExclusiveAccess_def HasSharedAccess_def Let_def split: option.splits)

lemma SuspendAccess_claims:
  assumes "mgr_inv m B" and "t \<notin> B" and "SuspendAccess t m = Inr m'"
  shows "claims m' = claims m"
proof -
  from assms(3) obtain r l r' where rem: "tRequestList_Remove t (activeRequests m) = (Some r, l)"
    and r': "(if tRequest_CountExclusive r \<noteq> 0
             then bind_res (tRequest_Add kExclusive r) (\<lambda>r. bind_res (tRequest_RemoveLast r) (\<lambda>(_, r'). Inr r'))
             else Inr r) = Inr r'"
    and m': "m' = SatisfyPending (m\<lparr>activeRequests := l,
                    suspendedRequests := tRequestList_AddAtHead r' (suspendedRequests m)\<rparr>)"
    unfolding SuspendAccess_def by (auto simp: bind_res_eq_Inr split: prod.splits option.splits)
  let ?m1 = "m\<lparr>activeRequests := l, suspendedRequests := tRequestList_AddAtHead r' (suspendedRequests m)\<rparr>"
  obtain xs ys where l: "Act m = xs @ r # ys" "rl_requests l = xs @ ys" "rl_inv l" "rq_tid r = t"
    "good_request r" "\<not> signalled r" "mgr_inv (m\<lparr>activeRequests := l\<rparr>) B"
    "t \<notin> rq_tid ` (set (xs @ ys) \<union> set (Pend m) \<union> set (Susp m))"
    using own_request [OF assms(1,2) rem] by metis
  note su = suspend_roundtrip [OF l(5) r']
  have "acc_inv (xs @ ys) (Pend m) (r' # Susp m) B"
    using l su assms(2) by (intro acc_inv_suspend) (auto simp: mgr_inv_def)
  then have "mgr_inv ?m1 B" using l assms(1) by (simp add: mgr_inv_def rl_invs_def pool_ok_def)
  then have "claims m' = claims ?m1" by (simp add: m' claims_SatisfyPending)
  also have "\<dots> = claims m" using l(1,2) su(2,5) by (simp add: claims_def)
  finally show ?thesis .
qed

lemma ResumeAccess_claims:
  assumes "mgr_inv m B" and "ResumeAccess t m = (b, m')"
  shows "claims m' = claims m"
proof (cases "tRequestList_Remove t (suspendedRequests m)")
  case (Pair req l)
  show ?thesis
  proof (cases req)
    case None
    with Pair assms(2) show ?thesis by (simp add: ResumeAccess_def)
  next
    case (Some r)
    from assms(1) have "rl_inv (suspendedRequests m)" by (simp add: mgr_inv_def rl_invs_def)
    from Remove_SomeD [OF Pair [unfolded Some] this] obtain xs ys where
      l: "Susp m = xs @ r # ys" "rl_requests l = xs @ ys" "rl_inv l" .
    from assms(1) l have "mgr_inv (m\<lparr>suspendedRequests := l\<rparr>) B"
      by (auto simp: mgr_inv_def acc_inv_def rl_invs_def pool_ok_def)
    moreover have "SatisfyRequest (Some r) 0 (m\<lparr>suspendedRequests := l\<rparr>) = (b, m')"
      using assms(2) Pair Some by (simp add: ResumeAccess_def)
    ultimately have "claims m' = insert (claim r) (claims (m\<lparr>suspendedRequests := l\<rparr>))"
      by (rule claims_SatisfyRequest)
    with l show ?thesis by (auto simp: claims_def)
  qed
qed

lemma ReleaseAndReacquireAtEnd_claims:
  assumes "mgr_inv m B" and "t \<notin> B" and "DebugAssertActive t m" and "ReleaseAndReacquireAtEnd t m = (b, m')"
  shows "claims m' = claims m"
proof (cases "tRequestList_Count (pendingRequests m) = 0")
  case True
  with assms(4) show ?thesis by (simp add: ReleaseAndReacquireAtEnd_def)
next
  case False
  from assms(3) obtain r l where rem: "tRequestList_Remove t (activeRequests m) = (Some r, l)"
    by (cases "tRequestList_Remove t (activeRequests m)") (auto simp: DebugAssertActive_def)
  with False assms(4) have "SatisfyRequest (Some r) 0 (m\<lparr>activeRequests := l\<rparr>) = (b, m')"
    by (simp add: ReleaseAndReacquireAtEnd_def)
  with claims_own [OF assms(1,2) rem] show ?thesis
    using good_request_stack by (auto simp: claims_SatisfyRequest owns_stack_def split: if_splits)
qed

lemma WakeUp_claims:
  assumes "mgr_inv m B" and "signal_arrived t m"
  shows "claims (WakeUp t m) = claims m"
proof -
  let ?m1 = "m\<lparr>activeRequests := (activeRequests m)\<lparr>rl_requests := map (consume_signal t) (Act m)\<rparr>\<rparr>"
  have "t \<in> rq_tid ` set (Act m)" using assms(2) by (auto simp: signal_arrived_def)
  with assms(1) have "mgr_inv ?m1 (B - {t})"
    by (simp add: mgr_inv_def rl_invs_def pool_ok_def rl_inv_def o_def acc_inv_wake)
  then have "claims (WakeUp t m) = claims ?m1" by (simp add: WakeUp_def claims_SatisfyPending)
  then show ?thesis by (simp add: claims_def image_Un image_image)
qed

section \<open>The suspended list\<close>

lemma SatisfyRequest_susp [simp]:
  "suspendedRequests (snd (SatisfyRequest r flags m)) = suspendedRequests m"
  by (induction r flags m rule: SatisfyRequest.induct)
    (auto simp: SatisfyRequest.simps(2) Let_def split: prod.splits)

lemma SatisfyRequest_suspD:
  "SatisfyRequest r flags m = (b, m') \<Longrightarrow> suspendedRequests m' = suspendedRequests m"
  using SatisfyRequest_susp [of r flags m] by simp

lemma SatisfyPending_susp [simp]: "suspendedRequests (SatisfyPending m) = suspendedRequests m"
  by (simp add: SatisfyPending_def split: prod.splits)

lemma operator_new_susp [simp]:
  "tRequest_operator_new memory m = (mem, m1) \<Longrightarrow> suspendedRequests m1 = suspendedRequests m"
  by (auto simp: tRequest_operator_new_def split: prod.splits option.splits)

lemma Acquire_susp:
  assumes "Acquire memory t x m = Inr (b, m')"
  shows "suspendedRequests m' = suspendedRequests m"
proof -
  have "suspendedRequests m' = suspendedRequests (IncRef m)"
    using assms
    by (cases "tRequestList_Remove t (activeRequests m)")
      (auto simp: Acquire_def Let_def GetExclusiveAccess_def GetSharedAccess_def bind_res_eq_Inr
        split: if_splits option.splits prod.splits dest!: SatisfyRequest_suspD)
  then show ?thesis by simp
qed

lemma Release_susp: "Release t m = Inr (x, m') \<Longrightarrow> suspendedRequests m' = suspendedRequests m"
  by (auto simp: Release_def DecRef_def bind_res_eq_Inr Let_def tRequest_operator_delete_def
      split: if_splits option.splits prod.splits)

lemma query_susp:
  "HasExclusiveAccess t m = (x, m') \<or> HasSharedAccess t m = (x, m') \<Longrightarrow> suspendedRequests m' = suspendedRequests m"
  by (auto simp: HasExclusiveAccess_def HasSharedAccess_def Let_def split: prod.splits option.splits)

lemma WakeUp_susp: "suspendedRequests (WakeUp t m) = suspendedRequests m"
  by (simp add: WakeUp_def)

section \<open>Every thread has its own stack\<close>

lemma private_steps:
  assumes acc: "access_inv s" and "m = as_manager s" and "t \<notin> as_blocked s"
  shows "t < max_threads \<Longrightarrow> t \<notin> set (rl_tids (suspendedRequests m)) \<Longrightarrow> Acquire memory t x m = Inr (b, m')
           \<Longrightarrow> held m' = (held m)(t := x # held m t)"
    and "Release t m = Inr (x, m') \<Longrightarrow> \<exists>st. held m t = x # st \<and> held m' = (held m)(t := st)"
    and "SuspendAccess t m = Inr m' \<Longrightarrow> held m' = held m"
    and "ResumeAccess t m = (b, m') \<Longrightarrow> held m' = held m"
    and "DebugAssertActive t m \<Longrightarrow> ReleaseAndReacquireAtEnd t m = (b, m') \<Longrightarrow> held m' = held m"
    and "HasExclusiveAccess u m = (b, m') \<or> HasSharedAccess u m = (b, m') \<Longrightarrow> held m' = held m"
    and "u \<in> as_blocked s \<Longrightarrow> signal_arrived u m \<Longrightarrow> held (WakeUp u m) = held m"
proof -
  from acc have inv: "mgr_inv m (as_blocked s)" by (simp add: access_inv_def assms(2))
  show "held m' = (held m)(t := x # held m t)"
    if a: "t < max_threads" "t \<notin> set (rl_tids (suspendedRequests m))" "Acquire memory t x m = Inr (b, m')"
  proof -
    have inv': "mgr_inv m' (block_if b t (as_blocked s))"
      using Acquire_inv [OF acc assms(3) a(1) a(2,3) [unfolded assms(2)]] by (auto simp: access_inv_def)
    from Acquire_claims [OF inv assms(3) a(2,1,3)] held_update [OF inv inv'] show ?thesis by metis
  qed
  show "\<exists>st. held m t = x # st \<and> held m' = (held m)(t := st)" if a: "Release t m = Inr (x, m')"
  proof -
    have inv': "mgr_inv m' (as_blocked s)"
      using Release_inv [OF acc assms(3) a [unfolded assms(2)]] by (auto simp: access_inv_def)
    from Release_claims [OF inv assms(3) a] held_update [OF inv inv'] show ?thesis by metis
  qed
  show "held m' = held m" if a: "SuspendAccess t m = Inr m'"
    using SuspendAccess_inv [OF acc assms(3) a [unfolded assms(2)]]
    by (intro held_same [OF inv _ SuspendAccess_claims [OF inv assms(3) a]]) (auto simp: access_inv_def)
  show "held m' = held m" if a: "ResumeAccess t m = (b, m')"
    using ResumeAccess_inv [OF acc assms(3) a [unfolded assms(2)]]
    by (intro held_same [OF inv _ ResumeAccess_claims [OF inv a]]) (auto simp: access_inv_def)
  show "held m' = held m" if a: "DebugAssertActive t m" "ReleaseAndReacquireAtEnd t m = (b, m')"
    using ReleaseAndReacquireAtEnd_inv [OF acc assms(3) a [unfolded assms(2)]]
    by (intro held_same [OF inv _ ReleaseAndReacquireAtEnd_claims [OF inv assms(3) a]]) (auto simp: access_inv_def)
  show "held m' = held m" if a: "HasExclusiveAccess u m = (b, m') \<or> HasSharedAccess u m = (b, m')"
    using query_inv [OF acc a [unfolded assms(2)]]
    by (intro held_same [OF inv _ query_claims [OF inv a]]) (auto simp: access_inv_def)
  show "held (WakeUp u m) = held m" if a: "u \<in> as_blocked s" "signal_arrived u m"
    using WakeUp_inv [OF acc a(1) a(2) [unfolded assms(2)]] assms(2)
    by (intro held_same [OF inv _ WakeUp_claims [OF inv a(2)]]) (auto simp: access_inv_def)
qed

end
