(* ===== verification/AccessBalance.thy ===== *)
theory AccessBalance
  imports AccessPrivate
begin

text \<open>
  What one thread has of one access manager while other threads use it too: the stack of its
  accesses and whether it has suspended them (\<open>mine\<close>), or that it waits for the access on top
  (\<open>queued\<close>).  The lemmas follow the operations a call of the library makes, so that the callers'
  proofs never open the manager.
\<close>

section \<open>A thread and a manager\<close>

definition mine :: "nat \<Rightarrow> bool \<Rightarrow> bool list \<Rightarrow> tAccessManager \<Rightarrow> bool" where
  "mine t suspended st m \<longleftrightarrow> (\<exists>B. access_inv \<lparr>as_manager = m, as_blocked = B\<rparr> \<and> t \<notin> B) \<and> held m t = st
     \<and> (suspended \<longleftrightarrow> t \<in> set (rl_tids (suspendedRequests m)))"

definition queued :: "nat \<Rightarrow> bool list \<Rightarrow> tAccessManager \<Rightarrow> bool" where
  "queued t st m \<longleftrightarrow> (\<exists>B. access_inv \<lparr>as_manager = m, as_blocked = B\<rparr> \<and> t \<in> B) \<and> held m t = st"

abbreviation settled :: "nat \<Rightarrow> bool \<Rightarrow> bool list \<Rightarrow> tAccessManager \<Rightarrow> bool" where
  "settled t blocked st m \<equiv> (if blocked then queued t st m else mine t False st m)"

lemma mineE:
  assumes "mine t suspended st m"
  obtains B where "access_inv \<lparr>as_manager = m, as_blocked = B\<rparr>" and "t \<notin> B" and "mgr_inv m B" and "held m t = st"
    and "suspended \<longleftrightarrow> t \<in> set (rl_tids (suspendedRequests m))"
  using assms by (auto simp: mine_def access_inv_def)

lemma settledI:
  assumes "access_inv \<lparr>as_manager = m, as_blocked = block_if b t B\<rparr>" and "t \<notin> B" and "held m t = st"
    and "t \<notin> set (rl_tids (suspendedRequests m))"
  shows "settled t b st m"
  using assms by (auto simp: mine_def queued_def block_if_def split: if_splits)

lemma mine_new: "mine t False [] (tAccessManager_new memory)"
  using access_inv_init [of memory]
  by (auto simp: mine_def held_def manager_new_fields tRequestList_new_def)

text \<open>A thread without accesses has no request in any list, whatever else is in them.\<close>

lemma mine_none:
  assumes "mine t suspended [] m"
  shows "\<not> suspended" and "t \<notin> set (rl_tids (activeRequests m)) \<union> set (rl_tids (pendingRequests m)) \<union> set (rl_tids (suspendedRequests m))"
proof -
  from mineE [OF assms] obtain B where B: "mgr_inv m B" "held m t = []"
    and s: "suspended \<longleftrightarrow> t \<in> set (rl_tids (suspendedRequests m))" by metis
  from B have "t \<notin> fst ` claims m" using held_iff [OF B(1)] by metis
  then show "t \<notin> set (rl_tids (activeRequests m)) \<union> set (rl_tids (pendingRequests m)) \<union> set (rl_tids (suspendedRequests m))"
    by (force simp: claims_def)
  with s show "\<not> suspended" by simp
qed

section \<open>The suspended threads\<close>

lemma Suspend_tids:
  assumes "mgr_inv m B" and "u \<notin> B" and "SuspendAccess u m = Inr m'"
  shows "set (rl_tids (suspendedRequests m')) = insert u (set (rl_tids (suspendedRequests m)))"
proof -
  from assms(3) obtain r l r' where rem: "tRequestList_Remove u (activeRequests m) = (Some r, l)"
    and r': "(if tRequest_CountExclusive r \<noteq> 0
           then bind_res (tRequest_Add kExclusive r) (\<lambda>r. bind_res (tRequest_RemoveLast r) (\<lambda>(_, r'). Inr r'))
           else Inr r) = Inr r'"
    and m': "m' = SatisfyPending (m\<lparr>activeRequests := l,
                    suspendedRequests := tRequestList_AddAtHead r' (suspendedRequests m)\<rparr>)"
    unfolding SuspendAccess_def by (auto simp: bind_res_eq_Inr split: prod.splits option.splits)
  obtain "rq_tid r = u" and "good_request r" using own_request [OF assms(1,2) rem] by metis
  with suspend_roundtrip [OF this(2) r'] show ?thesis by (simp add: m')
qed

lemma Resume_tids:
  assumes "mgr_inv m B" and "ResumeAccess u m = (b, m')"
  shows "set (rl_tids (suspendedRequests m')) = set (rl_tids (suspendedRequests m)) - {u}"
proof (cases "tRequestList_Remove u (suspendedRequests m)")
  case (Pair req l)
  show ?thesis
  proof (cases req)
    case None
    with Pair assms(2) Remove_NoneD [of u "suspendedRequests m" l] show ?thesis by (auto simp: ResumeAccess_def)
  next
    case (Some r)
    from assms(1) have "rl_inv (suspendedRequests m)" by (simp add: mgr_inv_def rl_invs_def)
    from Remove_SomeD [OF Pair [unfolded Some] this] obtain xs ys where
      l: "Susp m = xs @ r # ys" "rl_requests l = xs @ ys" "rq_tid r = u" by metis
    from assms(1) have "distinct (map rq_tid (Susp m))" by (auto simp: mgr_inv_def acc_inv_def)
    moreover have "suspendedRequests m' = l"
      using assms(2) Pair Some SatisfyRequest_suspD [of "Some r" 0 "m\<lparr>suspendedRequests := l\<rparr>" b m']
      by (simp add: ResumeAccess_def)
    ultimately show ?thesis using l by auto
  qed
qed

section \<open>The thread's own operations\<close>

lemma mine_Acquire:
  assumes "mine t False st m" and "t < max_threads" and "Acquire memory t x m = Inr (b, m')"
  shows "settled t b (x # st) m'"
proof -
  from mineE [OF assms(1)] obtain B where acc: "access_inv \<lparr>as_manager = m, as_blocked = B\<rparr>" and B: "t \<notin> B" "held m t = st"
    and susp: "t \<notin> set (rl_tids (suspendedRequests m))" by metis
  from private_steps(1) [OF acc _ _ assms(2) susp assms(3)] B have "held m' t = x # st" by simp
  with Acquire_inv [OF acc _ assms(2) _, of memory x b m'] susp assms(3) B(1) Acquire_susp [OF assms(3)] show ?thesis
    by (intro settledI [where B = B]) simp_all
qed

lemma mine_Release:
  assumes "mine t False st m" and "Release t m = Inr (x, m')"
  obtains st' where "st = x # st'" and "mine t False st' m'"
proof -
  from mineE [OF assms(1)] obtain B where acc: "access_inv \<lparr>as_manager = m, as_blocked = B\<rparr>" and B: "t \<notin> B" "held m t = st"
    and susp: "t \<notin> set (rl_tids (suspendedRequests m))" by metis
  from private_steps(2) [OF acc _ _ assms(2)] B obtain st' where st': "st = x # st'" "held m' t = st'" by auto
  have "access_inv \<lparr>as_manager = m', as_blocked = B\<rparr>" using Release_inv [OF acc _, of t x m'] B(1) assms(2) by simp
  with st' B susp Release_susp [OF assms(2)] show ?thesis by (intro that [of st']) (auto simp: mine_def)
qed

lemma mine_Suspend:
  assumes "mine t False st m" and "SuspendAccess t m = Inr m'"
  shows "mine t True st m'"
proof -
  from mineE [OF assms(1)] obtain B where acc: "access_inv \<lparr>as_manager = m, as_blocked = B\<rparr>" and B: "t \<notin> B" "held m t = st"
    and inv: "mgr_inv m B" by metis
  from private_steps(3) [OF acc _ _ assms(2)] B have "held m' t = st" by simp
  moreover have "access_inv \<lparr>as_manager = m', as_blocked = B\<rparr>" using SuspendAccess_inv [OF acc _, of t m'] B(1) assms(2) by simp
  ultimately show ?thesis using B Suspend_tids [OF inv B(1) assms(2)] by (auto simp: mine_def)
qed

lemma mine_Resume:
  assumes "mine t suspended st m" and "ResumeAccess t m = (b, m')"
  shows "settled t b st m'"
proof -
  from mineE [OF assms(1)] obtain B where acc: "access_inv \<lparr>as_manager = m, as_blocked = B\<rparr>" and B: "t \<notin> B" "held m t = st"
    and inv: "mgr_inv m B" by metis
  have "held m' t = st" using private_steps(4) [OF acc _ _ assms(2)] B by simp
  with ResumeAccess_inv [OF acc _, of t b m'] B(1) assms(2) Resume_tids [OF inv assms(2)] show ?thesis
    by (intro settledI [where B = B]) auto
qed

section \<open>The operations of another thread\<close>

text \<open>
  What thread \<open>u\<close> finds of thread \<open>t\<close>: its stack, whether it waits and whether it has suspended its
  accesses, at a moment when \<open>u\<close> itself runs or waits.
\<close>

type_synonym access_view = "bool list \<times> bool \<times> bool"

definition bystander :: "nat \<Rightarrow> bool \<Rightarrow> nat \<Rightarrow> access_view \<Rightarrow> tAccessManager \<Rightarrow> bool" where
  "bystander u blocked t v m \<longleftrightarrow> t \<noteq> u \<and> (\<exists>B. access_inv \<lparr>as_manager = m, as_blocked = B\<rparr> \<and> (blocked \<longleftrightarrow> u \<in> B)
     \<and> v = (held m t, t \<in> B, t \<in> set (rl_tids (suspendedRequests m))))"

definition undisturbed :: "nat \<Rightarrow> nat \<Rightarrow> access_view \<Rightarrow> tAccessManager \<Rightarrow> bool" where
  "undisturbed u t v m \<longleftrightarrow> bystander u False t v m \<and> u \<notin> set (rl_tids (suspendedRequests m))"

abbreviation no_access :: access_view where "no_access \<equiv> ([], False, False)"

lemma bystanderE:
  assumes "bystander u blocked t v m"
  obtains B where "access_inv \<lparr>as_manager = m, as_blocked = B\<rparr>" and "mgr_inv m B" and "blocked \<longleftrightarrow> u \<in> B" and "t \<noteq> u"
    and "v = (held m t, t \<in> B, t \<in> set (rl_tids (suspendedRequests m)))"
  using assms by (auto simp: bystander_def access_inv_def)

lemma undisturbed_new: "t \<noteq> u \<Longrightarrow> undisturbed u t no_access (tAccessManager_new memory)"
  using access_inv_init [of memory]
  by (auto simp: undisturbed_def bystander_def held_def manager_new_fields tRequestList_new_def)

lemma bystander_moves:
  assumes "access_inv \<lparr>as_manager = m', as_blocked = block_if b u B\<rparr>" and "u \<notin> B" and "t \<noteq> u" and "held m' t = held m t"
    and "set (rl_tids (suspendedRequests m')) - {u} = set (rl_tids (suspendedRequests m)) - {u}"
    and "v = (held m t, t \<in> B, t \<in> set (rl_tids (suspendedRequests m)))"
  shows "bystander u b t v m'"
  using assms unfolding bystander_def by (intro conjI exI [of _ "block_if b u B"]) (auto simp: block_if_def)

lemma undisturbed_Acquire:
  assumes "undisturbed u t v m" and "u < max_threads" and "Acquire memory u x m = Inr (b, m')"
  shows "if b then bystander u True t v m' else undisturbed u t v m'"
proof -
  from assms(1) obtain B where acc: "access_inv \<lparr>as_manager = m, as_blocked = B\<rparr>" and B: "u \<notin> B" "t \<noteq> u"
    and v: "v = (held m t, t \<in> B, t \<in> set (rl_tids (suspendedRequests m)))" and susp: "u \<notin> set (rl_tids (suspendedRequests m))"
    by (auto simp: undisturbed_def elim!: bystanderE)
  have "held m' t = held m t" using private_steps(1) [OF acc _ _ assms(2) susp assms(3)] B by simp
  with Acquire_inv [OF acc _ assms(2) _, of memory x b m'] susp assms(3) B v Acquire_susp [OF assms(3)]
  have "bystander u b t v m'" by (intro bystander_moves [where B = B and m = m]) simp_all
  with susp Acquire_susp [OF assms(3)] show ?thesis by (auto simp: undisturbed_def split: if_splits)
qed

lemma undisturbed_Release:
  assumes "undisturbed u t v m" and "Release u m = Inr (x, m')"
  shows "undisturbed u t v m'"
proof -
  from assms(1) obtain B where acc: "access_inv \<lparr>as_manager = m, as_blocked = B\<rparr>" and B: "u \<notin> B" "t \<noteq> u"
    and v: "v = (held m t, t \<in> B, t \<in> set (rl_tids (suspendedRequests m)))" and susp: "u \<notin> set (rl_tids (suspendedRequests m))"
    by (auto simp: undisturbed_def elim!: bystanderE)
  have "held m' t = held m t" using private_steps(2) [OF acc _ _ assms(2)] B by auto
  with Release_inv [OF acc _, of u x m'] B v susp assms(2) Release_susp [OF assms(2)] show ?thesis
    by (auto simp: undisturbed_def block_if_def intro!: bystander_moves [where B = B and m = m and b = False])
qed

lemma undisturbed_Suspend:
  assumes "undisturbed u t v m" and "SuspendAccess u m = Inr m'"
  shows "bystander u False t v m'"
proof -
  from assms(1) obtain B where acc: "access_inv \<lparr>as_manager = m, as_blocked = B\<rparr>" and B: "u \<notin> B" "t \<noteq> u" and inv: "mgr_inv m B"
    and v: "v = (held m t, t \<in> B, t \<in> set (rl_tids (suspendedRequests m)))"
    by (auto simp: undisturbed_def elim!: bystanderE)
  have "held m' t = held m t" using private_steps(3) [OF acc _ _ assms(2)] B by simp
  with SuspendAccess_inv [OF acc _, of u m'] B v assms(2) Suspend_tids [OF inv B(1) assms(2)] show ?thesis
    by (intro bystander_moves [where B = B and m = m]) (simp_all add: block_if_def)
qed

lemma undisturbed_Resume:
  assumes "bystander u False t v m" and "ResumeAccess u m = (b, m')"
  shows "if b then bystander u True t v m' else undisturbed u t v m'"
proof -
  from assms(1) obtain B where acc: "access_inv \<lparr>as_manager = m, as_blocked = B\<rparr>" and B: "u \<notin> B" "t \<noteq> u" and inv: "mgr_inv m B"
    and v: "v = (held m t, t \<in> B, t \<in> set (rl_tids (suspendedRequests m)))"
    by (auto elim!: bystanderE)
  note tids = Resume_tids [OF inv assms(2)]
  have "held m' t = held m t" using private_steps(4) [OF acc _ _ assms(2)] B by simp
  with ResumeAccess_inv [OF acc _, of u b m'] B v assms(2) tids have "bystander u b t v m'"
    by (intro bystander_moves [where B = B and m = m]) simp_all
  with tids show ?thesis by (auto simp: undisturbed_def split: if_splits)
qed

end
