(* ===== verification/Transitions.thy ===== *)
theory Transitions
  imports Main
begin

text \<open>
  Transition systems and their invariants: a predicate that holds initially and that every step
  keeps holds in every state a run can reach.  The components with several threads state their
  runs as the reflexive transitive closure of a step relation and interpret this locale.
\<close>

locale invariant_system =
  fixes init :: "'s \<Rightarrow> bool"
    and step :: "'s \<Rightarrow> 's \<Rightarrow> bool"
    and inv :: "'s \<Rightarrow> bool"
  assumes init_inv: "init s \<Longrightarrow> inv s"
    and step_inv: "inv s \<Longrightarrow> step s s' \<Longrightarrow> inv s'"
begin

lemma run_inv: "step\<^sup>*\<^sup>* s s' \<Longrightarrow> inv s \<Longrightarrow> inv s'"
  by (induction rule: rtranclp_induct) (auto intro: step_inv)

lemma reachable_inv: "init s \<Longrightarrow> step\<^sup>*\<^sup>* s s' \<Longrightarrow> inv s'"
  using run_inv init_inv by blast

lemma no_bad_step:
  assumes "init s" and "step\<^sup>*\<^sup>* s s'" and "\<And>s. inv s \<Longrightarrow> good s"
  shows "good s'"
  using reachable_inv [OF assms(1,2)] assms(3) by blast

end

end
