(* ===== verification/AccessThreads.thy ===== *)
theory AccessThreads
  imports AccessPrivate AccessTheorems Transitions
begin

text \<open>
  The multi-threaded unit tests of the access manager in \<^verbatim>\<open>src/unit_tests/AccessMgrTests.cpp\<close>:
  any number of threads that each take and release access in a loop, share an atomic counter and
  check, while they hold access, what the manager says about it.  A step is one critical section of
  the manager or one operation on the counter, in any order.
\<close>

section \<open>The threads\<close>

text \<open>
  Where a thread is in iteration \<open>i\<close>: asleep before \<open>Acquire\<close>, waiting in it, past it, between the
  increment and the decrement of \<open>contendedData\<close>, and after the decrement, where it goes round the
  inner loop or leaves it.  \<open>Sleeping numLoops\<close> is a thread that has returned.
\<close>

datatype tester_pc = Sleeping nat | Waiting nat | Holding nat | Counting nat | Counted nat

record tester_system =
  ts_access :: access_system
  ts_contendedData :: u32
  ts_pc :: "nat \<Rightarrow> tester_pc"

abbreviation ts_manager :: "tester_system \<Rightarrow> tAccessManager" where
  "ts_manager s \<equiv> as_manager (ts_access s)"
abbreviation ts_blocked :: "tester_system \<Rightarrow> nat set" where
  "ts_blocked s \<equiv> as_blocked (ts_access s)"

definition shared_turn :: "bool \<Rightarrow> nat \<Rightarrow> bool" where
  "shared_turn mixSharedAccess i \<longleftrightarrow> mixSharedAccess \<and> i mod 2 = 0"

definition tester_init :: "(nat \<Rightarrow> tRequest) \<Rightarrow> tester_system" where
  "tester_init memory =
     \<lparr>ts_access = \<lparr>as_manager = tAccessManager_new memory, as_blocked = {}\<rparr>, ts_contendedData = 0,
      ts_pc = (\<lambda>_. Sleeping 0)\<rparr>"

inductive tester_step :: "bool \<Rightarrow> nat \<Rightarrow> nat \<Rightarrow> tester_system \<Rightarrow> tester_system \<Rightarrow> bool"
  for mix :: bool and numThreads :: nat and numLoops :: nat where
  tester_acquire: "t < numThreads \<Longrightarrow> ts_pc s t = Sleeping i \<Longrightarrow> i < numLoops \<Longrightarrow>
     Acquire memory t (\<not> shared_turn mix i) (ts_manager s) = Inr (b, m') \<Longrightarrow>
     tester_step mix numThreads numLoops s
       (s\<lparr>ts_access := \<lparr>as_manager = m', as_blocked = block_if b t (ts_blocked s)\<rparr>,
          ts_pc := (ts_pc s)(t := if b then Waiting i else Holding i)\<rparr>)"
| tester_wake: "t < numThreads \<Longrightarrow> ts_pc s t = Waiting i \<Longrightarrow> signal_arrived t (ts_manager s) \<Longrightarrow>
     tester_step mix numThreads numLoops s
       (s\<lparr>ts_access := \<lparr>as_manager = WakeUp t (ts_manager s), as_blocked = ts_blocked s - {t}\<rparr>,
          ts_pc := (ts_pc s)(t := Holding i)\<rparr>)"
| tester_count: "t < numThreads \<Longrightarrow> ts_pc s t = Holding i \<or> ts_pc s t = Counted i \<Longrightarrow>
     tester_step mix numThreads numLoops s
       (s\<lparr>ts_contendedData := ts_contendedData s + 1, ts_pc := (ts_pc s)(t := Counting i)\<rparr>)"
| tester_query: "t < numThreads \<Longrightarrow> ts_pc s t = Counting i \<Longrightarrow>
     HasExclusiveAccess t (ts_manager s) = (x, m') \<or> HasSharedAccess t (ts_manager s) = (x, m') \<Longrightarrow>
     tester_step mix numThreads numLoops s
       (s\<lparr>ts_access := \<lparr>as_manager = m', as_blocked = ts_blocked s\<rparr>\<rparr>)"
| tester_uncount: "t < numThreads \<Longrightarrow> ts_pc s t = Counting i \<Longrightarrow>
     tester_step mix numThreads numLoops s
       (s\<lparr>ts_contendedData := ts_contendedData s - 1, ts_pc := (ts_pc s)(t := Counted i)\<rparr>)"
| tester_release: "t < numThreads \<Longrightarrow> ts_pc s t = Counted i \<Longrightarrow> Release t (ts_manager s) = Inr (x, m') \<Longrightarrow>
     tester_step mix numThreads numLoops s
       (s\<lparr>ts_access := \<lparr>as_manager = m', as_blocked = ts_blocked s\<rparr>,
          ts_pc := (ts_pc s)(t := Sleeping (Suc i))\<rparr>)"

text \<open>What a thread expects between the increment and the decrement.\<close>

definition tester_expects :: "bool \<Rightarrow> nat \<Rightarrow> u32 \<Rightarrow> tAccessManager \<Rightarrow> bool" where
  "tester_expects shared t contendedData m \<longleftrightarrow>
     (if shared
      then 0 < DebugGetActiveCount m \<and> DebugGetActiveExclusiveCount m = 0 \<and> 0 < DebugGetActiveSharedCount m
        \<and> 0 < contendedData \<and> \<not> fst (HasExclusiveAccess t m) \<and> fst (HasSharedAccess t m)
      else DebugGetActiveCount m = 1 \<and> DebugGetActiveExclusiveCount m = 1 \<and> DebugGetActiveSharedCount m = 0
        \<and> contendedData = 1 \<and> fst (HasExclusiveAccess t m) \<and> \<not> fst (HasSharedAccess t m))"

text \<open>What the main thread expects once the threads have returned.\<close>

definition returned :: "nat \<Rightarrow> tester_pc \<Rightarrow> bool" where
  "returned numLoops pc \<longleftrightarrow> (case pc of Sleeping i \<Rightarrow> numLoops \<le> i | _ \<Rightarrow> False)"

definition main_expects :: "tester_system \<Rightarrow> bool" where
  "main_expects s \<longleftrightarrow> ts_contendedData s = 0 \<and> DebugGetRefCount (ts_manager s) = 0
     \<and> DebugGetActiveCount (ts_manager s) = 0 \<and> DebugGetActiveExclusiveCount (ts_manager s) = 0
     \<and> DebugGetActiveSharedCount (ts_manager s) = 0"

section \<open>The invariant\<close>

definition counting :: "tester_pc \<Rightarrow> bool" where
  "counting pc \<longleftrightarrow> (case pc of Counting _ \<Rightarrow> True | _ \<Rightarrow> False)"

text \<open>The accesses and the blocking of a thread that belong to each place.\<close>

fun pc_stack :: "bool \<Rightarrow> tester_pc \<Rightarrow> bool list" where
  "pc_stack mix (Sleeping i) = []"
| "pc_stack mix (Waiting i) = [\<not> shared_turn mix i]"
| "pc_stack mix (Holding i) = [\<not> shared_turn mix i]"
| "pc_stack mix (Counting i) = [\<not> shared_turn mix i]"
| "pc_stack mix (Counted i) = [\<not> shared_turn mix i]"

fun pc_waits :: "tester_pc \<Rightarrow> bool" where
  "pc_waits (Waiting i) = True"
| "pc_waits _ = False"

definition tester_inv :: "bool \<Rightarrow> nat \<Rightarrow> tester_system \<Rightarrow> bool" where
  "tester_inv mix numThreads s \<longleftrightarrow> numThreads \<le> max_threads \<and> access_reachable (ts_access s)
     \<and> Susp (ts_manager s) = []
     \<and> held (ts_manager s) = (\<lambda>t. if t < numThreads then pc_stack mix (ts_pc s t) else [])
     \<and> ts_blocked s = {t. t < numThreads \<and> pc_waits (ts_pc s t)}
     \<and> ts_contendedData s = of_nat (card {t. t < numThreads \<and> counting (ts_pc s t)})"

lemma tester_init_inv: "numThreads \<le> max_threads \<Longrightarrow> tester_inv mix numThreads (tester_init memory)"
  by (auto simp: tester_inv_def tester_init_def manager_new_fields held_def counting_def intro: reach_init)

lemma not_suspended: "Susp m = [] \<Longrightarrow> t \<notin> set (rl_tids (suspendedRequests m))"
  by simp

text \<open>The counter follows the threads between increment and decrement.\<close>

lemma counting_update:
  assumes "t < n" and "ts_pc s t = pc"
  shows "of_nat (card {u. u < n \<and> counting (((ts_pc s)(t := pc')) u)})
    = (of_nat (card {u. u < n \<and> counting (ts_pc s u)}) :: u32)
      + (if counting pc' then 1 else 0) - (if counting pc then 1 else 0)"
proof -
  obtain R where R: "R = {u. u < n \<and> u \<noteq> t \<and> counting (ts_pc s u)}" by simp
  have "{u. u < n \<and> counting (ts_pc s u)} = (if counting pc then insert t R else R)"
    "{u. u < n \<and> counting (((ts_pc s)(t := pc')) u)} = (if counting pc' then insert t R else R)"
    using assms unfolding R by auto
  moreover have "finite R" "t \<notin> R" unfolding R by auto
  then have "(of_nat (card (insert t R)) :: u32) = of_nat (card R) + 1" by simp
  ultimately show ?thesis by (cases "counting pc"; cases "counting pc'") simp_all
qed

lemma held_at: "tester_inv mix n s \<Longrightarrow> t < n \<Longrightarrow> held (ts_manager s) t = pc_stack mix (ts_pc s t)"
  by (simp add: tester_inv_def)

lemma blocked_at: "tester_inv mix n s \<Longrightarrow> t < n \<Longrightarrow> t \<in> ts_blocked s \<longleftrightarrow> pc_waits (ts_pc s t)"
  by (simp add: tester_inv_def)

text \<open>
  One rule for every step: the manager keeps its invariant, the stack of \<open>t\<close> becomes that of its
  new place, and \<open>t\<close> is blocked or not as that place says.
\<close>

lemma tester_inv_move:
  assumes "tester_inv mix n s" and "t < n" and "access_reachable (ts_access s')"
    and "suspendedRequests (ts_manager s') = suspendedRequests (ts_manager s)"
    and "held (ts_manager s') = (held (ts_manager s))(t := pc_stack mix pc')"
    and "ts_blocked s' = (if pc_waits pc' then insert t (ts_blocked s) else ts_blocked s - {t})"
    and "ts_contendedData s'
      = ts_contendedData s + (if counting pc' then 1 else 0) - (if counting (ts_pc s t) then 1 else 0)"
    and "ts_pc s' = (ts_pc s)(t := pc')"
  shows "tester_inv mix n s'"
proof -
  from assms(1) have h: "held (ts_manager s) = (\<lambda>t. if t < n then pc_stack mix (ts_pc s t) else [])"
    and b: "ts_blocked s = {t. t < n \<and> pc_waits (ts_pc s t)}"
    and c: "ts_contendedData s = of_nat (card {t. t < n \<and> counting (ts_pc s t)})"
    and rest: "n \<le> max_threads" "Susp (ts_manager s) = []" by (simp_all add: tester_inv_def)
  have "held (ts_manager s') = (\<lambda>u. if u < n then pc_stack mix (ts_pc s' u) else [])"
    unfolding assms(5,8) h using assms(2) by (simp add: fun_eq_iff)
  moreover have "ts_blocked s' = {u. u < n \<and> pc_waits (ts_pc s' u)}"
    unfolding assms(6,8) b using assms(2) by auto
  moreover have "ts_contendedData s' = of_nat (card {u. u < n \<and> counting (ts_pc s' u)})"
    unfolding assms(7,8) c counting_update [where pc' = pc', OF assms(2) refl] ..
  ultimately show ?thesis using rest assms(3,4) unfolding tester_inv_def by simp
qed

lemma new_manager: "\<lparr>as_manager = m', as_blocked = as_blocked a\<rparr> = a\<lparr>as_manager := m'\<rparr>"
  by (cases a) simp

lemma woken_held:
  assumes "access_reachable a" and "t \<in> as_blocked a" and "signal_arrived t (as_manager a)"
  shows "held (WakeUp t (as_manager a)) = held (as_manager a)"
proof -
  from access_reachable_inv [OF assms(1)] have acc: "access_inv a" .
  from WakeUp_inv [OF acc assms(2,3)] have "mgr_inv (WakeUp t (as_manager a)) (as_blocked a - {t})"
    by (simp add: access_inv_def)
  moreover from acc have inv: "mgr_inv (as_manager a) (as_blocked a)" by (simp add: access_inv_def)
  ultimately show ?thesis using held_same WakeUp_claims [OF inv assms(3)] by blast
qed

text \<open>A thread past its \<open>Acquire\<close>.\<close>

lemma holding_place:
  assumes "tester_inv mix n s" and "t < n"
  shows "access_reachable (ts_access s)"
    and "ts_pc s t \<in> {Holding i, Counting i, Counted i} \<Longrightarrow> t \<notin> ts_blocked s"
    and "ts_pc s t \<in> {Holding i, Counting i, Counted i} \<Longrightarrow> ts_blocked s - {t} = ts_blocked s"
    and "ts_pc s t \<in> {Holding i, Counting i, Counted i} \<Longrightarrow> held (ts_manager s) t = [\<not> shared_turn mix i]"
    and "ts_pc s t \<in> {Holding i, Counting i, Counted i} \<Longrightarrow>
      held (ts_manager s) = (held (ts_manager s))(t := [\<not> shared_turn mix i])"
proof -
  show "access_reachable (ts_access s)" using assms by (simp add: tester_inv_def)
  assume pc: "ts_pc s t \<in> {Holding i, Counting i, Counted i}"
  then show "t \<notin> ts_blocked s" using blocked_at [OF assms] by auto
  then show "ts_blocked s - {t} = ts_blocked s" by simp
  show "held (ts_manager s) t = [\<not> shared_turn mix i]" using pc held_at [OF assms] by auto
  then show "held (ts_manager s) = (held (ts_manager s))(t := [\<not> shared_turn mix i])" by (simp add: fun_upd_idem)
qed

lemma tester_step_inv:
  assumes "tester_inv mix n s" and "tester_step mix n loops s s'"
  shows "tester_inv mix n s'"
  using assms(2,1)
proof (induction rule: tester_step.induct)
  case (tester_acquire t s i memory b m')
  let ?m = "ts_manager s"
  have reach: "access_reachable (ts_access s)" and lim: "t < max_threads"
    and susp: "t \<notin> set (rl_tids (suspendedRequests ?m))"
    using tester_acquire by (auto simp: tester_inv_def)
  have nb: "t \<notin> ts_blocked s" and h: "held ?m t = []"
    using blocked_at held_at tester_acquire by simp_all
  from step_acquire [OF nb lim susp tester_acquire(4)]
  have "access_reachable \<lparr>as_manager = m', as_blocked = block_if b t (ts_blocked s)\<rparr>"
    using reach by (blast intro: reach_step)
  moreover have "held m' = (held ?m)(t := [\<not> shared_turn mix i])"
    using private_steps(1) [OF access_reachable_inv [OF reach] refl nb lim susp tester_acquire(4)] h by simp
  moreover have "\<not> counting (ts_pc s t)" using tester_acquire(2) by (simp add: counting_def)
  ultimately show ?case
    using nb Acquire_susp [OF tester_acquire(4)]
    by (intro tester_inv_move [where pc' = "if b then Waiting i else Holding i", OF tester_acquire(5,1)])
      (cases b; simp add: block_if_def counting_def)+
next
  case (tester_wake t s i)
  let ?m = "ts_manager s"
  have reach: "access_reachable (ts_access s)" using tester_wake by (simp add: tester_inv_def)
  have b: "t \<in> ts_blocked s" using blocked_at tester_wake by simp
  have "access_reachable \<lparr>as_manager = WakeUp t ?m, as_blocked = ts_blocked s - {t}\<rparr>"
    using reach step_wake [OF b tester_wake(3)] by (blast intro: reach_step)
  moreover have "held (WakeUp t ?m) = (held ?m)(t := [\<not> shared_turn mix i])"
    using woken_held [OF reach b tester_wake(3)] held_at [OF tester_wake(4,1)] tester_wake(2)
    by (simp add: fun_upd_idem)
  moreover have "\<not> counting (ts_pc s t)" using tester_wake(2) by (simp add: counting_def)
  ultimately show ?case
    by (intro tester_inv_move [where pc' = "Holding i", OF tester_wake(4,1)])
      (simp_all add: counting_def WakeUp_susp)
next
  case (tester_count t s i)
  note here = holding_place(1) [OF tester_count(3,1)] holding_place(2-5) [OF tester_count(3,1), of i]
  have "\<not> counting (ts_pc s t)" using tester_count(2) by (auto simp: counting_def)
  with here tester_count(2) show ?case
    by (intro tester_inv_move [where pc' = "Counting i", OF tester_count(3,1)]) (auto simp: counting_def)
next
  case (tester_query t s i x m')
  note here = holding_place(1) [OF tester_query(4,1)] holding_place(2-5) [OF tester_query(4,1), of i]
  have "access_reachable \<lparr>as_manager = m', as_blocked = ts_blocked s\<rparr>"
    unfolding new_manager using here(1) tester_query(2,3) by (blast intro: reach_step step_query_exclusive step_query_shared)
  moreover have "held m' = held (ts_manager s)"
    using private_steps(6) [OF access_reachable_inv [OF here(1)] refl here(2) tester_query(3)] tester_query(2) by simp
  moreover have "ts_pc s = (ts_pc s)(t := Counting i)" using tester_query(2) by (simp add: fun_upd_idem)
  ultimately show ?case
    using here tester_query(2) query_susp [OF tester_query(3)]
    by (intro tester_inv_move [where pc' = "Counting i", OF tester_query(4,1)]) (simp_all add: counting_def)
next
  case (tester_uncount t s i)
  note here = holding_place(1) [OF tester_uncount(3,1)] holding_place(2-5) [OF tester_uncount(3,1), of i]
  have "counting (ts_pc s t)" using tester_uncount(2) by (simp add: counting_def)
  with here tester_uncount(2) show ?case
    by (intro tester_inv_move [where pc' = "Counted i", OF tester_uncount(3,1)]) (auto simp: counting_def)
next
  case (tester_release t s i x m')
  note here = holding_place(1) [OF tester_release(4,1)] holding_place(2-5) [OF tester_release(4,1), of i]
  have "access_reachable \<lparr>as_manager = m', as_blocked = ts_blocked s\<rparr>"
    unfolding new_manager using here(1,2) tester_release(2) step_release [OF _ tester_release(3)] by (blast intro: reach_step)
  moreover have "held m' = (held (ts_manager s))(t := [])"
    using private_steps(2) [OF access_reachable_inv [OF here(1)] refl here(2) tester_release(3)] here(4) tester_release(2) by simp
  moreover have "\<not> counting (ts_pc s t)" using tester_release(2) by (simp add: counting_def)
  ultimately show ?case
    using here(2,3) tester_release(2) Release_susp [OF tester_release(3)]
    by (intro tester_inv_move [where pc' = "Sleeping (Suc i)", OF tester_release(4,1)])
      (simp_all add: counting_def)
qed

interpretation testers: invariant_system
    "\<lambda>s. numThreads \<le> max_threads \<and> (\<exists>memory. s = tester_init memory)"
    "tester_step mix numThreads numLoops" "tester_inv mix numThreads"
  for mix numThreads numLoops
  by unfold_locales (auto intro: tester_init_inv tester_step_inv)

section \<open>The expectations hold\<close>

text \<open>The request of a thread that holds one access and is not blocked is active.\<close>

lemma own_active:
  assumes "tester_inv mix n s" and "t < n" and "ts_pc s t \<in> {Holding i, Counting i, Counted i}"
  obtains r where "r \<in> set (Act (ts_manager s))" and "rq_tid r = t" and "req_stack r = [\<not> shared_turn mix i]"
    and "good_request r" and "mgr_inv (ts_manager s) (ts_blocked s)"
proof -
  let ?m = "ts_manager s"
  note here = holding_place(1) [OF assms(1,2)] holding_place(2-5) [OF assms(1,2), of i]
  from access_reachable_inv [OF here(1)] have inv: "mgr_inv ?m (ts_blocked s)" by (simp add: access_inv_def)
  have "(t, [\<not> shared_turn mix i]) \<in> claims ?m"
    using held_iff [OF inv, of t "[\<not> shared_turn mix i]"] here(4) assms(3) by simp
  then obtain r where r: "r \<in> set (Act ?m) \<union> set (Pend ?m) \<union> set (Susp ?m)" "rq_tid r = t"
    "req_stack r = [\<not> shared_turn mix i]" by (fastforce simp: claims_def)
  have "Susp ?m = []" using assms(1) by (simp add: tester_inv_def)
  with r here(2) assms(3) inv have "r \<in> set (Act ?m)" by (auto simp: mgr_inv_def acc_inv_def)
  moreover from this inv have "good_request r" by (auto simp: mgr_inv_def acc_inv_def)
  ultimately show ?thesis using r inv by (intro that)
qed

lemma one_access:
  assumes "req_stack r = [x]" and "req_inv r"
  shows "rq_exclusive r = (if x then 1 else 0)" and "rq_shared r = (if x then 0 else 1)"
proof -
  have "unat (rq_exclusive r) = (if x then 1 else 0)" using assms by (simp add: req_inv_def)
  moreover have "unat (rq_shared r) + unat (rq_exclusive r) = 1"
    using arg_cong [OF assms(1), of length] by (simp add: req_count_def)
  ultimately show "rq_exclusive r = (if x then 1 else 0)" "rq_shared r = (if x then 0 else 1)"
    by (auto simp: unat_eq_0 [symmetric] word_unat_eq_iff split: if_splits)
qed

lemma HasSharedAccess_value:
  assumes "mgr_inv m B" and "t \<in> set (rl_tids (activeRequests m))"
  shows "fst (HasSharedAccess t m) \<longleftrightarrow> DebugGetActiveExclusiveCount m = 0 \<and> 0 < DebugGetActiveSharedCount m"
proof -
  from assms(1) have rl: "rl_inv (activeRequests m)" by (simp add: mgr_inv_def rl_invs_def)
  obtain r l where rem: "tRequestList_Remove t (activeRequests m) = (Some r, l)"
    using assms(2) Remove_None_iff [of t "activeRequests m"] by (cases "tRequestList_Remove t (activeRequests m)") auto
  from Remove_SomeD [OF rem rl] obtain xs ys where l: "Act m = xs @ r # ys" "rl_requests l = xs @ ys" "rl_inv l" .
  let ?l = "tRequestList_AddAtHead r l"
  have "rl_inv ?l" using l(3) by simp
  then have "rl_shared ?l = rl_shared (activeRequests m)" "rl_exclusive ?l = rl_exclusive (activeRequests m)"
    using rl l by (simp_all add: rl_inv_def)
  then show ?thesis
    using rem by (simp add: HasSharedAccess_def Let_def tRequestList_CountExclusive_def tRequestList_CountShared_def
        DebugGetActiveExclusiveCount_def DebugGetActiveSharedCount_def)
qed

lemma counting_threads:
  assumes "tester_inv mix n s" and "t < n" and "ts_pc s t = Counting i"
  shows "0 < ts_contendedData s"
    and "(\<And>u. u < n \<Longrightarrow> counting (ts_pc s u) \<Longrightarrow> u = t) \<Longrightarrow> ts_contendedData s = 1"
proof -
  let ?C = "{u. u < n \<and> counting (ts_pc s u)}"
  have c: "ts_contendedData s = of_nat (card ?C)" and n: "n \<le> max_threads"
    using assms(1) by (simp_all add: tester_inv_def)
  have fin: "finite ?C" and mem: "t \<in> ?C" using assms(2,3) by (simp_all add: counting_def)
  have "card ?C \<le> card {..<n}" by (intro card_mono) auto
  with n have "card ?C < 2 ^ 32" by (simp add: max_threads_def)
  moreover have "0 < card ?C" using fin mem card_gt_0_iff by blast
  ultimately have "0 < unat (of_nat (card ?C) :: u32)" by (simp add: unat_of_nat take_bit_nat_eq_self)
  then show "0 < ts_contendedData s" by (simp add: c word_less_nat_alt)
  assume "\<And>u. u < n \<Longrightarrow> counting (ts_pc s u) \<Longrightarrow> u = t"
  with mem have "?C = {t}" by auto
  then show "ts_contendedData s = 1" by (simp add: c)
qed

lemma expects_exclusive:
  assumes "tester_inv mix n s" and "t < n" and "ts_pc s t = Counting i" and "\<not> shared_turn mix i"
  shows "tester_expects False t (ts_contendedData s) (ts_manager s)"
proof -
  let ?m = "ts_manager s"
  have pc: "ts_pc s t \<in> {Holding i, Counting i, Counted i}" using assms(3) by simp
  from own_active [OF assms(1,2) pc] obtain r where r: "r \<in> set (Act ?m)" "rq_tid r = t" "req_stack r = [True]"
    "good_request r" and inv: "mgr_inv ?m (ts_blocked s)" using assms(4) by auto
  from one_access [OF r(3)] r(4) have one: "rq_exclusive r = 1" "rq_shared r = 0" by (auto simp: good_request_def)
  with inv r(1) have act: "Act ?m = [r]"
    by (cases "Act ?m") (auto simp: mgr_inv_def acc_inv_def exclusion_def)
  then have cnt: "DebugGetActiveExclusiveCount ?m = 1" "DebugGetActiveSharedCount ?m = 0" "DebugGetActiveCount ?m = 1"
    using inv one by (simp_all add: DebugGetActiveExclusiveCount_def DebugGetActiveSharedCount_def
        DebugGetActiveCount_def tRequestList_Count_def tRequestList_CountExclusive_def
        tRequestList_CountShared_def mgr_inv_def rl_invs_def rl_inv_def)
  have "u = t" if u: "u < n" "counting (ts_pc s u)" for u
  proof -
    from u(2) obtain j where "ts_pc s u = Counting j" by (cases "ts_pc s u") (auto simp: counting_def)
    then have "ts_pc s u \<in> {Holding j, Counting j, Counted j}" by simp
    from own_active [OF assms(1) u(1) this] act r(2) show ?thesis by auto
  qed
  from counting_threads(2) [OF assms(1-3) this] have "ts_contendedData s = 1" by blast
  with cnt act r(2) one inv show ?thesis
    by (simp add: tester_expects_def HasExclusiveAccess_iff [OF inv] HasSharedAccess_value [OF inv])
qed

lemma expects_shared:
  assumes "tester_inv mix n s" and "t < n" and "ts_pc s t = Counting i" and "shared_turn mix i"
  shows "tester_expects True t (ts_contendedData s) (ts_manager s)"
proof -
  let ?m = "ts_manager s"
  have pc: "ts_pc s t \<in> {Holding i, Counting i, Counted i}" using assms(3) by simp
  from own_active [OF assms(1,2) pc] obtain r where r: "r \<in> set (Act ?m)" "rq_tid r = t" "req_stack r = [False]"
    "good_request r" and inv: "mgr_inv ?m (ts_blocked s)" using assms(4) by auto
  from one_access [OF r(3)] r(4) have one: "rq_exclusive r = 0" "rq_shared r = 1" by (auto simp: good_request_def)
  have good: "good_list (activeRequests ?m)" using inv acc_inv_good_lists by (auto simp: mgr_inv_def)
  then have gl: "rl_inv (activeRequests ?m)" "\<forall>q\<in>set (Act ?m). req_inv q" "length (Act ?m) < 2 ^ 26"
    using good_list_length by (auto simp: good_list_def good_request_def)
  have none: "\<forall>q\<in>set (Act ?m). rq_exclusive q = 0"
  proof (rule ballI, rule ccontr)
    fix q assume "q \<in> set (Act ?m)" "rq_exclusive q \<noteq> 0"
    with inv r(1) one show False by (cases "Act ?m") (auto simp: mgr_inv_def acc_inv_def exclusion_def)
  qed
  then have ex: "DebugGetActiveExclusiveCount ?m = 0"
    using rl_exclusive_zero_iff [OF gl] by (simp add: DebugGetActiveExclusiveCount_def tRequestList_CountExclusive_def)
  have "(\<Sum>q\<leftarrow>Act ?m. unat (rq_shared q)) \<noteq> 0"
    using r(1) one(2) by (auto simp: sum_list_map_eq_0_nat intro!: bexI [of _ r])
  then have "rl_shared (activeRequests ?m) \<noteq> 0" using unat_rl_shared [OF gl] by auto
  with ex have "0 < DebugGetActiveSharedCount ?m" "0 < DebugGetActiveCount ?m"
    by (auto simp: DebugGetActiveSharedCount_def DebugGetActiveCount_def DebugGetActiveExclusiveCount_def
        tRequestList_Count_def tRequestList_CountExclusive_def tRequestList_CountShared_def word_gt_0)
  moreover have "\<not> fst (HasExclusiveAccess t ?m)" using none by (auto simp: HasExclusiveAccess_iff [OF inv])
  moreover have "t \<in> set (rl_tids (activeRequests ?m))" using r(1,2) by force
  ultimately show ?thesis
    using ex counting_threads(1) [OF assms(1-3)] by (simp add: tester_expects_def HasSharedAccess_value [OF inv])
qed

lemma returned_place: "returned numLoops pc \<Longrightarrow> pc_stack mix pc = [] \<and> \<not> counting pc \<and> \<not> pc_waits pc"
  by (cases pc) (auto simp: returned_def counting_def)

lemma expects_at_end:
  assumes "tester_inv mix n s" and "\<forall>t<n. returned numLoops (ts_pc s t)"
  shows "main_expects s"
proof -
  let ?m = "ts_manager s"
  have inv: "access_inv (ts_access s)" and h: "held ?m = (\<lambda>t. if t < n then pc_stack mix (ts_pc s t) else [])"
    and c: "ts_contendedData s = of_nat (card {t. t < n \<and> counting (ts_pc s t)})"
    using assms(1) access_reachable_inv by (auto simp: tester_inv_def)
  from assms(2) have pc: "pc_stack mix (ts_pc s t) = []" "\<not> counting (ts_pc s t)" if "t < n" for t
    using that returned_place [of numLoops "ts_pc s t"] by auto
  then have none: "{t. t < n \<and> counting (ts_pc s t)} = {}" by auto
  from inv have minv: "mgr_inv ?m (ts_blocked s)" and ref: "ref_ok 0 ?m" by (simp_all add: access_inv_def)
  have "held ?m t = []" for t using pc by (simp add: h)
  then have "claims ?m = {}" using held_iff [OF minv, of _ "[]"] by fastforce
  then have "Act ?m = []" "Pend ?m = []" "Susp ?m = []" by (auto simp: claims_def)
  with ref minv c none show ?thesis
    by (simp add: main_expects_def ref_ok_def total_def DebugGetRefCount_def DebugGetActiveCount_def
        DebugGetActiveExclusiveCount_def DebugGetActiveSharedCount_def tRequestList_Count_def
        tRequestList_CountExclusive_def tRequestList_CountShared_def mgr_inv_def rl_invs_def rl_inv_def unat_eq_0)
qed

section \<open>The threads can always finish\<close>

lemma Acquire_first_total:
  assumes "tRequestList_Remove t (activeRequests m) = (None, l)"
  shows "\<exists>b m'. Acquire memory t x m = Inr (b, m')"
proof -
  let ?type = "if x then kExclusive else kShared"
  obtain mem m1 where new: "tRequest_operator_new memory (IncRef m) = (mem, m1)" by (metis surj_pair)
  have "\<exists>r. tRequest_ctor t ?type mem = Inr r"
    using Add_kShared [OF req_inv_fresh(1)] Add_kExclusive [OF req_inv_fresh(1)]
    by (fastforce simp: tRequest_ctor_def req_inv_fresh)
  then obtain r where "tRequest_ctor t ?type mem = Inr r" ..
  with new assms show ?thesis
    by (cases x; cases "SatisfyRequest (Some r) 0 m1")
      (simp_all add: Acquire_def Let_def GetExclusiveAccess_def GetSharedAccess_def)
qed

lemma Release_own_total:
  assumes "access_inv a" and "t \<notin> as_blocked a" and "tRequestList_Remove t (activeRequests (as_manager a)) = (Some r, l)"
  shows "\<exists>x m'. Release t (as_manager a) = Inr (x, m')"
proof -
  let ?m = "as_manager a"
  from assms(1) have inv: "mgr_inv ?m (as_blocked a)" and ref: "ref_ok 0 ?m" by (simp_all add: access_inv_def)
  have "good_request r" using own_request [OF inv assms(2,3)] by metis
  from RemoveLast_good [OF this] obtain x r' where last: "tRequest_RemoveLast r = Inr (x, r')" by blast
  let ?m1 = "if tRequest_Count r' \<noteq> 0 then ?m\<lparr>activeRequests := tRequestList_AddAtHead r' l\<rparr>
             else tRequest_operator_delete r' (?m\<lparr>activeRequests := l\<rparr>)"
  note own = release_own [OF inv assms(2,3) last refl]
  then have inv1: "mgr_inv ?m1 (as_blocked a)" by blast
  have "ref_ok 1 ?m1" using own ref by (simp add: ref_ok_def)
  then have "ref_ok 1 (SatisfyPending ?m1)"
    using SatisfyPending_inv [OF inv1] by (auto intro: same_frame_ref_ok)
  from DecRef_ok [OF this] obtain m' where "DecRef (SatisfyPending ?m1) = Inr m'" by blast
  with assms(3) last show ?thesis by (simp add: Release_def Let_def cong: if_cong)
qed

text \<open>The critical sections a thread still has to run, without going round the inner loop again.\<close>

fun pc_left :: "nat \<Rightarrow> tester_pc \<Rightarrow> nat" where
  "pc_left loops (Sleeping i) = 5 * (loops - i)"
| "pc_left loops (Waiting i) = 5 * (loops - Suc i) + 4"
| "pc_left loops (Holding i) = 5 * (loops - Suc i) + 3"
| "pc_left loops (Counting i) = 5 * (loops - Suc i) + 2"
| "pc_left loops (Counted i) = 5 * (loops - Suc i) + 1"

definition threads_left :: "nat \<Rightarrow> nat \<Rightarrow> tester_system \<Rightarrow> nat" where
  "threads_left n loops s = (\<Sum>t<n. pc_left loops (ts_pc s t))"

lemma threads_left_move:
  assumes "t < n" and "ts_pc s' = (ts_pc s)(t := pc')" and "pc_left loops pc' < pc_left loops (ts_pc s t)"
  shows "threads_left n loops s' < threads_left n loops s"
  unfolding threads_left_def using assms by (intro sum_strict_mono_ex1) auto

text \<open>A thread that has not returned and does not wait has a next step.\<close>

lemma running_thread_steps:
  assumes "tester_inv mix n s" and "t < n" and "\<not> returned loops (ts_pc s t)" and "\<not> pc_waits (ts_pc s t)"
  shows "\<exists>s'. tester_step mix n loops s s' \<and> threads_left n loops s' < threads_left n loops s"
proof (cases "ts_pc s t")
  case (Sleeping i)
  have "access_inv (ts_access s)" using assms(1) access_reachable_inv by (simp add: tester_inv_def)
  then have inv: "mgr_inv (ts_manager s) (ts_blocked s)" by (simp add: access_inv_def)
  have "t \<notin> fst ` claims (ts_manager s)"
    using held_at [OF assms(1,2)] Sleeping held_iff [OF inv, of t "[]"] by simp
  then have "t \<notin> set (rl_tids (activeRequests (ts_manager s)))" by (force simp: claims_def)
  then obtain l where "tRequestList_Remove t (activeRequests (ts_manager s)) = (None, l)"
    using Remove_None_iff [of t "activeRequests (ts_manager s)"]
    by (cases "tRequestList_Remove t (activeRequests (ts_manager s))") auto
  from Acquire_first_total [OF this] obtain b m' where
    acq: "Acquire undefined t (\<not> shared_turn mix i) (ts_manager s) = Inr (b, m')" by blast
  have i: "i < loops" using assms(3) Sleeping by (simp add: returned_def)
  have "threads_left n loops (s\<lparr>ts_access := a, ts_pc := (ts_pc s)(t := if b then Waiting i else Holding i)\<rparr>)
    < threads_left n loops s" for a
    using i Sleeping by (intro threads_left_move [OF assms(2)]) (auto split: if_splits)
  with tester_acquire [OF assms(2) Sleeping i acq] show ?thesis by blast
next
  case (Holding i)
  have "threads_left n loops (s\<lparr>ts_contendedData := c, ts_pc := (ts_pc s)(t := Counting i)\<rparr>)
    < threads_left n loops s" for c
    using Holding by (intro threads_left_move [OF assms(2)]) auto
  with tester_count [where mix = mix and numLoops = loops, OF assms(2)] Holding show ?thesis by blast
next
  case (Counting i)
  have "threads_left n loops (s\<lparr>ts_contendedData := c, ts_pc := (ts_pc s)(t := Counted i)\<rparr>)
    < threads_left n loops s" for c
    using Counting by (intro threads_left_move [OF assms(2)]) auto
  with tester_uncount [where mix = mix and numLoops = loops, OF assms(2) Counting] show ?thesis by blast
next
  case (Counted i)
  have pc: "ts_pc s t \<in> {Holding i, Counting i, Counted i}" using Counted by simp
  have inv: "access_inv (ts_access s)" using assms(1) access_reachable_inv by (simp add: tester_inv_def)
  from own_active [OF assms(1,2) pc] obtain r where "r \<in> set (Act (ts_manager s))" "rq_tid r = t" by metis
  then obtain q l where "tRequestList_Remove t (activeRequests (ts_manager s)) = (Some q, l)"
    using Remove_None_iff [of t "activeRequests (ts_manager s)"]
    by (cases "tRequestList_Remove t (activeRequests (ts_manager s))") auto
  from Release_own_total [OF inv _ this] holding_place(2) [OF assms(1,2) pc] obtain x m' where
    "Release t (ts_manager s) = Inr (x, m')" by blast
  from tester_release [where mix = mix and numLoops = loops, OF assms(2) Counted this]
  have "tester_step mix n loops s (s\<lparr>ts_access := \<lparr>as_manager = m', as_blocked = ts_blocked s\<rparr>,
    ts_pc := (ts_pc s)(t := Sleeping (Suc i))\<rparr>)" .
  moreover have "threads_left n loops (s\<lparr>ts_access := a, ts_pc := (ts_pc s)(t := Sleeping (Suc i))\<rparr>)
    < threads_left n loops s" for a
    using Counted by (intro threads_left_move [OF assms(2)]) auto
  ultimately show ?thesis by blast
qed (use assms(4) in simp)

lemma some_thread_steps:
  assumes "tester_inv mix n s" and "t < n" and "\<not> returned loops (ts_pc s t)"
  shows "\<exists>s'. tester_step mix n loops s s' \<and> threads_left n loops s' < threads_left n loops s"
proof (cases "\<exists>u<n. \<not> returned loops (ts_pc s u) \<and> \<not> pc_waits (ts_pc s u)")
  case True
  with running_thread_steps [OF assms(1)] show ?thesis by blast
next
  case False
  have inv: "access_inv (ts_access s)" using assms(1) access_reachable_inv by (simp add: tester_inv_def)
  then have minv: "mgr_inv (ts_manager s) (ts_blocked s)" by (simp add: access_inv_def)
  have "t \<in> ts_blocked s" using False assms(2,3) blocked_at [OF assms(1,2)] by blast
  then have "ts_blocked s \<noteq> {}" by blast
  from waiting_progress [OF inv this] show ?thesis
  proof
    assume "\<exists>u\<in>ts_blocked s. signal_arrived u (ts_manager s)"
    then obtain u where u: "u < n" "pc_waits (ts_pc s u)" "signal_arrived u (ts_manager s)"
      using assms(1) by (auto simp: tester_inv_def)
    then obtain i where "ts_pc s u = Waiting i" by (cases "ts_pc s u") auto
    then have "threads_left n loops (s\<lparr>ts_access := a, ts_pc := (ts_pc s)(u := Holding i)\<rparr>)
      < threads_left n loops s" for a
      by (intro threads_left_move [OF u(1)]) auto
    with tester_wake [OF u(1) \<open>ts_pc s u = Waiting i\<close> u(3)] show ?thesis by blast
  next
    assume "\<exists>r\<in>set (Act (ts_manager s)). rq_tid r \<notin> ts_blocked s"
    then obtain r where r: "r \<in> set (Act (ts_manager s))" "rq_tid r \<notin> ts_blocked s" by blast
    then have "rq_tid r \<in> fst ` claims (ts_manager s)" by (force simp: claims_def)
    then have "held (ts_manager s) (rq_tid r) \<noteq> []" using held_iff [OF minv, of "rq_tid r" "[]"] by simp
    then have "rq_tid r < n" "pc_stack mix (ts_pc s (rq_tid r)) \<noteq> []"
      using assms(1) by (auto simp: tester_inv_def split: if_splits)
    with False r(2) blocked_at [OF assms(1)] returned_place show ?thesis by blast
  qed
qed

lemma threads_finish:
  "tester_inv mix n s \<Longrightarrow> \<exists>s'. (tester_step mix n loops)\<^sup>*\<^sup>* s s' \<and> (\<forall>t<n. returned loops (ts_pc s' t))"
proof (induction "threads_left n loops s" arbitrary: s rule: less_induct)
  case less
  show ?case
  proof (cases "\<forall>t<n. returned loops (ts_pc s t)")
    case True
    then show ?thesis by blast
  next
    case False
    then obtain s1 where s1: "tester_step mix n loops s s1" "threads_left n loops s1 < threads_left n loops s"
      using some_thread_steps [OF less.prems] by blast
    from less.hyps [OF s1(2) tester_step_inv [OF less.prems s1(1)]] s1(1) show ?thesis
      by (meson converse_rtranclp_into_rtranclp)
  qed
qed

section \<open>The theorems\<close>

text \<open>
  C10.  Every thread has its own stack.  Under every interleaving an acquisition pushes on the
  caller's stack, whether it is granted or queued, a release pops the access it reports, and
  suspending, resuming, giving way, asking and being woken leave all stacks as they are, so nothing
  that other threads do changes a thread's nested accesses.
\<close>

theorem accesses_are_private:
  assumes "access_reachable s" and "m = as_manager s" and "t \<notin> as_blocked s"
  shows "(t < max_threads \<and> t \<notin> set (rl_tids (suspendedRequests m)) \<and> Acquire memory t x m = Inr (b, m')
            \<longrightarrow> held m' = (held m)(t := x # held m t))
    \<and> (Release t m = Inr (x, m') \<longrightarrow> (\<exists>st. held m t = x # st \<and> held m' = (held m)(t := st)))
    \<and> (SuspendAccess t m = Inr m' \<or> ResumeAccess t m = (b, m')
         \<or> DebugAssertActive t m \<and> ReleaseAndReacquireAtEnd t m = (b, m')
         \<or> HasExclusiveAccess u m = (b, m') \<or> HasSharedAccess u m = (b, m')
         \<or> u \<in> as_blocked s \<and> signal_arrived u m \<and> WakeUp u m = m'
         \<longrightarrow> held m' = held m)"
  using private_steps [OF access_reachable_inv [OF assms(1)] assms(2,3)] by blast

theorem accesses_are_private_witness:
  "held demo1 = (\<lambda>_. [])(1 := [True]) \<and> held demo2 = (held demo1)(2 := [False])"
proof
  have claims1: "claims demo1 = {(1, [True])}" by code_simp
  from access_reachable_inv [OF demo_reachable(1)] have inv: "mgr_inv demo1 {}" by (simp add: access_inv_def)
  then show one: "held demo1 = (\<lambda>_. [])(1 := [True])"
    by (auto simp: held_iff claims1 fun_eq_iff)
  from accesses_are_private [OF demo_reachable(1) refl, where t = 2 and memory = demo_memory and x = False
      and b = True and m' = demo2 and u = 2] demo_steps(2) one
  show "held demo2 = (held demo1)(2 := [False])"
    by (simp add: max_threads_def demo_lists)
qed

text \<open>
  C11.  The threaded unit tests of the manager pass under every interleaving, for any number of
  threads and of iterations: a thread between the increment and the decrement finds everything it
  expects of the manager and of the shared counter, the main thread finds the manager unused once
  all have returned, and from every state that can be reached the threads can still all return.
\<close>

theorem threaded_unit_tests_pass:
  assumes "numThreads \<le> max_threads"
    and "(tester_step mix numThreads numLoops)\<^sup>*\<^sup>* (tester_init memory) s"
  shows "(\<forall>t i. t < numThreads \<and> ts_pc s t = Counting i
            \<longrightarrow> tester_expects (shared_turn mix i) t (ts_contendedData s) (ts_manager s))
    \<and> ((\<forall>t<numThreads. returned numLoops (ts_pc s t)) \<longrightarrow> main_expects s)
    \<and> (\<exists>s'. (tester_step mix numThreads numLoops)\<^sup>*\<^sup>* s s'
          \<and> (\<forall>t<numThreads. returned numLoops (ts_pc s' t)))"
proof -
  have inv: "tester_inv mix numThreads s"
    using assms by (intro testers.reachable_inv [OF _ assms(2)]) auto
  have "tester_expects (shared_turn mix i) t (ts_contendedData s) (ts_manager s)"
    if "t < numThreads" "ts_pc s t = Counting i" for t i
    using expects_shared [OF inv that] expects_exclusive [OF inv that] by (cases "shared_turn mix i") auto
  then show ?thesis using expects_at_end [OF inv] threads_finish [OF inv] by blast
qed

theorem threaded_unit_tests_pass_witness:
  "\<exists>s. (tester_step False 8 5)\<^sup>*\<^sup>* (tester_init (\<lambda>_. demo_memory)) s \<and> ts_pc s 0 = Counting 0
     \<and> tester_expects False 0 (ts_contendedData s) (ts_manager s)"
proof -
  obtain m where m: "Acquire demo_memory 0 (\<not> shared_turn False 0) demo0 = Inr (False, m)"
  proof -
    have "case Acquire demo_memory 0 True demo0 of Inr (b, _) \<Rightarrow> \<not> b | Inl _ \<Rightarrow> False" by code_simp
    then show thesis using that by (auto simp: shared_turn_def split: sum.splits)
  qed
  let ?s0 = "tester_init (\<lambda>_. demo_memory)"
  have init: "ts_pc ?s0 0 = Sleeping 0" "ts_manager ?s0 = demo0" by (simp_all add: tester_init_def demo0_def)
  let ?s1 = "?s0\<lparr>ts_access := \<lparr>as_manager = m, as_blocked = block_if False 0 (ts_blocked ?s0)\<rparr>,
    ts_pc := (ts_pc ?s0)(0 := Holding 0)\<rparr>"
  have s1: "tester_step False 8 5 ?s0 ?s1"
    using tester_acquire [where mix = False and numThreads = 8 and numLoops = 5, OF _ init(1) _ m [folded init(2)]]
    by (simp only: if_False zero_less_numeral)
  let ?s2 = "?s1\<lparr>ts_contendedData := ts_contendedData ?s1 + 1, ts_pc := (ts_pc ?s1)(0 := Counting 0)\<rparr>"
  obtain s2 where s2: "tester_step False 8 5 ?s1 s2" "ts_pc s2 0 = Counting 0"
  proof
    show "tester_step False 8 5 ?s1 ?s2" by (rule tester_count) simp_all
  qed simp
  have run: "(tester_step False 8 5)\<^sup>*\<^sup>* ?s0 s2" using s1 s2(1) by (meson r_into_rtranclp rtranclp_trans)
  from threaded_unit_tests_pass [OF _ this] s2(2) have "tester_expects False 0 (ts_contendedData s2) (ts_manager s2)"
    by (force simp: max_threads_def shared_turn_def)
  with run s2(2) show ?thesis by blast
qed

end
