(* ===== verification/EventManager.thy ===== *)
theory EventManager
  imports Errors
begin

text \<open>
  Connection-manager events on Linux: the per-connection event queues of
  \<^verbatim>\<open>core/linux/EventManager.h\<close>, the thread of \<^verbatim>\<open>core/linux/RdmaCommon.cpp\<close> that distributes the
  events of the one event channel, and the cancellable wait on a file descriptor of
  \<^verbatim>\<open>core/linux/FdPoller.h\<close>.

  Events are produced by \<open>librdmacm\<close>; the results of its calls are arguments.  A connection
  (\<open>rdma_cm_id*\<close>) is a number.
\<close>

section \<open>Events\<close>

text \<open>The event types the library names; \<open>RDMA_CM_EVENT_other\<close> is any other one, with its number.\<close>

datatype rdma_cm_event_type =
    RDMA_CM_EVENT_ADDR_RESOLVED | RDMA_CM_EVENT_ROUTE_RESOLVED | RDMA_CM_EVENT_CONNECT_REQUEST
  | RDMA_CM_EVENT_ESTABLISHED | RDMA_CM_EVENT_DISCONNECTED | RDMA_CM_EVENT_other int

record rdma_cm_event =
  cm_event :: rdma_cm_event_type
  cm_event_id :: nat
  cm_event_listen_id :: nat
  cm_private_data :: "u8 list"

record ConnectionEvent =
  eventType :: rdma_cm_event_type
  incomingConnectionId :: "nat option"
  ce_connectionData :: "u8 list"

section \<open>The queue of one connection\<close>

record ConnectionQueue =
  cq_events :: "ConnectionEvent list"
  waitAborted :: bool

definition EventManager_h :: string where "EventManager_h = ''core/linux/EventManager.h''"

definition ConnectionQueue_new :: ConnectionQueue where
  "ConnectionQueue_new = \<lparr>cq_events = [], waitAborted = False\<rparr>"

text \<open>
  \<open>WaitForEvent\<close> after its wait, if it waited.  \<open>reportCancel\<close> says that the caller passed a
  \<open>cancelledResult\<close>; the result \<open>None\<close> is a cancelled wait reported through it.
\<close>

definition CQ_WaitForEvent_locked ::
  "bool \<Rightarrow> ConnectionQueue \<Rightarrow> (exn, ConnectionEvent option, ConnectionQueue) outcome" where
  "CQ_WaitForEvent_locked reportCancel q =
     (if waitAborted q then
        if reportCancel then (Inr None, q)
        else (Inl (RDMA_THROW EventManager_h 55 easyrdma_Error_OperationCancelled), q)
      else if cq_events q = [] then (Inl (RDMA_THROW EventManager_h 58 easyrdma_Error_InternalError), q)
      else (Inr (Some (hd (cq_events q))), q\<lparr>cq_events := tl (cq_events q)\<rparr>))"

text \<open>
  \<open>wait\<close> is the wait on \<open>moreEvents\<close>: whether it ended by timeout, and the queue as it is then.
\<close>

definition CQ_WaitForEvent ::
  "(ConnectionQueue \<Rightarrow> bool \<times> ConnectionQueue) \<Rightarrow> int \<Rightarrow> bool \<Rightarrow> ConnectionQueue \<Rightarrow>
   (exn, ConnectionEvent option, ConnectionQueue) outcome" where
  "CQ_WaitForEvent wait timeoutMs reportCancel q =
     (if \<not> waitAborted q \<and> cq_events q = [] then
        (case wait q of (timeout, q) \<Rightarrow>
           if timeoutMs \<noteq> -1 \<and> timeout then (Inl (RDMA_THROW EventManager_h 46 easyrdma_Error_Timeout), q)
           else CQ_WaitForEvent_locked reportCancel q)
      else CQ_WaitForEvent_locked reportCancel q)"

definition ConnectionEvent_of :: "rdma_cm_event \<Rightarrow> ConnectionEvent" where
  "ConnectionEvent_of event =
     \<lparr>eventType = cm_event event,
      incomingConnectionId = (if cm_event event = RDMA_CM_EVENT_CONNECT_REQUEST
                              then Some (cm_event_id event) else None),
      ce_connectionData = cm_private_data event\<rparr>"

definition CQ_SignalEvent :: "rdma_cm_event \<Rightarrow> ConnectionQueue \<Rightarrow> ConnectionQueue" where
  "CQ_SignalEvent event q = q\<lparr>cq_events := cq_events q @ [ConnectionEvent_of event]\<rparr>"

definition CQ_CancelWaits :: "ConnectionQueue \<Rightarrow> ConnectionQueue" where
  "CQ_CancelWaits q = q\<lparr>waitAborted := True\<rparr>"

section \<open>The event manager\<close>

record EventManager =
  connectionMap :: "nat \<Rightarrow> ConnectionQueue option"

definition EventManager_new :: EventManager where
  "EventManager_new = \<lparr>connectionMap = (\<lambda>_. None)\<rparr>"

definition GetConnectionQueueInternal :: "nat \<Rightarrow> EventManager \<Rightarrow> ConnectionQueue option" where
  "GetConnectionQueueInternal connection em = connectionMap em connection"

definition GetConnectionQueue :: "nat \<Rightarrow> EventManager \<Rightarrow> exn + ConnectionQueue" where
  "GetConnectionQueue connection em =
     (case GetConnectionQueueInternal connection em of
        Some q \<Rightarrow> Inr q
      | None \<Rightarrow> Inl (RDMA_THROW EventManager_h 129 easyrdma_Error_InternalError))"

text \<open>The object behind a \<open>shared_ptr\<close> of the map has changed.\<close>

definition put_queue :: "nat \<Rightarrow> ConnectionQueue \<Rightarrow> EventManager \<Rightarrow> EventManager" where
  "put_queue connection q em = em\<lparr>connectionMap := (connectionMap em)(connection := Some q)\<rparr>"

definition CreateConnectionQueue :: "nat \<Rightarrow> EventManager \<Rightarrow> (exn, unit, EventManager) outcome" where
  "CreateConnectionQueue connection em =
     (if connectionMap em connection \<noteq> None
      then (Inl (RDMA_THROW EventManager_h 121 easyrdma_Error_InternalError), em)
      else (Inr (), put_queue connection ConnectionQueue_new em))"

definition DestroyConnectionQueue :: "nat \<Rightarrow> EventManager \<Rightarrow> EventManager" where
  "DestroyConnectionQueue connection em = em\<lparr>connectionMap := (connectionMap em)(connection := None)\<rparr>"

text \<open>The connection an event is for: for a connection request it is the listener.\<close>

definition event_connection :: "rdma_cm_event \<Rightarrow> nat" where
  "event_connection event =
     (if cm_event event = RDMA_CM_EVENT_CONNECT_REQUEST then cm_event_listen_id event else cm_event_id event)"

definition EM_SignalEvent :: "rdma_cm_event \<Rightarrow> EventManager \<Rightarrow> EventManager" where
  "EM_SignalEvent event em =
     (case GetConnectionQueueInternal (event_connection event) em of
        Some q \<Rightarrow> put_queue (event_connection event) (CQ_SignalEvent event q) em
      | None \<Rightarrow> em)"

definition EM_WaitForEvent ::
  "(ConnectionQueue \<Rightarrow> bool \<times> ConnectionQueue) \<Rightarrow> nat \<Rightarrow> int \<Rightarrow> bool \<Rightarrow> EventManager \<Rightarrow>
   (exn, ConnectionEvent option, EventManager) outcome" where
  "EM_WaitForEvent wait connection timeoutMs reportCancel em =
     (case GetConnectionQueue connection em of
        Inl e \<Rightarrow> (Inl e, em)
      | Inr q \<Rightarrow> (case CQ_WaitForEvent wait timeoutMs reportCancel q of
                    (r, q') \<Rightarrow> (r, put_queue connection q' em)))"

definition AbortWaits :: "nat \<Rightarrow> EventManager \<Rightarrow> (exn, unit, EventManager) outcome" where
  "AbortWaits connection em =
     (case GetConnectionQueue connection em of
        Inl e \<Rightarrow> (Inl e, em)
      | Inr q \<Rightarrow> (Inr (), put_queue connection (CQ_CancelWaits q) em))"

section \<open>The thread of the event channel\<close>

definition RdmaCommon_cpp :: string where "RdmaCommon_cpp = ''core/linux/RdmaCommon.cpp''"

text \<open>
  The argument is what the successive calls of \<open>rdma_get_cm_event\<close> give: an event, or \<open>-1\<close> with an
  \<open>errno\<close>.  The result is the exception that ends the thread (\<open>None\<close> while it still waits for the
  next event) with the events acknowledged and the event manager.
\<close>

fun EventChannelThread ::
  "(int + rdma_cm_event) list \<Rightarrow> EventManager \<Rightarrow> exn option \<times> rdma_cm_event list \<times> EventManager" where
  "EventChannelThread [] em = (None, [], em)"
| "EventChannelThread (Inl errno # rest) em = (Some (THROW_OS_ERROR RdmaCommon_cpp 23 errno), [], em)"
| "EventChannelThread (Inr event # rest) em =
     (case EventChannelThread rest (EM_SignalEvent event em) of
        (r, acked, em') \<Rightarrow> (r, event # acked, em'))"

text \<open>\<open>created\<close> is the result of \<open>rdma_create_event_channel\<close>; the second component of the result
  says whether the thread was started.\<close>

definition GetEventChannel :: "nat option \<Rightarrow> int \<Rightarrow> nat option \<Rightarrow> (exn, nat \<times> bool, nat option) outcome" where
  "GetEventChannel created errno eventChannel =
     (case eventChannel of
        Some ch \<Rightarrow> (Inr (ch, False), eventChannel)
      | None \<Rightarrow>
          (case created of
             None \<Rightarrow> (Inl (THROW_OS_ERROR RdmaCommon_cpp 44 errno), None)
           | Some ch \<Rightarrow> (Inr (ch, True), Some ch)))"

section \<open>Cancellable polling\<close>

record pollfd =
  pfd_fd :: int
  pfd_events :: int
  pfd_revents :: int

record FdPoller =
  pipeFds :: "int \<times> int"
  pipeBytes :: nat

definition FdPoller_h :: string where "FdPoller_h = ''core/linux/FdPoller.h''"
definition POLLIN :: int where "POLLIN = 1"

text \<open>\<open>fds\<close> is the result of \<open>pipe\<close>, \<open>None\<close> for \<open>-1\<close>; \<open>pipeBytes\<close> counts the bytes in the pipe.\<close>

definition FdPoller_new :: "(int \<times> int) option \<Rightarrow> int \<Rightarrow> exn + FdPoller" where
  "FdPoller_new fds errno =
     (case fds of None \<Rightarrow> Inl (RDMA_THROW FdPoller_h 17 (- errno))
      | Some p \<Rightarrow> Inr \<lparr>pipeFds = p, pipeBytes = 0\<rparr>)"

text \<open>\<open>poll\<close> is the system call: its result, \<open>errno\<close>, and the array with its \<open>revents\<close> filled in.\<close>

definition PollOnFd ::
  "(pollfd list \<Rightarrow> int \<Rightarrow> int \<times> int \<times> pollfd list) \<Rightarrow> int \<Rightarrow> int \<Rightarrow> FdPoller \<Rightarrow> exn + bool" where
  "PollOnFd poll fd timeoutMs p =
     (let pollingFds = [\<lparr>pfd_fd = fd, pfd_events = POLLIN, pfd_revents = 0\<rparr>,
                        \<lparr>pfd_fd = fst (pipeFds p), pfd_events = POLLIN, pfd_revents = 0\<rparr>] in
      case poll pollingFds timeoutMs of (ret, errno, pollingFds) \<Rightarrow>
        if ret = -1 then Inl (RDMA_THROW FdPoller_h 42 (- errno))
        else Inr (pfd_revents (pollingFds ! 0) \<noteq> 0))"

text \<open>The result of \<open>write\<close> is ignored; \<open>written\<close> says whether the byte went into the pipe.\<close>

definition FdPoller_Cancel :: "bool \<Rightarrow> FdPoller \<Rightarrow> FdPoller" where
  "FdPoller_Cancel written p = p\<lparr>pipeBytes := pipeBytes p + (if written then 1 else 0)\<rparr>"

text \<open>The descriptors closed, and the object as it is left.\<close>

definition FdPoller_dtor :: "FdPoller \<Rightarrow> int list \<times> FdPoller" where
  "FdPoller_dtor p =
     (filter (\<lambda>fd. fd \<noteq> -1) [fst (pipeFds p), snd (pipeFds p)], p\<lparr>pipeFds := (-1, -1)\<rparr>)"

end
