(* ===== verification/UnitTests.thy ===== *)
theory UnitTests
  imports AccessNesting EventManager
begin

text \<open>
  The unit tests under \<^verbatim>\<open>src/unit_tests\<close> that need one thread at a time, as programs over the
  models of the components they test.  A test of the access manager is a script of operations,
  each with the result it expects; that the manager passes it is proved on the stack that it
  refines, and for every list of test cases, not only for those the test lists.
\<close>

section \<open>Scripts\<close>

type_synonym test_script = "(access_op \<times> access_result option) list"

definition act :: "access_op \<Rightarrow> access_op \<times> access_result option" where
  "act p = (p, None)"

definition expect :: "access_op \<Rightarrow> access_result \<Rightarrow> access_op \<times> access_result option" where
  "expect p r = (p, Some r)"

definition as_expected :: "test_script \<Rightarrow> access_result list \<Rightarrow> bool" where
  "as_expected script rs = list_all2 (\<lambda>(_, e) r. case e of None \<Rightarrow> True | Some x \<Rightarrow> x = r) script rs"

definition test_passes :: "tRequest \<Rightarrow> nat \<Rightarrow> nat \<Rightarrow> test_script \<Rightarrow> tAccessManager \<Rightarrow> bool" where
  "test_passes memory wakes t script m =
     (case run_ops (manager_op memory wakes t) (map fst script) m of
        Inl _ \<Rightarrow> False | Inr (rs, _) \<Rightarrow> as_expected script rs)"

definition expect_counts :: "u32 \<Rightarrow> u32 \<Rightarrow> u32 \<Rightarrow> u32 \<Rightarrow> test_script" where
  "expect_counts references active exclusive shared =
     [expect RefCountOp (Size references), expect ActiveCountOp (Size active),
      expect ActiveExclusiveOp (Size exclusive), expect ActiveSharedOp (Size shared)]"

definition expect_access :: "bool \<Rightarrow> bool \<Rightarrow> test_script" where
  "expect_access exclusive shared =
     [expect QueryExclusive (Flag exclusive), expect QueryShared (Flag shared)]"

section \<open>The tests of the access manager\<close>

definition test_Sanity :: test_script where
  "test_Sanity =
     [act (AcquireOp True)] @ expect_counts 1 1 1 0 @ expect_access True False
     @ [act ReleaseOp] @ expect_counts 0 0 0 0 @ expect_access False False
     @ [act (AcquireOp False)] @ expect_counts 1 1 0 1 @ expect_access False True
     @ [act ReleaseOp] @ expect_counts 0 0 0 0 @ expect_access False False
     @ [act (AcquireOp False), act (AcquireOp False)] @ expect_counts 2 2 0 2 @ expect_access False True
     @ [act ReleaseOp] @ expect_access False True
     @ [act ReleaseOp, expect ActiveSharedOp (Size 0), expect RefCountOp (Size 0), expect ActiveCountOp (Size 0)]
     @ expect_access False False
     @ [act (AcquireOp True), act (AcquireOp True)] @ expect_counts 2 2 2 0 @ expect_access True False
     @ [act ReleaseOp] @ expect_access True False
     @ [act ReleaseOp, expect RefCountOp (Size 0), expect ActiveCountOp (Size 0), expect ActiveSharedOp (Size 0),
        expect ActiveExclusiveOp (Size 0)] @ expect_access False False
     @ [act (AcquireOp False)] @ expect_counts 1 1 0 1 @ expect_access False True
     @ [act (AcquireOp True)] @ expect_counts 2 2 1 1 @ expect_access True False
     @ [act ReleaseOp] @ expect_counts 1 1 0 1 @ expect_access False True
     @ [act ReleaseOp] @ expect_counts 0 0 0 0 @ expect_access False False"

text \<open>A reference to the resource acquires when it is constructed or copied and releases when its
  block ends.\<close>

definition test_AutoRef :: test_script where
  "test_AutoRef =
     [act (AcquireOp False)] @ expect_counts 1 1 0 1 @ expect_access False True
     @ [act ReleaseOp] @ expect_counts 0 0 0 0 @ expect_access False False
     @ [act (AcquireOp True)] @ expect_counts 1 1 1 0 @ expect_access True False
     @ [act ReleaseOp] @ expect_counts 0 0 0 0 @ expect_access False False
     @ [act (AcquireOp False), expect ActiveSharedOp (Size 1)] @ expect_access False True
     @ [act (AcquireOp False), expect ActiveSharedOp (Size 2)] @ expect_access False True
     @ [act ReleaseOp, act ReleaseOp, expect ActiveSharedOp (Size 0)] @ expect_access False False"

definition test_AllRefsReleased :: test_script where
  "test_AllRefsReleased = (let timeout = 10 in
     [expect (WaitOp timeout) Returns, act (AcquireOp True), expect (WaitOp timeout) (Throws easyrdma_Error_Timeout),
      act ReleaseOp, expect (WaitOp timeout) Returns,
      act (AcquireOp False), act (AcquireOp True), expect (WaitOp timeout) (Throws easyrdma_Error_Timeout),
      act ReleaseOp, expect (WaitOp timeout) (Throws easyrdma_Error_Timeout),
      act ReleaseOp, expect (WaitOp timeout) Returns])"

text \<open>The bodies of the loops over the test cases.\<close>

definition test_ReleaseReturn :: "bool list \<Rightarrow> test_script" where
  "test_ReleaseReturn testCase =
     map (\<lambda>exclusive. act (AcquireOp exclusive)) testCase
     @ [expect RefCountOp (Size (of_nat (length testCase)))]
     @ map (\<lambda>exclusive. expect ReleaseOp (Flag exclusive)) (rev testCase)"

definition test_AccessAcquireAll :: "bool list \<Rightarrow> test_script" where
  "test_AccessAcquireAll testCase =
     [act (AcquireAllOp testCase), expect RefCountOp (Size (of_nat (length testCase)))]
     @ map (\<lambda>exclusive. expect ReleaseOp (Flag exclusive)) testCase"

definition test_AccessReleaseAll :: "bool list \<Rightarrow> test_script" where
  "test_AccessReleaseAll testCase =
     map (\<lambda>exclusive. act (AcquireOp exclusive)) testCase
     @ [expect ReleaseAllOp (Accesses (rev testCase))] @ expect_counts 0 0 0 0 @ expect_access False False"

definition test_ReleaseAcquireAll :: "bool list \<Rightarrow> test_script" where
  "test_ReleaseAcquireAll testCase =
     map (\<lambda>exclusive. act (AcquireOp exclusive)) testCase
     @ [expect ReacquireOp (Size (of_nat (length testCase)))]
     @ map (\<lambda>exclusive. expect ReleaseOp (Flag exclusive)) (rev testCase)"

section \<open>Scripts on the stack\<close>

definition checks :: "test_script \<Rightarrow> bool list \<Rightarrow> bool list \<Rightarrow> bool" where
  "checks script st st' \<longleftrightarrow>
     (\<exists>rs. run_ops stack_op (map fst script) st = Inr (rs, st') \<and> as_expected script rs)"

lemma run_ops_append:
  "run_ops step (ps @ qs) s =
     bind_res (run_ops step ps s) (\<lambda>(rs, s'). bind_res (run_ops step qs s') (\<lambda>(rs', s''). Inr (rs @ rs', s'')))"
proof (induction ps arbitrary: s)
  case Nil
  then show ?case by (cases "run_ops step qs s") auto
next
  case (Cons p ps)
  then show ?case by (auto simp: bind_res_def split: sum.splits)
qed

lemma checks_append: "checks p st st' \<Longrightarrow> checks q st' st'' \<Longrightarrow> checks (p @ q) st st''"
  by (auto simp: checks_def run_ops_append as_expected_def list_all2_appendI)

lemma checks_Nil: "checks [] st st"
  by (simp add: checks_def as_expected_def)

lemma checks_Cons:
  "checks ((p, e) # q) st st' \<longleftrightarrow>
     (\<exists>r st1. stack_op p st = Inr (r, st1) \<and> (e = None \<or> e = Some r) \<and> checks q st1 st')"
  by (cases e) (fastforce simp: checks_def as_expected_def bind_res_eq_Inr)+

lemma checks_acquire: "length xs + length st \<le> 32 \<Longrightarrow> checks (map (\<lambda>x. act (AcquireOp x)) xs) st (rev xs @ st)"
proof (induction xs arbitrary: st)
  case Nil
  then show ?case by (simp add: checks_Nil)
next
  case (Cons x xs)
  from Cons.IH [of "x # st"] Cons.prems show ?case by (simp add: act_def checks_Cons)
qed

lemma checks_release: "checks (map (\<lambda>x. expect ReleaseOp (Flag x)) xs) (xs @ st) st"
  by (induction xs) (simp_all add: checks_Nil checks_Cons expect_def)

lemma checks_idle: "checks (expect_counts 0 0 0 0 @ expect_access False False) [] []"
  by (simp add: expect_counts_def expect_access_def expect_def checks_Cons checks_Nil)

lemma checks_concat: "list_all (\<lambda>c. checks (f c) [] []) cs \<Longrightarrow> checks (concat (map f cs)) [] []"
  by (induction cs) (auto simp: checks_Nil intro: checks_append)

lemma passes_if_checks:
  assumes "checks script [] st" and "t < max_threads"
  shows "test_passes memory wakes t script (tAccessManager_new memory0)"
proof -
  from assms(1) obtain rs where rs: "run_ops stack_op (map fst script) [] = Inr (rs, st)" "as_expected script rs"
    by (auto simp: checks_def)
  from nested.run_refines [where a = "[]" and c = "tAccessManager_new memory0" and t = t
      and ps = "map fst script" and memory = memory and wakes = wakes] rs(1) assms(2)
  obtain m where "run_ops (manager_op memory wakes t) (map fst script) (tAccessManager_new memory0) = Inr (rs, m)"
    by (auto simp: lone_new)
  with rs(2) show ?thesis by (simp add: test_passes_def)
qed

section \<open>The tests pass\<close>

lemmas script_simps = act_def expect_def expect_counts_def expect_access_def checks_Cons checks_Nil

lemma checks_fixed:
  "checks test_Sanity [] []" "checks test_AutoRef [] []" "checks test_AllRefsReleased [] []"
  by (simp_all add: test_Sanity_def test_AutoRef_def test_AllRefsReleased_def Let_def script_simps)

lemma checks_case:
  assumes "length testCase \<le> 32"
  shows "checks (test_ReleaseReturn testCase) [] []" "checks (test_AccessReleaseAll testCase) [] []"
    and "testCase \<noteq> [] \<Longrightarrow> checks (test_AccessAcquireAll testCase) [] []"
    and "testCase \<noteq> [] \<Longrightarrow> checks (test_ReleaseAcquireAll testCase) [] []"
proof -
  have acq: "checks (map (\<lambda>x. act (AcquireOp x)) testCase) [] (rev testCase)"
    using checks_acquire [of testCase "[]"] assms by simp
  note rel = checks_release [of "rev testCase" "[]", unfolded expect_def, simplified]
    checks_release [of testCase "[]", unfolded expect_def, simplified]
  show "checks (test_ReleaseReturn testCase) [] []"
    unfolding test_ReleaseReturn_def by (rule checks_append [OF acq]) (simp add: script_simps rel)
  show "checks (test_AccessReleaseAll testCase) [] []"
    unfolding test_AccessReleaseAll_def
    by (rule checks_append [OF acq]) (simp add: checks_idle expect_def [of ReleaseAllOp] checks_Cons)
  show "checks (test_AccessAcquireAll testCase) [] []" if "testCase \<noteq> []"
    using that assms rel(2) by (simp add: test_AccessAcquireAll_def script_simps)
  show "checks (test_ReleaseAcquireAll testCase) [] []" if "testCase \<noteq> []"
    unfolding test_ReleaseAcquireAll_def
    by (rule checks_append [OF acq]) (use that in \<open>simp add: script_simps rel\<close>)
qed

text \<open>
  C12.  A thread that has a fresh access manager to itself sees a stack: the unit tests of the
  manager pass, whatever the memory the manager is built from holds, whatever the thread's number,
  however often its waits are woken without cause, and for every list of test cases of at most 32
  accesses in place of the listed ones.  Among other things releasing returns the nested accesses
  innermost first, \<open>ReleaseAll\<close> empties the manager, and \<open>AcquireAll\<close> of what it returned restores
  the stack.
\<close>

theorem access_unit_tests_pass:
  assumes "t < max_threads"
    and "\<And>c. c \<in> set cases \<Longrightarrow> c \<noteq> [] \<and> length c \<le> 32"
    and "script \<in> {test_Sanity, test_AutoRef, test_AllRefsReleased,
           concat (map test_ReleaseReturn cases), concat (map test_AccessAcquireAll cases),
           concat (map test_AccessReleaseAll ([] # cases)), concat (map test_ReleaseAcquireAll cases)}"
  shows "test_passes memory wakes t script (tAccessManager_new memory0)"
proof -
  have all: "list_all (\<lambda>c. checks (test_ReleaseReturn c) [] []) cases"
    "list_all (\<lambda>c. checks (test_AccessAcquireAll c) [] []) cases"
    "list_all (\<lambda>c. checks (test_AccessReleaseAll c) [] []) ([] # cases)"
    "list_all (\<lambda>c. checks (test_ReleaseAcquireAll c) [] []) cases"
    using assms(2) checks_case by (auto simp: list_all_iff)
  with assms(3) have "checks script [] []"
    using checks_fixed checks_concat by blast
  with assms(1) show ?thesis by (rule passes_if_checks [rotated])
qed

theorem access_unit_tests_pass_witness:
  "\<forall>memory memory0. test_passes memory 0 7 (concat (map test_ReleaseReturn
     [[True], [False], [True, True, False, True], [True, True, False, True, False, False]]))
     (tAccessManager_new memory0)"
  by (intro allI, rule access_unit_tests_pass [where cases =
      "[[True], [False], [True, True, False, True], [True, True, False, True, False, False]]"])
    (auto simp: max_threads_def)

section \<open>Waking a thread that waits for the last reference\<close>

text \<open>
  The end of \<open>AllRefsReleased\<close>.  The second thread is \<open>None\<close> as long as it waits, with \<open>sawEvent\<close>
  false; afterwards \<open>sawEvent\<close> is true and the value says whether the wait threw nothing.  The test
  looks at it while the first thread holds its access, and after the release, when the condition
  variable wakes the waiting thread.
\<close>

definition AllRefsReleasedThread :: "int \<Rightarrow> (bool \<times> tEvent) list \<Rightarrow> tAccessManager \<Rightarrow> bool option" where
  "AllRefsReleasedThread timeout wakes m =
     map_option (\<lambda>r. case r of Inl _ \<Rightarrow> False | Inr _ \<Rightarrow> True)
       (WaitForAllReferencesToBeReleasedWithTimeout timeout wakes m)"

definition test_AllRefsReleased_wakes :: "tRequest \<Rightarrow> nat \<Rightarrow> tAccessManager \<Rightarrow> exn + bool option \<times> bool option" where
  "test_AllRefsReleased_wakes memory t m =
     bind_res (Acquire memory t True m) (\<lambda>(_, m1).
     bind_res (Release t m1) (\<lambda>(_, m2).
       Inr (AllRefsReleasedThread 1000 [] m1, AllRefsReleasedThread 1000 [(False, allRefsReleased m2)] m1)))"

lemma last_release_wakes:
  assumes "lone t [] m" and "t < max_threads"
  shows "test_AllRefsReleased_wakes memory t m = Inr (None, Some True)"
proof -
  from lone_acquire [OF assms, of memory True] obtain m1 where m1: "Acquire memory t True m = Inr (False, m1)" "lone t [True] m1"
    by auto
  from lone_release [OF m1(2)] obtain m2 where m2: "Release t m1 = Inr (True, m2)" "lone t [] m2" .
  have "ev_signalled (allRefsReleased m1) \<longleftrightarrow> False" "ev_signalled (allRefsReleased m2)"
    using lone_inv(2) [OF m1(2)] lone_inv(2) [OF m2(2)] lone_total [OF m1(2)] lone_total [OF m2(2)]
    by (auto simp: ref_ok_def unat_eq_0 [symmetric])
  then show ?thesis
    using m1(1) m2(1)
    by (simp add: test_AllRefsReleased_wakes_def AllRefsReleasedThread_def
        WaitForAllReferencesToBeReleasedWithTimeout_def tEvent_acquireWithTimeout.simps)
qed

section \<open>The tests of the last error\<close>

text \<open>The expectations of a test, in order; \<open>t\<close> is the main thread.\<close>

definition LastErrorTests_cpp :: string where "LastErrorTests_cpp = ''LastErrorTests.cpp''"

definition test_LastError_Sanity :: "nat \<Rightarrow> last_errors \<Rightarrow> bool list \<times> last_errors" where
  "test_LastError_Sanity t s =
     (let (retrieved, s) = GetLastRdmaError t RdmaError_new s;
          e1 = [GetCode retrieved = 0, filename retrieved = None];
          starting = DebugGetNumberOfAllocatedLastRdmaErrors s;
          testStatus = RDMA_SET_ERROR LastErrorTests_cpp 38 RdmaError_new (-500);
          s = PopulateLastRdmaError t testStatus s;
          e2 = [starting > 0, DebugGetNumberOfAllocatedLastRdmaErrors s = starting];
          (retrieved, s) = GetLastRdmaError t (RdmaError_Clear retrieved) s;
          e3 = [GetCode retrieved = GetCode testStatus, filename retrieved = filename testStatus];
          s = ClearLastRdmaError t s;
          (retrieved, s) = GetLastRdmaError t (RdmaError_Clear retrieved) s;
          e4 = [GetCode retrieved = 0, filename retrieved = None,
                DebugGetNumberOfAllocatedLastRdmaErrors s = starting]
      in (e1 @ e2 @ e3 @ e4, s))"

text \<open>The body of the second thread \<open>u\<close>, which ends with the destruction of its object.\<close>

definition asyncStatusSetter :: "nat \<Rightarrow> u64 \<Rightarrow> last_errors \<Rightarrow> bool list \<times> last_errors" where
  "asyncStatusSetter u starting s =
     (let (retrieved, s) = GetLastRdmaError u RdmaError_new s;
          e1 = [GetCode retrieved = 0, filename retrieved = None];
          testStatus = RDMA_SET_ERROR LastErrorTests_cpp 79 RdmaError_new (-600);
          s = PopulateLastRdmaError u testStatus s;
          (retrieved, s) = GetLastRdmaError u retrieved s;
          e2 = [GetCode retrieved = GetCode testStatus, filename testStatus = filename testStatus,
                DebugGetNumberOfAllocatedLastRdmaErrors s = starting + 1]
      in (e1 @ e2, LastRdmaError_dtor u s))"

definition test_LastError_Threaded :: "nat \<Rightarrow> nat \<Rightarrow> last_errors \<Rightarrow> bool list \<times> last_errors" where
  "test_LastError_Threaded t u s =
     (let testStatus = RDMA_SET_ERROR LastErrorTests_cpp 67 RdmaError_new (-500);
          s = PopulateLastRdmaError t testStatus s;
          starting = DebugGetNumberOfAllocatedLastRdmaErrors s;
          (e1, s) = asyncStatusSetter u starting s;
          (retrieved, s) = GetLastRdmaError t RdmaError_new s
      in ([starting > 0] @ e1
          @ [GetCode retrieved = GetCode testStatus, filename retrieved = filename testStatus,
             DebugGetNumberOfAllocatedLastRdmaErrors s = starting], s))"

text \<open>
  The unit tests of the last error pass one after the other, for any two threads of a process
  in which no thread has used the last error yet: a thread reads back what it stored and what it
  cleared, another thread neither sees nor disturbs it, and the number of objects counts exactly the
  threads that use one.
\<close>

lemma last_error_unit_tests_pass:
  assumes "t \<noteq> u"
  shows "list_all id (fst (test_LastError_Sanity t last_errors_init))
    \<and> list_all id (fst (test_LastError_Threaded t u (snd (test_LastError_Sanity t last_errors_init))))"
  using assms
  by (simp add: test_LastError_Sanity_def test_LastError_Threaded_def asyncStatusSetter_def
      GetLastRdmaError_def PopulateLastRdmaError_def ClearLastRdmaError_def LastRdmaError_use_def
      LastRdmaError_ctor_def LastRdmaError_dtor_def the_last_error_def set_last_error_def last_errors_init_def
      DebugGetNumberOfAllocatedLastRdmaErrors_def RDMA_SET_ERROR_def RdmaError_Assign4_def RdmaError_Assign_def
      RdmaError_Clear_def RdmaError_new_def GetCode_def Let_def)

section \<open>The tests of the poller\<close>

text \<open>
  \<open>poll\<close> is the system call, given which descriptors have something to read while it waits;
  \<open>poll_reports\<close> is its documented behaviour.
\<close>

type_synonym poll_call = "(int \<Rightarrow> bool) \<Rightarrow> pollfd list \<Rightarrow> int \<Rightarrow> int \<times> int \<times> pollfd list"

definition poll_reports :: "poll_call \<Rightarrow> bool" where
  "poll_reports poll \<longleftrightarrow> (\<forall>readable fds timeout.
     case poll readable fds timeout of (ret, _, fds') \<Rightarrow> ret \<noteq> -1
       \<and> fds' = map (\<lambda>p. p\<lparr>pfd_revents := if readable (pfd_fd p) then POLLIN else 0\<rparr>) fds)"

definition readable_fds :: "int \<Rightarrow> bool \<Rightarrow> FdPoller \<Rightarrow> int \<Rightarrow> bool" where
  "readable_fds fd written p x \<longleftrightarrow> x = fd \<and> written \<or> x = fst (pipeFds p) \<and> 0 < pipeBytes p"

definition test_Poll_Blocks :: "poll_call \<Rightarrow> int \<Rightarrow> FdPoller \<Rightarrow> bool" where
  "test_Poll_Blocks poll fd poller \<longleftrightarrow>
     PollOnFd (poll (readable_fds fd False poller)) fd 50 poller = Inr False"

definition test_Poll_PollSucceeds :: "poll_call \<Rightarrow> int \<Rightarrow> FdPoller \<Rightarrow> bool" where
  "test_Poll_PollSucceeds poll fd poller \<longleftrightarrow>
     PollOnFd (poll (readable_fds fd True poller)) fd 500 poller = Inr True"

definition test_Poll_Cancel :: "poll_call \<Rightarrow> int \<Rightarrow> FdPoller \<Rightarrow> bool" where
  "test_Poll_Cancel poll fd poller \<longleftrightarrow>
     (let poller = FdPoller_Cancel True poller in
      PollOnFd (poll (readable_fds fd False poller)) fd 500 poller = Inr False)"

lemma poll_unit_tests_pass:
  assumes "poll_reports poll" and "FdPoller_new (Some fds) 0 = Inr poller" and "fd \<noteq> fst fds"
  shows "test_Poll_Blocks poll fd poller \<and> test_Poll_PollSucceeds poll fd poller \<and> test_Poll_Cancel poll fd poller"
proof -
  have "PollOnFd (poll readable) fd timeout p = Inr (readable fd)" for readable timeout p
  proof -
    let ?fds = "[\<lparr>pfd_fd = fd, pfd_events = POLLIN, pfd_revents = 0\<rparr>,
                \<lparr>pfd_fd = fst (pipeFds p), pfd_events = POLLIN, pfd_revents = 0\<rparr>]"
    obtain ret errno where "ret \<noteq> -1" "poll readable ?fds timeout
        = (ret, errno, map (\<lambda>p. p\<lparr>pfd_revents := if readable (pfd_fd p) then POLLIN else 0\<rparr>) ?fds)"
      using assms(1) [unfolded poll_reports_def, rule_format, of readable ?fds timeout]
      by (cases "poll readable ?fds timeout") simp
    then show ?thesis by (simp add: PollOnFd_def Let_def POLLIN_def)
  qed
  with assms(2,3) show ?thesis
    by (auto simp: test_Poll_Blocks_def test_Poll_PollSucceeds_def test_Poll_Cancel_def readable_fds_def
        FdPoller_new_def FdPoller_Cancel_def)
qed

end
