(* ===== verification/Endian.thy ===== *)
theory Endian
  imports Prelude
begin

text \<open>
  The big-endian integers of \<open>boost::endian\<close> that the wire formats use: \<open>big_uint32_t\<close> in the
  connection data and \<open>big_uint64_buf_t\<close> in the credit messages.  The byte sequence is most
  significant byte first.
\<close>

unbundle bit_operations_syntax

fun encode_be :: "nat \<Rightarrow> 'a::len word \<Rightarrow> u8 list" where
  "encode_be 0 w = []"
| "encode_be (Suc k) w = ucast (drop_bit (8 * k) w) # encode_be k w"

fun decode_be_acc :: "'a::len word \<Rightarrow> u8 list \<Rightarrow> 'a word" where
  "decode_be_acc acc [] = acc"
| "decode_be_acc acc (b # bs) = decode_be_acc (push_bit 8 acc OR ucast b) bs"

definition decode_be :: "u8 list \<Rightarrow> 'a::len word" where
  "decode_be bs = decode_be_acc 0 bs"

lemma length_encode_be [simp]: "length (encode_be k w) = k"
  by (induction k) auto

lemma append_byte:
  fixes acc w :: "'a::len word"
  shows "push_bit (8 * k) (push_bit 8 acc OR ucast (ucast (drop_bit (8 * k) w) :: u8)) OR take_bit (8 * k) w
     = push_bit (8 * Suc k) acc OR take_bit (8 * Suc k) w"
proof (rule bit_word_eqI)
  fix n
  assume n: "n < LENGTH('a)"
  consider "n < 8 * k" | "8 * k \<le> n" "n < 8 * k + 8" | "8 * k + 8 \<le> n" by linarith
  then show "bit (push_bit (8 * k) (push_bit 8 acc OR ucast (ucast (drop_bit (8 * k) w) :: u8))
        OR take_bit (8 * k) w) n
      = bit (push_bit (8 * Suc k) acc OR take_bit (8 * Suc k) w) n"
    using n by cases (auto simp: bit_simps add.commute [of 8 "8 * k"])
qed

lemma decode_encode_acc:
  "decode_be_acc acc (encode_be k w) = push_bit (8 * k) acc OR take_bit (8 * k) w"
proof (induction k arbitrary: acc)
  case 0
  then show ?case by simp
next
  case (Suc k)
  then show ?case using append_byte [of k acc w] by simp
qed

lemma decode_encode_be [simp]:
  fixes w :: "'a::len word"
  assumes "LENGTH('a) \<le> 8 * k"
  shows "decode_be (encode_be k w) = w"
  using assms by (simp add: decode_be_def decode_encode_acc take_bit_word_eq_self)

lemma encode_be_snoc: "encode_be (Suc k) w = encode_be k (drop_bit 8 w) @ [ucast w]"
  by (induction k) (simp_all add: add.commute)

lemma encode_be_take_bit: "8 * k \<le> m \<Longrightarrow> encode_be k (take_bit m w) = encode_be k w"
proof (induction k)
  case (Suc k)
  have "ucast (drop_bit (8 * k) (take_bit m w)) = (ucast (drop_bit (8 * k) w) :: u8)"
    using Suc.prems by (intro bit_word_eqI) (auto simp: bit_simps)
  with Suc show ?case by simp
qed simp

lemma decode_be_acc_append:
  "decode_be_acc acc (xs @ ys) = decode_be_acc (decode_be_acc acc xs) ys"
  by (induction xs arbitrary: acc) auto

lemma split_low_byte:
  fixes x :: "'a::len word"
  assumes "8 \<le> LENGTH('a)"
  shows "drop_bit 8 (push_bit 8 x OR ucast (b::u8)) = take_bit (LENGTH('a) - 8) x"
    and "ucast (push_bit 8 x OR ucast b) = b"
proof -
  show "drop_bit 8 (push_bit 8 x OR ucast b) = take_bit (LENGTH('a) - 8) x"
    by (rule bit_word_eqI) (auto simp: bit_simps dest: bit_imp_le_length)
  show "ucast (push_bit 8 x OR ucast b) = b"
    using assms by (intro bit_word_eqI) (auto simp: bit_simps)
qed

lemma encode_decode_be:
  "8 * length bs \<le> LENGTH('a) \<Longrightarrow> encode_be (length bs) (decode_be bs :: 'a::len word) = bs"
proof (induction bs rule: rev_induct)
  case (snoc b bs)
  let ?w = "decode_be bs :: 'a word"
  have "decode_be (bs @ [b]) = push_bit 8 ?w OR ucast b"
    by (simp add: decode_be_def decode_be_acc_append)
  moreover have "encode_be (Suc (length bs)) (push_bit 8 ?w OR ucast b)
      = encode_be (length bs) (take_bit (LENGTH('a) - 8) ?w) @ [b]"
    using snoc.prems split_low_byte [of ?w b] unfolding encode_be_snoc by (simp del: drop_bit_or)
  ultimately show ?case using snoc by (simp add: encode_be_take_bit del: encode_be.simps)
qed simp

text \<open>A buffer that holds a sequence of 64-bit integers, as an array of \<open>big_uint64_buf_t\<close>.\<close>

definition encode_u64s :: "u64 list \<Rightarrow> u8 list" where
  "encode_u64s ws = concat (map (encode_be 8) ws)"

definition nth_u64 :: "u8 list \<Rightarrow> nat \<Rightarrow> u64" where
  "nth_u64 bytes i = decode_be (take 8 (drop (8 * i) bytes))"

lemma length_encode_u64s [simp]: "length (encode_u64s ws) = 8 * length ws"
  by (induction ws) (auto simp: encode_u64s_def)

lemma encode_u64s_Cons: "encode_u64s (w # ws) = encode_be 8 w @ encode_u64s ws"
  by (simp add: encode_u64s_def)

lemma nth_encode_u64s:
  "i < length ws \<Longrightarrow> nth_u64 (encode_u64s ws @ rest) i = ws ! i"
proof (induction ws arbitrary: i)
  case Nil
  then show ?case by simp
next
  case (Cons w ws)
  show ?case
  proof (cases i)
    case 0
    then show ?thesis by (simp add: nth_u64_def encode_u64s_Cons)
  next
    case (Suc j)
    with Cons.prems Cons.IH [of j] show ?thesis by (simp add: nth_u64_def encode_u64s_Cons)
  qed
qed

lemma map_nth_encode_u64s:
  "map (nth_u64 (encode_u64s ws @ rest)) [0..<length ws] = ws"
  by (rule nth_equalityI) (simp_all add: nth_encode_u64s)

end
