(* ===== verification/ConnectionData.thy ===== *)
theory ConnectionData
  imports Errors Endian
begin

text \<open>
  The handshake record of \<^verbatim>\<open>core/common/RdmaConnectionData.{h,cpp}\<close>: each side sends seven packed
  bytes as the private data of its connection request or reply, and validates what it receives
  against its own direction.
\<close>

section \<open>Definitions\<close>

text \<open>
  \<open>enum class Direction : uint32_t\<close> of \<^verbatim>\<open>core/common/RdmaSession.h\<close>.  The API casts its argument
  to this type without a check, so a value with none of the three names is possible.
\<close>

datatype Direction = Unknown | Send | Receive | Unnamed_Direction u32

fun Direction_value :: "Direction \<Rightarrow> u32" where
  "Direction_value Unknown = 0xFF"
| "Direction_value Send = 0x00"
| "Direction_value Receive = 0x01"
| "Direction_value (Unnamed_Direction v) = v"

text \<open>\<open>static_cast<Direction>\<close>.\<close>

definition Direction_cast :: "u32 \<Rightarrow> Direction" where
  "Direction_cast v =
     (if v = 0xFF then Unknown else if v = 0x00 then Send else if v = 0x01 then Receive
      else Unnamed_Direction v)"

record easyrdma_ConnectionData =
  protocolId :: u32
  protocolVersion :: u8
  oldestCompatibleVersion :: u8
  cd_direction :: u8

definition sizeof_ConnectionData :: nat where
  "sizeof_ConnectionData = 7"

definition kConnectionDataProtocol :: u32 where
  "kConnectionDataProtocol = 0x52444D41"

definition kDefaultConnectionData :: easyrdma_ConnectionData where
  "kDefaultConnectionData = \<lparr>protocolId = kConnectionDataProtocol, protocolVersion = 1,
     oldestCompatibleVersion = 1, cd_direction = ucast (Direction_value Unknown)\<rparr>"

text \<open>The packed layout of the structure, as the two \<open>reinterpret_cast\<close>s see it.\<close>

definition ConnectionData_bytes :: "easyrdma_ConnectionData \<Rightarrow> u8 list" where
  "ConnectionData_bytes cd =
     encode_be 4 (protocolId cd) @ [protocolVersion cd, oldestCompatibleVersion cd, cd_direction cd]"

definition ConnectionData_of_bytes :: "u8 list \<Rightarrow> easyrdma_ConnectionData" where
  "ConnectionData_of_bytes bytes =
     \<lparr>protocolId = decode_be (take 4 bytes), protocolVersion = bytes ! 4,
      oldestCompatibleVersion = bytes ! 5, cd_direction = bytes ! 6\<rparr>"

definition CreateDefaultConnectionData :: "Direction \<Rightarrow> u8 list" where
  "CreateDefaultConnectionData dir =
     (let cd = kDefaultConnectionData\<lparr>cd_direction := ucast (Direction_value dir)\<rparr>
      in take sizeof_ConnectionData (ConnectionData_bytes cd))"

definition RdmaConnectionData_cpp :: string where
  "RdmaConnectionData_cpp = ''core/common/RdmaConnectionData.cpp''"

definition ValidateConnectionData :: "u8 list \<Rightarrow> Direction \<Rightarrow> exn + unit" where
  "ValidateConnectionData buffer myDirection =
     (if length buffer < sizeof_ConnectionData
      then Inl (RDMA_THROW RdmaConnectionData_cpp 22 easyrdma_Error_IncompatibleProtocol)
      else
        let otherData = ConnectionData_of_bytes buffer in
        if protocolId otherData \<noteq> protocolId kDefaultConnectionData
        then Inl (RDMA_THROW RdmaConnectionData_cpp 28 easyrdma_Error_IncompatibleProtocol)
        else if oldestCompatibleVersion otherData > oldestCompatibleVersion kDefaultConnectionData
        then Inl (RDMA_THROW RdmaConnectionData_cpp 31 easyrdma_Error_IncompatibleVersion)
        else bind_res (ASSERT_ALWAYS RdmaConnectionData_cpp 33 (myDirection \<noteq> Unknown)) (\<lambda>_.
          let otherDirection = (if myDirection = Receive then Send else Receive) in
          if cd_direction otherData \<noteq> ucast (Direction_value otherDirection)
          then Inl (RDMA_THROW RdmaConnectionData_cpp 36 easyrdma_Error_InvalidDirection)
          else Inr ()))"

section \<open>Properties\<close>

lemma ConnectionData_roundtrip:
  "ConnectionData_of_bytes (ConnectionData_bytes cd @ rest) = cd"
  by (simp add: ConnectionData_of_bytes_def ConnectionData_bytes_def nth_append)

lemma length_ConnectionData_bytes [simp]: "length (ConnectionData_bytes cd) = sizeof_ConnectionData"
  by (simp add: ConnectionData_bytes_def sizeof_ConnectionData_def)

text \<open>The record that is on the wire decides the outcome; bytes after it are ignored.\<close>

lemma Validate_bytes:
  "ValidateConnectionData (ConnectionData_bytes cd @ rest) d = Inr () \<longleftrightarrow>
     protocolId cd = kConnectionDataProtocol \<and> oldestCompatibleVersion cd \<le> 1 \<and> d \<noteq> Unknown \<and>
     cd_direction cd = (if d = Receive then 0 else 1)"
  by (cases d) (auto simp: ValidateConnectionData_def Let_def ConnectionData_roundtrip
      kDefaultConnectionData_def ASSERT_ALWAYS_def)

lemma Create_bytes:
  "CreateDefaultConnectionData dir =
     ConnectionData_bytes (kDefaultConnectionData\<lparr>cd_direction := ucast (Direction_value dir)\<rparr>)"
  by (simp add: CreateDefaultConnectionData_def Let_def)

text \<open>
  The handshake pairs a sender with a receiver and nothing else: for the directions that have
  a name, the default connection data of one side is accepted by the other exactly when one of them
  sends and the other receives, whatever padding the transport appends to the private data.
\<close>

theorem handshake_pairs_opposite_directions:
  assumes "mine \<in> {Unknown, Send, Receive}" and "other \<in> {Unknown, Send, Receive}"
  shows "ValidateConnectionData (CreateDefaultConnectionData other @ padding) mine = Inr ()
     \<longleftrightarrow> (mine = Send \<and> other = Receive) \<or> (mine = Receive \<and> other = Send)"
  unfolding Create_bytes Validate_bytes
  using assms by (auto simp: kDefaultConnectionData_def)

theorem handshake_pairs_opposite_directions_witness:
  "ValidateConnectionData (CreateDefaultConnectionData Receive @ [0, 0]) Send = Inr ()"
  using handshake_pairs_opposite_directions [of Send Receive "[0, 0]"] by simp

text \<open>
  A direction without a name is not refused: the handshake compares only the low byte of the
  direction, so a session that was given the direction 0x100 presents itself as a sender, accepts
  a receiver and is accepted by it, although it then is neither sender nor receiver.
\<close>

theorem unnamed_direction_passes_handshake:
  "Direction_cast 0x100 \<notin> {Unknown, Send, Receive}
   \<and> ValidateConnectionData (CreateDefaultConnectionData (Direction_cast 0x100)) Receive = Inr ()
   \<and> ValidateConnectionData (CreateDefaultConnectionData Receive) (Direction_cast 0x100) = Inr ()"
  by code_simp




end
