(* ===== verification/Buffers.thy ===== *)
theory Buffers
  imports CircularFifo ConnectionData
begin

text \<open>
  Completion callbacks and property values (\<^verbatim>\<open>core/common/RdmaSession.h\<close>) and the transfer buffers
  (\<^verbatim>\<open>core/common/RdmaBuffer.{h,cpp}\<close>).
\<close>

section \<open>Completion callbacks\<close>

text \<open>
  A callback is a function pointer with two context pointers; calling it is an observable event,
  so \<open>Callback_Call\<close> returns the calls made.
\<close>

record BufferCompletionCallbackData =
  callbackFunction :: "nat option"
  context1 :: u64
  context2 :: u64

datatype callback_call = CallbackCall nat u64 u64 int u64

definition no_callback :: BufferCompletionCallbackData where
  "no_callback = \<lparr>callbackFunction = None, context1 = 0, context2 = 0\<rparr>"

definition Callback_IsSet :: "BufferCompletionCallbackData \<Rightarrow> bool" where
  "Callback_IsSet cb \<longleftrightarrow> callbackFunction cb \<noteq> None"

definition Callback_Call :: "BufferCompletionCallbackData \<Rightarrow> int \<Rightarrow> u64 \<Rightarrow> callback_call list" where
  "Callback_Call cb status completedBytes =
     (case callbackFunction cb of
        None \<Rightarrow> [] | Some f \<Rightarrow> [CallbackCall f (context1 cb) (context2 cb) status completedBytes])"

lemma Callback_Call_IsSet: "Callback_Call cb s n \<noteq> [] \<longleftrightarrow> Callback_IsSet cb"
  by (auto simp: Callback_Call_def Callback_IsSet_def split: option.splits)

lemma Callback_Call_no_callback [simp]: "Callback_Call no_callback s n = []"
  by (simp add: Callback_Call_def no_callback_def)

section \<open>Property values\<close>

text \<open>
  A property value is the object representation of a C++ value.  The representation of
  \<open>uint64_t\<close> is little-endian on the supported hosts (x86-64 and ARM64 Linux, x86-64 Windows).
\<close>

definition RdmaSession_h :: string where "RdmaSession_h = ''core/common/RdmaSession.h''"

record PropertyData =
  pd_data :: "u8 list"

definition PropertyData_u64 :: "u64 \<Rightarrow> PropertyData" where
  "PropertyData_u64 v = \<lparr>pd_data = rev (encode_be 8 v)\<rparr>"

definition PropertyData_bool :: "bool \<Rightarrow> PropertyData" where
  "PropertyData_bool b = \<lparr>pd_data = [if b then 1 else 0]\<rparr>"

text \<open>The output buffer is \<open>None\<close> for a null pointer; the second component is \<open>*size\<close>.\<close>

definition CopyToOutput ::
  "PropertyData \<Rightarrow> u8 list option \<Rightarrow> u64 \<Rightarrow> (exn, unit, u8 list option \<times> u64) outcome" where
  "CopyToOutput d outputBuf sz =
     (let n = of_nat (length (pd_data d)) in
      case outputBuf of
        Some bytes \<Rightarrow>
          if sz < n then (Inl (RDMA_THROW RdmaSession_h 61 easyrdma_Error_InvalidSize), (Some bytes, sz))
          else (Inr (), (Some (pd_data d @ drop (length (pd_data d)) bytes), n))
      | None \<Rightarrow> (Inr (), (None, n)))"

section \<open>Transfer buffers\<close>

text \<open>
  \<open>RdmaBuffer\<close> with its two subclasses.  Pointers are addresses; \<open>buf_memory\<close> is the memory an
  internal buffer owns (for an external buffer the memory is the caller's and stays outside the
  library).  The references to the connection and to the owning queue are the arguments of the
  operations that use them.
\<close>

datatype buffer_class = RdmaBufferInternal | RdmaBufferExternal

record RdmaBuffer =
  buf_class :: buffer_class
  bufferIndex :: u64
  buf_ptr :: u64
  bufferSize :: u64
  bufferMaxSize :: u64
  usedBytes :: u64
  completionCallbackData :: BufferCompletionCallbackData
  buf_memory :: "u8 list"

definition RdmaBuffer_cpp :: string where "RdmaBuffer_cpp = ''core/common/RdmaBuffer.cpp''"
definition RdmaCommon_h :: string where "RdmaCommon_h = ''core/linux/RdmaCommon.h''"

definition GetAndClearCallbackData :: "RdmaBuffer \<Rightarrow> BufferCompletionCallbackData \<times> RdmaBuffer" where
  "GetAndClearCallbackData b = (completionCallbackData b, b\<lparr>completionCallbackData := no_callback\<rparr>)"

definition SetCompletionCallback :: "BufferCompletionCallbackData \<Rightarrow> RdmaBuffer \<Rightarrow> RdmaBuffer" where
  "SetCompletionCallback cb b = b\<lparr>completionCallbackData := cb\<rparr>"

definition SetUsed :: "u64 \<Rightarrow> RdmaBuffer \<Rightarrow> exn + RdmaBuffer" where
  "SetUsed sz b =
     (if sz > bufferSize b then Inl (RDMA_THROW RdmaBuffer_cpp 74 easyrdma_Error_InvalidSize)
      else Inr (b\<lparr>usedBytes := sz\<rparr>))"

definition SetBytesToSubmit :: "u64 \<Rightarrow> RdmaBuffer \<Rightarrow> exn + RdmaBuffer" where
  "SetBytesToSubmit sz b =
     (if sz > bufferMaxSize b then Inl (RDMA_THROW RdmaBuffer_cpp 61 easyrdma_Error_InvalidArgument)
      else Inr (b\<lparr>bufferSize := sz\<rparr>))"

definition SetBufferRegion :: "u64 \<Rightarrow> u64 \<Rightarrow> RdmaBuffer \<Rightarrow> RdmaBuffer" where
  "SetBufferRegion ptr sz b = b\<lparr>buf_ptr := ptr, bufferSize := sz, usedBytes := sz\<rparr>"

text \<open>The result of \<open>posix_memalign\<close> is a parameter: a block with its address and contents, or none.\<close>

definition AllocateAlignedMemory :: "(u64 \<times> u8 list) option \<Rightarrow> exn + u64 \<times> u8 list" where
  "AllocateAlignedMemory block =
     (case block of None \<Rightarrow> Inl (RDMA_THROW RdmaCommon_h 73 easyrdma_Error_OutOfMemory)
      | Some b \<Rightarrow> Inr b)"

definition RdmaBufferInternal_new ::
  "(u64 \<times> u8 list) option \<Rightarrow> (u64 \<Rightarrow> u64 \<Rightarrow> exn + unit) \<Rightarrow> u64 \<Rightarrow> u64 \<Rightarrow> exn + RdmaBuffer" where
  "RdmaBufferInternal_new block CreateMemoryRegion sz index =
     bind_res (AllocateAlignedMemory block) (\<lambda>(ptr, mem).
       bind_res (CreateMemoryRegion ptr sz) (\<lambda>_.
         Inr \<lparr>buf_class = RdmaBufferInternal, bufferIndex = index, buf_ptr = ptr, bufferSize = sz,
              bufferMaxSize = sz, usedBytes = 0, completionCallbackData = no_callback,
              buf_memory = mem\<rparr>))"

definition RdmaBufferExternal_new :: "u64 \<Rightarrow> RdmaBuffer" where
  "RdmaBufferExternal_new index =
     \<lparr>buf_class = RdmaBufferExternal, bufferIndex = index, buf_ptr = 0, bufferSize = 0,
      bufferMaxSize = 0, usedBytes = 0, completionCallbackData = no_callback, buf_memory = []\<rparr>"

lemma GetAndClear_simps [simp]:
  "fst (GetAndClearCallbackData b) = completionCallbackData b"
  "snd (GetAndClearCallbackData b) = b\<lparr>completionCallbackData := no_callback\<rparr>"
  by (simp_all add: GetAndClearCallbackData_def)

text \<open>
  Property queries follow the size protocol of the C API: a null buffer reports the size
  needed, a buffer that is too small is refused and left untouched, and a buffer of the reported
  size receives exactly the value (and only that many bytes are written).
\<close>

theorem property_copy_protocol:
  assumes "length (pd_data d) < 2 ^ 64"
    and "needed = snd (snd (CopyToOutput d None sz))"
  shows "CopyToOutput d None sz = (Inr (), (None, needed)) \<and> unat needed = length (pd_data d)
    \<and> (n < needed \<longrightarrow>
         (\<exists>e. CopyToOutput d (Some bytes) n = (Inl e, (Some bytes, n))
            \<and> exn_code e = Some easyrdma_Error_InvalidSize))
    \<and> (n \<ge> needed \<and> length bytes \<ge> unat n \<longrightarrow>
         (\<exists>bytes'. CopyToOutput d (Some bytes) n = (Inr (), (Some bytes', needed))
            \<and> length bytes' = length bytes \<and> take (unat needed) bytes' = pd_data d
            \<and> drop (unat needed) bytes' = drop (unat needed) bytes))"
  using assms
  by (auto simp: CopyToOutput_def of_nat_inverse_word RDMA_THROW_def RdmaError_of_def word_le_nat_alt
      word_less_nat_alt Let_def)

theorem property_copy_protocol_witness:
  "\<exists>bytes'. CopyToOutput (PropertyData_u64 5) (Some (replicate 9 7)) 9 = (Inr (), (Some bytes', 8))
     \<and> length bytes' = 9 \<and> take 8 bytes' = [5, 0, 0, 0, 0, 0, 0, 0]"
proof -
  have len: "length (pd_data (PropertyData_u64 5)) < 2 ^ 64" by (simp add: PropertyData_u64_def)
  have "CopyToOutput (PropertyData_u64 5) None 0 = (Inr (), (None, 8))" by code_simp
  moreover have "pd_data (PropertyData_u64 5) = [5, 0, 0, 0, 0, 0, 0, 0]" by code_simp
  moreover have "(9::u64) \<ge> 8" by code_simp
  ultimately show ?thesis
    using property_copy_protocol [OF len refl, of 0 9 "replicate 9 7"] by auto
qed

end
