(* ===== verification/BufferQueue.thy ===== *)
theory BufferQueue
  imports Buffers
begin

text \<open>
  \<open>RdmaBufferQueue\<close> of \<^verbatim>\<open>core/common/RdmaBufferQueue.{h,cpp}\<close>: the pool of transfer buffers of one
  direction of a session.  Each buffer is at any time idle, owned by the user, waiting for a
  credit, posted to the queue pair or completed.  A pointer to a buffer is its index in
  \<open>buffers\<close>; a buffer is linked in \<open>userBuffers\<close> when its index is in that list.

  Every definition whose name ends in \<open>_locked\<close> is one critical section of \<open>queueLock\<close>; the
  operations are composed from them as in the source.  What other threads do while a wait has
  released the lock, and the virtual functions of the connection, are arguments.
\<close>

section \<open>State\<close>

record RdmaBufferQueue =
  bq_direction :: Direction
  buffers :: "RdmaBuffer list"
  idleBuffers :: "nat tCircularFifo"
  queuedBuffers :: "nat tCircularFifo"
  completedBuffers :: "nat tCircularFifo"
  buffersQueuedWaitingForCredits :: "nat tCircularFifo"
  userBuffers :: "nat list"
  queueStatus :: RdmaError
  putBackToIdleOnCompletion :: bool
  availableCredits :: "u64 list"
  bq_aborted :: bool
  bq_usePolling :: bool

datatype IgnoreCredits = IgnoreCredits_Yes | IgnoreCredits_No

definition RdmaBufferQueue_cpp :: string where
  "RdmaBufferQueue_cpp = ''core/common/RdmaBufferQueue.cpp''"

definition bq_throw :: "int \<Rightarrow> int \<Rightarrow> exn" where
  "bq_throw line code = RDMA_THROW RdmaBufferQueue_cpp line code"

text \<open>The result of an operation on a part of the object, with the object as it is then.\<close>

definition with_state :: "'e + 'a \<Rightarrow> 's \<Rightarrow> ('e, 'a, 's) outcome" where
  "with_state r s = (r, s)"

lemma with_state_simps [simp, sequencing]: "with_state (Inl e) s = (Inl e, s)" "with_state (Inr a) s = (Inr a, s)"
  by (simp_all add: with_state_def)

section \<open>Construction\<close>

definition RdmaBufferQueue_new :: "Direction \<Rightarrow> bool \<Rightarrow> exn + RdmaBufferQueue" where
  "RdmaBufferQueue_new dir usePolling =
     (if usePolling \<and> dir = Send then Inl (bq_throw 20 easyrdma_Error_InvalidOperation)
      else Inr \<lparr>bq_direction = dir, buffers = [], idleBuffers = fifo_new, queuedBuffers = fifo_new,
        completedBuffers = fifo_new, buffersQueuedWaitingForCredits = fifo_new, userBuffers = [],
        queueStatus = RdmaError_new, putBackToIdleOnCompletion = (dir = Send), availableCredits = [],
        bq_aborted = False, bq_usePolling = usePolling\<rparr>)"

text \<open>
  \<open>buffers.resize(n)\<close> throws \<open>std::length_error\<close> for more elements than a vector of pointers can
  hold.  The null entries it makes are replaced one by one in the constructors' loops, which here
  append the new buffer; no operation can see a null entry.
\<close>

definition vector_max_size :: u64 where
  "vector_max_size = 0xFFFFFFFFFFFFFFF"

definition AllocateBufferQueues :: "u64 \<Rightarrow> RdmaBufferQueue \<Rightarrow> exn + RdmaBufferQueue" where
  "AllocateBufferQueues numBuffers q =
     (if numBuffers > vector_max_size then Inl StdException
      else Inr (q\<lparr>idleBuffers := fifo_reallocate 0 numBuffers (idleBuffers q),
                  queuedBuffers := fifo_reallocate 0 numBuffers (queuedBuffers q),
                  completedBuffers := fifo_reallocate 0 numBuffers (completedBuffers q),
                  buffersQueuedWaitingForCredits :=
                    fifo_reallocate 0 numBuffers (buffersQueuedWaitingForCredits q)\<rparr>))"

fun add_buffers :: "(u64 \<Rightarrow> exn + RdmaBuffer) \<Rightarrow> nat \<Rightarrow> u64 \<Rightarrow> RdmaBufferQueue \<Rightarrow> exn + RdmaBufferQueue" where
  "add_buffers mk_buffer 0 index q = Inr q"
| "add_buffers mk_buffer (Suc k) index q =
     bind_res (mk_buffer index) (\<lambda>b.
       bind_res (fifo_push (length (buffers q)) (idleBuffers q)) (\<lambda>idle.
         add_buffers mk_buffer k (index + 1) (q\<lparr>buffers := buffers q @ [b], idleBuffers := idle\<rparr>)))"

definition RdmaBufferQueueMultipleBuffer_new ::
  "(u64 \<Rightarrow> (u64 \<times> u8 list) option) \<Rightarrow> (u64 \<Rightarrow> u64 \<Rightarrow> exn + unit) \<Rightarrow>
   Direction \<Rightarrow> u64 \<Rightarrow> u64 \<Rightarrow> bool \<Rightarrow> exn + RdmaBufferQueue" where
  "RdmaBufferQueueMultipleBuffer_new posix_memalign CreateMemoryRegion dir numBuffers sz usePolling =
     bind_res (RdmaBufferQueue_new dir usePolling) (\<lambda>q.
       bind_res (AllocateBufferQueues numBuffers q) (\<lambda>q.
         add_buffers (\<lambda>index. RdmaBufferInternal_new (posix_memalign index) CreateMemoryRegion sz index)
           (unat numBuffers) 0 q))"

definition RdmaBufferQueueSingleBuffer_new ::
  "(u64 \<Rightarrow> u64 \<Rightarrow> exn + unit) \<Rightarrow> Direction \<Rightarrow> u64 \<Rightarrow> u64 \<Rightarrow> u64 \<Rightarrow> bool \<Rightarrow> exn + RdmaBufferQueue" where
  "RdmaBufferQueueSingleBuffer_new CreateMemoryRegion dir buffer sz numOverlapped usePolling =
     bind_res (RdmaBufferQueue_new dir usePolling) (\<lambda>q.
       let q = q\<lparr>putBackToIdleOnCompletion := True\<rparr> in
       bind_res (CreateMemoryRegion buffer sz) (\<lambda>_.
         bind_res (AllocateBufferQueues numOverlapped q) (\<lambda>q.
           add_buffers (\<lambda>index. Inr (RdmaBufferExternal_new index)) (unat numOverlapped) 0 q)))"

section \<open>Aborting\<close>

lemma fifo_pop_smaller:
  assumes "fifo_pop f = Inr f'"
  shows "unat (fifo_size f') < unat (fifo_size f)"
proof -
  from assms have "fifo_size f' = fifo_size f - 1" and "fifo_size f \<noteq> 0"
    by (auto simp: fifo_pop_def fifo_count_def split: if_splits)
  then show ?thesis by (simp add: unat_minus_one unat_gt_0)
qed

text \<open>
  One of the two loops of \<open>Abort\<close>: every buffer of \<open>from\<close> goes to the idle queue \<open>to\<close> and gives
  up its callback.
\<close>

function drain ::
  "nat tCircularFifo \<Rightarrow> nat tCircularFifo \<Rightarrow> RdmaBuffer list \<Rightarrow> BufferCompletionCallbackData list \<Rightarrow>
   exn + nat tCircularFifo \<times> nat tCircularFifo \<times> RdmaBuffer list \<times> BufferCompletionCallbackData list" where
  "drain from to bufs callbacksToFire =
     (if fifo_count from \<noteq> 0 then
        bind_res (fifo_front from) (\<lambda>i.
          let (callbackData, b) = GetAndClearCallbackData (bufs ! i);
              callbacksToFire = (if Callback_IsSet callbackData then callbacksToFire @ [callbackData]
                                 else callbacksToFire) in
          case fifo_pop from of
            Inl e \<Rightarrow> Inl e
          | Inr from' \<Rightarrow>
              bind_res (fifo_push i to) (\<lambda>to'. drain from' to' (bufs[i := b]) callbacksToFire))
      else Inr (from, to, bufs, callbacksToFire))"
  by pat_completeness auto

termination
  by (relation "measure (\<lambda>(from, _). unat (fifo_size from))") (auto dest: fifo_pop_smaller)

declare drain.simps [simp del]

definition Abort_locked ::
  "int \<Rightarrow> RdmaBufferQueue \<Rightarrow> exn + BufferCompletionCallbackData list \<times> RdmaBufferQueue" where
  "Abort_locked code q =
     (if bq_aborted q then Inr ([], q)
      else
        let q = q\<lparr>bq_aborted := True,
                  queueStatus := RDMA_SET_ERROR RdmaBufferQueue_cpp 48 (queueStatus q) code\<rparr> in
        bind_res (drain (queuedBuffers q) (idleBuffers q) (buffers q) []) (\<lambda>(queued, idle, bufs, cbs).
          bind_res (drain (buffersQueuedWaitingForCredits q) idle bufs cbs) (\<lambda>(waiting, idle, bufs, cbs).
            Inr (cbs, q\<lparr>queuedBuffers := queued, buffersQueuedWaitingForCredits := waiting,
                        idleBuffers := idle, buffers := bufs\<rparr>))))"

definition Abort :: "int \<Rightarrow> RdmaBufferQueue \<Rightarrow> exn + callback_call list \<times> RdmaBufferQueue" where
  "Abort code q =
     bind_res (Abort_locked code q) (\<lambda>(callbacksToFire, q).
       Inr (concat (map (\<lambda>callback. Callback_Call callback code 0) callbacksToFire), q))"

definition RdmaBufferQueue_dtor :: "RdmaBufferQueue \<Rightarrow> exn + callback_call list" where
  "RdmaBufferQueue_dtor q =
     bind_res (Abort easyrdma_Error_OperationCancelled q) (\<lambda>(calls, q).
       bind_res (cpp_assert ''!buffersQueuedWaitingForCredits.size()''
                   (fifo_count (buffersQueuedWaitingForCredits q) = 0)) (\<lambda>_.
         bind_res (cpp_assert ''!queuedBuffers.size()'' (fifo_count (queuedBuffers q) = 0)) (\<lambda>_.
           Inr calls)))"

text \<open>The derived destructor aborts first; the hooks of the buffers unlink themselves.\<close>

definition RdmaBufferQueueSingleBuffer_dtor :: "RdmaBufferQueue \<Rightarrow> exn + callback_call list" where
  "RdmaBufferQueueSingleBuffer_dtor q =
     bind_res (Abort easyrdma_Error_OperationCancelled q) (\<lambda>(calls, q).
       bind_res (RdmaBufferQueue_dtor (q\<lparr>userBuffers := []\<rparr>)) (\<lambda>calls'. Inr (calls @ calls')))"

section \<open>Taking buffers\<close>

definition link_user :: "nat \<Rightarrow> RdmaBufferQueue \<Rightarrow> exn + RdmaBufferQueue" where
  "link_user i q = bind_res (cpp_assert ''!is_linked()'' (i \<notin> set (userBuffers q))) (\<lambda>_.
     Inr (q\<lparr>userBuffers := userBuffers q @ [i]\<rparr>))"

definition lift_update :: "exn + RdmaBufferQueue \<Rightarrow> 'a \<Rightarrow> RdmaBufferQueue \<Rightarrow> (exn, 'a, RdmaBufferQueue) outcome" where
  "lift_update r a q = (case r of Inl e \<Rightarrow> (Inl e, q) | Inr q' \<Rightarrow> (Inr a, q'))"

text \<open>\<open>WaitForIdleBuffer\<close> after the wait, if there was one.\<close>

definition WaitForIdleBuffer_locked :: "RdmaBufferQueue \<Rightarrow> (exn, nat, RdmaBufferQueue) outcome" where
  "WaitForIdleBuffer_locked q =
     (if IsError (queueStatus q) then (Inl (RdmaException (queueStatus q)), q)
      else if \<not> fifo_count (idleBuffers q) \<noteq> 0 then (Inl (bq_throw 93 easyrdma_Error_Timeout), q)
      else case fifo_front (idleBuffers q) of Inl e \<Rightarrow> (Inl e, q)
      | Inr i \<Rightarrow>
          lift_update (bind_res (fifo_pop (idleBuffers q)) (\<lambda>idle. link_user i (q\<lparr>idleBuffers := idle\<rparr>))) i q)"

text \<open>
  The argument \<open>wait\<close> is the wait on the condition variable: whether it ended by timeout, and the
  queue as the other threads have left it.
\<close>

definition WaitForIdleBuffer ::
  "(RdmaBufferQueue \<Rightarrow> bool \<times> RdmaBufferQueue) \<Rightarrow> int \<Rightarrow> RdmaBufferQueue \<Rightarrow> (exn, nat, RdmaBufferQueue) outcome" where
  "WaitForIdleBuffer wait timeoutMs q =
     (if fifo_count (idleBuffers q) = 0 \<and> \<not> IsError (queueStatus q) then
        (case wait q of (timeout, q) \<Rightarrow>
           if timeoutMs \<noteq> -1 \<and> timeout then (Inl (bq_throw 84 easyrdma_Error_Timeout), q)
           else WaitForIdleBuffer_locked q)
      else WaitForIdleBuffer_locked q)"

definition WaitForCompletedBuffer_locked :: "RdmaBufferQueue \<Rightarrow> (exn, nat, RdmaBufferQueue) outcome" where
  "WaitForCompletedBuffer_locked q =
     (if IsError (queueStatus q) \<and> fifo_count (completedBuffers q) = 0
      then (Inl (RdmaException (queueStatus q)), q)
      else if \<not> fifo_count (completedBuffers q) \<noteq> 0 then (Inl (bq_throw 133 easyrdma_Error_Timeout), q)
      else case fifo_front (completedBuffers q) of Inl e \<Rightarrow> (Inl e, q)
      | Inr i \<Rightarrow>
          lift_update (bind_res (fifo_pop (completedBuffers q))
            (\<lambda>completed. link_user i (q\<lparr>completedBuffers := completed\<rparr>))) i q)"

text \<open>
  \<open>poll\<close> is \<open>connection.PollForReceive(timeoutMs)\<close>, called with the lock released.
\<close>

definition WaitForCompletedBuffer ::
  "(RdmaBufferQueue \<Rightarrow> bool \<times> RdmaBufferQueue) \<Rightarrow>
   (int \<Rightarrow> RdmaBufferQueue \<Rightarrow> (exn, unit, RdmaBufferQueue) outcome) \<Rightarrow>
   int \<Rightarrow> RdmaBufferQueue \<Rightarrow> (exn, nat, RdmaBufferQueue) outcome" where
  "WaitForCompletedBuffer wait PollForReceive timeoutMs q =
     (if putBackToIdleOnCompletion q then (Inl (bq_throw 105 easyrdma_Error_InvalidOperation), q)
      else if fifo_count (completedBuffers q) = 0 \<and> \<not> IsError (queueStatus q) then
        if fifo_count (queuedBuffers q) = 0 \<and> fifo_count (buffersQueuedWaitingForCredits q) = 0
        then (Inl (bq_throw 109 easyrdma_Error_NoBuffersQueued), q)
        else if bq_usePolling q then
          bind_out (PollForReceive timeoutMs q) (\<lambda>_ q. WaitForCompletedBuffer_locked q)
        else (case wait q of (timeout, q) \<Rightarrow>
          if timeoutMs \<noteq> -1 \<and> timeout then (Inl (bq_throw 121 easyrdma_Error_Timeout), q)
          else WaitForCompletedBuffer_locked q)
      else WaitForCompletedBuffer_locked q)"

section \<open>Completions\<close>

definition HandleCompletion_locked ::
  "nat \<Rightarrow> RdmaError \<Rightarrow> RdmaBufferQueue \<Rightarrow>
   (exn, BufferCompletionCallbackData \<times> u64, RdmaBufferQueue) outcome" where
  "HandleCompletion_locked i completionStatus q =
     (if \<not> bq_aborted q then
        let (cachedCompletionData, b) = GetAndClearCallbackData (buffers q ! i);
            q = q\<lparr>buffers := (buffers q)[i := b]\<rparr>;
            completedBytes = usedBytes (buffers q ! i) in
        case bind_res (fifo_front (queuedBuffers q)) (\<lambda>j. ASSERT_ALWAYS RdmaBufferQueue_cpp 158 (i = j)) of
          Inl e \<Rightarrow> (Inl e, q)
        | Inr _ \<Rightarrow>
            lift_update
              (bind_res (fifo_pop (queuedBuffers q)) (\<lambda>queued.
                 bind_res
                   (if \<not> putBackToIdleOnCompletion q
                    then bind_res (fifo_push i (completedBuffers q)) (\<lambda>completed.
                           Inr (q\<lparr>queuedBuffers := queued, completedBuffers := completed\<rparr>))
                    else bind_res (fifo_push i (idleBuffers q)) (\<lambda>idle.
                           Inr (q\<lparr>queuedBuffers := queued, idleBuffers := idle\<rparr>)))
                   (\<lambda>q. Inr (if IsError completionStatus
                             then q\<lparr>queueStatus := RdmaError_Assign (queueStatus q) completionStatus\<rparr>
                             else q))))
              (cachedCompletionData, completedBytes) q
      else (Inr (no_callback, 0), q))"

definition HandleCompletion ::
  "nat \<Rightarrow> RdmaError \<Rightarrow> bool \<Rightarrow> RdmaBufferQueue \<Rightarrow> (exn, callback_call list, RdmaBufferQueue) outcome" where
  "HandleCompletion i completionStatus putBackToIdle q =
     bind_out (HandleCompletion_locked i completionStatus q) (\<lambda>(cachedCompletionData, completedBytes) q.
       (Inr (Callback_Call cachedCompletionData (GetCode completionStatus) completedBytes), q))"

text \<open>\<open>RdmaBuffer::HandleCompletion\<close>.\<close>

definition RdmaBuffer_HandleCompletion ::
  "nat \<Rightarrow> RdmaError \<Rightarrow> u64 \<Rightarrow> RdmaBufferQueue \<Rightarrow> (exn, callback_call list, RdmaBufferQueue) outcome" where
  "RdmaBuffer_HandleCompletion i completionStatus bytesTransferred q =
     HandleCompletion i completionStatus False
       (q\<lparr>buffers := (buffers q)[i := (buffers q ! i)\<lparr>usedBytes := bytesTransferred\<rparr>]\<rparr>)"

section \<open>Queueing and credits\<close>

text \<open>The result says whether the buffer is to be posted to the queue pair.\<close>

definition unlink_user :: "nat \<Rightarrow> RdmaBufferQueue \<Rightarrow> RdmaBufferQueue" where
  "unlink_user i q = q\<lparr>userBuffers := remove1 i (userBuffers q)\<rparr>"

definition QueueBuffer_locked ::
  "nat \<Rightarrow> IgnoreCredits \<Rightarrow> RdmaBufferQueue \<Rightarrow> (exn, bool, RdmaBufferQueue) outcome" where
  "QueueBuffer_locked i ignoreCredits q =
     (if IsError (queueStatus q) then (Inl (RdmaException (queueStatus q)), q)
      else if i \<notin> set (userBuffers q) then (Inl (bq_throw 188 easyrdma_Error_InvalidOperation), q)
      else if bq_direction q = Send \<and> ignoreCredits = IgnoreCredits_No then
        (case availableCredits q of
           poppedCreditSize # credits \<Rightarrow>
             if usedBytes (buffers q ! i) > poppedCreditSize then
               let e = RdmaError_of easyrdma_Error_SendTooLargeForRecvBuffer 0 RdmaBufferQueue_cpp 195
               in (Inl (RdmaException e), q\<lparr>queueStatus := RdmaError_Assign (queueStatus q) e\<rparr>)
             else
               lift_update (bind_res (fifo_push i (queuedBuffers q)) (\<lambda>queued.
                 Inr (unlink_user i (q\<lparr>queuedBuffers := queued, availableCredits := credits\<rparr>)))) True q
         | [] \<Rightarrow>
             lift_update (bind_res (fifo_push i (buffersQueuedWaitingForCredits q)) (\<lambda>waiting.
               Inr (unlink_user i (q\<lparr>buffersQueuedWaitingForCredits := waiting\<rparr>)))) False q)
      else
        lift_update (bind_res (fifo_push i (queuedBuffers q)) (\<lambda>queued.
          Inr (unlink_user i (q\<lparr>queuedBuffers := queued\<rparr>)))) True q)"

text \<open>
  \<open>post\<close> is \<open>connection.QueueToQp\<close>, a virtual function of the connection; the connection's state
  is the second component of the state.
\<close>

definition QueueBuffer ::
  "(Direction \<Rightarrow> nat \<Rightarrow> RdmaBuffer \<Rightarrow> 'c \<Rightarrow> (exn, unit, 'c) outcome) \<Rightarrow>
   nat \<Rightarrow> IgnoreCredits \<Rightarrow> RdmaBufferQueue \<times> 'c \<Rightarrow> (exn, unit, RdmaBufferQueue \<times> 'c) outcome" where
  "QueueBuffer QueueToQp i ignoreCredits = (\<lambda>(q, c).
     case QueueBuffer_locked i ignoreCredits q of
       (Inl e, q) \<Rightarrow> (Inl e, (q, c))
     | (Inr queueToQp, q) \<Rightarrow>
         if queueToQp then
           (case QueueToQp (bq_direction q) i (buffers q ! i) c of (r, c) \<Rightarrow> (r, (q, c)))
         else (Inr (), (q, c)))"

definition AddCredit_locked :: "u64 \<Rightarrow> RdmaBufferQueue \<Rightarrow> (exn, nat option, RdmaBufferQueue) outcome" where
  "AddCredit_locked sz q =
     (let q = q\<lparr>availableCredits := availableCredits q @ [sz]\<rparr> in
      if fifo_count (buffersQueuedWaitingForCredits q) \<noteq> 0 then
        let poppedCreditSize = hd (availableCredits q) in
        case fifo_front (buffersQueuedWaitingForCredits q) of Inl e \<Rightarrow> (Inl e, q)
        | Inr i \<Rightarrow>
          if usedBytes (buffers q ! i) > poppedCreditSize
          then (Inl (bq_throw 231 easyrdma_Error_SendTooLargeForRecvBuffer), q)
          else
            lift_update
              (bind_res (fifo_pop (buffersQueuedWaitingForCredits q)) (\<lambda>waiting.
                 bind_res (fifo_push i (queuedBuffers q)) (\<lambda>queued.
                   Inr (q\<lparr>buffersQueuedWaitingForCredits := waiting, queuedBuffers := queued,
                          availableCredits := tl (availableCredits q)\<rparr>))))
              (Some i) q
      else (Inr None, q))"

text \<open>The handler that stores the error of a failed \<open>AddCredit\<close>; it runs without the lock.\<close>

fun AddCredit_catch :: "exn \<Rightarrow> RdmaBufferQueue \<Rightarrow> RdmaBufferQueue" where
  "AddCredit_catch (RdmaException e) q = q\<lparr>queueStatus := RdmaError_Assign (queueStatus q) e\<rparr>"
| "AddCredit_catch _ q = q"

definition AddCredit ::
  "(Direction \<Rightarrow> nat \<Rightarrow> RdmaBuffer \<Rightarrow> 'c \<Rightarrow> (exn, unit, 'c) outcome) \<Rightarrow>
   u64 \<Rightarrow> RdmaBufferQueue \<times> 'c \<Rightarrow> (exn, unit, RdmaBufferQueue \<times> 'c) outcome" where
  "AddCredit QueueToQp sz = (\<lambda>(q, c).
     case AddCredit_locked sz q of
       (Inl e, q) \<Rightarrow> (Inl e, (AddCredit_catch e q, c))
     | (Inr None, q) \<Rightarrow> (Inr (), (q, c))
     | (Inr (Some i), q) \<Rightarrow>
         (case QueueToQp (bq_direction q) i (buffers q ! i) c of
            (Inl e, c) \<Rightarrow> (Inl e, (AddCredit_catch e q, c))
          | (Inr _, c) \<Rightarrow> (Inr (), (q, c))))"

section \<open>Giving buffers back, queries\<close>

definition ReleaseBuffer :: "nat \<Rightarrow> RdmaBufferQueue \<Rightarrow> (exn, unit, RdmaBufferQueue) outcome" where
  "ReleaseBuffer i q =
     (if i \<notin> set (userBuffers q) then (Inl (bq_throw 252 easyrdma_Error_InvalidOperation), q)
      else lift_update (bind_res (fifo_push i (idleBuffers q)) (\<lambda>idle.
             Inr (unlink_user i (q\<lparr>idleBuffers := idle\<rparr>)))) () q)"

definition easyrdma_Property_QueuedBuffers :: u32 where "easyrdma_Property_QueuedBuffers = 0x100"
definition easyrdma_Property_Connected :: u32 where "easyrdma_Property_Connected = 0x101"
definition easyrdma_Property_UserBuffers :: u32 where "easyrdma_Property_UserBuffers = 0x102"
definition easyrdma_Property_UseRxPolling :: u32 where "easyrdma_Property_UseRxPolling = 0x103"

definition BufferQueue_GetProperty :: "u32 \<Rightarrow> RdmaBufferQueue \<Rightarrow> exn + PropertyData" where
  "BufferQueue_GetProperty propertyId q =
     (if propertyId = easyrdma_Property_QueuedBuffers
      then Inr (PropertyData_u64 (fifo_count (queuedBuffers q) + fifo_count (buffersQueuedWaitingForCredits q)))
      else if propertyId = easyrdma_Property_UserBuffers
      then Inr (PropertyData_u64 (of_nat (length (userBuffers q))))
      else Inl (bq_throw 271 easyrdma_Error_InvalidProperty))"

definition HasUserBuffersOutstanding :: "RdmaBufferQueue \<Rightarrow> bool" where
  "HasUserBuffersOutstanding q \<longleftrightarrow> userBuffers q \<noteq> []"

definition GetQueueStatus :: "RdmaBufferQueue \<Rightarrow> RdmaError" where
  "GetQueueStatus q = queueStatus q"

end
