(* ===== verification/BufferQueueInv.thy ===== *)
theory BufferQueueInv
  imports BufferQueue
begin

text \<open>
  The ownership invariant of the buffer queue: the five places a buffer can be in partition the
  pool.  For each critical section there is one lemma that says what it does to the lists of
  buffer indices that the ring buffers hold; with the invariant no assertion of the ring buffers
  can fail.
\<close>

section \<open>The invariant\<close>

declare length_fifo_list [simp del]

abbreviation Idle :: "RdmaBufferQueue \<Rightarrow> nat list" where "Idle q \<equiv> fifo_list (idleBuffers q)"
abbreviation Queued :: "RdmaBufferQueue \<Rightarrow> nat list" where "Queued q \<equiv> fifo_list (queuedBuffers q)"
abbreviation Completed :: "RdmaBufferQueue \<Rightarrow> nat list" where "Completed q \<equiv> fifo_list (completedBuffers q)"
abbreviation Waiting :: "RdmaBufferQueue \<Rightarrow> nat list" where
  "Waiting q \<equiv> fifo_list (buffersQueuedWaitingForCredits q)"
abbreviation User :: "RdmaBufferQueue \<Rightarrow> nat list" where "User q \<equiv> userBuffers q"

definition ring_ok :: "nat \<Rightarrow> 'a tCircularFifo \<Rightarrow> bool" where
  "ring_ok n f \<longleftrightarrow> fifo_inv f \<and> fifo_cap f = n"

definition places :: "RdmaBufferQueue \<Rightarrow> nat list" where
  "places q = Idle q @ Queued q @ Completed q @ Waiting q @ User q"

definition rings_ok :: "RdmaBufferQueue \<Rightarrow> bool" where
  "rings_ok q \<longleftrightarrow> ring_ok (length (buffers q)) (idleBuffers q) \<and> ring_ok (length (buffers q)) (queuedBuffers q)
     \<and> ring_ok (length (buffers q)) (completedBuffers q)
     \<and> ring_ok (length (buffers q)) (buffersQueuedWaitingForCredits q)"

definition bq_inv :: "RdmaBufferQueue \<Rightarrow> bool" where
  "bq_inv q \<longleftrightarrow> rings_ok q \<and> mset (places q) = mset [0..<length (buffers q)]
     \<and> (bq_aborted q \<longrightarrow> Queued q = [] \<and> Waiting q = [] \<and> IsError (queueStatus q))
     \<and> (Waiting q \<noteq> [] \<longrightarrow> bq_direction q = Send)
     \<and> (Completed q \<noteq> [] \<longrightarrow> \<not> putBackToIdleOnCompletion q)"

lemma places_length:
  assumes "bq_inv q"
  shows "length (Idle q) + length (Queued q) + length (Completed q) + length (Waiting q) + length (User q)
    = length (buffers q)"
proof -
  from assms have "mset (places q) = mset [0..<length (buffers q)]" by (simp add: bq_inv_def)
  from mset_eq_length [OF this] show ?thesis by (simp add: places_def)
qed

lemma places_distinct: "bq_inv q \<Longrightarrow> distinct (places q)"
  using mset_perm_distinct [of "places q" "[0..<length (buffers q)]"] by (simp add: bq_inv_def)

lemma places_set:
  assumes "bq_inv q"
  shows "set (Idle q) \<union> set (Queued q) \<union> set (Completed q) \<union> set (Waiting q) \<union> set (User q)
    = {0..<length (buffers q)}"
proof -
  from assms have "mset (places q) = mset [0..<length (buffers q)]" by (simp add: bq_inv_def)
  from mset_eq_setD [OF this] show ?thesis by (auto simp: places_def)
qed

lemma places_less:
  assumes "bq_inv q"
  shows "i \<in> set (Queued q) \<Longrightarrow> i < length (buffers q)" and "i \<in> set (Waiting q) \<Longrightarrow> i < length (buffers q)"
    and "i \<in> set (User q) \<Longrightarrow> i < length (buffers q)" and "i \<in> set (Idle q) \<Longrightarrow> i < length (buffers q)"
    and "i \<in> set (Completed q) \<Longrightarrow> i < length (buffers q)"
  using places_set [OF assms] by auto

lemma ring_push:
  assumes "ring_ok n f" and "length (fifo_list f) < n"
  shows "\<exists>f'. fifo_push x f = Inr f' \<and> ring_ok n f' \<and> fifo_list f' = fifo_list f @ [x]"
  using fifo_push_ok [of f x] assms by (auto simp: ring_ok_def)

lemma ring_pop:
  assumes "ring_ok n f" and "fifo_list f = x # xs"
  shows "\<exists>f'. fifo_front f = Inr x \<and> fifo_pop f = Inr f' \<and> ring_ok n f' \<and> fifo_list f' = xs"
  using fifo_pop_ok [of f x xs] assms by (auto simp: ring_ok_def)

lemma ring_count [simp]: "ring_ok n f \<Longrightarrow> fifo_count f = 0 \<longleftrightarrow> fifo_list f = []"
  by (simp add: ring_ok_def)

lemma inv_rings:
  assumes "bq_inv q"
  shows "ring_ok (length (buffers q)) (idleBuffers q)" "ring_ok (length (buffers q)) (queuedBuffers q)"
    "ring_ok (length (buffers q)) (completedBuffers q)"
    "ring_ok (length (buffers q)) (buffersQueuedWaitingForCredits q)"
  using assms by (simp_all add: bq_inv_def rings_ok_def)

lemma unlink_user_fields [simp]:
  "userBuffers (unlink_user i q) = remove1 i (userBuffers q)" "buffers (unlink_user i q) = buffers q"
  "idleBuffers (unlink_user i q) = idleBuffers q" "queuedBuffers (unlink_user i q) = queuedBuffers q"
  "completedBuffers (unlink_user i q) = completedBuffers q"
  "buffersQueuedWaitingForCredits (unlink_user i q) = buffersQueuedWaitingForCredits q"
  "queueStatus (unlink_user i q) = queueStatus q" "bq_aborted (unlink_user i q) = bq_aborted q"
  "bq_direction (unlink_user i q) = bq_direction q" "availableCredits (unlink_user i q) = availableCredits q"
  "putBackToIdleOnCompletion (unlink_user i q) = putBackToIdleOnCompletion q"
  "bq_usePolling (unlink_user i q) = bq_usePolling q"
  by (simp_all add: unlink_user_def)

section \<open>Taking buffers\<close>

text \<open>Each lemma describes the result by the rings that change.\<close>

lemma WaitForIdleBuffer_spec:
  assumes "bq_inv q"
  shows "IsError (queueStatus q) \<Longrightarrow> WaitForIdleBuffer_locked q = (Inl (RdmaException (queueStatus q)), q)"
    and "\<not> IsError (queueStatus q) \<Longrightarrow> Idle q = [] \<Longrightarrow>
         WaitForIdleBuffer_locked q = (Inl (bq_throw 93 easyrdma_Error_Timeout), q)"
    and "\<not> IsError (queueStatus q) \<Longrightarrow> Idle q = i # is' \<Longrightarrow>
         \<exists>f. WaitForIdleBuffer_locked q = (Inr i, q\<lparr>idleBuffers := f, userBuffers := User q @ [i]\<rparr>)
           \<and> fifo_list f = is' \<and> bq_inv (q\<lparr>idleBuffers := f, userBuffers := User q @ [i]\<rparr>)"
proof -
  show "IsError (queueStatus q) \<Longrightarrow> WaitForIdleBuffer_locked q = (Inl (RdmaException (queueStatus q)), q)"
    by (simp add: WaitForIdleBuffer_locked_def)
  show "\<not> IsError (queueStatus q) \<Longrightarrow> Idle q = [] \<Longrightarrow>
         WaitForIdleBuffer_locked q = (Inl (bq_throw 93 easyrdma_Error_Timeout), q)"
    using inv_rings(1) [OF assms] by (simp add: WaitForIdleBuffer_locked_def)
  assume ok: "\<not> IsError (queueStatus q)" and idle: "Idle q = i # is'"
  from ring_pop [OF inv_rings(1) [OF assms] idle] obtain f where
    f: "fifo_front (idleBuffers q) = Inr i" "fifo_pop (idleBuffers q) = Inr f"
      "ring_ok (length (buffers q)) f" "fifo_list f = is'" by auto
  have "i \<notin> set (User q)" using places_distinct [OF assms] idle by (auto simp: places_def)
  then have "WaitForIdleBuffer_locked q = (Inr i, q\<lparr>idleBuffers := f, userBuffers := User q @ [i]\<rparr>)"
    using ok idle f inv_rings(1) [OF assms]
    by (simp add: WaitForIdleBuffer_locked_def link_user_def lift_update_def cpp_assert_def)
  moreover have "bq_inv (q\<lparr>idleBuffers := f, userBuffers := User q @ [i]\<rparr>)"
    using assms f idle by (simp add: bq_inv_def rings_ok_def places_def)
  ultimately show "\<exists>f. WaitForIdleBuffer_locked q = (Inr i, q\<lparr>idleBuffers := f, userBuffers := User q @ [i]\<rparr>)
           \<and> fifo_list f = is' \<and> bq_inv (q\<lparr>idleBuffers := f, userBuffers := User q @ [i]\<rparr>)"
    using f by blast
qed

lemma WaitForCompletedBuffer_spec:
  assumes "bq_inv q"
  shows "IsError (queueStatus q) \<Longrightarrow> Completed q = [] \<Longrightarrow>
         WaitForCompletedBuffer_locked q = (Inl (RdmaException (queueStatus q)), q)"
    and "\<not> IsError (queueStatus q) \<Longrightarrow> Completed q = [] \<Longrightarrow>
         WaitForCompletedBuffer_locked q = (Inl (bq_throw 133 easyrdma_Error_Timeout), q)"
    and "Completed q = i # is' \<Longrightarrow>
         \<exists>f. WaitForCompletedBuffer_locked q = (Inr i, q\<lparr>completedBuffers := f, userBuffers := User q @ [i]\<rparr>)
           \<and> fifo_list f = is' \<and> bq_inv (q\<lparr>completedBuffers := f, userBuffers := User q @ [i]\<rparr>)"
proof -
  note r = inv_rings(3) [OF assms]
  show "IsError (queueStatus q) \<Longrightarrow> Completed q = [] \<Longrightarrow>
         WaitForCompletedBuffer_locked q = (Inl (RdmaException (queueStatus q)), q)"
    using r by (simp add: WaitForCompletedBuffer_locked_def)
  show "\<not> IsError (queueStatus q) \<Longrightarrow> Completed q = [] \<Longrightarrow>
         WaitForCompletedBuffer_locked q = (Inl (bq_throw 133 easyrdma_Error_Timeout), q)"
    using r by (simp add: WaitForCompletedBuffer_locked_def)
  assume compl: "Completed q = i # is'"
  from ring_pop [OF r compl] obtain f where
    f: "fifo_front (completedBuffers q) = Inr i" "fifo_pop (completedBuffers q) = Inr f"
      "ring_ok (length (buffers q)) f" "fifo_list f = is'" by auto
  have "i \<notin> set (User q)" using places_distinct [OF assms] compl by (auto simp: places_def)
  then have "WaitForCompletedBuffer_locked q = (Inr i, q\<lparr>completedBuffers := f, userBuffers := User q @ [i]\<rparr>)"
    using compl f r
    by (simp add: WaitForCompletedBuffer_locked_def link_user_def lift_update_def cpp_assert_def)
  moreover have "bq_inv (q\<lparr>completedBuffers := f, userBuffers := User q @ [i]\<rparr>)"
    using assms f compl by (simp add: bq_inv_def rings_ok_def places_def)
  ultimately show "\<exists>f. WaitForCompletedBuffer_locked q = (Inr i, q\<lparr>completedBuffers := f, userBuffers := User q @ [i]\<rparr>)
           \<and> fifo_list f = is' \<and> bq_inv (q\<lparr>completedBuffers := f, userBuffers := User q @ [i]\<rparr>)"
    using f by blast
qed

section \<open>Giving buffers back and queueing them\<close>

lemma user_room:
  assumes "bq_inv q" and "i \<in> set (User q)"
  shows "length (Idle q) < length (buffers q)" and "length (Queued q) < length (buffers q)"
    and "length (Waiting q) < length (buffers q)" and "i < length (buffers q)"
proof -
  from assms(2) have "0 < length (User q)" by (cases "User q") auto
  with places_length [OF assms(1)] show "length (Idle q) < length (buffers q)"
    "length (Queued q) < length (buffers q)" "length (Waiting q) < length (buffers q)" by linarith+
  show "i < length (buffers q)" using places_less(3) [OF assms] .
qed

lemma ReleaseBuffer_spec:
  assumes "bq_inv q"
  shows "i \<notin> set (User q) \<Longrightarrow> ReleaseBuffer i q = (Inl (bq_throw 252 easyrdma_Error_InvalidOperation), q)"
    and "i \<in> set (User q) \<Longrightarrow> \<exists>f. ReleaseBuffer i q = (Inr (), unlink_user i (q\<lparr>idleBuffers := f\<rparr>))
           \<and> fifo_list f = Idle q @ [i] \<and> bq_inv (unlink_user i (q\<lparr>idleBuffers := f\<rparr>))"
proof -
  show "i \<notin> set (User q) \<Longrightarrow> ReleaseBuffer i q = (Inl (bq_throw 252 easyrdma_Error_InvalidOperation), q)"
    by (simp add: ReleaseBuffer_def)
  assume u: "i \<in> set (User q)"
  from ring_push [OF inv_rings(1) [OF assms] user_room(1) [OF assms u]] obtain f where
    f: "fifo_push i (idleBuffers q) = Inr f" "ring_ok (length (buffers q)) f" "fifo_list f = Idle q @ [i]" by auto
  then have "ReleaseBuffer i q = (Inr (), unlink_user i (q\<lparr>idleBuffers := f\<rparr>))"
    using u by (simp add: ReleaseBuffer_def lift_update_def)
  moreover have "bq_inv (unlink_user i (q\<lparr>idleBuffers := f\<rparr>))"
    using assms f u mset_move [OF u] by (simp add: bq_inv_def rings_ok_def places_def)
  ultimately show "\<exists>f. ReleaseBuffer i q = (Inr (), unlink_user i (q\<lparr>idleBuffers := f\<rparr>))
           \<and> fifo_list f = Idle q @ [i] \<and> bq_inv (unlink_user i (q\<lparr>idleBuffers := f\<rparr>))"
    using f by blast
qed

text \<open>What a successful push onto \<open>queuedBuffers\<close> or the waiting queue does.\<close>

lemma move_user_queued:
  assumes "bq_inv q" and "i \<in> set (User q)" and "\<not> IsError (queueStatus q)"
  shows "\<exists>f. fifo_push i (queuedBuffers q) = Inr f \<and> fifo_list f = Queued q @ [i]
    \<and> (\<forall>cs. bq_inv (unlink_user i (q\<lparr>queuedBuffers := f, availableCredits := cs\<rparr>)))"
proof -
  from ring_push [OF inv_rings(2) [OF assms(1)] user_room(2) [OF assms(1,2)]] obtain f where
    f: "fifo_push i (queuedBuffers q) = Inr f" "ring_ok (length (buffers q)) f" "fifo_list f = Queued q @ [i]"
    by auto
  moreover have "bq_inv (unlink_user i (q\<lparr>queuedBuffers := f, availableCredits := cs\<rparr>))" for cs
    using assms f mset_move [OF assms(2)] by (auto simp: bq_inv_def rings_ok_def places_def)
  ultimately show ?thesis by blast
qed

lemma move_user_waiting:
  assumes "bq_inv q" and "i \<in> set (User q)" and "\<not> IsError (queueStatus q)" and "bq_direction q = Send"
  shows "\<exists>f. fifo_push i (buffersQueuedWaitingForCredits q) = Inr f \<and> fifo_list f = Waiting q @ [i]
    \<and> bq_inv (unlink_user i (q\<lparr>buffersQueuedWaitingForCredits := f\<rparr>))"
proof -
  from ring_push [OF inv_rings(4) [OF assms(1)] user_room(3) [OF assms(1,2)]] obtain f where
    f: "fifo_push i (buffersQueuedWaitingForCredits q) = Inr f" "ring_ok (length (buffers q)) f"
      "fifo_list f = Waiting q @ [i]"
    by auto
  moreover have "bq_inv (unlink_user i (q\<lparr>buffersQueuedWaitingForCredits := f\<rparr>))"
    using assms f mset_move [OF assms(2)] by (auto simp: bq_inv_def rings_ok_def places_def)
  ultimately show ?thesis by blast
qed

text \<open>The four outcomes of queueing a buffer that the user owns, on a queue without error.\<close>

definition too_large :: RdmaError where
  "too_large = RdmaError_of easyrdma_Error_SendTooLargeForRecvBuffer 0 RdmaBufferQueue_cpp 195"

lemma QueueBuffer_errors:
  "IsError (queueStatus q) \<Longrightarrow> QueueBuffer_locked i ig q = (Inl (RdmaException (queueStatus q)), q)"
  "\<not> IsError (queueStatus q) \<Longrightarrow> i \<notin> set (User q) \<Longrightarrow>
     QueueBuffer_locked i ig q = (Inl (bq_throw 188 easyrdma_Error_InvalidOperation), q)"
  by (simp_all add: QueueBuffer_locked_def)

lemma QueueBuffer_credit:
  assumes "bq_inv q" and "\<not> IsError (queueStatus q)" and "i \<in> set (User q)" and "bq_direction q = Send"
    and "availableCredits q = c # cs"
  shows "usedBytes (buffers q ! i) > c \<Longrightarrow> QueueBuffer_locked i IgnoreCredits_No q
           = (Inl (RdmaException too_large), q\<lparr>queueStatus := RdmaError_Assign (queueStatus q) too_large\<rparr>)"
    and "usedBytes (buffers q ! i) \<le> c \<Longrightarrow> \<exists>f. QueueBuffer_locked i IgnoreCredits_No q
           = (Inr True, unlink_user i (q\<lparr>queuedBuffers := f, availableCredits := cs\<rparr>))
           \<and> fifo_list f = Queued q @ [i]
           \<and> bq_inv (unlink_user i (q\<lparr>queuedBuffers := f, availableCredits := cs\<rparr>))"
proof -
  show "usedBytes (buffers q ! i) > c \<Longrightarrow> QueueBuffer_locked i IgnoreCredits_No q
      = (Inl (RdmaException too_large), q\<lparr>queueStatus := RdmaError_Assign (queueStatus q) too_large\<rparr>)"
    using assms by (simp add: QueueBuffer_locked_def too_large_def Let_def)
  assume "usedBytes (buffers q ! i) \<le> c"
  with move_user_queued [OF assms(1,3,2)] show "\<exists>f. QueueBuffer_locked i IgnoreCredits_No q
           = (Inr True, unlink_user i (q\<lparr>queuedBuffers := f, availableCredits := cs\<rparr>))
           \<and> fifo_list f = Queued q @ [i]
           \<and> bq_inv (unlink_user i (q\<lparr>queuedBuffers := f, availableCredits := cs\<rparr>))"
    using assms by (auto simp: QueueBuffer_locked_def lift_update_def not_less)
qed

lemma QueueBuffer_no_credit:
  assumes "bq_inv q" and "\<not> IsError (queueStatus q)" and "i \<in> set (User q)" and "bq_direction q = Send"
    and "availableCredits q = []"
  shows "\<exists>f. QueueBuffer_locked i IgnoreCredits_No q
           = (Inr False, unlink_user i (q\<lparr>buffersQueuedWaitingForCredits := f\<rparr>))
           \<and> fifo_list f = Waiting q @ [i] \<and> bq_inv (unlink_user i (q\<lparr>buffersQueuedWaitingForCredits := f\<rparr>))"
  using move_user_waiting [OF assms(1,3,2,4)] assms by (auto simp: QueueBuffer_locked_def lift_update_def)

lemma QueueBuffer_direct:
  assumes "bq_inv q" and "\<not> IsError (queueStatus q)" and "i \<in> set (User q)"
    and "bq_direction q \<noteq> Send \<or> ig = IgnoreCredits_Yes"
  shows "\<exists>f. QueueBuffer_locked i ig q = (Inr True, unlink_user i (q\<lparr>queuedBuffers := f\<rparr>))
           \<and> fifo_list f = Queued q @ [i] \<and> bq_inv (unlink_user i (q\<lparr>queuedBuffers := f\<rparr>))"
proof -
  from move_user_queued [OF assms(1,3,2)] obtain f where f: "fifo_push i (queuedBuffers q) = Inr f"
    "fifo_list f = Queued q @ [i]" and inv: "\<And>cs. bq_inv (unlink_user i (q\<lparr>queuedBuffers := f, availableCredits := cs\<rparr>))"
    by blast
  from inv [of "availableCredits q"] have "bq_inv (unlink_user i (q\<lparr>queuedBuffers := f\<rparr>))" by simp
  with f assms show ?thesis by (auto simp: QueueBuffer_locked_def lift_update_def)
qed

section \<open>Credits\<close>

lemma AddCredit_none:
  assumes "bq_inv q" and "Waiting q = []"
  shows "AddCredit_locked c q = (Inr None, q\<lparr>availableCredits := availableCredits q @ [c]\<rparr>)"
    and "bq_inv (q\<lparr>availableCredits := cs\<rparr>)"
  using assms inv_rings(4) [OF assms(1)]
  by (simp_all add: AddCredit_locked_def Let_def bq_inv_def rings_ok_def places_def)

lemma AddCredit_some:
  fixes c :: u64
  assumes "bq_inv q" and "Waiting q = i # is'"
  defines "cs \<equiv> availableCredits q @ [c]"
  shows "usedBytes (buffers q ! i) > hd cs \<Longrightarrow> AddCredit_locked c q
           = (Inl (bq_throw 231 easyrdma_Error_SendTooLargeForRecvBuffer), q\<lparr>availableCredits := cs\<rparr>)
           \<and> bq_inv (q\<lparr>availableCredits := cs\<rparr>)"
    and "usedBytes (buffers q ! i) \<le> hd cs \<Longrightarrow> \<exists>w f. AddCredit_locked c q
           = (Inr (Some i), q\<lparr>buffersQueuedWaitingForCredits := w, queuedBuffers := f, availableCredits := tl cs\<rparr>)
           \<and> fifo_list w = is' \<and> fifo_list f = Queued q @ [i]
           \<and> bq_inv (q\<lparr>buffersQueuedWaitingForCredits := w, queuedBuffers := f, availableCredits := tl cs\<rparr>)"
proof -
  from ring_pop [OF inv_rings(4) [OF assms(1)] assms(2)] obtain w where
    w: "fifo_front (buffersQueuedWaitingForCredits q) = Inr i"
      "fifo_pop (buffersQueuedWaitingForCredits q) = Inr w"
      "ring_ok (length (buffers q)) w" "fifo_list w = is'" by auto
  have "length (Queued q) < length (buffers q)" using places_length [OF assms(1)] assms(2) by simp
  from ring_push [OF inv_rings(2) [OF assms(1)] this] obtain f where
    f: "fifo_push i (queuedBuffers q) = Inr f" "ring_ok (length (buffers q)) f" "fifo_list f = Queued q @ [i]"
    by auto
  note r = inv_rings(4) [OF assms(1)]
  show "usedBytes (buffers q ! i) > hd cs \<Longrightarrow> AddCredit_locked c q
           = (Inl (bq_throw 231 easyrdma_Error_SendTooLargeForRecvBuffer), q\<lparr>availableCredits := cs\<rparr>)
           \<and> bq_inv (q\<lparr>availableCredits := cs\<rparr>)"
    using assms(1,2) w r by (simp add: AddCredit_locked_def Let_def cs_def bq_inv_def rings_ok_def places_def)
  have "bq_inv (q\<lparr>buffersQueuedWaitingForCredits := w, queuedBuffers := f, availableCredits := tl cs\<rparr>)"
    using assms(1,2) w f by (auto simp: bq_inv_def rings_ok_def places_def)
  with w f r show "usedBytes (buffers q ! i) \<le> hd cs \<Longrightarrow> \<exists>w f. AddCredit_locked c q
           = (Inr (Some i), q\<lparr>buffersQueuedWaitingForCredits := w, queuedBuffers := f, availableCredits := tl cs\<rparr>)
           \<and> fifo_list w = is' \<and> fifo_list f = Queued q @ [i]
           \<and> bq_inv (q\<lparr>buffersQueuedWaitingForCredits := w, queuedBuffers := f, availableCredits := tl cs\<rparr>)"
    using assms(2) by (auto simp: AddCredit_locked_def Let_def cs_def lift_update_def not_less)
qed

section \<open>Completions\<close>

text \<open>Changing the contents of buffers, with the same number of them, keeps the invariant.\<close>

lemma bq_inv_buffers: "length bs = length (buffers q) \<Longrightarrow> bq_inv (q\<lparr>buffers := bs\<rparr>) = bq_inv q"
  by (simp add: bq_inv_def rings_ok_def places_def)

lemma bq_inv_status: "bq_inv q \<Longrightarrow> (IsError (queueStatus q) \<longrightarrow> IsError e) \<Longrightarrow> bq_inv (q\<lparr>queueStatus := e\<rparr>)"
  by (simp add: bq_inv_def rings_ok_def places_def)

definition clear_callback :: "nat \<Rightarrow> RdmaBuffer list \<Rightarrow> RdmaBuffer list" where
  "clear_callback i bs = bs[i := (bs ! i)\<lparr>completionCallbackData := no_callback\<rparr>]"

lemma length_clear_callback [simp]: "length (clear_callback i bs) = length bs"
  by (simp add: clear_callback_def)

definition note_completion :: "RdmaError \<Rightarrow> RdmaBufferQueue \<Rightarrow> RdmaBufferQueue" where
  "note_completion status q =
     (if IsError status then q\<lparr>queueStatus := RdmaError_Assign (queueStatus q) status\<rparr> else q)"

lemma note_completion_fields [simp]:
  "userBuffers (note_completion s q) = userBuffers q" "buffers (note_completion s q) = buffers q"
  "idleBuffers (note_completion s q) = idleBuffers q" "queuedBuffers (note_completion s q) = queuedBuffers q"
  "completedBuffers (note_completion s q) = completedBuffers q"
  "buffersQueuedWaitingForCredits (note_completion s q) = buffersQueuedWaitingForCredits q"
  "bq_aborted (note_completion s q) = bq_aborted q" "bq_direction (note_completion s q) = bq_direction q"
  "availableCredits (note_completion s q) = availableCredits q"
  "putBackToIdleOnCompletion (note_completion s q) = putBackToIdleOnCompletion q"
  "IsError (queueStatus (note_completion s q)) \<longleftrightarrow> IsError (queueStatus q) \<or> IsError s"
  by (simp_all add: note_completion_def)

lemma bq_inv_note_completion: "bq_inv q \<Longrightarrow> bq_inv (note_completion s q)"
  by (simp add: note_completion_def bq_inv_status)

lemmas completion_defs = HandleCompletion_def HandleCompletion_locked_def lift_update_def ASSERT_ALWAYS_def
  GetAndClearCallbackData_def clear_callback_def note_completion_def

lemma HandleCompletion_aborted:
  "bq_aborted q \<Longrightarrow> HandleCompletion i s p q = (Inr [], q)"
  by (simp add: HandleCompletion_def HandleCompletion_locked_def)

lemma HandleCompletion_in_order:
  assumes "bq_inv q" and "\<not> bq_aborted q" and "Queued q = i # is'"
  shows "putBackToIdleOnCompletion q \<Longrightarrow> \<exists>f g q'. q' = note_completion s
           (q\<lparr>buffers := clear_callback i (buffers q), queuedBuffers := f, idleBuffers := g\<rparr>)
         \<and> HandleCompletion i s p q = (Inr (Callback_Call (completionCallbackData (buffers q ! i)) (GetCode s)
              (usedBytes (buffers q ! i))), q')
         \<and> fifo_list f = is' \<and> fifo_list g = Idle q @ [i] \<and> bq_inv q'"
    and "\<not> putBackToIdleOnCompletion q \<Longrightarrow> \<exists>f g q'. q' = note_completion s
           (q\<lparr>buffers := clear_callback i (buffers q), queuedBuffers := f, completedBuffers := g\<rparr>)
         \<and> HandleCompletion i s p q = (Inr (Callback_Call (completionCallbackData (buffers q ! i)) (GetCode s)
              (usedBytes (buffers q ! i))), q')
         \<and> fifo_list f = is' \<and> fifo_list g = Completed q @ [i] \<and> bq_inv q'"
proof -
  note i = places_less(1) [OF assms(1), of i]
  from ring_pop [OF inv_rings(2) [OF assms(1)] assms(3)] obtain f where
    f: "fifo_front (queuedBuffers q) = Inr i" "fifo_pop (queuedBuffers q) = Inr f"
      "ring_ok (length (buffers q)) f" "fifo_list f = is'" by auto
  have room: "length (Idle q) < length (buffers q)" "length (Completed q) < length (buffers q)"
    using places_length [OF assms(1)] assms(3) by simp_all
  show "\<exists>f g q'. q' = note_completion s
           (q\<lparr>buffers := clear_callback i (buffers q), queuedBuffers := f, idleBuffers := g\<rparr>)
         \<and> HandleCompletion i s p q = (Inr (Callback_Call (completionCallbackData (buffers q ! i)) (GetCode s)
              (usedBytes (buffers q ! i))), q')
         \<and> fifo_list f = is' \<and> fifo_list g = Idle q @ [i] \<and> bq_inv q'" if pb: "putBackToIdleOnCompletion q"
  proof -
    from ring_push [OF inv_rings(1) [OF assms(1)] room(1)] obtain g where
      g: "fifo_push i (idleBuffers q) = Inr g" "ring_ok (length (buffers q)) g" "fifo_list g = Idle q @ [i]" by auto
    let ?q = "q\<lparr>buffers := clear_callback i (buffers q), queuedBuffers := f, idleBuffers := g\<rparr>"
    have "bq_inv ?q" using assms f g by (auto simp: bq_inv_def rings_ok_def places_def)
    note inv = bq_inv_note_completion [OF this, of s]
    have "HandleCompletion i s p q = (Inr (Callback_Call (completionCallbackData (buffers q ! i)) (GetCode s)
              (usedBytes (buffers q ! i))), note_completion s ?q)"
      using f g pb assms i by (simp add: completion_defs)
    with f g inv show ?thesis by blast
  qed
  show "\<exists>f g q'. q' = note_completion s
           (q\<lparr>buffers := clear_callback i (buffers q), queuedBuffers := f, completedBuffers := g\<rparr>)
         \<and> HandleCompletion i s p q = (Inr (Callback_Call (completionCallbackData (buffers q ! i)) (GetCode s)
              (usedBytes (buffers q ! i))), q')
         \<and> fifo_list f = is' \<and> fifo_list g = Completed q @ [i] \<and> bq_inv q'" if pb: "\<not> putBackToIdleOnCompletion q"
  proof -
    from ring_push [OF inv_rings(3) [OF assms(1)] room(2)] obtain g where
      g: "fifo_push i (completedBuffers q) = Inr g" "ring_ok (length (buffers q)) g"
         "fifo_list g = Completed q @ [i]" by auto
    let ?q = "q\<lparr>buffers := clear_callback i (buffers q), queuedBuffers := f, completedBuffers := g\<rparr>"
    have "bq_inv ?q" using assms f g pb by (auto simp: bq_inv_def rings_ok_def places_def)
    note inv = bq_inv_note_completion [OF this, of s]
    have "HandleCompletion i s p q = (Inr (Callback_Call (completionCallbackData (buffers q ! i)) (GetCode s)
              (usedBytes (buffers q ! i))), note_completion s ?q)"
      using f g pb assms i by (simp add: completion_defs)
    with f g inv show ?thesis by blast
  qed
qed

section \<open>Aborting\<close>

definition set_callbacks :: "RdmaBuffer list \<Rightarrow> nat list \<Rightarrow> BufferCompletionCallbackData list" where
  "set_callbacks bs is' = filter Callback_IsSet (map (\<lambda>i. completionCallbackData (bs ! i)) is')"

lemma set_callbacks_simps [simp]:
  "set_callbacks bs [] = []"
  "set_callbacks bs (i # is') = (if Callback_IsSet (completionCallbackData (bs ! i))
     then completionCallbackData (bs ! i) # set_callbacks bs is' else set_callbacks bs is')"
  "set_callbacks bs (xs @ ys) = set_callbacks bs xs @ set_callbacks bs ys"
  by (simp_all add: set_callbacks_def)

lemma set_callbacks_other:
  "i \<notin> set is' \<Longrightarrow> set_callbacks (bs[i := b]) is' = set_callbacks bs is'"
  by (induction is') auto

lemma drain_spec:
  assumes "ring_ok n from" and "ring_ok n to" and "length (fifo_list from) + length (fifo_list to) \<le> n"
    and "distinct (fifo_list from)" and "\<forall>i\<in>set (fifo_list from). i < length bs"
  shows "\<exists>from' to'. drain from to bs cbs
       = Inr (from', to', fold clear_callback (fifo_list from) bs, cbs @ set_callbacks bs (fifo_list from))
     \<and> ring_ok n from' \<and> fifo_list from' = [] \<and> ring_ok n to' \<and> fifo_list to' = fifo_list to @ fifo_list from"
  using assms
proof (induction "fifo_list from" arbitrary: "from" to bs cbs)
  case Nil
  then show ?case by (simp add: drain.simps ring_count [of n])
next
  case (Cons i is')
  from ring_pop [OF Cons.prems(1) Cons.hyps(2) [symmetric]] obtain f where
    f: "fifo_front from = Inr i" "fifo_pop from = Inr f" "ring_ok n f" "fifo_list f = is'" by auto
  have "length (fifo_list to) < n" using Cons.prems(3) Cons.hyps(2) [symmetric] by simp
  from ring_push [OF Cons.prems(2) this] obtain t where
    t: "fifo_push i to = Inr t" "ring_ok n t" "fifo_list t = fifo_list to @ [i]" by auto
  let ?cb = "completionCallbackData (bs ! i)"
  let ?cbs = "if Callback_IsSet ?cb then cbs @ [?cb] else cbs"
  have step: "drain from to bs cbs = drain f t (clear_callback i bs) ?cbs"
    using Cons.prems(1) Cons.hyps(2) [symmetric] f t
    by (subst drain.simps) (simp add: ring_count [of n] GetAndClearCallbackData_def clear_callback_def)
  have "i \<notin> set is'" using Cons.prems(4) Cons.hyps(2) [symmetric] by simp
  moreover from Cons.hyps(1) [of f t "clear_callback i bs" ?cbs] f t Cons.prems Cons.hyps(2) [symmetric]
  obtain from' to' where "drain f t (clear_callback i bs) ?cbs = Inr (from', to',
      fold clear_callback is' (clear_callback i bs), ?cbs @ set_callbacks (clear_callback i bs) is')"
    "ring_ok n from'" "fifo_list from' = []" "ring_ok n to'" "fifo_list to' = fifo_list t @ is'" by auto
  ultimately show ?case
    using step t Cons.hyps(2) [symmetric] by (auto simp: clear_callback_def set_callbacks_other)
qed

lemma fold_clear_length [simp]: "length (fold clear_callback is' bs) = length bs"
  by (induction is' arbitrary: bs) auto

lemma fold_clear_other: "i \<notin> set is' \<Longrightarrow> fold clear_callback is' bs ! i = bs ! i"
  by (induction is' arbitrary: bs) (auto simp: clear_callback_def)

lemma set_callbacks_fold_clear:
  "set is' \<inter> set js = {} \<Longrightarrow> set_callbacks (fold clear_callback js bs) is' = set_callbacks bs is'"
  by (induction is') (auto simp: fold_clear_other)

lemma Abort_again: "bq_aborted q \<Longrightarrow> Abort code q = Inr ([], q)"
  by (simp add: Abort_def Abort_locked_def)

text \<open>The queue after an abort: everything that was under way is idle and has lost its callback.\<close>

lemma Abort_spec:
  assumes "bq_inv q" and "\<not> bq_aborted q" and "code \<noteq> 0"
  shows "\<exists>f w g q'. q' = q\<lparr>bq_aborted := True,
        queueStatus := RDMA_SET_ERROR RdmaBufferQueue_cpp 48 (queueStatus q) code,
        queuedBuffers := f, buffersQueuedWaitingForCredits := w, idleBuffers := g,
        buffers := fold clear_callback (Queued q @ Waiting q) (buffers q)\<rparr>
     \<and> fifo_list f = [] \<and> fifo_list w = [] \<and> fifo_list g = Idle q @ Queued q @ Waiting q
     \<and> Abort code q = Inr (concat (map (\<lambda>cb. Callback_Call cb code 0)
          (set_callbacks (buffers q) (Queued q @ Waiting q))), q') \<and> bq_inv q'"
proof -
  let ?n = "length (buffers q)"
  let ?bs = "fold clear_callback (Queued q) (buffers q)"
  note r = inv_rings [OF assms(1)]
  note len = places_length [OF assms(1)]
  have dist: "distinct (Queued q)" "distinct (Waiting q)" "set (Waiting q) \<inter> set (Queued q) = {}"
    using places_distinct [OF assms(1)] by (auto simp: places_def)
  have "\<exists>f g. drain (queuedBuffers q) (idleBuffers q) (buffers q) []
      = Inr (f, g, ?bs, [] @ set_callbacks (buffers q) (Queued q))
    \<and> ring_ok ?n f \<and> fifo_list f = [] \<and> ring_ok ?n g \<and> fifo_list g = Idle q @ Queued q"
    using places_less(1) [OF assms(1)] len dist by (intro drain_spec r) auto
  then obtain f g where d1: "drain (queuedBuffers q) (idleBuffers q) (buffers q) []
      = Inr (f, g, ?bs, set_callbacks (buffers q) (Queued q))"
    and f: "ring_ok ?n f" "fifo_list f = []" and g: "ring_ok ?n g" "fifo_list g = Idle q @ Queued q" by auto
  have "\<exists>w h. drain (buffersQueuedWaitingForCredits q) g ?bs (set_callbacks (buffers q) (Queued q))
      = Inr (w, h, fold clear_callback (Waiting q) ?bs,
             set_callbacks (buffers q) (Queued q) @ set_callbacks ?bs (Waiting q))
    \<and> ring_ok ?n w \<and> fifo_list w = [] \<and> ring_ok ?n h \<and> fifo_list h = fifo_list g @ Waiting q"
    using places_less(2) [OF assms(1)] len dist g by (intro drain_spec r) auto
  then obtain w h where d2: "drain (buffersQueuedWaitingForCredits q) g ?bs (set_callbacks (buffers q) (Queued q))
      = Inr (w, h, fold clear_callback (Queued q @ Waiting q) (buffers q),
             set_callbacks (buffers q) (Queued q @ Waiting q))"
    and w: "ring_ok ?n w" "fifo_list w = []" "ring_ok ?n h" "fifo_list h = Idle q @ Queued q @ Waiting q"
    using g dist(3) by (auto simp: set_callbacks_fold_clear)
  let ?q = "q\<lparr>bq_aborted := True, queueStatus := RDMA_SET_ERROR RdmaBufferQueue_cpp 48 (queueStatus q) code,
        queuedBuffers := f, buffersQueuedWaitingForCredits := w, idleBuffers := h,
        buffers := fold clear_callback (Queued q @ Waiting q) (buffers q)\<rparr>"
  have "Abort code q = Inr (concat (map (\<lambda>cb. Callback_Call cb code 0)
          (set_callbacks (buffers q) (Queued q @ Waiting q))), ?q)"
    using assms(2) d1 d2 by (simp add: Abort_def Abort_locked_def Let_def)
  moreover have "bq_inv ?q"
    using assms f w by (auto simp: bq_inv_def rings_ok_def places_def RDMA_SET_ERROR_def
        RdmaError_Assign4_def IsError_def add.left_commute [of "mset (Waiting q)" "mset (Completed q)"])
  ultimately show ?thesis using f w by blast
qed

section \<open>Construction\<close>

text \<open>The constructors' loop puts every buffer it makes on the idle queue.\<close>

lemma add_buffers_inv:
  assumes "add_buffers mk_buffer k index q = Inr q'"
    and "ring_ok (length (buffers q) + k) (idleBuffers q)" and "Idle q = [0..<length (buffers q)]"
  shows "length (buffers q') = length (buffers q) + k
    \<and> ring_ok (length (buffers q')) (idleBuffers q') \<and> Idle q' = [0..<length (buffers q')]
    \<and> q' = q\<lparr>buffers := buffers q', idleBuffers := idleBuffers q'\<rparr>"
  using assms
proof (induction k arbitrary: index q)
  case 0
  then show ?case by simp
next
  case (Suc k)
  then obtain b f where f: "fifo_push (length (buffers q)) (idleBuffers q) = Inr f"
    and rest: "add_buffers mk_buffer k (index + 1) (q\<lparr>buffers := buffers q @ [b], idleBuffers := f\<rparr>) = Inr q'"
    by (auto simp: bind_res_eq_Inr)
  have "ring_ok (length (buffers q) + Suc k) f" "fifo_list f = [0..<Suc (length (buffers q))]"
    using ring_push [OF Suc.prems(2), of "length (buffers q)"] f Suc.prems(3) by auto
  with Suc.IH [OF rest] show ?case by (simp del: upt_Suc) (metis)
qed

lemma add_buffers_ok:
  assumes "\<forall>index. \<exists>b. mk_buffer index = Inr b"
    and "ring_ok (length (buffers q) + k) (idleBuffers q)" and "Idle q = [0..<length (buffers q)]"
  shows "\<exists>q'. add_buffers mk_buffer k index q = Inr q'"
  using assms(2,3)
proof (induction k arbitrary: index q)
  case 0
  then show ?case by simp
next
  case (Suc k)
  obtain b where b: "mk_buffer index = Inr b" using assms(1) by blast
  from ring_push [OF Suc.prems(1), of "length (buffers q)"] Suc.prems(2) obtain f where
    f: "fifo_push (length (buffers q)) (idleBuffers q) = Inr f"
       "ring_ok (length (buffers q) + Suc k) f" "fifo_list f = [0..<Suc (length (buffers q))]" by auto
  with Suc.IH [of "q\<lparr>buffers := buffers q @ [b], idleBuffers := f\<rparr>" "index + 1"] b show ?case
    by (simp del: upt_Suc)
qed

lemma vector_max_size_bound: "n \<le> vector_max_size \<longleftrightarrow> unat n < 2 ^ 60"
  by (auto simp: vector_max_size_def word_le_nat_alt)

lemma Allocate_inv:
  assumes "RdmaBufferQueue_new dir polling = Inr q0" and "AllocateBufferQueues n (q0\<lparr>putBackToIdleOnCompletion := pb\<rparr>) = Inr q1"
    and "add_buffers mk_buffer (unat n) 0 q1 = Inr q"
  shows "bq_inv q \<and> length (buffers q) = unat n \<and> Idle q = [0..<unat n] \<and> User q = [] \<and> \<not> bq_aborted q
    \<and> bq_direction q = dir \<and> queueStatus q = RdmaError_new \<and> availableCredits q = []
    \<and> putBackToIdleOnCompletion q = pb \<and> Queued q = [] \<and> Waiting q = [] \<and> Completed q = []"
proof -
  from assms(1,2) have q1: "unat n < 2 ^ 60" "buffers q1 = []" "userBuffers q1 = []" "\<not> bq_aborted q1"
    "bq_direction q1 = dir" "queueStatus q1 = RdmaError_new" "availableCredits q1 = []"
    "putBackToIdleOnCompletion q1 = pb"
    and rings: "idleBuffers q1 = fifo_reallocate 0 n fifo_new" "queuedBuffers q1 = fifo_reallocate 0 n fifo_new"
      "completedBuffers q1 = fifo_reallocate 0 n fifo_new"
      "buffersQueuedWaitingForCredits q1 = fifo_reallocate 0 n fifo_new"
    by (auto simp: RdmaBufferQueue_new_def AllocateBufferQueues_def not_less vector_max_size_bound
        split: if_splits)
  note empty = fifo_reallocate_props [OF q1(1), of "0 :: nat" fifo_new]
  have ring: "ring_ok (unat n) (fifo_reallocate 0 n fifo_new :: nat tCircularFifo)"
    using empty by (simp add: ring_ok_def)
  have len: "length (buffers q) = unat n" "ring_ok (unat n) (idleBuffers q)" "Idle q = [0..<unat n]"
    and q: "q = q1\<lparr>buffers := buffers q, idleBuffers := idleBuffers q\<rparr>"
    using add_buffers_inv [OF assms(3)] ring empty rings q1 by auto
  have fields: "userBuffers q = userBuffers q1" "bq_aborted q = bq_aborted q1" "bq_direction q = bq_direction q1"
    "queueStatus q = queueStatus q1" "availableCredits q = availableCredits q1"
    "putBackToIdleOnCompletion q = putBackToIdleOnCompletion q1" "queuedBuffers q = queuedBuffers q1"
    "completedBuffers q = completedBuffers q1"
    "buffersQueuedWaitingForCredits q = buffersQueuedWaitingForCredits q1"
    by (subst q; simp)+
  with len q1 rings ring empty show ?thesis
    by (simp add: bq_inv_def rings_ok_def places_def)
qed

lemma MultipleBuffer_new_inv:
  assumes "RdmaBufferQueueMultipleBuffer_new memalign reg dir n sz polling = Inr q"
  shows "bq_inv q \<and> length (buffers q) = unat n \<and> Idle q = [0..<unat n] \<and> User q = [] \<and> \<not> bq_aborted q
    \<and> bq_direction q = dir \<and> queueStatus q = RdmaError_new \<and> availableCredits q = []
    \<and> putBackToIdleOnCompletion q = (dir = Send) \<and> Queued q = [] \<and> Waiting q = [] \<and> Completed q = []"
proof -
  from assms obtain q0 q1 where q0: "RdmaBufferQueue_new dir polling = Inr q0"
    and "AllocateBufferQueues n q0 = Inr q1"
    and add: "add_buffers (\<lambda>index. RdmaBufferInternal_new (memalign index) reg sz index) (unat n) 0 q1 = Inr q"
    by (auto simp: RdmaBufferQueueMultipleBuffer_new_def bind_res_eq_Inr)
  moreover have "q0 = q0\<lparr>putBackToIdleOnCompletion := (dir = Send)\<rparr>"
    using q0 by (auto simp: RdmaBufferQueue_new_def split: if_splits)
  ultimately show ?thesis using Allocate_inv [OF q0 _ add, of "dir = Send"] by simp
qed

lemma SingleBuffer_new_inv:
  assumes "RdmaBufferQueueSingleBuffer_new reg dir ptr sz n polling = Inr q"
  shows "bq_inv q \<and> length (buffers q) = unat n \<and> Idle q = [0..<unat n] \<and> User q = [] \<and> \<not> bq_aborted q
    \<and> bq_direction q = dir \<and> queueStatus q = RdmaError_new \<and> availableCredits q = []
    \<and> putBackToIdleOnCompletion q = True \<and> Queued q = [] \<and> Waiting q = [] \<and> Completed q = []"
proof -
  from assms obtain q0 q1 where q0: "RdmaBufferQueue_new dir polling = Inr q0"
    and "AllocateBufferQueues n (q0\<lparr>putBackToIdleOnCompletion := True\<rparr>) = Inr q1"
    and "add_buffers (\<lambda>index. Inr (RdmaBufferExternal_new index)) (unat n) 0 q1 = Inr q"
    by (auto simp: RdmaBufferQueueSingleBuffer_new_def bind_res_eq_Inr Let_def)
  from Allocate_inv [OF this] show ?thesis by simp
qed

end
