(* ===== verification/BufferQueueSystem.thy ===== *)
theory BufferQueueSystem
  imports BufferQueueInv
begin

text \<open>
  A buffer queue under concurrency: user threads, the completion handler, the credit handler and
  an aborting thread run the critical sections of \<open>queueLock\<close> in any order.  The state records
  the callbacks that accepted queueings have armed and the callbacks that have been called.

  A client changes only buffers it owns, and the network adapter completes posted buffers in
  order; after an abort, late completions may name any buffer.
\<close>

section \<open>Steps\<close>

record bq_system =
  sys_queue :: RdmaBufferQueue
  sys_armed :: "BufferCompletionCallbackData list"
  sys_fired :: "callback_call list"

definition update_buffer :: "nat \<Rightarrow> RdmaBuffer \<Rightarrow> RdmaBufferQueue \<Rightarrow> RdmaBufferQueue" where
  "update_buffer i b q = q\<lparr>buffers := (buffers q)[i := b]\<rparr>"

definition armed_by :: "exn + bool \<Rightarrow> nat \<Rightarrow> RdmaBufferQueue \<Rightarrow> BufferCompletionCallbackData list" where
  "armed_by r i q = (case r of Inl _ \<Rightarrow> [] | Inr _ \<Rightarrow> set_callbacks (buffers q) [i])"

inductive bq_step :: "bq_system \<Rightarrow> bq_system \<Rightarrow> bool" where
  take_idle: "WaitForIdleBuffer_locked (sys_queue s) = (r, q') \<Longrightarrow> bq_step s (s\<lparr>sys_queue := q'\<rparr>)"
| take_completed: "\<not> putBackToIdleOnCompletion (sys_queue s) \<Longrightarrow>
     WaitForCompletedBuffer_locked (sys_queue s) = (r, q') \<Longrightarrow> bq_step s (s\<lparr>sys_queue := q'\<rparr>)"
| set_used: "i \<in> set (User (sys_queue s)) \<Longrightarrow> SetUsed sz (buffers (sys_queue s) ! i) = Inr b \<Longrightarrow>
     bq_step s (s\<lparr>sys_queue := update_buffer i b (sys_queue s)\<rparr>)"
| set_region: "i \<in> set (User (sys_queue s)) \<Longrightarrow>
     bq_step s (s\<lparr>sys_queue := update_buffer i (SetBufferRegion p sz (buffers (sys_queue s) ! i)) (sys_queue s)\<rparr>)"
| set_callback: "i \<in> set (User (sys_queue s)) \<Longrightarrow>
     bq_step s (s\<lparr>sys_queue := update_buffer i (SetCompletionCallback cb (buffers (sys_queue s) ! i)) (sys_queue s)\<rparr>)"
| queue: "QueueBuffer_locked i ig (sys_queue s) = (r, q') \<Longrightarrow>
     bq_step s (s\<lparr>sys_queue := q', sys_armed := sys_armed s @ armed_by r i (sys_queue s)\<rparr>)"
| release: "ReleaseBuffer i (sys_queue s) = (r, q') \<Longrightarrow> bq_step s (s\<lparr>sys_queue := q'\<rparr>)"
| credit: "AddCredit_locked c (sys_queue s) = (r, q') \<Longrightarrow> bq_step s (s\<lparr>sys_queue := q'\<rparr>)"
| credit_failed: "IsError e \<Longrightarrow>
     bq_step s (s\<lparr>sys_queue := AddCredit_catch (RdmaException e) (sys_queue s)\<rparr>)"
| complete: "bq_aborted (sys_queue s) \<or> (\<exists>rest. Queued (sys_queue s) = i # rest) \<Longrightarrow>
     RdmaBuffer_HandleCompletion i status n (sys_queue s) = (Inr calls, q') \<Longrightarrow>
     bq_step s (s\<lparr>sys_queue := q', sys_fired := sys_fired s @ calls\<rparr>)"
| abort: "code \<noteq> 0 \<Longrightarrow> Abort code (sys_queue s) = Inr (calls, q') \<Longrightarrow>
     bq_step s (s\<lparr>sys_queue := q', sys_fired := sys_fired s @ calls\<rparr>)"

inductive bq_reachable :: "bq_system \<Rightarrow> bool" where
  init_multiple: "RdmaBufferQueueMultipleBuffer_new memalign reg dir n sz polling = Inr q \<Longrightarrow>
     bq_reachable \<lparr>sys_queue = q, sys_armed = [], sys_fired = []\<rparr>"
| init_single: "RdmaBufferQueueSingleBuffer_new reg dir ptr sz n polling = Inr q \<Longrightarrow>
     bq_reachable \<lparr>sys_queue = q, sys_armed = [], sys_fired = []\<rparr>"
| step: "bq_reachable s \<Longrightarrow> bq_step s s' \<Longrightarrow> bq_reachable s'"

section \<open>Callbacks\<close>

definition cb_key :: "BufferCompletionCallbackData \<Rightarrow> nat \<times> u64 \<times> u64" where
  "cb_key cb = (the (callbackFunction cb), context1 cb, context2 cb)"

fun call_key :: "callback_call \<Rightarrow> nat \<times> u64 \<times> u64" where
  "call_key (CallbackCall f c1 c2 _ _) = (f, c1, c2)"

definition pending_callbacks :: "RdmaBufferQueue \<Rightarrow> BufferCompletionCallbackData list" where
  "pending_callbacks q = set_callbacks (buffers q) (Queued q @ Waiting q)"

definition callback_inv :: "bq_system \<Rightarrow> bool" where
  "callback_inv s \<longleftrightarrow> mset (map cb_key (sys_armed s))
     = mset (map call_key (sys_fired s)) + mset (map cb_key (pending_callbacks (sys_queue s)))"

lemma call_keys:
  "map call_key (Callback_Call cb st n) = map cb_key (filter Callback_IsSet [cb])"
  by (auto simp: Callback_Call_def Callback_IsSet_def cb_key_def split: option.splits)

lemma call_keys_mset:
  "image_mset call_key (mset (Callback_Call cb st n)) = image_mset cb_key (mset (filter Callback_IsSet [cb]))"
  using call_keys [of cb st n] by (metis mset_map)

lemma call_keys_concat:
  "map call_key (concat (map (\<lambda>cb. Callback_Call cb code n) cbs)) = map cb_key (filter Callback_IsSet cbs)"
proof (induction cbs)
  case (Cons cb cbs)
  then show ?case using call_keys [of cb code n] by simp
qed simp

lemma set_callbacks_set: "\<forall>cb\<in>set (set_callbacks bs is'). Callback_IsSet cb"
  by (auto simp: set_callbacks_def)

lemma filter_set_callbacks [simp]: "filter Callback_IsSet (set_callbacks bs is') = set_callbacks bs is'"
  by (simp add: set_callbacks_def)

lemma pending_update:
  assumes "bq_inv q" and "i \<in> set (User q)"
  shows "pending_callbacks (update_buffer i b q) = pending_callbacks q"
proof -
  have "i \<notin> set (Queued q @ Waiting q)" using places_distinct [OF assms(1)] assms(2) by (auto simp: places_def)
  then show ?thesis
    using set_callbacks_other [of i "Queued q @ Waiting q" "buffers q" b]
    by (simp add: pending_callbacks_def update_buffer_def)
qed

lemma bq_inv_update [simp]: "bq_inv (update_buffer i b q) = bq_inv q"
  by (simp add: update_buffer_def bq_inv_buffers)

section \<open>Each step keeps the invariants\<close>

abbreviation sys_inv :: "bq_system \<Rightarrow> bool" where
  "sys_inv s \<equiv> bq_inv (sys_queue s) \<and> callback_inv s"

lemma frame_callback_inv:
  assumes "callback_inv s" and "mset (pending_callbacks q') = mset (pending_callbacks (sys_queue s))"
  shows "callback_inv (s\<lparr>sys_queue := q'\<rparr>)"
  using assms by (auto simp: callback_inv_def)

lemma take_idle_inv:
  assumes "bq_inv q" and "WaitForIdleBuffer_locked q = (r, q')"
  shows "bq_inv q' \<and> pending_callbacks q' = pending_callbacks q"
proof (cases "IsError (queueStatus q) \<or> Idle q = []")
  case True
  with WaitForIdleBuffer_spec(1,2) [OF assms(1)] assms show ?thesis by auto
next
  case False
  then obtain i rest where "Idle q = i # rest" by (cases "Idle q") auto
  with WaitForIdleBuffer_spec(3) [OF assms(1)] False assms(2) show ?thesis
    by (auto simp: pending_callbacks_def)
qed

lemma take_completed_inv:
  assumes "bq_inv q" and "WaitForCompletedBuffer_locked q = (r, q')"
  shows "bq_inv q' \<and> pending_callbacks q' = pending_callbacks q"
proof (cases "Completed q")
  case Nil
  with WaitForCompletedBuffer_spec(1,2) [OF assms(1)] assms show ?thesis
    by (cases "IsError (queueStatus q)") auto
next
  case (Cons i rest)
  with WaitForCompletedBuffer_spec(3) [OF assms(1)] assms(2) show ?thesis
    by (auto simp: pending_callbacks_def)
qed

lemma release_inv:
  assumes "bq_inv q" and "ReleaseBuffer i q = (r, q')"
  shows "bq_inv q' \<and> pending_callbacks q' = pending_callbacks q"
  using ReleaseBuffer_spec [OF assms(1), of i] assms by (cases "i \<in> set (User q)") (auto simp: pending_callbacks_def)

lemma queue_inv:
  assumes "bq_inv q" and "QueueBuffer_locked i ig q = (r, q')"
  shows "bq_inv q' \<and> mset (pending_callbacks q') = mset (pending_callbacks q) + mset (armed_by r i q)"
proof (cases "IsError (queueStatus q) \<or> i \<notin> set (User q)")
  case True
  with QueueBuffer_errors [of q i ig] assms show ?thesis
    by (cases "IsError (queueStatus q)") (auto simp: armed_by_def)
next
  case False
  then have ok: "\<not> IsError (queueStatus q)" "i \<in> set (User q)" by auto
  show ?thesis
  proof (cases "bq_direction q \<noteq> Send \<or> ig = IgnoreCredits_Yes")
    case True
    from QueueBuffer_direct [OF assms(1) ok True] assms(2) show ?thesis
      by (auto simp: pending_callbacks_def armed_by_def)
  next
    case False
    then have send: "bq_direction q = Send" "ig = IgnoreCredits_No" by (cases ig; auto)+
    show ?thesis
    proof (cases "availableCredits q")
      case Nil
      from QueueBuffer_no_credit [OF assms(1) ok send(1) Nil] assms(2) send(2) show ?thesis
        by (auto simp: pending_callbacks_def armed_by_def)
    next
      case (Cons c cs)
      note spec = QueueBuffer_credit [OF assms(1) ok send(1) Cons]
      show ?thesis
      proof (cases "usedBytes (buffers q ! i) > c")
        case True
        with spec(1) assms(2) send(2) have "r = Inl (RdmaException too_large)"
          "q' = q\<lparr>queueStatus := RdmaError_Assign (queueStatus q) too_large\<rparr>" by auto
        then show ?thesis using assms(1) by (auto simp: pending_callbacks_def armed_by_def intro: bq_inv_status)
      next
        case False
        with spec(2) assms(2) send(2) show ?thesis
          by (auto simp: pending_callbacks_def armed_by_def not_less)
      qed
    qed
  qed
qed

lemma credit_inv:
  assumes "bq_inv q" and "AddCredit_locked c q = (r, q')"
  shows "bq_inv q' \<and> mset (pending_callbacks q') = mset (pending_callbacks q)"
proof (cases "Waiting q")
  case Nil
  with AddCredit_none [OF assms(1) Nil] assms(2) show ?thesis by (auto simp: pending_callbacks_def)
next
  case (Cons i rest)
  let ?cs = "availableCredits q @ [c]"
  show ?thesis
  proof (cases "usedBytes (buffers q ! i) > hd ?cs")
    case True
    with AddCredit_some(1) [OF assms(1) Cons True] assms(2) show ?thesis by (auto simp: pending_callbacks_def)
  next
    case False
    with AddCredit_some(2) [OF assms(1) Cons, of c] assms(2) Cons show ?thesis
      by (auto simp: pending_callbacks_def not_less)
  qed
qed

lemma set_used_bytes_other [simp]:
  "set_callbacks (bs[i := (bs ! i)\<lparr>usedBytes := n\<rparr>]) is' = set_callbacks bs is'"
proof -
  have "completionCallbackData (bs[i := (bs ! i)\<lparr>usedBytes := n\<rparr>] ! j) = completionCallbackData (bs ! j)" for j
    by (cases "i = j"; cases "j < length bs") (auto simp: list_update_beyond)
  then show ?thesis by (simp add: set_callbacks_def)
qed

lemma complete_inv:
  assumes "bq_inv q" and "bq_aborted q \<or> (\<exists>rest. Queued q = i # rest)"
    and "RdmaBuffer_HandleCompletion i st n q = (r, q')"
  shows "bq_inv q' \<and> (\<exists>calls. r = Inr calls \<and>
    mset (map cb_key (pending_callbacks q)) = mset (map call_key calls) + mset (map cb_key (pending_callbacks q')))"
proof -
  let ?q = "q\<lparr>buffers := (buffers q)[i := (buffers q ! i)\<lparr>usedBytes := n\<rparr>]\<rparr>"
  have inv: "bq_inv ?q" using assms(1) by (simp add: bq_inv_buffers)
  have run: "HandleCompletion i st False ?q = (r, q')"
    using assms(3) by (simp add: RdmaBuffer_HandleCompletion_def)
  have pend: "pending_callbacks ?q = pending_callbacks q" by (simp add: pending_callbacks_def)
  show ?thesis
  proof (cases "bq_aborted q")
    case True
    with HandleCompletion_aborted [of ?q i st False] run have "r = Inr []" "q' = ?q" by simp_all
    with inv pend show ?thesis by simp
  next
    case False
    with assms(2) obtain rest where rest: "Queued ?q = i # rest" by auto
    have na: "\<not> bq_aborted ?q" using False by simp
    have notin: "i \<notin> set (rest @ Waiting ?q)"
      using places_distinct [OF inv] rest by (auto simp: places_def)
    let ?cb = "completionCallbackData (buffers ?q ! i)"
    obtain q2 where q': "q' = note_completion st q2" and inv': "bq_inv q'"
      and r: "r = Inr (Callback_Call ?cb (GetCode st) (usedBytes (buffers ?q ! i)))"
      and q2: "Queued q2 = rest" "Waiting q2 = Waiting ?q" "buffers q2 = clear_callback i (buffers ?q)"
    proof (cases "putBackToIdleOnCompletion ?q")
      case True
      from HandleCompletion_in_order(1) [OF inv na rest True, of st False] run that show ?thesis by auto
    next
      case False
      from HandleCompletion_in_order(2) [OF inv na rest False, of st False] run that show ?thesis by auto
    qed
    have "pending_callbacks q' = set_callbacks (clear_callback i (buffers ?q)) (rest @ Waiting ?q)"
      using q' q2 by (simp add: pending_callbacks_def)
    also have "\<dots> = set_callbacks (buffers ?q) (rest @ Waiting ?q)"
      using set_callbacks_other [OF notin] by (simp add: clear_callback_def)
    finally have "mset (map cb_key (pending_callbacks ?q))
        = mset (map cb_key (filter Callback_IsSet [?cb])) + mset (map cb_key (pending_callbacks q'))"
      using rest by (simp add: pending_callbacks_def)
    with pend inv' r show ?thesis by (auto simp: call_keys_mset)
  qed
qed

lemma abort_inv:
  assumes "bq_inv q" and "code \<noteq> 0" and "Abort code q = Inr (calls, q')"
  shows "bq_inv q' \<and>
    mset (map cb_key (pending_callbacks q)) = mset (map call_key calls) + mset (map cb_key (pending_callbacks q'))"
proof (cases "bq_aborted q")
  case True
  with assms Abort_again [OF True, of code] show ?thesis by auto
next
  case False
  from Abort_spec [OF assms(1) False assms(2)] assms(3) have "bq_inv q'" "Queued q' = []" "Waiting q' = []"
    "calls = concat (map (\<lambda>cb. Callback_Call cb code 0) (pending_callbacks q))"
    by (auto simp: pending_callbacks_def)
  then show ?thesis by (simp add: call_keys_concat pending_callbacks_def)
qed

lemma bq_step_inv:
  assumes "bq_step s s'" and "sys_inv s"
  shows "sys_inv s'"
  using assms
proof (induction rule: bq_step.induct)
  case (take_idle s r q')
  with take_idle_inv [of "sys_queue s" r q'] show ?case by (auto intro: frame_callback_inv)
next
  case (take_completed s r q')
  with take_completed_inv [of "sys_queue s" r q'] show ?case by (auto intro: frame_callback_inv)
next
  case (set_used i s sz b)
  with pending_update [of "sys_queue s" i b] show ?case by (auto intro: frame_callback_inv)
next
  case (set_region i s p sz)
  with pending_update [of "sys_queue s" i] show ?case by (auto intro: frame_callback_inv)
next
  case (set_callback i s cb)
  with pending_update [of "sys_queue s" i] show ?case by (auto intro: frame_callback_inv)
next
  case (queue i ig s r q')
  with queue_inv [of "sys_queue s" i ig r q'] show ?case by (auto simp: callback_inv_def)
next
  case (release i s r q')
  with release_inv [of "sys_queue s" i r q'] show ?case by (auto intro: frame_callback_inv)
next
  case (credit c s r q')
  with credit_inv [of "sys_queue s" c r q'] show ?case by (auto intro: frame_callback_inv)
next
  case (credit_failed e s)
  then have "bq_inv (AddCredit_catch (RdmaException e) (sys_queue s))" by (auto intro: bq_inv_status)
  with credit_failed show ?case by (auto intro: frame_callback_inv simp: pending_callbacks_def)
next
  case (complete s i status n calls q')
  with complete_inv [of "sys_queue s" i status n "Inr calls" q'] show ?case by (auto simp: callback_inv_def)
next
  case (abort code s calls q')
  with abort_inv [of "sys_queue s" code calls q'] show ?case by (auto simp: callback_inv_def)
qed

lemma bq_reachable_inv: "bq_reachable s \<Longrightarrow> sys_inv s"
proof (induction rule: bq_reachable.induct)
  case (init_multiple memalign reg dir n sz polling q)
  from MultipleBuffer_new_inv [OF this] show ?case by (simp add: callback_inv_def pending_callbacks_def)
next
  case (init_single reg dir ptr sz n polling q)
  from SingleBuffer_new_inv [OF this] show ?case by (simp add: callback_inv_def pending_callbacks_def)
next
  case (step s s')
  then show ?case using bq_step_inv by blast
qed

end
