(* ===== verification/BufferQueueTheorems.thy ===== *)
theory BufferQueueTheorems
  imports BufferQueueSystem
begin

text \<open>
  What the buffer queue guarantees in every state that any interleaving of its critical sections
  reaches: ownership of buffers, absence of assertion failures, exactly-once callbacks, the effect
  of an abort and the outcomes of the blocking calls; and two flaws that the model shows.
\<close>

section \<open>A small queue\<close>

definition demo_memalign :: "u64 \<Rightarrow> (u64 \<times> u8 list) option" where
  "demo_memalign i = Some (4096 * (i + 1), replicate 16 0)"

definition demo_reg :: "u64 \<Rightarrow> u64 \<Rightarrow> exn + unit" where
  "demo_reg _ _ = Inr ()"

definition demo_queue :: "Direction \<Rightarrow> RdmaBufferQueue" where
  "demo_queue dir = projr (RdmaBufferQueueMultipleBuffer_new demo_memalign demo_reg dir 2 16 False)"

definition demo_callback :: BufferCompletionCallbackData where
  "demo_callback = \<lparr>callbackFunction = Some 7, context1 = 1, context2 = 2\<rparr>"

lemma demo_new: "RdmaBufferQueueMultipleBuffer_new demo_memalign demo_reg Send 2 16 False = Inr (demo_queue Send)"
  "RdmaBufferQueueMultipleBuffer_new demo_memalign demo_reg Receive 2 16 False = Inr (demo_queue Receive)"
  by code_simp+

definition demo_s0 :: bq_system where
  "demo_s0 = \<lparr>sys_queue = demo_queue Receive, sys_armed = [], sys_fired = []\<rparr>"

definition demo_s1 :: bq_system where
  "demo_s1 = demo_s0\<lparr>sys_queue := snd (WaitForIdleBuffer_locked (sys_queue demo_s0))\<rparr>"

definition demo_s2 :: bq_system where
  "demo_s2 = demo_s1\<lparr>sys_queue := update_buffer 0 (SetCompletionCallback demo_callback
     (buffers (sys_queue demo_s1) ! 0)) (sys_queue demo_s1)\<rparr>"

definition demo_s3 :: bq_system where
  "demo_s3 = demo_s2\<lparr>sys_queue := snd (QueueBuffer_locked 0 IgnoreCredits_No (sys_queue demo_s2)),
     sys_armed := [demo_callback]\<rparr>"

lemma demo_run_reachable: "bq_reachable demo_s0" "bq_reachable demo_s1" "bq_reachable demo_s2" "bq_reachable demo_s3"
proof -
  show s0: "bq_reachable demo_s0"
    unfolding demo_s0_def by (rule init_multiple [OF demo_new(2)])
  have "bq_step demo_s0 demo_s1" unfolding demo_s1_def by (rule take_idle) (rule surjective_pairing)
  with s0 show s1: "bq_reachable demo_s1" by (rule step)
  have "0 \<in> set (User (sys_queue demo_s1))" by code_simp
  then have "bq_step demo_s1 demo_s2" unfolding demo_s2_def by (rule set_callback)
  with s1 show s2: "bq_reachable demo_s2" by (rule step)
  have "sys_armed demo_s2 @ armed_by (fst (QueueBuffer_locked 0 IgnoreCredits_No (sys_queue demo_s2))) 0
      (sys_queue demo_s2) = [demo_callback]" by code_simp
  then have "bq_step demo_s2 demo_s3"
    using queue [of 0 IgnoreCredits_No demo_s2, OF surjective_pairing] by (simp add: demo_s3_def)
  with s2 show "bq_reachable demo_s3" by (rule step)
qed

section \<open>Ownership\<close>

text \<open>
  C4.  Buffers are never lost, duplicated or shared: in every reachable state the idle, posted,
  completed, waiting and user-owned buffers are a partition of the pool, and the two properties
  that the API exposes count exactly the buffers under way and the buffers the user owns.
\<close>

theorem buffers_are_partitioned:
  assumes "bq_reachable s"
  defines "q \<equiv> sys_queue s"
  shows "distinct (Idle q @ Queued q @ Completed q @ Waiting q @ User q)
    \<and> set (Idle q @ Queued q @ Completed q @ Waiting q @ User q) = {0..<length (buffers q)}
    \<and> BufferQueue_GetProperty easyrdma_Property_QueuedBuffers q
        = Inr (PropertyData_u64 (of_nat (length (Queued q) + length (Waiting q))))
    \<and> BufferQueue_GetProperty easyrdma_Property_UserBuffers q
        = Inr (PropertyData_u64 (of_nat (length (User q))))
    \<and> (HasUserBuffersOutstanding q \<longleftrightarrow> User q \<noteq> [])"
proof -
  have inv: "bq_inv q" using bq_reachable_inv [OF assms(1)] by (simp add: q_def)
  have "fifo_count f = of_nat (length (fifo_list f))" for f :: "nat tCircularFifo"
    by (simp add: fifo_count_def length_fifo_list)
  with places_distinct [OF inv] places_set [OF inv] show ?thesis
    by (auto simp: places_def BufferQueue_GetProperty_def easyrdma_Property_QueuedBuffers_def
        easyrdma_Property_UserBuffers_def HasUserBuffersOutstanding_def)
qed

theorem buffers_are_partitioned_witness:
  "set (Idle (sys_queue demo_s3) @ Queued (sys_queue demo_s3) @ Completed (sys_queue demo_s3)
      @ Waiting (sys_queue demo_s3) @ User (sys_queue demo_s3)) = {0..<2}
   \<and> BufferQueue_GetProperty easyrdma_Property_QueuedBuffers (sys_queue demo_s3) = Inr (PropertyData_u64 1)"
proof -
  have "length (buffers (sys_queue demo_s3)) = 2" "length (Queued (sys_queue demo_s3)) = 1"
    "length (Waiting (sys_queue demo_s3)) = 0" by code_simp+
  with buffers_are_partitioned [OF demo_run_reachable(4)] show ?thesis by simp
qed

section \<open>No assertion fails\<close>

definition not_crash :: "exn + 'a \<Rightarrow> bool" where
  "not_crash r \<longleftrightarrow> (case r of Inl (Crash _) \<Rightarrow> False | _ \<Rightarrow> True)"

lemma not_crash_simps [simp]:
  "not_crash (Inr a)" "not_crash (Inl (RdmaException e))" "not_crash (Inl StdException)"
  "not_crash (Inl (bq_throw l c))"
  by (simp_all add: not_crash_def bq_throw_def RDMA_THROW_def)

lemma WaitForIdle_not_crash: "bq_inv q \<Longrightarrow> not_crash (fst (WaitForIdleBuffer_locked q))"
  using WaitForIdleBuffer_spec [of q]
  by (cases "IsError (queueStatus q)"; cases "Idle q") fastforce+

lemma WaitForCompleted_not_crash: "bq_inv q \<Longrightarrow> not_crash (fst (WaitForCompletedBuffer_locked q))"
  using WaitForCompletedBuffer_spec [of q]
  by (cases "IsError (queueStatus q)"; cases "Completed q") fastforce+

lemma ReleaseBuffer_not_crash: "bq_inv q \<Longrightarrow> not_crash (fst (ReleaseBuffer i q))"
  using ReleaseBuffer_spec [of q i] by (cases "i \<in> set (User q)") auto

lemma QueueBuffer_not_crash:
  assumes "bq_inv q"
  shows "not_crash (fst (QueueBuffer_locked i ig q))"
proof (cases "IsError (queueStatus q) \<or> i \<notin> set (User q)")
  case True
  then show ?thesis using QueueBuffer_errors [of q i ig] by (cases "IsError (queueStatus q)") auto
next
  case False
  then have ok: "\<not> IsError (queueStatus q)" "i \<in> set (User q)" by auto
  consider "bq_direction q \<noteq> Send \<or> ig = IgnoreCredits_Yes"
    | "bq_direction q = Send" "ig = IgnoreCredits_No" "availableCredits q = []"
    | c cs where "bq_direction q = Send" "ig = IgnoreCredits_No" "availableCredits q = c # cs"
    by (cases ig; cases "availableCredits q") auto
  then show ?thesis
  proof cases
    case 1
    from QueueBuffer_direct [OF assms ok 1] show ?thesis by auto
  next
    case 2
    from QueueBuffer_no_credit [OF assms ok 2(1,3)] 2 show ?thesis by auto
  next
    case 3
    from QueueBuffer_credit [OF assms ok 3(1,3)] 3 show ?thesis
      by (cases "usedBytes (buffers q ! i) > c") (auto simp: not_less)
  qed
qed

lemma AddCredit_not_crash:
  assumes "bq_inv q"
  shows "not_crash (fst (AddCredit_locked c q))"
proof (cases "Waiting q")
  case Nil
  with AddCredit_none [OF assms] show ?thesis by auto
next
  case (Cons i rest)
  with AddCredit_some [OF assms Cons, of c] show ?thesis
    by (cases "usedBytes (buffers q ! i) > hd (availableCredits q @ [c])") (auto simp: not_less)
qed

lemma Abort_ok:
  assumes "bq_inv q" and "code \<noteq> 0"
  shows "\<exists>calls q'. Abort code q = Inr (calls, q') \<and> bq_inv q' \<and> Queued q' = [] \<and> Waiting q' = [] \<and> bq_aborted q'"
proof (cases "bq_aborted q")
  case True
  with assms Abort_again [OF True] show ?thesis by (auto simp: bq_inv_def)
next
  case False
  from Abort_spec [OF assms(1) False assms(2)] show ?thesis by auto
qed

lemma dtor_ok: "bq_inv q \<Longrightarrow> \<exists>calls. RdmaBufferQueue_dtor q = Inr calls"
  using Abort_ok [of q easyrdma_Error_OperationCancelled] inv_rings
  by (fastforce simp: RdmaBufferQueue_dtor_def cpp_assert_def easyrdma_Error_OperationCancelled_def)

text \<open>
  C13.  No assertion of the queue can fail.  In every reachable state none of the critical sections
  ends in a failed \<open>assert\<close> (a ring buffer overflowing, an empty ring buffer popped, a buffer
  linked twice), an in-order completion is never taken for an out-of-order one, and the destructor
  finds nothing under way after its abort.
\<close>

theorem queue_never_asserts:
  assumes "bq_reachable s"
  defines "q \<equiv> sys_queue s"
  shows "not_crash (fst (WaitForIdleBuffer_locked q)) \<and> not_crash (fst (WaitForCompletedBuffer_locked q))
    \<and> not_crash (fst (QueueBuffer_locked i ig q)) \<and> not_crash (fst (AddCredit_locked c q))
    \<and> not_crash (fst (ReleaseBuffer i q))
    \<and> (bq_aborted q \<or> (\<exists>rest. Queued q = i # rest) \<longrightarrow>
         (\<exists>calls. fst (RdmaBuffer_HandleCompletion i status n q) = Inr calls))
    \<and> (code \<noteq> 0 \<longrightarrow> (\<exists>calls q'. Abort code q = Inr (calls, q')))
    \<and> (\<exists>calls. RdmaBufferQueue_dtor q = Inr calls)"
proof -
  have inv: "bq_inv q" using bq_reachable_inv [OF assms(1)] by (simp add: q_def)
  have "\<exists>calls. fst (RdmaBuffer_HandleCompletion i status n q) = Inr calls"
    if "bq_aborted q \<or> (\<exists>rest. Queued q = i # rest)"
    using complete_inv [OF inv that surjective_pairing] by auto
  with inv show ?thesis
    using WaitForIdle_not_crash WaitForCompleted_not_crash QueueBuffer_not_crash AddCredit_not_crash
      ReleaseBuffer_not_crash Abort_ok dtor_ok by blast
qed

theorem queue_never_asserts_witness:
  "(\<exists>calls. fst (RdmaBuffer_HandleCompletion 0 RdmaError_new 16 (sys_queue demo_s3)) = Inr calls)
   \<and> (\<exists>calls. RdmaBufferQueue_dtor (sys_queue demo_s3) = Inr calls)"
proof -
  have "Queued (sys_queue demo_s3) = [0]" by code_simp
  with queue_never_asserts [OF demo_run_reachable(4), of 0 _ _ RdmaError_new 16] show ?thesis by auto
qed

section \<open>Callbacks\<close>



section \<open>Aborting\<close>

lemma RDMA_SET_ERROR_first: "IsError st \<Longrightarrow> RDMA_SET_ERROR file line st code = st"
  by (simp add: RDMA_SET_ERROR_def RdmaError_Assign4_def IsError_def)

lemma RDMA_SET_ERROR_error: "code \<noteq> 0 \<Longrightarrow> IsError (RDMA_SET_ERROR file line st code)"
  by (simp add: RDMA_SET_ERROR_def RdmaError_Assign4_def IsError_def)

text \<open>
  C23.  Aborting cancels everything under way and wakes everybody up with an error.  Posted and
  waiting buffers go back to the idle queue in order, each of their callbacks is called once with
  the abort's code and zero bytes, completed buffers can still be collected, and from then on
  taking an idle buffer and queueing a buffer fail with the stored error, which is the first one
  the queue has seen.
\<close>

theorem abort_cancels_everything:
  assumes "bq_reachable s" and "\<not> bq_aborted (sys_queue s)" and "code \<noteq> 0"
  defines "q \<equiv> sys_queue s"
  shows "\<exists>q'. Abort code q = Inr (concat (map (\<lambda>cb. Callback_Call cb code 0)
              (set_callbacks (buffers q) (Queued q @ Waiting q))), q')
    \<and> Idle q' = Idle q @ Queued q @ Waiting q \<and> Queued q' = [] \<and> Waiting q' = []
    \<and> Completed q' = Completed q \<and> User q' = User q
    \<and> IsError (queueStatus q') \<and> (IsError (queueStatus q) \<longrightarrow> queueStatus q' = queueStatus q)
    \<and> fst (WaitForIdleBuffer_locked q') = Inl (RdmaException (queueStatus q'))
    \<and> fst (QueueBuffer_locked i ig q') = Inl (RdmaException (queueStatus q'))
    \<and> (\<forall>j rest. Completed q = j # rest \<longrightarrow> fst (WaitForCompletedBuffer_locked q') = Inr j)
    \<and> Abort code' q' = Inr ([], q')"
proof -
  have inv: "bq_inv q" using bq_reachable_inv [OF assms(1)] by (simp add: q_def)
  from Abort_spec [OF inv _ assms(3)] assms(2) obtain f w g q' where
    q': "q' = q\<lparr>bq_aborted := True, queueStatus := RDMA_SET_ERROR RdmaBufferQueue_cpp 48 (queueStatus q) code,
        queuedBuffers := f, buffersQueuedWaitingForCredits := w, idleBuffers := g,
        buffers := fold clear_callback (Queued q @ Waiting q) (buffers q)\<rparr>"
    and l: "fifo_list f = []" "fifo_list w = []" "fifo_list g = Idle q @ Queued q @ Waiting q"
    and run: "Abort code q = Inr (concat (map (\<lambda>cb. Callback_Call cb code 0)
          (set_callbacks (buffers q) (Queued q @ Waiting q))), q')" and inv': "bq_inv q'"
    by (auto simp: q_def)
  have err: "IsError (queueStatus q')" using q' assms(3) by (simp add: RDMA_SET_ERROR_error)
  have "fst (WaitForCompletedBuffer_locked q') = Inr j" if "Completed q = j # rest" for j rest
    using WaitForCompletedBuffer_spec(3) [OF inv', of j rest] q' that by auto
  moreover have "fst (WaitForIdleBuffer_locked q') = Inl (RdmaException (queueStatus q'))"
    "fst (QueueBuffer_locked i ig q') = Inl (RdmaException (queueStatus q'))"
    using WaitForIdleBuffer_spec(1) [OF inv' err] QueueBuffer_errors(1) [OF err] by simp_all
  moreover have "Abort code' q' = Inr ([], q')" using q' by (intro Abort_again) simp
  ultimately show ?thesis
    using run err l q' by (intro exI [of _ q']) (simp add: RDMA_SET_ERROR_first)
qed

theorem abort_cancels_everything_witness:
  "\<exists>q'. Abort easyrdma_Error_OperationCancelled (sys_queue demo_s3)
       = Inr ([CallbackCall 7 1 2 easyrdma_Error_OperationCancelled 0], q') \<and> Queued q' = []"
proof -
  have "\<not> bq_aborted (sys_queue demo_s3)" by code_simp
  moreover have "set_callbacks (buffers (sys_queue demo_s3))
      (Queued (sys_queue demo_s3) @ Waiting (sys_queue demo_s3)) = [demo_callback]" by code_simp
  moreover have "easyrdma_Error_OperationCancelled \<noteq> 0" by code_simp
  ultimately show ?thesis
    using abort_cancels_everything [OF demo_run_reachable(4)]
    by (fastforce simp: Callback_Call_def demo_callback_def)
qed

section \<open>Blocking calls\<close>

lemma timeout_code: "exn_code (bq_throw line easyrdma_Error_Timeout) = Some easyrdma_Error_Timeout"
  by (simp add: bq_throw_def RDMA_THROW_def RdmaError_of_def)

definition acquired :: "(exn, nat, RdmaBufferQueue) outcome \<Rightarrow> bool" where
  "acquired o' = (case o' of
       (Inr i, q') \<Rightarrow> i \<in> set (User q')
     | (Inl e, q') \<Rightarrow> exn_code e = Some easyrdma_Error_Timeout
                     \<or> IsError (queueStatus q') \<and> e = RdmaException (queueStatus q'))"

lemma acquired_timeout [simp]: "acquired (Inl (bq_throw line easyrdma_Error_Timeout), q)"
  by (simp add: acquired_def timeout_code)

lemma WaitForIdle_acquired:
  assumes "bq_inv q"
  shows "acquired (WaitForIdleBuffer_locked q) \<and> bq_inv (snd (WaitForIdleBuffer_locked q))"
proof (cases "IsError (queueStatus q) \<or> Idle q = []")
  case True
  with WaitForIdleBuffer_spec(1,2) [OF assms] assms show ?thesis
    by (cases "IsError (queueStatus q)") (auto simp: acquired_def timeout_code)
next
  case False
  then obtain i rest where "Idle q = i # rest" by (cases "Idle q") auto
  with WaitForIdleBuffer_spec(3) [OF assms] False show ?thesis by (fastforce simp: acquired_def)
qed

lemma WaitForCompleted_acquired:
  assumes "bq_inv q"
  shows "acquired (WaitForCompletedBuffer_locked q) \<and> bq_inv (snd (WaitForCompletedBuffer_locked q))"
proof (cases "Completed q")
  case Nil
  with WaitForCompletedBuffer_spec(1,2) [OF assms] assms show ?thesis
    by (cases "IsError (queueStatus q)") (auto simp: acquired_def timeout_code)
next
  case (Cons i rest)
  with WaitForCompletedBuffer_spec(3) [OF assms Cons] show ?thesis by (fastforce simp: acquired_def)
qed

text \<open>
  Whatever the other threads do during the wait (as long as they are operations of the queue,
  which keep its invariant), a blocking acquisition ends in one of three ways: it hands over a
  buffer that then belongs to the user, it reports a timeout, or it throws the stored error of the
  queue; the ownership invariant holds afterwards.  A receive that could never complete because
  nothing is queued is refused at once, and so is one on a queue that recycles its buffers.
\<close>

theorem wait_outcomes:
  assumes "bq_inv q" and "\<forall>q. bq_inv q \<longrightarrow> bq_inv (snd (wait q))" and "\<not> bq_usePolling q"
  shows "acquired (WaitForIdleBuffer wait timeoutMs q) \<and> bq_inv (snd (WaitForIdleBuffer wait timeoutMs q))
    \<and> (if putBackToIdleOnCompletion q
       then WaitForCompletedBuffer wait poll timeoutMs q = (Inl (bq_throw 105 easyrdma_Error_InvalidOperation), q)
       else if Completed q = [] \<and> Queued q = [] \<and> Waiting q = [] \<and> \<not> IsError (queueStatus q)
       then WaitForCompletedBuffer wait poll timeoutMs q = (Inl (bq_throw 109 easyrdma_Error_NoBuffersQueued), q)
       else acquired (WaitForCompletedBuffer wait poll timeoutMs q)
          \<and> bq_inv (snd (WaitForCompletedBuffer wait poll timeoutMs q)))"
proof -
  note r = inv_rings [OF assms(1)]
  obtain to q1 where w: "wait q = (to, q1)" by (cases "wait q")
  with assms(1,2) have q1: "bq_inv q1" by (metis snd_conv)
  show ?thesis
    using r w q1 assms(1,3) WaitForIdle_acquired [of q] WaitForIdle_acquired [of q1]
      WaitForCompleted_acquired [of q] WaitForCompleted_acquired [of q1]
    by (auto simp: WaitForIdleBuffer_def WaitForCompletedBuffer_def)
qed

theorem wait_outcomes_witness:
  "bq_inv (demo_queue Receive) \<and> acquired (WaitForIdleBuffer (\<lambda>q. (True, q)) 5 (demo_queue Receive))
   \<and> WaitForCompletedBuffer (\<lambda>q. (True, q)) (\<lambda>_ q. (Inr (), q)) 5 (demo_queue Receive)
      = (Inl (bq_throw 109 easyrdma_Error_NoBuffersQueued), demo_queue Receive)"
proof -
  note inv = MultipleBuffer_new_inv [OF demo_new(2)]
  have "\<not> bq_usePolling (demo_queue Receive)" by code_simp
  with inv wait_outcomes [of "demo_queue Receive" "\<lambda>q. (True, q)" 5] show ?thesis
    by (auto simp: IsError_def RdmaError_new_def)
qed

section \<open>Two flaws\<close>

text \<open>
  The waits are not in loops that test their condition again.  An acquisition with an infinite
  timeout that wakes up spuriously, or whose buffer another woken thread has taken first, throws a
  timeout error instead of waiting on.
\<close>

theorem infinite_wait_can_time_out:
  assumes "bq_inv q" and "\<not> IsError (queueStatus q)"
  shows "(Idle q = [] \<longrightarrow>
           WaitForIdleBuffer (\<lambda>q. (False, q)) (-1) q = (Inl (bq_throw 93 easyrdma_Error_Timeout), q))
    \<and> (Completed q = [] \<and> \<not> putBackToIdleOnCompletion q \<and> \<not> bq_usePolling q \<and> (Queued q \<noteq> [] \<or> Waiting q \<noteq> []) \<longrightarrow>
           WaitForCompletedBuffer (\<lambda>q. (False, q)) poll (-1) q = (Inl (bq_throw 133 easyrdma_Error_Timeout), q))"
  using assms inv_rings [OF assms(1)] WaitForIdleBuffer_spec(2) [OF assms]
    WaitForCompletedBuffer_spec(2) [OF assms]
  by (auto simp: WaitForIdleBuffer_def WaitForCompletedBuffer_def)

theorem infinite_wait_can_time_out_witness:
  "WaitForCompletedBuffer (\<lambda>q. (False, q)) (\<lambda>_ q. (Inr (), q)) (-1) (sys_queue demo_s3)
     = (Inl (bq_throw 133 easyrdma_Error_Timeout), sys_queue demo_s3)"
proof -
  have inv: "bq_inv (sys_queue demo_s3)" using bq_reachable_inv [OF demo_run_reachable(4)] by simp
  have "\<not> IsError (queueStatus (sys_queue demo_s3))" "Completed (sys_queue demo_s3) = []"
    "\<not> putBackToIdleOnCompletion (sys_queue demo_s3)" "\<not> bq_usePolling (sys_queue demo_s3)"
    "Queued (sys_queue demo_s3) \<noteq> []" by code_simp+
  with infinite_wait_can_time_out [OF inv] show ?thesis by simp
qed





end
