(* ===== verification/CreditFlow.thy ===== *)
theory CreditFlow
  imports BufferQueueSystem
begin

text \<open>
  End-to-end flow control.  The receiver posts a receive buffer and then announces its length to
  the sender as a credit (\<open>QueueRecvBuffer\<close>, \<open>SendCreditUpdate\<close>); the sender posts a message only
  against a credit, in the order of the credits (\<open>QueueBuffer\<close>, \<open>AddCredit\<close>).  The reliable
  connection delivers messages and credits in order and fills posted buffers in order.

  The locale \<open>credit_flow\<close> states what a sender has to promise; the theorem that every message
  fits the buffer it is delivered into is proved from these promises, and the interpretation
  \<open>rdma\<close> discharges them for the buffer queue.
\<close>

section \<open>The two ends and the connection\<close>

datatype send_event = Credit u64 "u64 option" | PostSend u64 | SenderInternal
datatype recv_event = PostRecv u64 | ReceiverInternal

text \<open>
  \<open>fl_messages\<close> are the sizes of the messages on their way, \<open>fl_posted\<close> the lengths of the receive
  buffers posted and not yet filled, \<open>fl_owed\<close> the lengths posted but not yet announced, and
  \<open>fl_wire\<close> the credits on their way.
\<close>

record ('s, 'r) flow =
  fl_sender :: 's
  fl_receiver :: 'r
  fl_messages :: "u64 list"
  fl_posted :: "u64 list"
  fl_owed :: "u64 list"
  fl_wire :: "u64 list"

definition message_of :: "u64 option \<Rightarrow> u64 list" where
  "message_of m = (case m of None \<Rightarrow> [] | Some n \<Rightarrow> [n])"

inductive flow_step ::
  "('s \<Rightarrow> send_event \<Rightarrow> 's \<Rightarrow> bool) \<Rightarrow> ('r \<Rightarrow> recv_event \<Rightarrow> 'r \<Rightarrow> bool) \<Rightarrow> ('s, 'r) flow \<Rightarrow> ('s, 'r) flow \<Rightarrow> bool"
  for send recv where
  flow_send: "send (fl_sender f) (PostSend n) s' \<Longrightarrow>
     flow_step send recv f (f\<lparr>fl_sender := s', fl_messages := fl_messages f @ [n]\<rparr>)"
| flow_credit: "fl_wire f = c # cs \<Longrightarrow> send (fl_sender f) (Credit c m) s' \<Longrightarrow>
     flow_step send recv f (f\<lparr>fl_sender := s', fl_wire := cs, fl_messages := fl_messages f @ message_of m\<rparr>)"
| flow_sender: "send (fl_sender f) SenderInternal s' \<Longrightarrow> flow_step send recv f (f\<lparr>fl_sender := s'\<rparr>)"
| flow_recv: "recv (fl_receiver f) (PostRecv n) r' \<Longrightarrow>
     flow_step send recv f (f\<lparr>fl_receiver := r', fl_posted := fl_posted f @ [n], fl_owed := fl_owed f @ [n]\<rparr>)"
| flow_receiver: "recv (fl_receiver f) ReceiverInternal r' \<Longrightarrow> flow_step send recv f (f\<lparr>fl_receiver := r'\<rparr>)"
| flow_announce: "fl_owed f = now @ later \<Longrightarrow>
     flow_step send recv f (f\<lparr>fl_owed := later, fl_wire := fl_wire f @ now\<rparr>)"
| flow_deliver: "fl_messages f = n # ns \<Longrightarrow> fl_posted f = l # ls \<Longrightarrow>
     flow_step send recv f (f\<lparr>fl_messages := ns, fl_posted := ls\<rparr>)"

inductive flow_reachable ::
  "('s \<Rightarrow> send_event \<Rightarrow> 's \<Rightarrow> bool) \<Rightarrow> ('r \<Rightarrow> recv_event \<Rightarrow> 'r \<Rightarrow> bool) \<Rightarrow> 's \<Rightarrow> 'r \<Rightarrow> ('s, 'r) flow \<Rightarrow> bool"
  for send recv s r where
  flow_init: "flow_reachable send recv s r
     \<lparr>fl_sender = s, fl_receiver = r, fl_messages = [], fl_posted = [], fl_owed = [], fl_wire = []\<rparr>"
| flow_next: "flow_reachable send recv s r f \<Longrightarrow> flow_step send recv f f' \<Longrightarrow> flow_reachable send recv s r f'"

text \<open>Every message on its way has its own posted buffer, in order, and fits into it.\<close>

definition messages_fit :: "('s, 'r) flow \<Rightarrow> bool" where
  "messages_fit f \<longleftrightarrow> length (fl_messages f) \<le> length (fl_posted f)
     \<and> list_all2 (\<le>) (fl_messages f) (take (length (fl_messages f)) (fl_posted f))"

section \<open>What a sender promises\<close>

locale credit_flow =
  fixes inv :: "'s \<Rightarrow> bool"
    and credits :: "'s \<Rightarrow> u64 list"
    and send :: "'s \<Rightarrow> send_event \<Rightarrow> 's \<Rightarrow> bool"
  assumes send_inv: "inv s \<Longrightarrow> send s ev s' \<Longrightarrow> inv s'"
    and post_takes_credit: "inv s \<Longrightarrow> send s (PostSend n) s' \<Longrightarrow> \<exists>c. credits s = c # credits s' \<and> n \<le> c"
    and credit_kept: "inv s \<Longrightarrow> send s (Credit c None) s' \<Longrightarrow> credits s' = credits s @ [c]"
    and credit_used: "inv s \<Longrightarrow> send s (Credit c (Some n)) s' \<Longrightarrow>
          \<exists>x. credits s @ [c] = x # credits s' \<and> n \<le> x"
    and internal_keeps: "inv s \<Longrightarrow> send s SenderInternal s' \<Longrightarrow> credits s' = credits s"
begin

text \<open>
  The posted buffers are, in order: those reserved for the messages on their way, those whose
  credits the sender holds, those whose credits are on their way, and those not yet announced.
\<close>

definition accounted :: "('s, 'r) flow \<Rightarrow> bool" where
  "accounted f \<longleftrightarrow> inv (fl_sender f) \<and>
     (\<exists>reserved. fl_posted f = reserved @ credits (fl_sender f) @ fl_wire f @ fl_owed f
        \<and> list_all2 (\<le>) (fl_messages f) reserved)"

lemma accounted_step:
  assumes "flow_step send recv f f'" and "accounted f"
  shows "accounted f'"
  using assms
proof (induction rule: flow_step.induct)
  case (flow_send f n s')
  then obtain reserved c where inv: "inv (fl_sender f)"
    and a: "fl_posted f = reserved @ credits (fl_sender f) @ fl_wire f @ fl_owed f"
      "list_all2 (\<le>) (fl_messages f) reserved" and c: "credits (fl_sender f) = c # credits s'" "n \<le> c"
    using post_takes_credit by (fastforce simp: accounted_def)
  moreover have "list_all2 (\<le>) (fl_messages f @ [n]) (reserved @ [c])"
    using a(2) c(2) by (simp add: list_all2_appendI)
  ultimately show ?case
    using send_inv flow_send.hyps by (fastforce simp: accounted_def intro: exI [of _ "reserved @ [c]"])
next
  case (flow_credit f c cs m s')
  then obtain reserved where inv: "inv (fl_sender f)"
    and a: "fl_posted f = reserved @ credits (fl_sender f) @ fl_wire f @ fl_owed f"
      "list_all2 (\<le>) (fl_messages f) reserved" by (auto simp: accounted_def)
  have inv': "inv s'" using send_inv inv flow_credit.hyps(2) by blast
  show ?case
  proof (cases m)
    case None
    with flow_credit inv a inv' credit_kept [of "fl_sender f" c s'] show ?thesis
      by (auto simp: accounted_def message_of_def)
  next
    case (Some n)
    with credit_used inv flow_credit.hyps(2) obtain x where
      x: "credits (fl_sender f) @ [c] = x # credits s'" "n \<le> x" by blast
    have "fl_posted f = reserved @ (credits (fl_sender f) @ [c]) @ cs @ fl_owed f"
      using a(1) flow_credit.hyps(1) by simp
    then have "fl_posted f = (reserved @ [x]) @ credits s' @ cs @ fl_owed f" by (simp only: x) simp
    moreover have "list_all2 (\<le>) (fl_messages f @ [n]) (reserved @ [x])"
      using a(2) x(2) by (simp add: list_all2_appendI)
    ultimately show ?thesis using Some inv' by (auto simp: accounted_def message_of_def)
  qed
next
  case (flow_sender f s')
  then show ?case using internal_keeps send_inv by (auto simp: accounted_def)
next
  case (flow_deliver f n ns l ls)
  then obtain reserved where "fl_posted f = reserved @ credits (fl_sender f) @ fl_wire f @ fl_owed f"
      "list_all2 (\<le>) (fl_messages f) reserved" and inv: "inv (fl_sender f)" by (auto simp: accounted_def)
  with flow_deliver.hyps obtain reserved' where "reserved = l # reserved'"
    "ls = reserved' @ credits (fl_sender f) @ fl_wire f @ fl_owed f" "list_all2 (\<le>) ns reserved'"
    by (cases reserved) auto
  with inv show ?case by (auto simp: accounted_def)
qed (auto simp: accounted_def)

lemma flow_accounted:
  assumes "flow_reachable send recv s r f" and "inv s" and "credits s = []"
  shows "accounted f"
  using assms
proof (induction rule: flow_reachable.induct)
  case flow_init
  then show ?case by (simp add: accounted_def)
next
  case (flow_next f f')
  then show ?case using accounted_step by blast
qed

lemma fit:
  assumes "flow_reachable send recv s r f" and "inv s" and "credits s = []"
  shows "messages_fit f"
proof -
  from flow_accounted [OF assms] obtain reserved where
    "fl_posted f = reserved @ credits (fl_sender f) @ fl_wire f @ fl_owed f"
    and fits: "list_all2 (\<le>) (fl_messages f) reserved" by (auto simp: accounted_def)
  moreover from fits have "length (fl_messages f) = length reserved" by (rule list_all2_lengthD)
  ultimately show ?thesis by (simp add: messages_fit_def)
qed

text \<open>No credit is invented: credits held and on their way never exceed the buffers posted.\<close>

lemma credits_backed:
  assumes "flow_reachable send recv s r f" and "inv s" and "credits s = []"
  shows "length (fl_messages f) + length (credits (fl_sender f)) + length (fl_wire f) + length (fl_owed f)
     = length (fl_posted f)"
  using flow_accounted [OF assms] by (auto simp: accounted_def dest: list_all2_lengthD)

end

section \<open>The buffer queue as a sender and as a receiver\<close>

text \<open>
  A message counts from the moment its credit is taken: the posting that follows the critical
  section is the next one on the queue pair.
\<close>

inductive queue_internal :: "RdmaBufferQueue \<Rightarrow> RdmaBufferQueue \<Rightarrow> bool" where
  qi_idle: "WaitForIdleBuffer_locked q = (r, q') \<Longrightarrow> queue_internal q q'"
| qi_completed: "WaitForCompletedBuffer_locked q = (r, q') \<Longrightarrow> queue_internal q q'"
| qi_used: "i \<in> set (User q) \<Longrightarrow> SetUsed sz (buffers q ! i) = Inr b \<Longrightarrow> queue_internal q (update_buffer i b q)"
| qi_region: "i \<in> set (User q) \<Longrightarrow> queue_internal q (update_buffer i (SetBufferRegion p sz (buffers q ! i)) q)"
| qi_callback: "i \<in> set (User q) \<Longrightarrow> queue_internal q (update_buffer i (SetCompletionCallback cb (buffers q ! i)) q)"
| qi_release: "ReleaseBuffer i q = (r, q') \<Longrightarrow> queue_internal q q'"
| qi_failed: "IsError e \<Longrightarrow> queue_internal q (AddCredit_catch (RdmaException e) q)"
| qi_complete: "bq_aborted q \<or> (\<exists>rest. Queued q = i # rest) \<Longrightarrow>
     RdmaBuffer_HandleCompletion i status n q = (r, q') \<Longrightarrow> queue_internal q q'"
| qi_abort: "code \<noteq> 0 \<Longrightarrow> Abort code q = Inr (calls, q') \<Longrightarrow> queue_internal q q'"

inductive queue_send :: "RdmaBufferQueue \<Rightarrow> send_event \<Rightarrow> RdmaBufferQueue \<Rightarrow> bool" where
  qs_posted: "QueueBuffer_locked i IgnoreCredits_No q = (Inr True, q') \<Longrightarrow>
     queue_send q (PostSend (usedBytes (buffers q ! i))) q'"
| qs_waits: "QueueBuffer_locked i IgnoreCredits_No q = (Inr False, q') \<Longrightarrow> queue_send q SenderInternal q'"
| qs_refused: "QueueBuffer_locked i IgnoreCredits_No q = (Inl e, q') \<Longrightarrow> queue_send q SenderInternal q'"
| qs_credit_used: "AddCredit_locked c q = (Inr (Some i), q') \<Longrightarrow>
     queue_send q (Credit c (Some (usedBytes (buffers q ! i)))) q'"
| qs_credit_kept: "AddCredit_locked c q = (Inr None, q') \<Longrightarrow> queue_send q (Credit c None) q'"
| qs_credit_failed: "AddCredit_locked c q = (Inl e, q') \<Longrightarrow> queue_send q (Credit c None) q'"
| qs_internal: "queue_internal q q' \<Longrightarrow> queue_send q SenderInternal q'"

inductive queue_recv :: "RdmaBufferQueue \<Rightarrow> recv_event \<Rightarrow> RdmaBufferQueue \<Rightarrow> bool" where
  qr_posted: "QueueBuffer_locked i IgnoreCredits_No q = (Inr True, q') \<Longrightarrow>
     queue_recv q (PostRecv (bufferSize (buffers q ! i))) q'"
| qr_refused: "QueueBuffer_locked i IgnoreCredits_No q = (Inl e, q') \<Longrightarrow> queue_recv q ReceiverInternal q'"
| qr_internal: "queue_internal q q' \<Longrightarrow> queue_recv q ReceiverInternal q'"

inductive_cases queue_send_postE: "queue_send q (PostSend n) q'"
inductive_cases queue_send_keptE: "queue_send q (Credit c None) q'"
inductive_cases queue_send_usedE: "queue_send q (Credit c (Some n)) q'"
inductive_cases queue_send_internalE: "queue_send q SenderInternal q'"

section \<open>The buffer queue keeps the promises\<close>

text \<open>The parts of the state that the operations other than queueing and crediting leave alone.\<close>

definition same_credit_state :: "RdmaBufferQueue \<Rightarrow> RdmaBufferQueue \<Rightarrow> bool" where
  "same_credit_state q q' \<longleftrightarrow> availableCredits q' = availableCredits q \<and> bq_direction q' = bq_direction q"

lemma lift_update_same:
  assumes "\<And>q'. r = Inr q' \<Longrightarrow> same_credit_state q q'"
  shows "same_credit_state q (snd (lift_update r a q))"
  using assms by (cases r) (simp_all add: lift_update_def same_credit_state_def)

lemma complete_same: "same_credit_state q (snd (RdmaBuffer_HandleCompletion i st n q))"
  by (auto simp: RdmaBuffer_HandleCompletion_def HandleCompletion_def HandleCompletion_locked_def Let_def
      GetAndClearCallbackData_def bind_out_def bind_res_def lift_update_def same_credit_state_def
      split: sum.splits if_splits prod.splits)

lemma take_idle_same: "same_credit_state q (snd (WaitForIdleBuffer_locked q))"
  by (auto simp: WaitForIdleBuffer_locked_def link_user_def lift_update_def bind_res_def cpp_assert_def
      same_credit_state_def split: sum.splits if_splits)

lemma take_completed_same: "same_credit_state q (snd (WaitForCompletedBuffer_locked q))"
  by (auto simp: WaitForCompletedBuffer_locked_def link_user_def lift_update_def bind_res_def cpp_assert_def
      same_credit_state_def split: sum.splits if_splits)

lemma release_same: "same_credit_state q (snd (ReleaseBuffer i q))"
  by (auto simp: ReleaseBuffer_def lift_update_def bind_res_def same_credit_state_def split: sum.splits)

lemma abort_same: "Abort code q = Inr (calls, q') \<Longrightarrow> same_credit_state q q'"
  by (auto simp: Abort_def Abort_locked_def bind_res_eq_Inr Let_def same_credit_state_def split: if_splits)

lemma internal_inv:
  assumes "queue_internal q q'" and "bq_inv q"
  shows "bq_inv q' \<and> same_credit_state q q'"
  using assms
proof (induction rule: queue_internal.induct)
  case (qi_idle q r q')
  then show ?case using take_idle_inv [of q r q'] take_idle_same [of q] by simp
next
  case (qi_completed q r q')
  then show ?case using take_completed_inv [of q r q'] take_completed_same [of q] by simp
next
  case (qi_release i q r q')
  then show ?case using release_inv [of q i r q'] release_same [of q i] by simp
next
  case (qi_complete q i status n r q')
  then show ?case using complete_inv [of q i status n r q'] complete_same [of q i status n] by simp
next
  case (qi_abort code q calls q')
  then show ?case using abort_inv [of q code calls q'] abort_same [of code q calls q'] by simp
next
  case (qi_failed e q)
  then show ?case by (auto simp: same_credit_state_def intro: bq_inv_status)
qed (simp_all add: same_credit_state_def update_buffer_def bq_inv_buffers)

definition sender_inv :: "RdmaBufferQueue \<Rightarrow> bool" where
  "sender_inv q \<longleftrightarrow> bq_inv q \<and> bq_direction q = Send"

lemma queue_locked_cases:
  assumes "bq_inv q" and "bq_direction q = Send" and "QueueBuffer_locked i IgnoreCredits_No q = (r, q')"
  shows "bq_inv q' \<and> bq_direction q' = Send
    \<and> (r = Inr True \<longrightarrow> (\<exists>c. availableCredits q = c # availableCredits q' \<and> usedBytes (buffers q ! i) \<le> c))
    \<and> (r \<noteq> Inr True \<longrightarrow> availableCredits q' = availableCredits q)"
proof (cases "IsError (queueStatus q) \<or> i \<notin> set (User q)")
  case True
  with QueueBuffer_errors [of q i IgnoreCredits_No] assms show ?thesis
    by (cases "IsError (queueStatus q)") auto
next
  case False
  then have ok: "\<not> IsError (queueStatus q)" "i \<in> set (User q)" by auto
  have inv': "bq_inv q'" using queue_inv [OF assms(1,3)] by blast
  show ?thesis
  proof (cases "availableCredits q")
    case Nil
    from QueueBuffer_no_credit [OF assms(1) ok assms(2) Nil] assms(2,3) Nil inv' show ?thesis by auto
  next
    case (Cons c cs)
    note spec = QueueBuffer_credit [OF assms(1) ok assms(2) Cons]
    show ?thesis
    proof (cases "usedBytes (buffers q ! i) > c")
      case True
      with spec(1) assms(2,3) inv' show ?thesis by auto
    next
      case False
      with spec(2) assms(2,3) Cons inv' show ?thesis by (auto simp: not_less)
    qed
  qed
qed

lemma credit_locked_cases:
  assumes "bq_inv q" and "AddCredit_locked c q = (r, q')"
  shows "bq_inv q' \<and> bq_direction q' = bq_direction q
    \<and> (\<forall>i. r = Inr (Some i) \<longrightarrow>
         (\<exists>x. availableCredits q @ [c] = x # availableCredits q' \<and> usedBytes (buffers q ! i) \<le> x))
    \<and> ((\<forall>i. r \<noteq> Inr (Some i)) \<longrightarrow> availableCredits q' = availableCredits q @ [c])"
proof (cases "Waiting q")
  case Nil
  with AddCredit_none [OF assms(1) Nil] assms(2) show ?thesis by auto
next
  case (Cons j rest)
  note spec = AddCredit_some [OF assms(1) Cons, of c]
  show ?thesis
  proof (cases "usedBytes (buffers q ! j) > hd (availableCredits q @ [c])")
    case True
    with spec(1) assms(2) show ?thesis by auto
  next
    case False
    then have fits: "usedBytes (buffers q ! j) \<le> hd (availableCredits q @ [c])" by (simp add: not_less)
    obtain x xs where x: "availableCredits q @ [c] = x # xs" by (cases "availableCredits q @ [c]") auto
    from spec(2) [OF fits] assms(2) fits show ?thesis by (auto simp: x)
  qed
qed

lemma queue_send_inv: "queue_send q ev q' \<Longrightarrow> sender_inv q \<Longrightarrow> sender_inv q'"
proof (induction rule: queue_send.induct)
  case (qs_posted i q q')
  then show ?case using queue_locked_cases [of q i] by (auto simp: sender_inv_def)
next
  case (qs_waits i q q')
  then show ?case using queue_locked_cases [of q i] by (auto simp: sender_inv_def)
next
  case (qs_refused i q e q')
  then show ?case using queue_locked_cases [of q i] by (auto simp: sender_inv_def)
next
  case (qs_internal q q')
  then show ?case using internal_inv [of q q'] by (auto simp: sender_inv_def same_credit_state_def)
qed (use credit_locked_cases in \<open>auto simp: sender_inv_def\<close>)

interpretation rdma: credit_flow sender_inv availableCredits queue_send
proof
  fix s ev s'
  show "sender_inv s \<Longrightarrow> queue_send s ev s' \<Longrightarrow> sender_inv s'" by (rule queue_send_inv)
next
  fix s n s'
  assume "sender_inv s" and "queue_send s (PostSend n) s'"
  then show "\<exists>c. availableCredits s = c # availableCredits s' \<and> n \<le> c"
    by (elim queue_send_postE) (auto simp: sender_inv_def dest: queue_locked_cases)
next
  fix s c s'
  assume "sender_inv s" and "queue_send s (Credit c None) s'"
  then show "availableCredits s' = availableCredits s @ [c]"
    by (elim queue_send_keptE) (auto simp: sender_inv_def dest: credit_locked_cases)
next
  fix s c n s'
  assume "sender_inv s" and "queue_send s (Credit c (Some n)) s'"
  then show "\<exists>x. availableCredits s @ [c] = x # availableCredits s' \<and> n \<le> x"
    by (elim queue_send_usedE) (auto simp: sender_inv_def dest: credit_locked_cases)
next
  fix s s'
  assume "sender_inv s" and "queue_send s SenderInternal s'"
  then show "availableCredits s' = availableCredits s"
    by (elim queue_send_internalE)
       (auto simp: sender_inv_def same_credit_state_def dest: queue_locked_cases internal_inv)
qed

end
