(* ===== verification/FlowTheorems.thy ===== *)
theory FlowTheorems
  imports CreditFlow BufferQueueTheorems
begin

text \<open>
  The guarantees of the transfer path: a message always fits the receive buffer it is delivered
  into, and messages are posted in the order in which the user queued them although two threads
  post them.
\<close>

section \<open>Flow control\<close>

definition demo_r1 :: RdmaBufferQueue where "demo_r1 = snd (WaitForIdleBuffer_locked (demo_queue Receive))"
definition demo_r2 :: RdmaBufferQueue where "demo_r2 = snd (QueueBuffer_locked 0 IgnoreCredits_No demo_r1)"
definition demo_t1 :: RdmaBufferQueue where "demo_t1 = snd (WaitForIdleBuffer_locked (demo_queue Send))"
definition demo_t2 :: RdmaBufferQueue where
  "demo_t2 = update_buffer 0 (projr (SetUsed 8 (buffers demo_t1 ! 0))) demo_t1"
definition demo_t3 :: RdmaBufferQueue where "demo_t3 = snd (AddCredit_locked 16 demo_t2)"
definition demo_t4 :: RdmaBufferQueue where "demo_t4 = snd (QueueBuffer_locked 0 IgnoreCredits_No demo_t3)"

definition demo_flow :: "(RdmaBufferQueue, RdmaBufferQueue) flow" where
  "demo_flow = \<lparr>fl_sender = demo_t4, fl_receiver = demo_r2, fl_messages = [8], fl_posted = [16], fl_owed = [], fl_wire = []\<rparr>"

lemma demo_flow_steps:
  "QueueBuffer_locked 0 IgnoreCredits_No demo_r1 = (Inr True, demo_r2)" "bufferSize (buffers demo_r1 ! 0) = 16"
  "0 \<in> set (User demo_t1)" "SetUsed 8 (buffers demo_t1 ! 0) = Inr (projr (SetUsed 8 (buffers demo_t1 ! 0)))"
  "AddCredit_locked 16 demo_t2 = (Inr None, demo_t3)"
  "QueueBuffer_locked 0 IgnoreCredits_No demo_t3 = (Inr True, demo_t4)" "usedBytes (buffers demo_t3 ! 0) = 8"
  by code_simp+

lemma demo_flow_reachable:
  "flow_reachable queue_send queue_recv (demo_queue Send) (demo_queue Receive) demo_flow"
proof -
  let ?R = "flow_reachable queue_send queue_recv (demo_queue Send) (demo_queue Receive)"
  let ?f = "\<lambda>s r ms ps os ws. \<lparr>fl_sender = s, fl_receiver = r, fl_messages = ms, fl_posted = ps, fl_owed = os, fl_wire = ws\<rparr>"
  let ?q = "demo_queue Send"
  have "?R (?f ?q (demo_queue Receive) [] [] [] [])" by (rule flow_init)
  moreover have "flow_step queue_send queue_recv (?f ?q (demo_queue Receive) [] [] [] []) (?f ?q demo_r1 [] [] [] [])"
    using flow_receiver [of queue_recv "?f ?q (demo_queue Receive) [] [] [] []" demo_r1 queue_send]
      qr_internal [OF qi_idle [OF surjective_pairing]] by (simp add: demo_r1_def)
  ultimately have "?R (?f ?q demo_r1 [] [] [] [])" by (rule flow_next)
  moreover have "flow_step queue_send queue_recv (?f ?q demo_r1 [] [] [] []) (?f ?q demo_r2 [] [16] [16] [])"
    using flow_recv [of queue_recv "?f ?q demo_r1 [] [] [] []" 16 demo_r2 queue_send]
      qr_posted [OF demo_flow_steps(1)] demo_flow_steps(2) by simp
  ultimately have "?R (?f ?q demo_r2 [] [16] [16] [])" by (rule flow_next)
  moreover have "flow_step queue_send queue_recv (?f ?q demo_r2 [] [16] [16] []) (?f ?q demo_r2 [] [16] [] [16])"
    using flow_announce [of "?f ?q demo_r2 [] [16] [16] []" "[16]" "[]" queue_send queue_recv] by simp
  ultimately have "?R (?f ?q demo_r2 [] [16] [] [16])" by (rule flow_next)
  moreover have "flow_step queue_send queue_recv (?f ?q demo_r2 [] [16] [] [16]) (?f demo_t1 demo_r2 [] [16] [] [16])"
    using flow_sender [of queue_send "?f ?q demo_r2 [] [16] [] [16]" demo_t1 queue_recv]
      qs_internal [OF qi_idle [OF surjective_pairing]] by (simp add: demo_t1_def)
  ultimately have "?R (?f demo_t1 demo_r2 [] [16] [] [16])" by (rule flow_next)
  moreover have "flow_step queue_send queue_recv (?f demo_t1 demo_r2 [] [16] [] [16]) (?f demo_t2 demo_r2 [] [16] [] [16])"
    using flow_sender [of queue_send "?f demo_t1 demo_r2 [] [16] [] [16]" demo_t2 queue_recv]
      qs_internal [OF qi_used [OF demo_flow_steps(3,4)]] by (simp add: demo_t2_def)
  ultimately have "?R (?f demo_t2 demo_r2 [] [16] [] [16])" by (rule flow_next)
  moreover have "flow_step queue_send queue_recv (?f demo_t2 demo_r2 [] [16] [] [16]) (?f demo_t3 demo_r2 [] [16] [] [])"
    using flow_credit [of "?f demo_t2 demo_r2 [] [16] [] [16]" 16 "[]" queue_send None demo_t3 queue_recv]
      qs_credit_kept [OF demo_flow_steps(5)] by (simp add: message_of_def)
  ultimately have "?R (?f demo_t3 demo_r2 [] [16] [] [])" by (rule flow_next)
  moreover have "flow_step queue_send queue_recv (?f demo_t3 demo_r2 [] [16] [] []) (?f demo_t4 demo_r2 [8] [16] [] [])"
    using flow_send [of queue_send "?f demo_t3 demo_r2 [] [16] [] []" 8 demo_t4 queue_recv]
      qs_posted [OF demo_flow_steps(6)] demo_flow_steps(7) by simp
  ultimately show ?thesis unfolding demo_flow_def by (rule flow_next)
qed

text \<open>
  C1.  End-to-end flow control.  Start a session with a sending queue of either kind at one end and
  any receiving queue at the other.  Whatever the users, the completion handlers, the credit
  handler and the network do, in every reachable state each message on its way has its own posted
  receive buffer, in order, and is not larger than it; so the adapter never drops a message for
  want of a buffer and never reports a length error.  The credits held, on their way and owed
  account exactly for the remaining posted buffers.
\<close>

theorem messages_always_fit:
  assumes "RdmaBufferQueueMultipleBuffer_new memalign reg Send n sz polling = Inr s
      \<or> RdmaBufferQueueSingleBuffer_new reg Send ptr sz n polling = Inr s"
    and "flow_reachable queue_send queue_recv s r f"
  shows "length (fl_messages f) \<le> length (fl_posted f)
    \<and> list_all2 (\<le>) (fl_messages f) (take (length (fl_messages f)) (fl_posted f))
    \<and> length (fl_messages f) + length (availableCredits (fl_sender f)) + length (fl_wire f) + length (fl_owed f)
      = length (fl_posted f)"
proof -
  have "sender_inv s" "availableCredits s = []"
    using assms(1) MultipleBuffer_new_inv SingleBuffer_new_inv by (auto simp: sender_inv_def)
  from rdma.fit [OF assms(2) this] rdma.credits_backed [OF assms(2) this] show ?thesis
    by (simp add: messages_fit_def)
qed

theorem messages_always_fit_witness:
  "fl_messages demo_flow = [8] \<and> list_all2 (\<le>) (fl_messages demo_flow)
     (take (length (fl_messages demo_flow)) (fl_posted demo_flow))"
  using messages_always_fit [OF disjI1 [OF demo_new(1)] demo_flow_reachable]
  by (simp add: demo_flow_def)

section \<open>Order of posting\<close>

text \<open>
  The user's thread posts from \<open>QueueBuffer\<close> and the credit handler from \<open>AddCredit\<close>, both after
  they have left the critical section.  The state records the buffers in the order in which
  \<open>QueueBuffer\<close> accepted them, in which they entered \<open>queuedBuffers\<close>, and in which they were
  posted; \<open>ps_user\<close> and \<open>ps_ack\<close> are the posts that the two threads still have to make, and
  \<open>ps_failed\<close> says that the credit handler is leaving with an exception.
\<close>

record post_system =
  ps_queue :: RdmaBufferQueue
  ps_accepted :: "nat list"
  ps_entered :: "nat list"
  ps_posted :: "nat list"
  ps_user :: "nat option"
  ps_ack :: "nat option"
  ps_failed :: bool

definition olist :: "'a option \<Rightarrow> 'a list" where
  "olist x = (case x of None \<Rightarrow> [] | Some a \<Rightarrow> [a])"

lemma olist_simps [simp]: "olist None = []" "olist (Some a) = [a]"
  by (simp_all add: olist_def)

inductive post_step :: "post_system \<Rightarrow> post_system \<Rightarrow> bool" where
  ps_refuse: "ps_user s = None \<Longrightarrow> QueueBuffer_locked i IgnoreCredits_No (ps_queue s) = (Inl e, q') \<Longrightarrow>
     post_step s (s\<lparr>ps_queue := q'\<rparr>)"
| ps_wait: "ps_user s = None \<Longrightarrow> QueueBuffer_locked i IgnoreCredits_No (ps_queue s) = (Inr False, q') \<Longrightarrow>
     post_step s (s\<lparr>ps_queue := q', ps_accepted := ps_accepted s @ [i]\<rparr>)"
| ps_take: "ps_user s = None \<Longrightarrow> QueueBuffer_locked i IgnoreCredits_No (ps_queue s) = (Inr True, q') \<Longrightarrow>
     post_step s (s\<lparr>ps_queue := q', ps_accepted := ps_accepted s @ [i], ps_entered := ps_entered s @ [i], ps_user := Some i\<rparr>)"
| ps_user_post: "ps_user s = Some i \<Longrightarrow> post_step s (s\<lparr>ps_posted := ps_posted s @ [i], ps_user := None\<rparr>)"
| ps_credit: "ps_ack s = None \<Longrightarrow> \<not> ps_failed s \<Longrightarrow> AddCredit_locked c (ps_queue s) = (Inr m, q') \<Longrightarrow>
     post_step s (s\<lparr>ps_queue := q', ps_entered := ps_entered s @ olist m, ps_ack := m\<rparr>)"
| ps_credit_throws: "ps_ack s = None \<Longrightarrow> \<not> ps_failed s \<Longrightarrow> AddCredit_locked c (ps_queue s) = (Inl e, q') \<Longrightarrow>
     post_step s (s\<lparr>ps_queue := q', ps_failed := True\<rparr>)"
| ps_credit_catch: "ps_failed s \<Longrightarrow> IsError e \<Longrightarrow>
     post_step s (s\<lparr>ps_queue := AddCredit_catch (RdmaException e) (ps_queue s)\<rparr>)"
| ps_ack_post: "ps_ack s = Some i \<Longrightarrow> post_step s (s\<lparr>ps_posted := ps_posted s @ [i], ps_ack := None\<rparr>)"
| ps_other: "queue_internal (ps_queue s) q' \<Longrightarrow> post_step s (s\<lparr>ps_queue := q'\<rparr>)"

inductive post_reachable :: "RdmaBufferQueue \<Rightarrow> post_system \<Rightarrow> bool" for q where
  ps_init: "post_reachable q \<lparr>ps_queue = q, ps_accepted = [], ps_entered = [], ps_posted = [],
     ps_user = None, ps_ack = None, ps_failed = False\<rparr>"
| ps_next: "post_reachable q s \<Longrightarrow> post_step s s' \<Longrightarrow> post_reachable q s'"

definition post_inv :: "post_system \<Rightarrow> bool" where
  "post_inv s \<longleftrightarrow> sender_inv (ps_queue s)
     \<and> (Waiting (ps_queue s) \<noteq> [] \<and> \<not> ps_failed s \<longrightarrow> availableCredits (ps_queue s) = [])
     \<and> (ps_ack s \<noteq> None \<longrightarrow> availableCredits (ps_queue s) = [] \<and> \<not> ps_failed s \<and> ps_user s = None)
     \<and> (ps_user s \<noteq> None \<and> \<not> ps_failed s \<longrightarrow> Waiting (ps_queue s) = [])
     \<and> ps_entered s = ps_posted s @ olist (ps_user s) @ olist (ps_ack s)
     \<and> (\<not> ps_failed s \<and> \<not> bq_aborted (ps_queue s) \<longrightarrow> ps_accepted s = ps_entered s @ Waiting (ps_queue s))"

text \<open>How the critical sections move buffers between the user, the waiting queue and the posted queue.\<close>

lemma queue_moves:
  assumes "sender_inv q" and "QueueBuffer_locked i IgnoreCredits_No q = (r, q')"
  shows "sender_inv q' \<and> bq_aborted q' = bq_aborted q
    \<and> (case r of
         Inl _ \<Rightarrow> availableCredits q' = availableCredits q \<and> Waiting q' = Waiting q
       | Inr True \<Rightarrow> availableCredits q \<noteq> [] \<and> Waiting q' = Waiting q
       | Inr False \<Rightarrow> availableCredits q = [] \<and> availableCredits q' = [] \<and> Waiting q' = Waiting q @ [i])"
proof (cases "IsError (queueStatus q) \<or> i \<notin> set (User q)")
  case True
  with QueueBuffer_errors [of q i IgnoreCredits_No] assms show ?thesis
    by (cases "IsError (queueStatus q)") auto
next
  case False
  then have ok: "\<not> IsError (queueStatus q)" "i \<in> set (User q)" by auto
  from assms(1) have send: "bq_inv q" "bq_direction q = Send" by (auto simp: sender_inv_def)
  have inv': "bq_inv q'" using queue_inv [OF send(1) assms(2)] by blast
  show ?thesis
  proof (cases "availableCredits q")
    case Nil
    from QueueBuffer_no_credit [OF send(1) ok send(2) Nil] assms(2) Nil inv' send(2) show ?thesis
      by (auto simp: sender_inv_def)
  next
    case (Cons c cs)
    note spec = QueueBuffer_credit [OF send(1) ok send(2) Cons]
    show ?thesis
    proof (cases "usedBytes (buffers q ! i) > c")
      case True
      with spec(1) assms(2) inv' send(2) show ?thesis by (auto simp: sender_inv_def)
    next
      case False
      with spec(2) assms(2) Cons inv' send(2) show ?thesis by (auto simp: sender_inv_def not_less)
    qed
  qed
qed

lemma credit_moves:
  assumes "sender_inv q" and "AddCredit_locked c q = (r, q')"
  shows "sender_inv q' \<and> bq_aborted q' = bq_aborted q
    \<and> (case r of
         Inl _ \<Rightarrow> True
       | Inr None \<Rightarrow> Waiting q = [] \<and> Waiting q' = []
       | Inr (Some i) \<Rightarrow> Waiting q = i # Waiting q' \<and> (availableCredits q = [] \<longrightarrow> availableCredits q' = []))"
proof -
  from assms(1) have send: "bq_inv q" "bq_direction q = Send" by (auto simp: sender_inv_def)
  show ?thesis
  proof (cases "Waiting q")
    case Nil
    with AddCredit_none [OF send(1) Nil] assms(2) send show ?thesis by (auto simp: sender_inv_def)
  next
    case (Cons j rest)
    note spec = AddCredit_some [OF send(1) Cons, of c]
    show ?thesis
    proof (cases "usedBytes (buffers q ! j) > hd (availableCredits q @ [c])")
      case True
      with spec(1) assms(2) send show ?thesis by (auto simp: sender_inv_def)
    next
      case False
      with spec(2) assms(2) send Cons show ?thesis by (auto simp: sender_inv_def not_less)
    qed
  qed
qed

definition keeps_waiting :: "RdmaBufferQueue \<Rightarrow> RdmaBufferQueue \<Rightarrow> bool" where
  "keeps_waiting q q' \<longleftrightarrow>
     (Waiting q' = Waiting q \<and> bq_aborted q' = bq_aborted q) \<or> (Waiting q' = [] \<and> bq_aborted q')"

lemma waiting_ring_same:
  "buffersQueuedWaitingForCredits q' = buffersQueuedWaitingForCredits q \<Longrightarrow> bq_aborted q' = bq_aborted q
     \<Longrightarrow> keeps_waiting q q'"
  by (simp add: keeps_waiting_def)

lemma complete_keeps: "keeps_waiting q (snd (RdmaBuffer_HandleCompletion i st n q))"
  by (rule waiting_ring_same;
      auto simp: RdmaBuffer_HandleCompletion_def HandleCompletion_def HandleCompletion_locked_def Let_def
        GetAndClearCallbackData_def bind_out_def bind_res_def lift_update_def
        split: sum.splits if_splits prod.splits)

lemma take_idle_keeps: "keeps_waiting q (snd (WaitForIdleBuffer_locked q))"
  by (rule waiting_ring_same;
      auto simp: WaitForIdleBuffer_locked_def link_user_def lift_update_def bind_res_def cpp_assert_def
        split: sum.splits if_splits)

lemma take_completed_keeps: "keeps_waiting q (snd (WaitForCompletedBuffer_locked q))"
  by (rule waiting_ring_same;
      auto simp: WaitForCompletedBuffer_locked_def link_user_def lift_update_def bind_res_def cpp_assert_def
        split: sum.splits if_splits)

lemma release_keeps: "keeps_waiting q (snd (ReleaseBuffer i q))"
  by (rule waiting_ring_same;
      auto simp: ReleaseBuffer_def lift_update_def bind_res_def split: sum.splits)

lemma internal_keeps_waiting:
  assumes "queue_internal q q'" and "bq_inv q"
  shows "keeps_waiting q q'"
  using assms
proof (induction rule: queue_internal.induct)
  case (qi_idle q r q')
  then show ?case using take_idle_keeps [of q] by simp
next
  case (qi_completed q r q')
  then show ?case using take_completed_keeps [of q] by simp
next
  case (qi_release i q r q')
  then show ?case using release_keeps [of q i] by simp
next
  case (qi_complete q i status n r q')
  then show ?case using complete_keeps [of q i status n] by simp
next
  case (qi_abort code q calls q')
  with Abort_ok [of q code] show ?case by (auto simp: keeps_waiting_def)
qed (simp_all add: keeps_waiting_def update_buffer_def)

lemma internal_moves:
  assumes "queue_internal q q'" and "sender_inv q"
  shows "sender_inv q' \<and> availableCredits q' = availableCredits q \<and> keeps_waiting q q'"
  using internal_inv [OF assms(1)] internal_keeps_waiting [OF assms(1)] assms(2)
  by (auto simp: sender_inv_def same_credit_state_def)

lemma post_step_inv: "post_step s s' \<Longrightarrow> post_inv s \<Longrightarrow> post_inv s'"
proof (induction rule: post_step.induct)
  case (ps_refuse s i e q')
  then show ?case using queue_moves [of "ps_queue s" i "Inl e" q'] by (auto simp: post_inv_def)
next
  case (ps_wait s i q')
  then show ?case using queue_moves [of "ps_queue s" i "Inr False" q'] by (auto simp: post_inv_def)
next
  case (ps_take s i q')
  then show ?case using queue_moves [of "ps_queue s" i "Inr True" q'] by (auto simp: post_inv_def)
next
  case (ps_credit s c m q')
  then show ?case using credit_moves [of "ps_queue s" c "Inr m" q'] by (cases m) (auto simp: post_inv_def)
next
  case (ps_credit_throws s c e q')
  then show ?case using credit_moves [of "ps_queue s" c "Inl e" q'] by (auto simp: post_inv_def)
next
  case (ps_credit_catch s e)
  then show ?case by (auto simp: post_inv_def sender_inv_def intro: bq_inv_status)
next
  case (ps_other s q')
  then show ?case using internal_moves [of "ps_queue s" q'] by (auto simp: post_inv_def keeps_waiting_def)
qed (auto simp: post_inv_def)

lemma post_reachable_inv:
  assumes "post_reachable q s" and "sender_inv q" and "Waiting q = []"
  shows "post_inv s"
  using assms
proof (induction rule: post_reachable.induct)
  case ps_init
  then show ?case by (simp add: post_inv_def)
next
  case (ps_next s s')
  then show ?case using post_step_inv by blast
qed

text \<open>
  C8.  Buffers are posted in order.  Although the user's thread and the credit handler post outside
  the lock, the queue pair receives the buffers in exactly the order in which they entered
  \<open>queuedBuffers\<close> (at most one post is outstanding), which is what the in-order check of
  \<open>HandleCompletion\<close> relies on; and as long as no credit was too small and the queue is not
  aborted, this is the order in which the user queued them: nothing overtakes a buffer that waits
  for a credit.
\<close>

theorem posts_in_queue_order:
  assumes "RdmaBufferQueueMultipleBuffer_new memalign reg Send n sz polling = Inr q
      \<or> RdmaBufferQueueSingleBuffer_new reg Send ptr sz n polling = Inr q"
    and "post_reachable q s"
  shows "ps_entered s = ps_posted s @ olist (ps_user s) @ olist (ps_ack s)
    \<and> (ps_user s = None \<or> ps_ack s = None)
    \<and> (\<not> ps_failed s \<and> \<not> bq_aborted (ps_queue s) \<longrightarrow> ps_accepted s = ps_entered s @ Waiting (ps_queue s))"
proof -
  have "sender_inv q" "Waiting q = []"
    using assms(1) MultipleBuffer_new_inv SingleBuffer_new_inv by (auto simp: sender_inv_def)
  from post_reachable_inv [OF assms(2) this] show ?thesis by (auto simp: post_inv_def)
qed

text \<open>A run in which a credit is too small for the waiting buffer 0 while buffer 1 is queued.\<close>

definition demo_p1 :: RdmaBufferQueue where
  "demo_p1 = update_buffer 0 (projr (SetUsed 16 (buffers demo_t1 ! 0))) demo_t1"
definition demo_p2 :: RdmaBufferQueue where "demo_p2 = snd (WaitForIdleBuffer_locked demo_p1)"
definition demo_p3 :: RdmaBufferQueue where "demo_p3 = snd (QueueBuffer_locked 0 IgnoreCredits_No demo_p2)"
definition demo_p4 :: RdmaBufferQueue where "demo_p4 = snd (AddCredit_locked 8 demo_p3)"
definition demo_p5 :: RdmaBufferQueue where "demo_p5 = snd (QueueBuffer_locked 1 IgnoreCredits_No demo_p4)"

lemma demo_p_steps:
  "0 \<in> set (User demo_t1)" "SetUsed 16 (buffers demo_t1 ! 0) = Inr (projr (SetUsed 16 (buffers demo_t1 ! 0)))"
  "QueueBuffer_locked 0 IgnoreCredits_No demo_p2 = (Inr False, demo_p3)"
  "AddCredit_locked 8 demo_p3 = (Inl (projl (fst (AddCredit_locked 8 demo_p3))), demo_p4)"
  "QueueBuffer_locked 1 IgnoreCredits_No demo_p4 = (Inr True, demo_p5)"
  by code_simp+

lemma demo_p_reachable:
  defines "S \<equiv> \<lambda>q acc ent u f. \<lparr>ps_queue = q, ps_accepted = acc, ps_entered = ent, ps_posted = [],
     ps_user = u, ps_ack = None, ps_failed = f\<rparr>"
  shows "post_reachable (demo_queue Send) (S demo_p3 [0] [] None False)"
    and "post_reachable (demo_queue Send) (S demo_p5 [0, 1] [1] (Some 1) True)"
proof -
  let ?R = "post_reachable (demo_queue Send)"
  have "?R (S (demo_queue Send) [] [] None False)" unfolding S_def by (rule ps_init)
  moreover have "post_step (S (demo_queue Send) [] [] None False) (S demo_t1 [] [] None False)"
    using ps_other [of "S (demo_queue Send) [] [] None False" demo_t1] qi_idle [OF surjective_pairing]
    by (simp add: S_def demo_t1_def)
  ultimately have "?R (S demo_t1 [] [] None False)" by (rule ps_next)
  moreover have "post_step (S demo_t1 [] [] None False) (S demo_p1 [] [] None False)"
    using ps_other [of "S demo_t1 [] [] None False" demo_p1] qi_used [OF demo_p_steps(1,2)]
    by (simp add: S_def demo_p1_def)
  ultimately have "?R (S demo_p1 [] [] None False)" by (rule ps_next)
  moreover have "post_step (S demo_p1 [] [] None False) (S demo_p2 [] [] None False)"
    using ps_other [of "S demo_p1 [] [] None False" demo_p2] qi_idle [OF surjective_pairing]
    by (simp add: S_def demo_p2_def)
  ultimately have "?R (S demo_p2 [] [] None False)" by (rule ps_next)
  moreover have "post_step (S demo_p2 [] [] None False) (S demo_p3 [0] [] None False)"
    using ps_wait [of "S demo_p2 [] [] None False" 0 demo_p3] demo_p_steps(3) by (simp add: S_def)
  ultimately show p3: "?R (S demo_p3 [0] [] None False)" by (rule ps_next)
  have "post_step (S demo_p3 [0] [] None False) (S demo_p4 [0] [] None True)"
    using ps_credit_throws [of "S demo_p3 [0] [] None False" 8 _ demo_p4] demo_p_steps(4) by (simp add: S_def)
  with p3 have "?R (S demo_p4 [0] [] None True)" by (rule ps_next)
  moreover have "post_step (S demo_p4 [0] [] None True) (S demo_p5 [0, 1] [1] (Some 1) True)"
    using ps_take [of "S demo_p4 [0] [] None True" 1 demo_p5] demo_p_steps(5) by (simp add: S_def)
  ultimately show "?R (S demo_p5 [0, 1] [1] (Some 1) True)" by (rule ps_next)
qed

theorem posts_in_queue_order_witness: "Waiting demo_p3 = [0] \<and> [0] = [] @ Waiting demo_p3"
proof -
  have "\<not> bq_aborted demo_p3" by code_simp
  with posts_in_queue_order [OF disjI1 [OF demo_new(1)] demo_p_reachable(1)] show ?thesis by simp
qed

text \<open>
  The order is lost after a credit that is too small.  \<open>AddCredit\<close> stores its error only after
  it has left the lock, with the credit still available and the buffer still waiting: in between
  the user's next \<open>QueueBuffer\<close> is not refused but takes that credit, so a buffer queued later is
  posted although an earlier one still waits.
\<close>

theorem credit_error_race_overtakes:
  "\<exists>s. post_reachable (demo_queue Send) s \<and> ps_accepted s = [0, 1] \<and> ps_entered s = [1]
     \<and> Waiting (ps_queue s) = [0] \<and> \<not> IsError (queueStatus (ps_queue s)) \<and> \<not> bq_aborted (ps_queue s)"
proof -
  have "Waiting demo_p5 = [0]" "\<not> IsError (queueStatus demo_p5)" "\<not> bq_aborted demo_p5" by code_simp+
  with demo_p_reachable(2) show ?thesis by (intro exI conjI) (assumption | simp)+
qed

end
