(* ===== verification/SessionBase.thy ===== *)
theory SessionBase
  imports BufferQueueInv AccessManager
begin

text \<open>
  \<open>RdmaConnectedSessionBase\<close> of \<^verbatim>\<open>core/common/RdmaConnectedSessionBase.{h,cpp}\<close>: the platform
  independent part of a connected session.  It owns the queue of transfer buffers and the queue of
  credit buffers, and runs the credit protocol between the two ends.

  The state of an operation is the session with the state \<open>'c\<close> of the platform's connection.  The
  record \<open>services\<close> holds what the base class calls but does not define: its pure virtual
  functions, the allocator and the waits, whose results include what other threads have done.
\<close>

section \<open>State\<close>

datatype BufferOwnership = Ownership_Unknown | Ownership_Internal | Ownership_External
datatype BufferType = Type_Unknown | Type_Single | Type_Multiple

record ConnectedSession =
  cs_direction :: Direction
  cs_connectionData :: "u8 list"
  cs_usePolling :: bool
  transferBuffers :: "RdmaBufferQueue option"
  creditBuffers :: "RdmaBufferQueue option"
  preConfigureCredits :: "u64 list"
  cs_closing :: bool
  ackHandler :: bool
  autoQueueRx :: bool
  bufferOwnership :: BufferOwnership
  bufferType :: BufferType
  connected :: bool
  bufferWaitInProgress :: bool
  cs_accessManager :: tAccessManager

type_synonym 'c session_state = "ConnectedSession \<times> 'c"
type_synonym ('c, 'a) session_op = "ConnectedSession \<times> 'c \<Rightarrow> (exn, 'a, ConnectedSession \<times> 'c) outcome"

record 'c services =
  svc_QueueToQp :: "Direction \<Rightarrow> nat \<Rightarrow> RdmaBuffer \<Rightarrow> 'c \<Rightarrow> (exn, unit, 'c) outcome"
  svc_memalign :: "u64 \<Rightarrow> (u64 \<times> u8 list) option"
  svc_CreateMemoryRegion :: "u64 \<Rightarrow> u64 \<Rightarrow> exn + unit"
  svc_SetupQueuePair :: "'c \<Rightarrow> (exn, unit, 'c) outcome"
  svc_wait_transfer :: "ConnectedSession \<times> 'c \<Rightarrow> bool \<times> (ConnectedSession \<times> 'c)"
  svc_wait_credit :: "RdmaBufferQueue \<Rightarrow> bool \<times> RdmaBufferQueue"
  svc_PollForReceive :: "int \<Rightarrow> ConnectedSession \<times> 'c \<Rightarrow> (exn, unit, ConnectedSession \<times> 'c) outcome"
  svc_regain :: "tAccessManager \<Rightarrow> tAccessManager"
  svc_CreatePriorityThread :: "string \<Rightarrow> exn + unit"

definition kMaxCreditsPerBuffer :: nat where "kMaxCreditsPerBuffer = 100"

definition SessionBase_cpp :: string where
  "SessionBase_cpp = ''core/common/RdmaConnectedSessionBase.cpp''"

definition sb_throw :: "int \<Rightarrow> int \<Rightarrow> exn" where
  "sb_throw line code = RDMA_THROW SessionBase_cpp line code"

definition ConnectedSession_new :: "tAccessManager \<Rightarrow> ConnectedSession" where
  "ConnectedSession_new m =
     \<lparr>cs_direction = Unknown, cs_connectionData = [], cs_usePolling = False, transferBuffers = None,
      creditBuffers = None, preConfigureCredits = [], cs_closing = False, ackHandler = False,
      autoQueueRx = False, bufferOwnership = Ownership_Unknown, bufferType = Type_Unknown,
      connected = False, bufferWaitInProgress = False, cs_accessManager = m\<rparr>"

definition ConnectedSession_new_data :: "u8 list \<Rightarrow> tAccessManager \<Rightarrow> ConnectedSession" where
  "ConnectedSession_new_data connectionData m = (ConnectedSession_new m)\<lparr>cs_connectionData := connectionData\<rparr>"

text \<open>Calls through the two smart pointers; a null pointer is dereferenced at the price of a crash.\<close>

definition on_transfer ::
  "(RdmaBufferQueue \<times> 'c \<Rightarrow> (exn, 'a, RdmaBufferQueue \<times> 'c) outcome) \<Rightarrow> ('c, 'a) session_op" where
  "on_transfer f = (\<lambda>(s, c).
     case transferBuffers s of
       None \<Rightarrow> (Inl (Crash ''null transferBuffers''), (s, c))
     | Some q \<Rightarrow> (case f (q, c) of (r, (q', c')) \<Rightarrow> (r, (s\<lparr>transferBuffers := Some q'\<rparr>, c'))))"

definition on_credit ::
  "(RdmaBufferQueue \<times> 'c \<Rightarrow> (exn, 'a, RdmaBufferQueue \<times> 'c) outcome) \<Rightarrow> ('c, 'a) session_op" where
  "on_credit f = (\<lambda>(s, c).
     case creditBuffers s of
       None \<Rightarrow> (Inl (Crash ''null creditBuffers''), (s, c))
     | Some q \<Rightarrow> (case f (q, c) of (r, (q', c')) \<Rightarrow> (r, (s\<lparr>creditBuffers := Some q'\<rparr>, c'))))"

text \<open>An operation on the queue alone.\<close>

definition queue_only ::
  "(RdmaBufferQueue \<Rightarrow> (exn, 'a, RdmaBufferQueue) outcome) \<Rightarrow> RdmaBufferQueue \<times> 'c \<Rightarrow> (exn, 'a, RdmaBufferQueue \<times> 'c) outcome" where
  "queue_only f = (\<lambda>(q, c). case f q of (r, q') \<Rightarrow> (r, (q', c)))"

section \<open>Cancelling and disconnecting\<close>

definition abort_option :: "int \<Rightarrow> RdmaBufferQueue option \<Rightarrow> exn + callback_call list \<times> RdmaBufferQueue option" where
  "abort_option code q = (case q of None \<Rightarrow> Inr ([], None)
     | Some q \<Rightarrow> bind_res (Abort code q) (\<lambda>(calls, q'). Inr (calls, Some q')))"

text \<open>Joining the handler thread waits for its end; afterwards it is not joinable.\<close>

definition BaseCancel :: "ConnectedSession \<Rightarrow> exn + callback_call list \<times> ConnectedSession" where
  "BaseCancel s =
     bind_res (abort_option easyrdma_Error_OperationCancelled (creditBuffers s)) (\<lambda>(calls1, cb).
       bind_res (abort_option easyrdma_Error_OperationCancelled (transferBuffers s)) (\<lambda>(calls2, tb).
         Inr (calls1 @ calls2, s\<lparr>creditBuffers := cb, transferBuffers := tb, ackHandler := False\<rparr>)))"

definition HandleDisconnect :: "ConnectedSession \<Rightarrow> exn + callback_call list \<times> ConnectedSession" where
  "HandleDisconnect s =
     (let s = s\<lparr>connected := False\<rparr> in
      bind_res (abort_option easyrdma_Error_Disconnected (transferBuffers s)) (\<lambda>(calls1, tb).
        bind_res (abort_option easyrdma_Error_Disconnected (creditBuffers s)) (\<lambda>(calls2, cb).
          Inr (calls1 @ calls2, s\<lparr>transferBuffers := tb, creditBuffers := cb\<rparr>))))"

definition dtor_option :: "RdmaBufferQueue option \<Rightarrow> exn + callback_call list" where
  "dtor_option q = (case q of None \<Rightarrow> Inr [] | Some q \<Rightarrow> RdmaBufferQueue_dtor q)"

definition ConnectedSession_dtor :: "ConnectedSession \<Rightarrow> exn + callback_call list" where
  "ConnectedSession_dtor s =
     bind_res (BaseCancel (s\<lparr>cs_closing := True\<rparr>)) (\<lambda>(calls, s).
       bind_res (dtor_option (creditBuffers s)) (\<lambda>calls1.
         bind_res (dtor_option (transferBuffers s)) (\<lambda>calls2. Inr (calls @ calls1 @ calls2))))"

section \<open>Connecting\<close>

text \<open>The loop of \<open>PreConnect\<close> that posts the credit buffers of a sender.\<close>

fun post_credit_buffers :: "'c services \<Rightarrow> nat \<Rightarrow> ('c, unit) session_op" where
  "post_credit_buffers svc 0 \<sigma> = (Inr (), \<sigma>)"
| "post_credit_buffers svc (Suc n) \<sigma> =
     bind_out (on_credit (queue_only (WaitForIdleBuffer (svc_wait_credit svc) 0)) \<sigma>) (\<lambda>i \<sigma>.
       bind_out (on_credit (QueueBuffer (svc_QueueToQp svc) i IgnoreCredits_Yes) \<sigma>) (\<lambda>_ \<sigma>.
         post_credit_buffers svc n \<sigma>))"

definition opposite_queue_direction :: "Direction \<Rightarrow> Direction" where
  "opposite_queue_direction dir = (if dir = Receive then Send else Receive)"

definition PreConnect :: "'c services \<Rightarrow> Direction \<Rightarrow> ('c, unit) session_op" where
  "PreConnect svc dir = (\<lambda>(s, c).
     let s = s\<lparr>cs_direction := dir\<rparr>;
         s = (if cs_connectionData s = [] then s\<lparr>cs_connectionData := CreateDefaultConnectionData dir\<rparr> else s) in
     case svc_SetupQueuePair svc c of (Inl e, c) \<Rightarrow> (Inl e, (s, c))
     | (Inr _, c) \<Rightarrow>
       (case RdmaBufferQueueMultipleBuffer_new (svc_memalign svc) (svc_CreateMemoryRegion svc)
               (opposite_queue_direction dir) 100 (of_nat (kMaxCreditsPerBuffer * 8)) False of
          Inl e \<Rightarrow> (Inl e, (s, c))
        | Inr q \<Rightarrow>
          (let s = s\<lparr>creditBuffers := Some q\<rparr> in
           if dir = Send then
             bind_out (post_credit_buffers svc (length (buffers q)) (s, c)) (\<lambda>_ (s, c).
               case svc_CreatePriorityThread svc ''AckHandler'' of Inl e \<Rightarrow> (Inl e, (s, c))
               | Inr _ \<Rightarrow> (Inr (), (s\<lparr>ackHandler := True\<rparr>, c)))
           else (Inr (), (s, c)))))"

definition BasePostConnect :: "ConnectedSession \<Rightarrow> ConnectedSession" where
  "BasePostConnect s = s\<lparr>connected := True\<rparr>"

definition IsConnected :: "ConnectedSession \<Rightarrow> bool" where
  "IsConnected s = connected s"

section \<open>Credits\<close>

definition SessionAddCredit :: "'c services \<Rightarrow> u64 \<Rightarrow> ('c, unit) session_op" where
  "SessionAddCredit svc sz = (\<lambda>(s, c).
     case transferBuffers s of
       Some _ \<Rightarrow> on_transfer (AddCredit (svc_QueueToQp svc) sz) (s, c)
     | None \<Rightarrow> (Inr (), (s\<lparr>preConfigureCredits := preConfigureCredits s @ [sz]\<rparr>, c)))"

fun add_credits :: "'c services \<Rightarrow> u64 list \<Rightarrow> ('c, unit) session_op" where
  "add_credits svc [] \<sigma> = (Inr (), \<sigma>)"
| "add_credits svc (sz # szs) \<sigma> = bind_out (SessionAddCredit svc sz \<sigma>) (\<lambda>_ \<sigma>. add_credits svc szs \<sigma>)"

text \<open>The credits in a received credit buffer: an array of big-endian 64-bit lengths.\<close>

definition decode_credits :: "RdmaBuffer \<Rightarrow> u64 list" where
  "decode_credits b = map (nth_u64 (buf_memory b)) [0..<unat (usedBytes b div 8)]"

definition AckHandler_iteration :: "'c services \<Rightarrow> ('c, unit) session_op" where
  "AckHandler_iteration svc \<sigma> =
     bind_out (on_credit (queue_only (WaitForCompletedBuffer (svc_wait_credit svc) (\<lambda>_ q. (Inr (), q)) (-1))) \<sigma>)
       (\<lambda>i \<sigma>. bind_out (add_credits svc (decode_credits (buffers (the (creditBuffers (fst \<sigma>))) ! i)) \<sigma>)
         (\<lambda>_ \<sigma>. on_credit (QueueBuffer (svc_QueueToQp svc) i IgnoreCredits_Yes) \<sigma>))"

text \<open>
  The handler thread; the fuel bounds the iterations, and the first component says whether the
  thread has ended.  Every exception ends it silently.
\<close>

fun AckHandlerThread :: "'c services \<Rightarrow> nat \<Rightarrow> ConnectedSession \<times> 'c \<Rightarrow> bool \<times> (ConnectedSession \<times> 'c)" where
  "AckHandlerThread svc 0 \<sigma> = (False, \<sigma>)"
| "AckHandlerThread svc (Suc n) \<sigma> =
     (if cs_closing (fst \<sigma>) then (True, \<sigma>)
      else case AckHandler_iteration svc \<sigma> of
             (Inl e, \<sigma>) \<Rightarrow> (True, \<sigma>)
           | (Inr _, \<sigma>) \<Rightarrow> AckHandlerThread svc n \<sigma>)"

text \<open>\<open>memcpy\<close>-like store of the lengths at the start of the credit buffer.\<close>

definition write_credits :: "u64 list \<Rightarrow> RdmaBuffer \<Rightarrow> RdmaBuffer" where
  "write_credits lengths b =
     b\<lparr>buf_memory := encode_u64s lengths @ drop (8 * length lengths) (buf_memory b)\<rparr>"

definition set_buffer :: "nat \<Rightarrow> RdmaBuffer \<Rightarrow> RdmaBufferQueue \<Rightarrow> RdmaBufferQueue" where
  "set_buffer i b q = q\<lparr>buffers := (buffers q)[i := b]\<rparr>"

definition prepare_credit :: "u64 list \<Rightarrow> nat \<Rightarrow> RdmaBufferQueue \<Rightarrow> (exn, unit, RdmaBufferQueue) outcome" where
  "prepare_credit bufferLengths i q =
     (case SetUsed (of_nat (length bufferLengths * 8)) (buffers q ! i) of
        Inl e \<Rightarrow> (Inl e, q)
      | Inr b \<Rightarrow> (Inr (), set_buffer i (write_credits bufferLengths b) q))"

definition SendCreditUpdate :: "'c services \<Rightarrow> u64 list \<Rightarrow> ('c, unit) session_op" where
  "SendCreditUpdate svc bufferLengths \<sigma> =
     (case cpp_assert ''numBuffers <= kMaxCreditsPerBuffer'' (length bufferLengths \<le> kMaxCreditsPerBuffer) of
        Inl e \<Rightarrow> (Inl e, \<sigma>)
      | Inr _ \<Rightarrow>
        bind_out (on_credit (queue_only (WaitForIdleBuffer (svc_wait_credit svc) (-1))) \<sigma>) (\<lambda>i \<sigma>.
          bind_out (on_credit (queue_only (prepare_credit bufferLengths i)) \<sigma>) (\<lambda>_ \<sigma>.
            on_credit (QueueBuffer (svc_QueueToQp svc) i IgnoreCredits_Yes) \<sigma>)))"

section \<open>Queueing\<close>

definition QueueRecvBuffer :: "'c services \<Rightarrow> nat \<Rightarrow> bool \<Rightarrow> ('c, unit) session_op" where
  "QueueRecvBuffer svc i sendCreditUpdate \<sigma> =
     (case cpp_assert ''direction == Direction::Receive'' (cs_direction (fst \<sigma>) = Receive) of
        Inl e \<Rightarrow> (Inl e, \<sigma>)
      | Inr _ \<Rightarrow>
        bind_out (on_transfer (QueueBuffer (svc_QueueToQp svc) i IgnoreCredits_No) \<sigma>) (\<lambda>_ \<sigma>.
          if sendCreditUpdate
          then SendCreditUpdate svc [bufferSize (buffers (the (transferBuffers (fst \<sigma>))) ! i)] \<sigma>
          else (Inr (), \<sigma>)))"

definition QueueSendBuffer :: "'c services \<Rightarrow> nat \<Rightarrow> ('c, unit) session_op" where
  "QueueSendBuffer svc i \<sigma> =
     (case cpp_assert ''direction == Direction::Send'' (cs_direction (fst \<sigma>) = Send) of
        Inl e \<Rightarrow> (Inl e, \<sigma>)
      | Inr _ \<Rightarrow> on_transfer (QueueBuffer (svc_QueueToQp svc) i IgnoreCredits_No) \<sigma>)"

definition SessionQueueBuffer :: "'c services \<Rightarrow> nat \<Rightarrow> ('c, unit) session_op" where
  "SessionQueueBuffer svc i \<sigma> =
     (if \<not> connected (fst \<sigma>) then (Inl (sb_throw 213 easyrdma_Error_Disconnected), \<sigma>)
      else if cs_direction (fst \<sigma>) = Receive then QueueRecvBuffer svc i True \<sigma>
      else QueueSendBuffer svc i \<sigma>)"

section \<open>Waiting for transfer buffers\<close>

text \<open>
  The waits on the transfer queue.  Other threads may change the whole session during the wait, so
  its result is a session; the queue in it is the one the waiter finds.
\<close>

definition wait_idle_transfer :: "'c services \<Rightarrow> int \<Rightarrow> ('c, nat) session_op" where
  "wait_idle_transfer svc timeoutMs = (\<lambda>(s, c).
     case transferBuffers s of None \<Rightarrow> (Inl (Crash ''null transferBuffers''), (s, c))
     | Some q \<Rightarrow>
         if fifo_count (idleBuffers q) = 0 \<and> \<not> IsError (queueStatus q) then
           (case svc_wait_transfer svc (s, c) of (timeout, \<sigma>) \<Rightarrow>
              on_transfer (\<lambda>(q', c). case WaitForIdleBuffer (\<lambda>_. (timeout, q')) timeoutMs q of (r, q'') \<Rightarrow> (r, (q'', c))) \<sigma>)
         else on_transfer (queue_only (WaitForIdleBuffer (\<lambda>q. (False, q)) timeoutMs)) (s, c))"

definition wait_completed_transfer :: "'c services \<Rightarrow> int \<Rightarrow> ('c, nat) session_op" where
  "wait_completed_transfer svc timeoutMs = (\<lambda>(s, c).
     case transferBuffers s of None \<Rightarrow> (Inl (Crash ''null transferBuffers''), (s, c))
     | Some q \<Rightarrow>
         if \<not> putBackToIdleOnCompletion q \<and> fifo_count (completedBuffers q) = 0 \<and> \<not> IsError (queueStatus q)
            \<and> \<not> (fifo_count (queuedBuffers q) = 0 \<and> fifo_count (buffersQueuedWaitingForCredits q) = 0) then
           if bq_usePolling q then
             (case svc_PollForReceive svc timeoutMs (s, c) of (r, \<sigma>) \<Rightarrow>
                on_transfer (\<lambda>(q', c). case WaitForCompletedBuffer (\<lambda>q. (False, q)) (\<lambda>_ _. (r, q')) timeoutMs q of
                  (r', q'') \<Rightarrow> (r', (q'', c))) \<sigma>)
           else
             (case svc_wait_transfer svc (s, c) of (timeout, \<sigma>) \<Rightarrow>
                on_transfer (\<lambda>(q', c). case WaitForCompletedBuffer (\<lambda>_. (timeout, q')) (\<lambda>_ q. (Inr (), q)) timeoutMs q of
                  (r', q'') \<Rightarrow> (r', (q'', c))) \<sigma>)
         else on_transfer (queue_only (WaitForCompletedBuffer (\<lambda>q. (False, q)) (\<lambda>_ q. (Inr (), q)) timeoutMs)) (s, c))"

section \<open>Configuring\<close>

fun ProcessPreConfigureCredits_loop :: "'c services \<Rightarrow> u64 list \<Rightarrow> ('c, unit) session_op" where
  "ProcessPreConfigureCredits_loop svc [] \<sigma> = (Inr (), \<sigma>)"
| "ProcessPreConfigureCredits_loop svc (sz # szs) \<sigma> =
     bind_out (on_transfer (AddCredit (svc_QueueToQp svc) sz) \<sigma>) (\<lambda>_ (s, c).
       ProcessPreConfigureCredits_loop svc szs (s\<lparr>preConfigureCredits := szs\<rparr>, c))"

definition ProcessPreConfigureCredits :: "'c services \<Rightarrow> ('c, unit) session_op" where
  "ProcessPreConfigureCredits svc \<sigma> = ProcessPreConfigureCredits_loop svc (preConfigureCredits (fst \<sigma>)) \<sigma>"

text \<open>\<open>PostConfigure\<close> is virtual; the override of the platform is an argument.\<close>

definition ConfigureExternalBuffer ::
  "'c services \<Rightarrow> ('c, unit) session_op \<Rightarrow> u64 \<Rightarrow> u64 \<Rightarrow> u64 \<Rightarrow> ('c, unit) session_op" where
  "ConfigureExternalBuffer svc PostConfigure externalBuffer sz maxConcurrentTransactions = (\<lambda>(s, c).
     if transferBuffers s \<noteq> None then (Inl (sb_throw 158 easyrdma_Error_AlreadyConfigured), (s, c))
     else if cs_usePolling s then (Inl (sb_throw 161 easyrdma_Error_OperationNotSupported), (s, c))
     else
       let s = s\<lparr>bufferOwnership := Ownership_External, bufferType := Type_Single\<rparr> in
       case RdmaBufferQueueSingleBuffer_new (svc_CreateMemoryRegion svc) (cs_direction s) externalBuffer sz
              maxConcurrentTransactions (cs_usePolling s) of
         Inl e \<Rightarrow> (Inl e, (s, c))
       | Inr q \<Rightarrow> bind_out (ProcessPreConfigureCredits svc (s\<lparr>transferBuffers := Some q\<rparr>, c)) (\<lambda>_. PostConfigure))"

definition ConfigureBuffers ::
  "'c services \<Rightarrow> ('c, unit) session_op \<Rightarrow> u64 \<Rightarrow> u64 \<Rightarrow> ('c, unit) session_op" where
  "ConfigureBuffers svc PostConfigure maxTransactionSize maxConcurrentTransactions = (\<lambda>(s, c).
     if transferBuffers s \<noteq> None then (Inl (sb_throw 176 easyrdma_Error_AlreadyConfigured), (s, c))
     else if \<not> connected s then (Inl (sb_throw 179 easyrdma_Error_NotConnected), (s, c))
     else
       let s = s\<lparr>bufferOwnership := Ownership_Internal, bufferType := Type_Multiple, autoQueueRx := True\<rparr> in
       case RdmaBufferQueueMultipleBuffer_new (svc_memalign svc) (svc_CreateMemoryRegion svc) (cs_direction s)
              maxConcurrentTransactions maxTransactionSize (cs_usePolling s) of
         Inl e \<Rightarrow> (Inl e, (s, c))
       | Inr q \<Rightarrow> bind_out (ProcessPreConfigureCredits svc (s\<lparr>transferBuffers := Some q\<rparr>, c)) (\<lambda>_. PostConfigure))"

text \<open>The two loops of \<open>PostConfigure\<close>: posting every receive buffer, then announcing them in batches.\<close>

fun post_receive_buffers :: "'c services \<Rightarrow> nat \<Rightarrow> u64 list \<Rightarrow> ('c, u64 list) session_op" where
  "post_receive_buffers svc 0 bufferLengths \<sigma> = (Inr bufferLengths, \<sigma>)"
| "post_receive_buffers svc (Suc n) bufferLengths \<sigma> =
     bind_out (wait_idle_transfer svc 0 \<sigma>) (\<lambda>i \<sigma>.
       bind_out (QueueRecvBuffer svc i False \<sigma>) (\<lambda>_ \<sigma>'.
         post_receive_buffers svc n (bufferLengths @ [bufferSize (buffers (the (transferBuffers (fst \<sigma>))) ! i)]) \<sigma>'))"

function announce_buffers :: "'c services \<Rightarrow> u64 list \<Rightarrow> ('c, unit) session_op" where
  "announce_buffers svc lengths \<sigma> =
     (if lengths = [] then (Inr (), \<sigma>)
      else bind_out (SendCreditUpdate svc (take kMaxCreditsPerBuffer lengths) \<sigma>)
             (\<lambda>_ \<sigma>. announce_buffers svc (drop kMaxCreditsPerBuffer lengths) \<sigma>))"
  by pat_completeness auto
termination
  by (relation "measure (\<lambda>(_, lengths, _). length lengths)") (auto simp: kMaxCreditsPerBuffer_def)

declare announce_buffers.simps [simp del]

definition BasePostConfigure :: "'c services \<Rightarrow> ('c, unit) session_op" where
  "BasePostConfigure svc \<sigma> =
     (if cs_direction (fst \<sigma>) = Receive \<and> autoQueueRx (fst \<sigma>) then
        (case transferBuffers (fst \<sigma>) of
           None \<Rightarrow> (Inl (Crash ''null transferBuffers''), \<sigma>)
         | Some q \<Rightarrow>
             bind_out (post_receive_buffers svc (length (buffers q)) [] \<sigma>) (\<lambda>lengths \<sigma>.
               announce_buffers svc lengths \<sigma>))
      else (Inr (), \<sigma>))"

section \<open>The user's buffers\<close>

text \<open>
  \<open>BufferWaitAccessSuspender\<close>: while the body runs the calling thread's access to the session is
  suspended and a flag excludes a second waiter; \<open>svc_regain\<close> is the access manager once a thread
  that had to queue for its access again has got it.
\<close>

definition with_buffer_wait :: "'c services \<Rightarrow> nat \<Rightarrow> ('c, 'a) session_op \<Rightarrow> ('c, 'a) session_op" where
  "with_buffer_wait svc tid body = (\<lambda>(s, c).
     if bufferWaitInProgress s then (Inl (sb_throw 24 easyrdma_Error_BufferWaitInProgress), (s, c))
     else
       let s = s\<lparr>bufferWaitInProgress := True\<rparr> in
       case SuspendAccess tid (cs_accessManager s) of Inl e \<Rightarrow> (Inl e, (s, c))
       | Inr m \<Rightarrow>
         (case body (s\<lparr>cs_accessManager := m\<rparr>, c) of (r, (s, c)) \<Rightarrow>
            (case ResumeAccess tid (cs_accessManager s) of (blocked, m) \<Rightarrow>
               (r, (s\<lparr>bufferWaitInProgress := False,
                      cs_accessManager := (if blocked then svc_regain svc m else m)\<rparr>, c)))))"

definition AcquireSendRegion :: "'c services \<Rightarrow> nat \<Rightarrow> int \<Rightarrow> ('c, nat) session_op" where
  "AcquireSendRegion svc tid timeoutMs \<sigma> =
     (if cs_direction (fst \<sigma>) = Receive \<and> autoQueueRx (fst \<sigma>)
      then (Inl (sb_throw 255 easyrdma_Error_InvalidOperation), \<sigma>)
      else if bufferOwnership (fst \<sigma>) = Ownership_External
      then (Inl (sb_throw 258 easyrdma_Error_InvalidOperation), \<sigma>)
      else with_buffer_wait svc tid (wait_idle_transfer svc timeoutMs) \<sigma>)"

definition AcquireReceivedRegion :: "'c services \<Rightarrow> nat \<Rightarrow> int \<Rightarrow> ('c, nat) session_op" where
  "AcquireReceivedRegion svc tid timeoutMs = with_buffer_wait svc tid (wait_completed_transfer svc timeoutMs)"

text \<open>A change of one of the session's transfer buffers through a pointer to it.\<close>

definition change_buffer :: "nat \<Rightarrow> (RdmaBuffer \<Rightarrow> RdmaBuffer) \<Rightarrow> ConnectedSession \<Rightarrow> ConnectedSession" where
  "change_buffer i f s = s\<lparr>transferBuffers :=
     map_option (\<lambda>q. set_buffer i (f (buffers q ! i)) q) (transferBuffers s)\<rparr>"

definition QueueBufferRegion ::
  "'c services \<Rightarrow> nat \<Rightarrow> BufferCompletionCallbackData \<Rightarrow> ('c, unit) session_op" where
  "QueueBufferRegion svc i callbackData = (\<lambda>(s, c).
     if bufferOwnership s = Ownership_External then (Inl (sb_throw 269 easyrdma_Error_InvalidOperation), (s, c))
     else SessionQueueBuffer svc i (change_buffer i (SetCompletionCallback callbackData) s, c))"

definition QueueExternalBufferRegion ::
  "'c services \<Rightarrow> nat \<Rightarrow> u64 \<Rightarrow> u64 \<Rightarrow> BufferCompletionCallbackData \<Rightarrow> int \<Rightarrow> ('c, unit) session_op" where
  "QueueExternalBufferRegion svc tid pointerWithinBuffer sz callbackData timeoutMs =
     with_buffer_wait svc tid (\<lambda>\<sigma>.
       bind_out (wait_idle_transfer svc timeoutMs \<sigma>) (\<lambda>i (s, c).
         if bufferType s \<noteq> Type_Single \<or> bufferOwnership s \<noteq> Ownership_External
         then (Inl (sb_throw 288 easyrdma_Error_InvalidOperation), (s, c))
         else SessionQueueBuffer svc i
                (change_buffer i (SetCompletionCallback callbackData \<circ> SetBufferRegion pointerWithinBuffer sz) s, c)))"

text \<open>\<open>RdmaBuffer::Requeue\<close> and \<open>RdmaBuffer::Release\<close> on a transfer buffer.\<close>

definition Requeue :: "'c services \<Rightarrow> nat \<Rightarrow> ('c, unit) session_op" where
  "Requeue svc i = SessionQueueBuffer svc i"

definition RegionRelease :: "nat \<Rightarrow> ('c, unit) session_op" where
  "RegionRelease i = on_transfer (queue_only (ReleaseBuffer i))"

section \<open>Properties\<close>

definition easyrdma_Property_NumOpenedSessions :: u32 where "easyrdma_Property_NumOpenedSessions = 0x200"
definition easyrdma_Property_NumPendingDestructionSessions :: u32 where
  "easyrdma_Property_NumPendingDestructionSessions = 0x201"
definition easyrdma_Property_ConnectionData :: u32 where "easyrdma_Property_ConnectionData = 0x202"

definition SessionGetProperty :: "u32 \<Rightarrow> ConnectedSession \<Rightarrow> exn + PropertyData" where
  "SessionGetProperty propertyId s =
     (if propertyId = easyrdma_Property_QueuedBuffers \<or> propertyId = easyrdma_Property_UserBuffers then
        (case transferBuffers s of
           Some q \<Rightarrow> BufferQueue_GetProperty propertyId q
         | None \<Rightarrow> Inl (sb_throw 304 easyrdma_Error_SessionNotConfigured))
      else if propertyId = easyrdma_Property_Connected then Inr (PropertyData_bool (connected s))
      else if propertyId = easyrdma_Property_UseRxPolling then Inr (PropertyData_bool (cs_usePolling s))
      else Inl (sb_throw 312 easyrdma_Error_InvalidProperty))"

definition SessionSetProperty :: "u32 \<Rightarrow> u8 list \<Rightarrow> ConnectedSession \<Rightarrow> (exn, unit, ConnectedSession) outcome" where
  "SessionSetProperty propertyId val s =
     (if propertyId = easyrdma_Property_ConnectionData then (Inr (), s\<lparr>cs_connectionData := val\<rparr>)
      else if propertyId = easyrdma_Property_UseRxPolling then
        if length val \<noteq> 1 then (Inl (sb_throw 324 easyrdma_Error_InvalidArgument), s)
        else
          let usePolling = (hd val \<noteq> 0) in
          if \<not> connected s \<or> transferBuffers s \<noteq> None
          then (Inl (sb_throw 330 easyrdma_Error_AlreadyConfigured), s)
          else if usePolling \<and> cs_direction s \<noteq> Receive
          then (Inl (sb_throw 338 easyrdma_Error_OperationNotSupported), s)
          else (Inr (), s\<lparr>cs_usePolling := usePolling\<rparr>)
      else (Inl (sb_throw 344 easyrdma_Error_ReadOnlyProperty), s))"

definition CheckDeferredDestructionConditionsMet :: "ConnectedSession \<Rightarrow> bool" where
  "CheckDeferredDestructionConditionsMet s =
     (case transferBuffers s of Some q \<Rightarrow> \<not> HasUserBuffersOutstanding q | None \<Rightarrow> True)"

definition CheckQueueStatus :: "ConnectedSession \<Rightarrow> exn + unit" where
  "CheckQueueStatus s =
     (case transferBuffers s of
        Some q \<Rightarrow> if IsError (GetQueueStatus q) then Inl (RdmaException (GetQueueStatus q)) else Inr ()
      | None \<Rightarrow> Inr ())"

end
