(* ===== verification/SessionLemmas.thy ===== *)
theory SessionLemmas
  imports SessionBase
begin

text \<open>
  The operations of the session in the states where they succeed, with a connection that records
  the buffers posted to it.
\<close>

section \<open>A recording connection\<close>

text \<open>The log of posts: the direction of the work queue and the buffer as it was when it was posted.\<close>

type_synonym post_log = "(Direction \<times> RdmaBuffer) list"

definition record_post :: "Direction \<Rightarrow> nat \<Rightarrow> RdmaBuffer \<Rightarrow> post_log \<Rightarrow> (exn, unit, post_log) outcome" where
  "record_post dir i b l = (Inr (), l @ [(dir, b)])"

abbreviation records :: "post_log services \<Rightarrow> bool" where
  "records svc \<equiv> svc_QueueToQp svc = record_post"

definition recorded :: "post_log \<Rightarrow> post_log \<Rightarrow> RdmaBuffer list \<Rightarrow> Direction \<Rightarrow> bool" where
  "recorded l l' bs dir \<longleftrightarrow> l' = l @ map (Pair dir) bs"

section \<open>One buffer\<close>

lemma take_idle_ok:
  assumes "bq_inv q" and "\<not> IsError (queueStatus q)" and "Idle q = i # rest"
  shows "\<exists>f. WaitForIdleBuffer wait t q = (Inr i, q\<lparr>idleBuffers := f, userBuffers := User q @ [i]\<rparr>)
    \<and> fifo_list f = rest \<and> bq_inv (q\<lparr>idleBuffers := f, userBuffers := User q @ [i]\<rparr>)"
proof -
  have "fifo_count (idleBuffers q) \<noteq> 0" using inv_rings(1) [OF assms(1)] assms(3) by simp
  with WaitForIdleBuffer_spec(3) [OF assms] show ?thesis by (simp add: WaitForIdleBuffer_def)
qed

text \<open>A queue whose buffers have the given length.\<close>

definition sized :: "u64 \<Rightarrow> RdmaBufferQueue \<Rightarrow> bool" where
  "sized n q \<longleftrightarrow> (\<forall>b\<in>set (buffers q). bufferSize b = n \<and> length (buf_memory b) = unat n)"

lemma sized_nth: "sized n q \<Longrightarrow> i < length (buffers q) \<Longrightarrow>
    bufferSize (buffers q ! i) = n \<and> length (buf_memory (buffers q ! i)) = unat n"
  by (simp add: sized_def)

lemma add_buffers_sized:
  assumes "add_buffers mk_buffer k index q = Inr q'"
    and "\<And>index b. mk_buffer index = Inr b \<Longrightarrow> bufferSize b = n \<and> length (buf_memory b) = unat n"
    and "sized n q"
  shows "sized n q'"
  using assms(1,3)
proof (induction k arbitrary: index q)
  case 0
  then show ?case by simp
next
  case (Suc k)
  then obtain b f where "mk_buffer index = Inr b"
    and rest: "add_buffers mk_buffer k (index + 1) (q\<lparr>buffers := buffers q @ [b], idleBuffers := f\<rparr>) = Inr q'"
    by (auto simp: bind_res_eq_Inr)
  with assms(2) Suc.prems(2) have "sized n (q\<lparr>buffers := buffers q @ [b], idleBuffers := f\<rparr>)"
    by (auto simp: sized_def)
  with Suc.IH [OF rest] show ?case .
qed

text \<open>\<open>posix_memalign\<close> returns blocks of the requested size.\<close>

definition memalign_sized :: "(u64 \<Rightarrow> (u64 \<times> u8 list) option) \<Rightarrow> u64 \<Rightarrow> bool" where
  "memalign_sized memalign sz \<longleftrightarrow> (\<forall>i p m. memalign i = Some (p, m) \<longrightarrow> length m = unat sz)"

lemma MultipleBuffer_new_sized:
  assumes "RdmaBufferQueueMultipleBuffer_new memalign reg dir n sz polling = Inr q"
    and "memalign_sized memalign sz"
  shows "sized sz q"
proof -
  from assms(1) obtain q0 q1 where q0: "RdmaBufferQueue_new dir polling = Inr q0" "AllocateBufferQueues n q0 = Inr q1"
    and add: "add_buffers (\<lambda>index. RdmaBufferInternal_new (memalign index) reg sz index) (unat n) 0 q1 = Inr q"
    by (auto simp: RdmaBufferQueueMultipleBuffer_new_def bind_res_eq_Inr)
  from q0 have q1: "buffers q1 = []"
    by (auto simp: RdmaBufferQueue_new_def AllocateBufferQueues_def split: if_splits)
  show ?thesis
  proof (rule add_buffers_sized [OF add])
    fix index b
    assume "RdmaBufferInternal_new (memalign index) reg sz index = Inr b"
    then show "bufferSize b = sz \<and> length (buf_memory b) = unat sz"
      using assms(2) by (auto simp: RdmaBufferInternal_new_def AllocateAlignedMemory_def bind_res_eq_Inr
          memalign_sized_def split: option.splits)
  qed (simp add: sized_def q1)
qed

section \<open>Credit messages\<close>

lemma decode_write_credits:
  assumes "8 * length lens < 2 ^ 64" and "usedBytes b = of_nat (length lens * 8)"
  shows "decode_credits (write_credits lens b) = lens"
proof -
  have "unat ((of_nat (length lens * 8) :: u64) div 8) = length lens"
    using assms(1) by (simp add: unat_div of_nat_inverse_word del: of_nat_mult)
  with assms(2) show ?thesis by (simp add: decode_credits_def write_credits_def map_nth_encode_u64s)
qed

text \<open>The state of the credit queue in which an update can be sent at once.\<close>

definition credit_ready :: "RdmaBufferQueue \<Rightarrow> bool" where
  "credit_ready q \<longleftrightarrow> bq_inv q \<and> \<not> IsError (queueStatus q) \<and> bq_direction q = Send \<and> sized 800 q"

lemma SendCreditUpdate_ok:
  assumes "records svc" and "creditBuffers s = Some q" and "credit_ready q" and "Idle q = i # rest"
    and "length lens \<le> kMaxCreditsPerBuffer"
  shows "\<exists>q' b. SendCreditUpdate svc lens (s, l) = (Inr (), (s\<lparr>creditBuffers := Some q'\<rparr>, l @ [(Send, b)]))
    \<and> decode_credits b = lens \<and> length (buf_memory b) = 800 \<and> credit_ready q' \<and> Idle q' = rest
    \<and> length (buffers q') = length (buffers q)"
proof -
  from assms(3) have inv: "bq_inv q" and ok: "\<not> IsError (queueStatus q)" and dir: "bq_direction q = Send"
    and sz: "sized 800 q" by (simp_all add: credit_ready_def)
  from take_idle_ok [OF inv ok assms(4)] obtain f where
    f: "WaitForIdleBuffer (svc_wait_credit svc) (-1) q = (Inr i, q\<lparr>idleBuffers := f, userBuffers := User q @ [i]\<rparr>)"
      "fifo_list f = rest" "bq_inv (q\<lparr>idleBuffers := f, userBuffers := User q @ [i]\<rparr>)" by blast
  let ?q1 = "q\<lparr>idleBuffers := f, userBuffers := User q @ [i]\<rparr>"
  have i: "i < length (buffers q)" using places_less(4) [OF inv] assms(4) by simp
  note b0 = sized_nth [OF sz i]
  let ?b = "write_credits lens ((buffers q ! i)\<lparr>usedBytes := of_nat (length lens * 8)\<rparr>)"
  have len: "length lens * 8 \<le> 800" using assms(5) by (simp add: kMaxCreditsPerBuffer_def)
  have fits: "\<not> (of_nat (length lens * 8) :: u64) > bufferSize (buffers q ! i)"
    using len b0 by (simp add: not_less word_le_nat_alt of_nat_inverse_word del: of_nat_mult)
  let ?q2 = "set_buffer i ?b ?q1"
  have prep: "prepare_credit lens i ?q1 = (Inr (), ?q2)"
    using fits by (simp add: prepare_credit_def SetUsed_def)
  have inv2: "bq_inv ?q2" using f(3) by (simp add: set_buffer_def bq_inv_def rings_ok_def places_def)
  have "i \<in> set (User ?q2)" "\<not> IsError (queueStatus ?q2)" using ok by (simp_all add: set_buffer_def)
  from QueueBuffer_direct [OF inv2 this(2,1), of IgnoreCredits_Yes] obtain g where
    g: "QueueBuffer_locked i IgnoreCredits_Yes ?q2 = (Inr True, unlink_user i (?q2\<lparr>queuedBuffers := g\<rparr>))"
      "bq_inv (unlink_user i (?q2\<lparr>queuedBuffers := g\<rparr>))" by auto
  let ?q3 = "unlink_user i (?q2\<lparr>queuedBuffers := g\<rparr>)"
  have run: "SendCreditUpdate svc lens (s, l) = (Inr (), (s\<lparr>creditBuffers := Some ?q3\<rparr>, l @ [(Send, ?b)]))"
    using assms(1,2,5) f(1) prep g(1) i dir
    by (simp add: SendCreditUpdate_def cpp_assert_def on_credit_def queue_only_def QueueBuffer_def record_post_def
        set_buffer_def)
  have mem: "length (buf_memory ?b) = 800" using b0 len by (simp add: write_credits_def)
  have "credit_ready ?q3"
    using g(2) ok dir sz b0 mem
    by (auto simp: credit_ready_def sized_def set_buffer_def write_credits_def dest!: set_update_subset_insert [THEN subsetD])
  moreover have "decode_credits ?b = lens" using len by (intro decode_write_credits) simp_all
  ultimately show ?thesis using run mem f(2) by (intro exI conjI) (assumption | simp add: set_buffer_def)+
qed

text \<open>The batches of \<open>PostConfigure\<close>.\<close>

definition batches :: "nat \<Rightarrow> nat" where
  "batches n = (n + 99) div 100"

lemma batches_pos:
  assumes "0 < n"
  shows "batches n = Suc (batches (n - 100))"
proof (cases "100 \<le> n")
  case True
  then have "n + 99 = (n - 100 + 99) + 100" by simp
  then show ?thesis unfolding batches_def by (metis Suc_eq_plus1 div_add_self2 zero_neq_numeral)
next
  case False
  with assms have "(n + 99) div 100 = 1" by (intro div_nat_eqI) auto
  with False show ?thesis by (simp add: batches_def)
qed

lemma announce_ok:
  assumes "records svc" and "creditBuffers s = Some q" and "credit_ready q"
    and "batches (length lens) \<le> length (Idle q)"
  shows "\<exists>q' bs. announce_buffers svc lens (s, l) = (Inr (), (s\<lparr>creditBuffers := Some q'\<rparr>, l @ map (Pair Send) bs))
    \<and> concat (map decode_credits bs) = lens \<and> (\<forall>b\<in>set bs. length (decode_credits b) \<le> kMaxCreditsPerBuffer)
    \<and> length bs = batches (length lens) \<and> credit_ready q'"
  using assms(2-)
proof (induction lens arbitrary: s q l rule: length_induct)
  case (1 lens)
  show ?case
  proof (cases "lens = []")
    case True
    with 1 show ?thesis
      by (intro exI [of _ q] exI [of _ "[]"]) (simp add: announce_buffers.simps batches_def)
  next
    case False
    then have b: "batches (length lens) = Suc (batches (length lens - 100))" by (simp add: batches_pos)
    with 1(4) obtain i rest where idle: "Idle q = i # rest" by (cases "Idle q") auto
    let ?now = "take kMaxCreditsPerBuffer lens" and ?later = "drop kMaxCreditsPerBuffer lens"
    from SendCreditUpdate_ok [OF assms(1) 1(2,3) idle, of ?now l] obtain q1 b1 where
      s1: "SendCreditUpdate svc ?now (s, l) = (Inr (), (s\<lparr>creditBuffers := Some q1\<rparr>, l @ [(Send, b1)]))"
        "decode_credits b1 = ?now" "credit_ready q1" "Idle q1 = rest" by auto
    have "length ?later < length lens" using False by (simp add: kMaxCreditsPerBuffer_def)
    moreover have "batches (length ?later) \<le> length (Idle q1)"
      using 1(4) b idle s1(4) by (simp add: kMaxCreditsPerBuffer_def)
    ultimately obtain q2 bs where
      s2: "announce_buffers svc ?later (s\<lparr>creditBuffers := Some q1\<rparr>, l @ [(Send, b1)])
          = (Inr (), (s\<lparr>creditBuffers := Some q2\<rparr>, (l @ [(Send, b1)]) @ map (Pair Send) bs))"
        "concat (map decode_credits bs) = ?later" "\<forall>b\<in>set bs. length (decode_credits b) \<le> kMaxCreditsPerBuffer"
        "length bs = batches (length ?later)" "credit_ready q2"
      using 1(1) [rule_format, of ?later "s\<lparr>creditBuffers := Some q1\<rparr>" q1 "l @ [(Send, b1)]"] s1(3) by auto
    show ?thesis
      using False s1 s2 b
      by (intro exI [of _ q2] exI [of _ "b1 # bs"])
         (simp add: announce_buffers.simps [of svc lens] kMaxCreditsPerBuffer_def)
  qed
qed

section \<open>Posting the receive buffers\<close>

lemma wait_idle_transfer_ok:
  assumes "transferBuffers s = Some q" and "bq_inv q" and "\<not> IsError (queueStatus q)" and "Idle q = i # rest"
  shows "\<exists>f. wait_idle_transfer svc t (s, c)
      = (Inr i, (s\<lparr>transferBuffers := Some (q\<lparr>idleBuffers := f, userBuffers := User q @ [i]\<rparr>)\<rparr>, c))
    \<and> fifo_list f = rest \<and> bq_inv (q\<lparr>idleBuffers := f, userBuffers := User q @ [i]\<rparr>)"
proof -
  have "fifo_count (idleBuffers q) \<noteq> 0" using inv_rings(1) [OF assms(2)] assms(4) by simp
  with take_idle_ok [OF assms(2-4), of "\<lambda>q. (False, q)" t] assms(1) show ?thesis
    by (auto simp: wait_idle_transfer_def on_transfer_def queue_only_def)
qed

definition receive_ready :: "RdmaBufferQueue \<Rightarrow> bool" where
  "receive_ready q \<longleftrightarrow> bq_inv q \<and> \<not> IsError (queueStatus q) \<and> bq_direction q = Receive"

lemma post_one_receive_ok:
  assumes "records svc" and "transferBuffers s = Some q" and "cs_direction s = Receive"
    and "receive_ready q" and "Idle q = i # rest"
  shows "\<exists>q1 q'. wait_idle_transfer svc 0 (s, l) = (Inr i, (s\<lparr>transferBuffers := Some q1\<rparr>, l))
    \<and> QueueRecvBuffer svc i False (s\<lparr>transferBuffers := Some q1\<rparr>, l)
        = (Inr (), (s\<lparr>transferBuffers := Some q'\<rparr>, l @ [(Receive, buffers q ! i)]))
    \<and> buffers q1 = buffers q \<and> receive_ready q' \<and> buffers q' = buffers q \<and> Idle q' = rest
    \<and> Queued q' = Queued q @ [i]"
proof -
  from assms(4) have inv: "bq_inv q" and ok: "\<not> IsError (queueStatus q)" and dir: "bq_direction q = Receive"
    by (simp_all add: receive_ready_def)
  from wait_idle_transfer_ok [OF assms(2) inv ok assms(5), of svc 0 l] obtain f where
    f: "wait_idle_transfer svc 0 (s, l)
        = (Inr i, (s\<lparr>transferBuffers := Some (q\<lparr>idleBuffers := f, userBuffers := User q @ [i]\<rparr>)\<rparr>, l))"
      "fifo_list f = rest" "bq_inv (q\<lparr>idleBuffers := f, userBuffers := User q @ [i]\<rparr>)" by blast
  let ?q1 = "q\<lparr>idleBuffers := f, userBuffers := User q @ [i]\<rparr>"
  have "\<not> IsError (queueStatus ?q1)" "i \<in> set (User ?q1)" "bq_direction ?q1 \<noteq> Send \<or> IgnoreCredits_No = IgnoreCredits_Yes"
    using ok dir by simp_all
  from QueueBuffer_direct [OF f(3) this] obtain g where
    g: "QueueBuffer_locked i IgnoreCredits_No ?q1 = (Inr True, unlink_user i (?q1\<lparr>queuedBuffers := g\<rparr>))"
      "fifo_list g = Queued q @ [i]" "bq_inv (unlink_user i (?q1\<lparr>queuedBuffers := g\<rparr>))" by auto
  let ?q2 = "unlink_user i (?q1\<lparr>queuedBuffers := g\<rparr>)"
  have "QueueRecvBuffer svc i False (s\<lparr>transferBuffers := Some ?q1\<rparr>, l)
      = (Inr (), (s\<lparr>transferBuffers := Some ?q2\<rparr>, l @ [(Receive, buffers q ! i)]))"
    using assms(1,3) g(1) dir
    by (simp add: QueueRecvBuffer_def cpp_assert_def on_transfer_def QueueBuffer_def record_post_def)
  moreover have "receive_ready ?q2" using g(3) ok dir by (simp add: receive_ready_def)
  ultimately show ?thesis
    using f(1,2) g(2) by (intro exI [of _ ?q1] exI [of _ ?q2]) simp
qed

lemma post_receive_ok:
  assumes "records svc" and "transferBuffers s = Some q" and "cs_direction s = Receive"
    and "receive_ready q" and "k \<le> length (Idle q)"
  shows "\<exists>q'. post_receive_buffers svc k lens (s, l)
      = (Inr (lens @ map (\<lambda>i. bufferSize (buffers q ! i)) (take k (Idle q))),
         (s\<lparr>transferBuffers := Some q'\<rparr>, l @ map (\<lambda>i. (Receive, buffers q ! i)) (take k (Idle q))))
    \<and> receive_ready q' \<and> buffers q' = buffers q \<and> Idle q' = drop k (Idle q) \<and> Queued q' = Queued q @ take k (Idle q)"
  using assms(2-)
proof (induction k arbitrary: s q lens l)
  case 0
  then show ?case by (intro exI [of _ q]) simp
next
  case (Suc k)
  from Suc.prems(4) obtain i rest where idle: "Idle q = i # rest" by (cases "Idle q") auto
  from post_one_receive_ok [OF assms(1) Suc.prems(1-3) idle, of l] obtain q1 q2 where
    one: "wait_idle_transfer svc 0 (s, l) = (Inr i, (s\<lparr>transferBuffers := Some q1\<rparr>, l))"
      "QueueRecvBuffer svc i False (s\<lparr>transferBuffers := Some q1\<rparr>, l)
        = (Inr (), (s\<lparr>transferBuffers := Some q2\<rparr>, l @ [(Receive, buffers q ! i)]))"
      "buffers q1 = buffers q" "receive_ready q2" "buffers q2 = buffers q" "Idle q2 = rest"
      "Queued q2 = Queued q @ [i]" by blast
  from Suc.IH [of "s\<lparr>transferBuffers := Some q2\<rparr>" q2 "lens @ [bufferSize (buffers q ! i)]"
      "l @ [(Receive, buffers q ! i)]"] one(4,6) Suc.prems(2,4) idle obtain q3 where
    rec: "post_receive_buffers svc k (lens @ [bufferSize (buffers q ! i)])
        (s\<lparr>transferBuffers := Some q2\<rparr>, l @ [(Receive, buffers q ! i)])
      = (Inr ((lens @ [bufferSize (buffers q ! i)]) @ map (\<lambda>i. bufferSize (buffers q2 ! i)) (take k (Idle q2))),
         (s\<lparr>transferBuffers := Some q3\<rparr>,
          (l @ [(Receive, buffers q ! i)]) @ map (\<lambda>i. (Receive, buffers q2 ! i)) (take k (Idle q2))))"
      "receive_ready q3" "buffers q3 = buffers q2" "Idle q3 = drop k (Idle q2)"
      "Queued q3 = Queued q2 @ take k (Idle q2)" by auto
  show ?case using one rec idle by (intro exI [of _ q3]) simp
qed

section \<open>Receiving credits\<close>

lemma on_transfer_credit:
  assumes "transferBuffers s = Some q" and "bq_inv q" and "Waiting q = []"
  shows "on_transfer (AddCredit post c) (s, k)
    = (Inr (), (s\<lparr>transferBuffers := Some (q\<lparr>availableCredits := availableCredits q @ [c]\<rparr>)\<rparr>, k))"
  using AddCredit_none(1) [OF assms(2,3), of c] assms(1) by (simp add: on_transfer_def AddCredit_def)

lemma add_credits_unconfigured:
  "transferBuffers s = None \<Longrightarrow> add_credits svc lens (s, c)
     = (Inr (), (s\<lparr>preConfigureCredits := preConfigureCredits s @ lens\<rparr>, c))"
  by (induction lens arbitrary: s) (simp_all add: SessionAddCredit_def)

lemma add_credits_configured:
  assumes "transferBuffers s = Some q" and "bq_inv q" and "Waiting q = []"
  shows "add_credits svc lens (s, c)
     = (Inr (), (s\<lparr>transferBuffers := Some (q\<lparr>availableCredits := availableCredits q @ lens\<rparr>)\<rparr>, c))"
  using assms
proof (induction lens arbitrary: s q)
  case Nil
  then show ?case by simp
next
  case (Cons x lens)
  let ?q = "q\<lparr>availableCredits := availableCredits q @ [x]\<rparr>"
  have "bq_inv ?q" using AddCredit_none(2) [OF Cons.prems(2,3)] .
  with Cons.IH [of "s\<lparr>transferBuffers := Some ?q\<rparr>" ?q] Cons.prems
    on_transfer_credit [OF Cons.prems, of "svc_QueueToQp svc" x c] show ?case
    by (simp add: SessionAddCredit_def)
qed

lemma preconfigure_ok:
  assumes "transferBuffers s = Some q" and "bq_inv q" and "Waiting q = []"
  shows "ProcessPreConfigureCredits_loop svc cs (s\<lparr>preConfigureCredits := cs\<rparr>, c)
     = (Inr (), (s\<lparr>preConfigureCredits := [],
          transferBuffers := Some (q\<lparr>availableCredits := availableCredits q @ cs\<rparr>)\<rparr>, c))"
  using assms
proof (induction cs arbitrary: s q)
  case Nil
  then show ?case by simp
next
  case (Cons x cs)
  let ?q = "q\<lparr>availableCredits := availableCredits q @ [x]\<rparr>"
  have "bq_inv ?q" using AddCredit_none(2) [OF Cons.prems(2,3)] .
  with Cons.IH [of "s\<lparr>transferBuffers := Some ?q\<rparr>" ?q] Cons.prems
    on_transfer_credit [of "s\<lparr>preConfigureCredits := x # cs\<rparr>" q "svc_QueueToQp svc" x c] show ?case
    by simp
qed

end
