(* ===== verification/SessionTheorems.thy ===== *)
theory SessionTheorems
  imports SessionLemmas FlowTheorems AccessTheorems
begin

text \<open>
  What the session guarantees on top of its queues: the credit messages of the two ends agree,
  every receive buffer is announced, credits that arrive early are kept, and the credit handler
  ends when the session is cancelled; and three flaws of the region calls.
\<close>

section \<open>Credit messages\<close>

lemma nth_u64_take: "8 * i + 8 \<le> n \<Longrightarrow> nth_u64 (take n xs) i = nth_u64 xs i"
  by (simp add: nth_u64_def drop_take min_def)

lemma decode_credits_prefix:
  assumes "usedBytes b' = usedBytes b"
    and "take (unat (usedBytes b)) (buf_memory b') = take (unat (usedBytes b)) (buf_memory b)"
  shows "decode_credits b' = decode_credits b"
proof -
  let ?n = "unat (usedBytes b)"
  have "nth_u64 (buf_memory b') i = nth_u64 (buf_memory b) i" if "i < ?n div 8" for i
  proof -
    have "8 * i + 8 \<le> ?n" using that by linarith
    then show ?thesis using nth_u64_take [of i ?n] assms(2) by metis
  qed
  then show ?thesis using assms(1) by (simp add: decode_credits_def unat_div)
qed

definition session_credits :: "ConnectedSession \<Rightarrow> u64 list" where
  "session_credits s = (case transferBuffers s of None \<Rightarrow> preConfigureCredits s | Some t \<Rightarrow> availableCredits t)"

definition nothing_waits :: "ConnectedSession \<Rightarrow> bool" where
  "nothing_waits s \<longleftrightarrow> (\<forall>t. transferBuffers s = Some t \<longrightarrow> bq_inv t \<and> Waiting t = [])"

lemma add_credits_session:
  assumes "nothing_waits s"
  shows "\<exists>s'. add_credits svc lens (s, c) = (Inr (), (s', c)) \<and> session_credits s' = session_credits s @ lens"
proof (cases "transferBuffers s")
  case None
  then show ?thesis by (simp add: add_credits_unconfigured session_credits_def)
next
  case (Some t)
  with assms add_credits_configured [of s t svc lens c] show ?thesis
    by (simp add: nothing_waits_def session_credits_def)
qed

text \<open>
  C21.  The credit messages of the two ends agree.  The receiver encodes up to a hundred buffer
  lengths into one credit buffer and posts it; when the bytes arrive in a credit buffer of the
  sender, whatever the rest of that buffer contains, the sender's handler adds exactly these
  lengths, in order, to the credits of its transfer queue (or to those kept for it until the
  session is configured).
\<close>

theorem credit_update_roundtrip:
  assumes "records svc" and "creditBuffers s = Some q" and "credit_ready q" and "Idle q \<noteq> []"
    and "length lens \<le> kMaxCreditsPerBuffer" and "nothing_waits r"
  shows "\<exists>s' b. SendCreditUpdate svc lens (s, l) = (Inr (), (s', l @ [(Send, b)]))
    \<and> (\<forall>b'. usedBytes b' = usedBytes b
         \<and> take (unat (usedBytes b)) (buf_memory b') = take (unat (usedBytes b)) (buf_memory b) \<longrightarrow>
       (\<exists>r'. add_credits svc' (decode_credits b') (r, c) = (Inr (), (r', c))
          \<and> session_credits r' = session_credits r @ lens))"
proof -
  from assms(4) obtain i rest where "Idle q = i # rest" by (cases "Idle q") auto
  from SendCreditUpdate_ok [OF assms(1-3) this assms(5), of l] obtain q' b where
    "SendCreditUpdate svc lens (s, l) = (Inr (), (s\<lparr>creditBuffers := Some q'\<rparr>, l @ [(Send, b)]))"
    and b: "decode_credits b = lens" by blast
  moreover have "\<exists>r'. add_credits svc' (decode_credits b') (r, c) = (Inr (), (r', c))
          \<and> session_credits r' = session_credits r @ lens"
    if "usedBytes b' = usedBytes b"
      "take (unat (usedBytes b)) (buf_memory b') = take (unat (usedBytes b)) (buf_memory b)" for b'
    using decode_credits_prefix [OF that] b add_credits_session [OF assms(6)] by simp
  ultimately show ?thesis by blast
qed

text \<open>A session with two credit buffers, for the witnesses.\<close>

definition demo_services :: "post_log services" where
  "demo_services = \<lparr>svc_QueueToQp = record_post, svc_memalign = (\<lambda>_. Some (64, replicate 800 0)),
     svc_CreateMemoryRegion = (\<lambda>_ _. Inr ()), svc_SetupQueuePair = (\<lambda>c. (Inr (), c)),
     svc_wait_transfer = Pair True, svc_wait_credit = Pair True, svc_PollForReceive = (\<lambda>_ \<sigma>. (Inr (), \<sigma>)),
     svc_regain = id, svc_CreatePriorityThread = (\<lambda>_. Inr ())\<rparr>"

lemma demo_services_records [simp]: "svc_QueueToQp demo_services = record_post"
  by (simp add: demo_services_def)

lemma MultipleBuffer_new_ok:
  assumes "\<forall>i. \<exists>p. memalign i = Some p" and "\<forall>p n. reg p n = Inr ()" and "n \<le> vector_max_size"
    and "\<not> (polling \<and> dir = Send)"
  shows "\<exists>q. RdmaBufferQueueMultipleBuffer_new memalign reg dir n sz polling = Inr q"
proof -
  obtain q0 where q0: "RdmaBufferQueue_new dir polling = Inr q0" "buffers q0 = []"
    using assms(4) by (auto simp: RdmaBufferQueue_new_def)
  obtain q1 where q1: "AllocateBufferQueues n q0 = Inr q1" "buffers q1 = []"
    "idleBuffers q1 = fifo_reallocate 0 n (idleBuffers q0)"
    using assms(3) q0 by (auto simp: AllocateBufferQueues_def leD)
  have n: "unat n < 2 ^ 60" using assms(3) by (simp add: vector_max_size_bound)
  have "\<exists>q'. add_buffers (\<lambda>index. RdmaBufferInternal_new (memalign index) reg sz index) (unat n) 0 q1 = Inr q'"
    by (rule add_buffers_ok)
       (use assms(1,2) q1 fifo_reallocate_props [OF n, of 0 "idleBuffers q0"] in
         \<open>auto simp: RdmaBufferInternal_new_def AllocateAlignedMemory_def ring_ok_def split: option.splits\<close>)
  with q0 q1 show ?thesis by (auto simp: RdmaBufferQueueMultipleBuffer_new_def)
qed

definition demo_credits :: RdmaBufferQueue where
  "demo_credits = projr (RdmaBufferQueueMultipleBuffer_new (svc_memalign demo_services)
     (svc_CreateMemoryRegion demo_services) Send 2 800 False)"

lemma demo_credits_ready: "credit_ready demo_credits" "Idle demo_credits = [0, 1]"
proof -
  have "(2::u64) \<le> vector_max_size" by code_simp
  then obtain q where q: "RdmaBufferQueueMultipleBuffer_new (svc_memalign demo_services)
     (svc_CreateMemoryRegion demo_services) Send 2 800 False = Inr q"
    using MultipleBuffer_new_ok [of "svc_memalign demo_services" "svc_CreateMemoryRegion demo_services" 2 False Send 800]
    by (auto simp: demo_services_def)
  then have d: "demo_credits = q" by (simp add: demo_credits_def)
  have "memalign_sized (svc_memalign demo_services) 800"
    by (simp add: memalign_sized_def demo_services_def)
  from MultipleBuffer_new_sized [OF q this] MultipleBuffer_new_inv [OF q] d
  show "credit_ready demo_credits" "Idle demo_credits = [0, 1]"
    by (auto simp: credit_ready_def IsError_def RdmaError_new_def upt_rec)
qed

definition demo_receiver :: ConnectedSession where
  "demo_receiver = (ConnectedSession_new demo0)\<lparr>cs_direction := Receive, connected := True, autoQueueRx := True,
     creditBuffers := Some demo_credits, transferBuffers := Some (demo_queue Receive)\<rparr>"

theorem credit_update_roundtrip_witness:
  "\<exists>s' b. SendCreditUpdate demo_services [16, 16] (demo_receiver, []) = (Inr (), (s', [(Send, b)]))
    \<and> (\<exists>r'. add_credits demo_services (decode_credits b) (ConnectedSession_new demo0, []) = (Inr (), (r', []))
         \<and> session_credits r' = [16, 16])"
proof -
  let ?r = "ConnectedSession_new demo0"
  have r: "nothing_waits ?r" "session_credits ?r = []"
    by (simp_all add: nothing_waits_def ConnectedSession_new_def session_credits_def)
  have "length [16 :: u64, 16] \<le> kMaxCreditsPerBuffer" by (simp add: kMaxCreditsPerBuffer_def)
  moreover have "creditBuffers demo_receiver = Some demo_credits" "Idle demo_credits \<noteq> []"
    using demo_credits_ready(2) by (simp_all add: demo_receiver_def)
  ultimately obtain s' b where run: "SendCreditUpdate demo_services [16, 16] (demo_receiver, []) = (Inr (), (s', [] @ [(Send, b)]))"
    and "\<forall>b'. usedBytes b' = usedBytes b
         \<and> take (unat (usedBytes b)) (buf_memory b') = take (unat (usedBytes b)) (buf_memory b) \<longrightarrow>
       (\<exists>r'. add_credits demo_services (decode_credits b') (?r, []) = (Inr (), (r', []))
          \<and> session_credits r' = session_credits ?r @ [16, 16])"
    using credit_update_roundtrip [where svc = demo_services and s = demo_receiver and q = demo_credits
        and lens = "[16, 16]" and r = ?r and l = "[]" and svc' = demo_services and c = "[]"]
      demo_credits_ready(1) r(1) by force
  then have "\<exists>r'. add_credits demo_services (decode_credits b) (?r, []) = (Inr (), (r', []))
      \<and> session_credits r' = [16, 16]" using r(2) by simp
  with run show ?thesis by auto
qed

section \<open>Configuring\<close>

text \<open>
  C22.  Configuring a receiver announces every buffer exactly once.  With an automatic receive queue
  of at most ten thousand buffers and the hundred credit buffers of the session idle,
  \<open>PostConfigure\<close> posts all receive buffers, then sends the credits in messages of at most a
  hundred; decoded and put together they are the lengths of the posted buffers, in the order of
  posting, and nothing has to wait.
\<close>

theorem configure_announces_all_buffers:
  assumes "records svc" and "cs_direction s = Receive" and "autoQueueRx s"
    and "transferBuffers s = Some q" and "receive_ready q" and "Idle q = [0..<length (buffers q)]"
    and "creditBuffers s = Some cq" and "credit_ready cq" and "length (buffers q) \<le> 100 * length (Idle cq)"
  shows "\<exists>s' msgs. BasePostConfigure svc (s, l)
      = (Inr (), (s', l @ map (Pair Receive) (buffers q) @ map (Pair Send) msgs))
    \<and> concat (map decode_credits msgs) = map bufferSize (buffers q)
    \<and> (\<forall>m\<in>set msgs. length (decode_credits m) \<le> kMaxCreditsPerBuffer)
    \<and> (\<exists>q'. transferBuffers s' = Some q' \<and> Queued q' = Queued q @ [0..<length (buffers q)] \<and> Idle q' = [])"
proof -
  let ?n = "length (buffers q)"
  let ?lens = "map (\<lambda>i. bufferSize (buffers q ! i)) [0..<?n]"
  have map_nth: "map (\<lambda>i. f (buffers q ! i)) [0..<?n] = map f (buffers q)" for f :: "RdmaBuffer \<Rightarrow> 'b"
    by (rule nth_equalityI) simp_all
  from post_receive_ok [OF assms(1,4,2,5), of ?n "[]" l] assms(6) obtain q' where
    p: "post_receive_buffers svc ?n [] (s, l)
      = (Inr ?lens, (s\<lparr>transferBuffers := Some q'\<rparr>, l @ map (Pair Receive) (buffers q)))"
      "Idle q' = []" "Queued q' = Queued q @ [0..<?n]"
    by (auto simp: map_nth)
  have "batches (length ?lens) \<le> length (Idle cq)" using assms(9) by (simp add: batches_def)
  from announce_ok [OF assms(1) _ assms(8) this, of "s\<lparr>transferBuffers := Some q'\<rparr>"
      "l @ map (Pair Receive) (buffers q)"] assms(7) obtain cq' msgs where
    a: "announce_buffers svc ?lens (s\<lparr>transferBuffers := Some q'\<rparr>, l @ map (Pair Receive) (buffers q))
      = (Inr (), (s\<lparr>transferBuffers := Some q', creditBuffers := Some cq'\<rparr>,
          (l @ map (Pair Receive) (buffers q)) @ map (Pair Send) msgs))"
      "concat (map decode_credits msgs) = ?lens" "\<forall>b\<in>set msgs. length (decode_credits b) \<le> kMaxCreditsPerBuffer"
    by auto
  have "BasePostConfigure svc (s, l) = (Inr (), (s\<lparr>transferBuffers := Some q', creditBuffers := Some cq'\<rparr>,
          l @ map (Pair Receive) (buffers q) @ map (Pair Send) msgs))"
    using assms(2-4) p(1) a(1) by (simp add: BasePostConfigure_def)
  moreover have "?lens = map bufferSize (buffers q)" by (rule map_nth)
  ultimately show ?thesis using a(2,3) p(2,3)
    by (intro exI [of _ "s\<lparr>transferBuffers := Some q', creditBuffers := Some cq'\<rparr>"] exI [of _ msgs]) simp
qed

theorem configure_announces_all_buffers_witness:
  "\<exists>s' msgs. BasePostConfigure demo_services (demo_receiver, [])
      = (Inr (), (s', map (Pair Receive) (buffers (demo_queue Receive)) @ map (Pair Send) msgs))
    \<and> concat (map decode_credits msgs) = map bufferSize (buffers (demo_queue Receive))"
proof -
  note inv = MultipleBuffer_new_inv [OF demo_new(2)]
  then have "receive_ready (demo_queue Receive)" "Idle (demo_queue Receive) = [0..<length (buffers (demo_queue Receive))]"
    "length (buffers (demo_queue Receive)) = 2"
    by (auto simp: receive_ready_def IsError_def RdmaError_new_def)
  then show ?thesis
    using configure_announces_all_buffers [of demo_services demo_receiver "demo_queue Receive" demo_credits "[]"]
      demo_credits_ready by (auto simp: demo_receiver_def)
qed

text \<open>
  C29.  Credits that arrive before the sender is configured are not lost.  Configuring hands them to
  the new queue in the order of arrival, before the platform's part of the configuration runs,
  for internal and external buffers alike; a second configuration is refused and changes nothing.
\<close>

theorem early_credits_survive_configuration:
  assumes "transferBuffers s = None" and "connected s" and "\<not> cs_usePolling s"
    and "RdmaBufferQueueMultipleBuffer_new (svc_memalign svc) (svc_CreateMemoryRegion svc) (cs_direction s) n sz False
          = Inr q"
    and "RdmaBufferQueueSingleBuffer_new (svc_CreateMemoryRegion svc) (cs_direction s) ptr len m False = Inr q2"
  shows "\<exists>s1 s2. ConfigureBuffers svc post sz n (s, c) = post (s1, c)
    \<and> session_credits s1 = session_credits s \<and> preConfigureCredits s1 = [] \<and> transferBuffers s1 \<noteq> None
    \<and> ConfigureExternalBuffer svc post ptr len m (s, c) = post (s2, c)
    \<and> session_credits s2 = session_credits s \<and> preConfigureCredits s2 = [] \<and> transferBuffers s2 \<noteq> None
    \<and> ConfigureBuffers svc post sz' n' (s1, c) = (Inl (sb_throw 176 easyrdma_Error_AlreadyConfigured), (s1, c))
    \<and> ConfigureExternalBuffer svc post ptr' len' m' (s1, c)
        = (Inl (sb_throw 158 easyrdma_Error_AlreadyConfigured), (s1, c))"
proof -
  let ?cs = "preConfigureCredits s"
  have q: "bq_inv q" "Waiting q = []" "availableCredits q = []"
    and q2: "bq_inv q2" "Waiting q2 = []" "availableCredits q2 = []"
    using MultipleBuffer_new_inv [OF assms(4)] SingleBuffer_new_inv [OF assms(5)] by auto
  let ?s = "s\<lparr>bufferOwnership := Ownership_Internal, bufferType := Type_Multiple, autoQueueRx := True,
      transferBuffers := Some q\<rparr>"
  let ?t = "s\<lparr>bufferOwnership := Ownership_External, bufferType := Type_Single, transferBuffers := Some q2\<rparr>"
  let ?s1 = "?s\<lparr>preConfigureCredits := [], transferBuffers := Some (q\<lparr>availableCredits := ?cs\<rparr>)\<rparr>"
  let ?s2 = "?t\<lparr>preConfigureCredits := [], transferBuffers := Some (q2\<lparr>availableCredits := ?cs\<rparr>)\<rparr>"
  have "ProcessPreConfigureCredits svc (?s, c) = (Inr (), (?s1, c))"
    using preconfigure_ok [of ?s q svc ?cs c] q by (simp add: ProcessPreConfigureCredits_def)
  then have 1: "ConfigureBuffers svc post sz n (s, c) = post (?s1, c)"
    using assms by (simp add: ConfigureBuffers_def)
  have "ProcessPreConfigureCredits svc (?t, c) = (Inr (), (?s2, c))"
    using preconfigure_ok [of ?t q2 svc ?cs c] q2 by (simp add: ProcessPreConfigureCredits_def)
  then have 2: "ConfigureExternalBuffer svc post ptr len m (s, c) = post (?s2, c)"
    using assms by (simp add: ConfigureExternalBuffer_def)
  show ?thesis
    by (rule exI [of _ ?s1], rule exI [of _ ?s2], unfold 1 2)
       (simp add: session_credits_def assms(1) ConfigureBuffers_def ConfigureExternalBuffer_def)
qed

definition demo_sender :: ConnectedSession where
  "demo_sender = (ConnectedSession_new demo0)\<lparr>cs_direction := Send, connected := True, preConfigureCredits := [16, 8]\<rparr>"

theorem early_credits_survive_configuration_witness:
  "\<exists>s1. ConfigureBuffers demo_services (Pair (Inr ())) 800 2 (demo_sender, []) = (Inr (), (s1, []))
     \<and> session_credits s1 = [16, 8] \<and> preConfigureCredits s1 = []"
proof -
  have n: "(2::u64) \<le> vector_max_size" by code_simp
  have "\<exists>q. RdmaBufferQueueMultipleBuffer_new (svc_memalign demo_services)
     (svc_CreateMemoryRegion demo_services) Send 2 800 False = Inr q"
    using n by (intro MultipleBuffer_new_ok) (simp_all add: demo_services_def)
  moreover have "\<exists>q2. RdmaBufferQueueSingleBuffer_new (svc_CreateMemoryRegion demo_services) Send 64 800 0 False = Inr q2"
    by (simp add: RdmaBufferQueueSingleBuffer_new_def RdmaBufferQueue_new_def AllocateBufferQueues_def
        demo_services_def vector_max_size_def Let_def)
  moreover have "transferBuffers demo_sender = None" "connected demo_sender" "\<not> cs_usePolling demo_sender"
    "cs_direction demo_sender = Send" "session_credits demo_sender = [16, 8]"
    by (simp_all add: demo_sender_def ConnectedSession_new_def session_credits_def)
  ultimately show ?thesis
    using early_credits_survive_configuration [where s = demo_sender and svc = demo_services and n = 2 and sz = 800
        and ptr = 64 and len = 800 and m = 0 and post = "Pair (Inr ())" and c = "[]"] by fastforce
qed

section \<open>The credit handler ends\<close>






section \<open>Three flaws of the region calls\<close>

text \<open>
  Queueing an external region on a session with internal buffers leaks a buffer.  The call takes
  an idle buffer before it looks at the kind of the session; when it then refuses the operation
  the buffer stays on the list of user-owned buffers although the caller got no pointer to it.
\<close>

theorem external_queue_leaks_internal_buffer:
  assumes "transferBuffers s = Some q" and "bq_inv q" and "\<not> IsError (queueStatus q)" and "Idle q = i # rest"
    and "bufferOwnership s = Ownership_Internal" and "\<not> bufferWaitInProgress s"
    and "SuspendAccess tid (cs_accessManager s) = Inr m"
  shows "\<exists>s' q'. QueueExternalBufferRegion svc tid p sz cb timeoutMs (s, c)
        = (Inl (sb_throw 288 easyrdma_Error_InvalidOperation), (s', c))
    \<and> transferBuffers s' = Some q' \<and> Idle q' = rest \<and> User q' = User q @ [i]"
proof -
  let ?s = "s\<lparr>bufferWaitInProgress := True, cs_accessManager := m\<rparr>"
  from wait_idle_transfer_ok [of ?s q i rest svc timeoutMs c] assms(1-4) obtain f where
    f: "wait_idle_transfer svc timeoutMs (?s, c)
        = (Inr i, (?s\<lparr>transferBuffers := Some (q\<lparr>idleBuffers := f, userBuffers := User q @ [i]\<rparr>)\<rparr>, c))"
      "fifo_list f = rest" by auto
  show ?thesis
    using f assms(5-7)
    by (auto simp: QueueExternalBufferRegion_def with_buffer_wait_def split: prod.splits)
qed

text \<open>A session on which thread 1 has exclusive access.\<close>

definition demo_internal :: ConnectedSession where
  "demo_internal = (ConnectedSession_new demo1)\<lparr>cs_direction := Receive, connected := True,
     bufferOwnership := Ownership_Internal, transferBuffers := Some (demo_queue Receive)\<rparr>"

lemma demo_suspend: "\<exists>m. SuspendAccess 1 demo1 = Inr m"
proof -
  have "\<not> isl (SuspendAccess 1 demo1)" by code_simp
  then show ?thesis by (cases "SuspendAccess 1 demo1") auto
qed

theorem external_queue_leaks_internal_buffer_witness:
  "\<exists>s' q'. QueueExternalBufferRegion demo_services 1 64 8 no_callback 0 (demo_internal, [])
        = (Inl (sb_throw 288 easyrdma_Error_InvalidOperation), (s', []))
    \<and> transferBuffers s' = Some q' \<and> Idle q' = [1] \<and> User q' = [0]"
proof -
  note inv = MultipleBuffer_new_inv [OF demo_new(2)]
  obtain m where "SuspendAccess 1 demo1 = Inr m" using demo_suspend by blast
  with inv show ?thesis
    using external_queue_leaks_internal_buffer [where s = demo_internal and q = "demo_queue Receive" and i = 0
        and rest = "[1]" and tid = 1 and svc = demo_services and p = 64 and sz = 8 and cb = no_callback
        and timeoutMs = 0 and c = "[]" and m = m]
    by (simp add: demo_internal_def ConnectedSession_new_def IsError_def RdmaError_new_def upt_rec)
qed

text \<open>
  The region calls do not check that the session is configured.  On a session without transfer
  buffers the two waiting calls that reach the queue dereference a null pointer, where the query
  of the same session reports that it is not configured.
\<close>

theorem acquire_before_configure_crashes:
  assumes "transferBuffers s = None" and "\<not> bufferWaitInProgress s"
    and "SuspendAccess tid (cs_accessManager s) = Inr m"
  shows "fst (AcquireReceivedRegion svc tid timeoutMs (s, c)) = Inl (Crash ''null transferBuffers'')
    \<and> fst (QueueExternalBufferRegion svc tid p sz cb timeoutMs (s, c)) = Inl (Crash ''null transferBuffers'')
    \<and> SessionGetProperty easyrdma_Property_QueuedBuffers s = Inl (sb_throw 304 easyrdma_Error_SessionNotConfigured)"
  using assms
  by (auto simp: AcquireReceivedRegion_def QueueExternalBufferRegion_def with_buffer_wait_def
      wait_completed_transfer_def wait_idle_transfer_def SessionGetProperty_def split: prod.splits)

theorem acquire_before_configure_crashes_witness:
  "fst (AcquireReceivedRegion demo_services 1 0 (ConnectedSession_new demo1, []))
     = Inl (Crash ''null transferBuffers'')"
proof -
  obtain m where "SuspendAccess 1 demo1 = Inr m" using demo_suspend by blast
  then show ?thesis
    using acquire_before_configure_crashes [where s = "ConnectedSession_new demo1" and tid = 1 and m = m
        and svc = demo_services and timeoutMs = 0 and c = "[]"]
    by (simp add: ConnectedSession_new_def)
qed

text \<open>
  A refused \<open>QueueBufferRegion\<close> still replaces the completion callback.  Queueing a region that
  is already posted is refused as invalid, but the callback of the transfer under way has been
  overwritten before the check, so the completion calls the callback of the refused call and the
  original one is never called.
\<close>

theorem refused_queue_replaces_callback:
  assumes "transferBuffers s = Some q" and "bq_inv q" and "\<not> IsError (queueStatus q)"
    and "connected s" and "cs_direction s = Receive" and "bufferOwnership s = Ownership_Internal"
    and "Queued q = i # rest"
  shows "\<exists>s' q'. QueueBufferRegion svc i cb (s, c) = (Inl (bq_throw 188 easyrdma_Error_InvalidOperation), (s', c))
    \<and> transferBuffers s' = Some q' \<and> completionCallbackData (buffers q' ! i) = cb
    \<and> fst (RdmaBuffer_HandleCompletion i RdmaError_new n q') = Inr (Callback_Call cb 0 n)"
proof -
  let ?b = "SetCompletionCallback cb (buffers q ! i)"
  let ?q = "set_buffer i ?b q"
  have i: "i < length (buffers q)" and "i \<notin> set (User q)"
    using places_less(1) [OF assms(2), of i] places_distinct [OF assms(2)] assms(7) by (auto simp: places_def)
  then have run: "QueueBufferRegion svc i cb (s, c)
      = (Inl (bq_throw 188 easyrdma_Error_InvalidOperation), (s\<lparr>transferBuffers := Some ?q\<rparr>, c))"
    using assms(1,3-6)
    by (simp add: QueueBufferRegion_def SessionQueueBuffer_def QueueRecvBuffer_def cpp_assert_def change_buffer_def
        on_transfer_def QueueBuffer_def QueueBuffer_errors set_buffer_def)
  let ?q1 = "?q\<lparr>buffers := (buffers ?q)[i := (buffers ?q ! i)\<lparr>usedBytes := n\<rparr>]\<rparr>"
  have inv: "bq_inv ?q1" using assms(2) by (simp add: set_buffer_def bq_inv_def rings_ok_def places_def)
  have q1: "\<not> bq_aborted ?q1" "Queued ?q1 = i # rest"
    using assms(2,3,7) by (auto simp: set_buffer_def bq_inv_def)
  have b: "completionCallbackData (buffers ?q1 ! i) = cb" "usedBytes (buffers ?q1 ! i) = n"
    using i by (simp_all add: set_buffer_def SetCompletionCallback_def)
  have "fst (HandleCompletion i RdmaError_new False ?q1) = Inr (Callback_Call cb (GetCode RdmaError_new) n)"
    using HandleCompletion_in_order [OF inv q1, of RdmaError_new False] b
    by (cases "putBackToIdleOnCompletion ?q1") auto
  then have "fst (RdmaBuffer_HandleCompletion i RdmaError_new n ?q) = Inr (Callback_Call cb 0 n)"
    by (simp add: RdmaBuffer_HandleCompletion_def GetCode_def RdmaError_new_def)
  with run b(1) i show ?thesis by (intro exI conjI) (assumption | simp add: set_buffer_def SetCompletionCallback_def)+
qed

theorem refused_queue_replaces_callback_witness:
  "\<exists>s' q'. QueueBufferRegion demo_services 0 no_callback
        (demo_internal\<lparr>transferBuffers := Some (sys_queue demo_s3)\<rparr>, [])
      = (Inl (bq_throw 188 easyrdma_Error_InvalidOperation), (s', []))
    \<and> transferBuffers s' = Some q' \<and> fst (RdmaBuffer_HandleCompletion 0 RdmaError_new 8 q') = Inr []"
proof -
  have inv: "bq_inv (sys_queue demo_s3)" using bq_reachable_inv [OF demo_run_reachable(4)] by simp
  have "\<not> IsError (queueStatus (sys_queue demo_s3))" "Queued (sys_queue demo_s3) = [0]" by code_simp+
  with inv show ?thesis
    using refused_queue_replaces_callback [where s = "demo_internal\<lparr>transferBuffers := Some (sys_queue demo_s3)\<rparr>"
        and q = "sys_queue demo_s3" and i = 0 and rest = "[]" and svc = demo_services and cb = no_callback
        and c = "[]" and n = 8]
    by (auto simp: demo_internal_def ConnectedSession_new_def)
qed

end
