(* ===== verification/Backend.thy ===== *)
theory Backend
  imports SessionBase
begin

text \<open>
  The interface between the portable session (\<^verbatim>\<open>common/RdmaConnectedSessionBase.cpp\<close>) and the platform
  below it.  The base class reaches the connection only through its virtual functions, so whatever
  those keep of the connection, every operation of a session keeps.  The locale \<open>backend\<close> states
  this once; the Linux and the Windows session interpret it with what they own of the platform's
  resources.
\<close>

section \<open>Operations that keep a predicate\<close>

definition keeps :: "('c \<Rightarrow> bool) \<Rightarrow> ('c \<Rightarrow> ('e, 'a, 'c) outcome) \<Rightarrow> bool" where
  "keeps P f \<longleftrightarrow> (\<forall>c. P c \<longrightarrow> P (snd (f c)))"

lemma keepsI [intro]: "(\<And>c. P c \<Longrightarrow> P (snd (f c))) \<Longrightarrow> keeps P f"
  by (simp add: keeps_def)

lemma keepsD: "keeps P f \<Longrightarrow> P c \<Longrightarrow> f c = (r, c') \<Longrightarrow> P c'"
  by (metis keeps_def snd_conv)

lemma keeps_snd: "keeps P f \<Longrightarrow> P c \<Longrightarrow> P (snd (f c))"
  by (simp add: keeps_def)

lemma keeps_bind: "keeps P f \<Longrightarrow> (\<And>a. keeps P (g a)) \<Longrightarrow> keeps P (\<lambda>c. bind_out (f c) g)"
  by (force simp: keeps_def bind_out_def split: prod.splits sum.splits)

lemma keeps_if: "keeps P f \<Longrightarrow> keeps P g \<Longrightarrow> keeps P (\<lambda>c. if b c then f c else g c)"
  by (simp add: keeps_def)

lemma keeps_const: "keeps P (\<lambda>c. (r c, c))"
  by (simp add: keeps_def)

lemma keeps_checked_first:
  assumes "keeps P f"
  shows "keeps P (\<lambda>c. case chk c of Inl e \<Rightarrow> (Inl e, c) | Inr _ \<Rightarrow> f c)"
  using assms by (auto simp: keeps_def split: sum.split)

text \<open>An operation of a session keeps a predicate on its connection.\<close>

abbreviation keeps_conn :: "('c \<Rightarrow> bool) \<Rightarrow> ('c, 'a) session_op \<Rightarrow> bool" where
  "keeps_conn P f \<equiv> keeps (\<lambda>\<sigma>. P (snd \<sigma>)) f"

lemma keeps_conn_update: "keeps_conn P f \<Longrightarrow> keeps_conn P (\<lambda>(s, c). f (u s, c))"
  by (simp add: keeps_def)

lemma keeps_on_credit:
  "(\<And>q c. P c \<Longrightarrow> P (snd (snd (f (q, c))))) \<Longrightarrow> keeps_conn P (on_credit f)"
  by (simp add: on_credit_def keeps_def split: option.splits prod.splits) (metis snd_conv)

lemma keeps_on_transfer:
  "(\<And>q c. P c \<Longrightarrow> P (snd (snd (f (q, c))))) \<Longrightarrow> keeps_conn P (on_transfer f)"
  by (simp add: on_transfer_def keeps_def split: option.splits prod.splits) (metis snd_conv)

lemma keeps_credit_queue: "keeps_conn P (on_credit (queue_only f))"
  by (rule keeps_on_credit) (auto simp: queue_only_def split: prod.splits)

lemma keeps_transfer_waited: "keeps_conn P (on_transfer (\<lambda>(q, c). case f q of (r, q') \<Rightarrow> (r, (q', c))))"
  by (rule keeps_on_transfer) (simp split: prod.split)

lemma keeps_transfer_queue: "keeps_conn P (on_transfer (queue_only f))"
  by (rule keeps_on_transfer) (auto simp: queue_only_def split: prod.splits)

section \<open>The interface\<close>

locale backend =
  fixes svc :: "'c services" and P :: "'c \<Rightarrow> bool"
  assumes post_keeps: "keeps P (svc_QueueToQp svc dir i b)"
    and setup_keeps: "keeps P (svc_SetupQueuePair svc)"
    and wait_keeps: "P (snd \<sigma>) \<Longrightarrow> P (snd (snd (svc_wait_transfer svc \<sigma>)))"
    and poll_keeps: "keeps_conn P (svc_PollForReceive svc timeoutMs)"
begin

lemma posting:
  assumes "P c"
  shows "P (snd (snd (QueueBuffer (svc_QueueToQp svc) i ig (q, c))))" and "P (snd (snd (AddCredit (svc_QueueToQp svc) sz (q, c))))"
  using post_keeps assms unfolding keeps_def
  by (simp_all add: QueueBuffer_def AddCredit_def case_prod_unfold split: sum.split option.split)

lemma credit_post: "keeps_conn P (on_credit (QueueBuffer (svc_QueueToQp svc) i ig))"
  by (rule keeps_on_credit) (rule posting)

lemma transfer_post: "keeps_conn P (on_transfer (QueueBuffer (svc_QueueToQp svc) i ig))"
  by (rule keeps_on_transfer) (rule posting)

lemma transfer_credit: "keeps_conn P (on_transfer (AddCredit (svc_QueueToQp svc) sz))"
  by (rule keeps_on_transfer) (rule posting)

lemma post_credit_buffers_keeps: "keeps_conn P (post_credit_buffers svc n)"
proof (induction n)
  case 0
  then show ?case by (simp add: keeps_def)
next
  case (Suc n)
  then show ?case unfolding post_credit_buffers.simps by (intro keeps_bind keeps_credit_queue credit_post)
qed

lemma PreConnect_keeps: "keeps_conn P (PreConnect svc dir)"
proof
  fix \<sigma> :: "ConnectedSession \<times> 'c" assume "P (snd \<sigma>)"
  obtain s c where \<sigma>: "\<sigma> = (s, c)" by (cases \<sigma>)
  obtain r c' where sq: "svc_SetupQueuePair svc c = (r, c')" by (cases "svc_SetupQueuePair svc c")
  with keepsD [OF setup_keeps] \<open>P (snd \<sigma>)\<close> \<sigma> have "P c'" by simp
  moreover have "keeps_conn P (\<lambda>\<sigma>. bind_out (post_credit_buffers svc n \<sigma>) (\<lambda>_ (s, c).
      case svc_CreatePriorityThread svc ''AckHandler'' of Inl e \<Rightarrow> (Inl e, (s, c)) | Inr _ \<Rightarrow> (Inr (), (s\<lparr>ackHandler := True\<rparr>, c))))" for n
    by (intro keeps_bind post_credit_buffers_keeps) (simp add: keeps_def split: sum.split)
  ultimately show "P (snd (snd (PreConnect svc dir \<sigma>)))"
    by (simp add: PreConnect_def \<sigma> sq Let_def keeps_def split: sum.splits)
qed

lemma SessionAddCredit_keeps: "keeps_conn P (SessionAddCredit svc sz)"
  using transfer_credit by (auto simp: SessionAddCredit_def keeps_def split: option.splits)

lemma add_credits_keeps: "keeps_conn P (add_credits svc szs)"
proof (induction szs)
  case Nil
  then show ?case by (simp add: keeps_def)
next
  case (Cons sz szs)
  then show ?case unfolding add_credits.simps by (intro keeps_bind SessionAddCredit_keeps)
qed

lemma AckHandler_iteration_keeps: "keeps_conn P (AckHandler_iteration svc)"
proof -
  have "keeps_conn P (\<lambda>\<sigma>. add_credits svc (f \<sigma>) \<sigma>)" for f
    using add_credits_keeps unfolding keeps_def by blast
  then show ?thesis
    unfolding AckHandler_iteration_def by (intro keeps_bind keeps_credit_queue credit_post)
qed

lemma AckHandlerThread_keeps: "P (snd \<sigma>) \<Longrightarrow> P (snd (snd (AckHandlerThread svc n \<sigma>)))"
proof (induction n arbitrary: \<sigma>)
  case (Suc n)
  obtain r \<sigma>1 where it: "AckHandler_iteration svc \<sigma> = (r, \<sigma>1)" by (cases "AckHandler_iteration svc \<sigma>")
  from keepsD [OF AckHandler_iteration_keeps Suc.prems it] Suc show ?case by (simp add: it split: sum.split)
qed simp

lemma SendCreditUpdate_keeps: "keeps_conn P (SendCreditUpdate svc lengths)"
  unfolding SendCreditUpdate_def
  by (intro keeps_checked_first keeps_bind keeps_credit_queue credit_post)

lemma QueueRecvBuffer_keeps: "keeps_conn P (QueueRecvBuffer svc i b)"
proof -
  have "keeps_conn P (\<lambda>\<sigma>. SendCreditUpdate svc (f \<sigma>) \<sigma>)" for f
    using SendCreditUpdate_keeps unfolding keeps_def by blast
  then show ?thesis
    unfolding QueueRecvBuffer_def by (intro keeps_checked_first keeps_bind keeps_if keeps_const transfer_post)
qed

lemma SessionQueueBuffer_keeps: "keeps_conn P (SessionQueueBuffer svc i)"
  unfolding SessionQueueBuffer_def QueueSendBuffer_def
  by (intro keeps_if keeps_const QueueRecvBuffer_keeps keeps_checked_first transfer_post)

lemma wait_idle_keeps: "keeps_conn P (wait_idle_transfer svc timeoutMs)"
proof
  fix \<sigma> :: "ConnectedSession \<times> 'c" assume own: "P (snd \<sigma>)"
  obtain s c where \<sigma>: "\<sigma> = (s, c)" by (cases \<sigma>)
  obtain timeout \<sigma>1 where w: "svc_wait_transfer svc (s, c) = (timeout, \<sigma>1)" by (cases "svc_wait_transfer svc (s, c)")
  with wait_keeps [OF own] \<sigma> have "P (snd \<sigma>1)" by simp
  note kept = keeps_snd [OF keeps_transfer_waited [of P], OF this] keeps_snd [OF keeps_transfer_queue [of P], OF own, unfolded \<sigma>]
  from own show "P (snd (snd (wait_idle_transfer svc timeoutMs \<sigma>)))"
    by (simp add: wait_idle_transfer_def \<sigma> w kept split: option.split)
qed

lemma wait_completed_keeps: "keeps_conn P (wait_completed_transfer svc timeoutMs)"
proof
  fix \<sigma> :: "ConnectedSession \<times> 'c" assume own: "P (snd \<sigma>)"
  obtain s c where \<sigma>: "\<sigma> = (s, c)" by (cases \<sigma>)
  obtain timeout \<sigma>1 where w: "svc_wait_transfer svc (s, c) = (timeout, \<sigma>1)" by (cases "svc_wait_transfer svc (s, c)")
  obtain r \<sigma>2 where p: "svc_PollForReceive svc timeoutMs (s, c) = (r, \<sigma>2)" by (cases "svc_PollForReceive svc timeoutMs (s, c)")
  have "P (snd \<sigma>1)" "P (snd \<sigma>2)" using wait_keeps [OF own] keepsD [OF poll_keeps _ p] own \<sigma> w by simp_all
  note kept = this [THEN keeps_snd [OF keeps_transfer_waited [of P]]] keeps_snd [OF keeps_transfer_queue [of P], OF own, unfolded \<sigma>]
  from own show "P (snd (snd (wait_completed_transfer svc timeoutMs \<sigma>)))"
    by (simp add: wait_completed_transfer_def \<sigma> w p kept split: option.split)
qed

lemma ProcessPreConfigureCredits_keeps: "keeps_conn P (ProcessPreConfigureCredits svc)"
proof -
  have "keeps_conn P (ProcessPreConfigureCredits_loop svc szs)" for szs
  proof (induction szs)
    case (Cons sz szs)
    then show ?case unfolding ProcessPreConfigureCredits_loop.simps by (intro keeps_bind transfer_credit keeps_conn_update)
  qed (simp add: keeps_def)
  then show ?thesis unfolding ProcessPreConfigureCredits_def keeps_def by blast
qed

lemma post_receive_buffers_keeps: "keeps_conn P (post_receive_buffers svc n lengths)"
proof (induction n arbitrary: lengths)
  case 0
  then show ?case by (simp add: keeps_def)
next
  case (Suc n)
  have "keeps_conn P (\<lambda>\<sigma>. bind_out (QueueRecvBuffer svc i False \<sigma>) (\<lambda>_ \<sigma>'. post_receive_buffers svc n (f \<sigma>) \<sigma>'))" for i f
  proof -
    have "keeps_conn P (\<lambda>\<sigma>. bind_out (QueueRecvBuffer svc i False \<sigma>) (\<lambda>_ \<sigma>'. post_receive_buffers svc n ls \<sigma>'))" for ls
      by (intro keeps_bind QueueRecvBuffer_keeps Suc)
    then show ?thesis unfolding keeps_def by blast
  qed
  then show ?case unfolding post_receive_buffers.simps by (intro keeps_bind wait_idle_keeps)
qed

lemma announce_buffers_keeps: "keeps_conn P (announce_buffers svc lengths)"
proof (induction "length lengths" arbitrary: lengths rule: less_induct)
  case less
  show ?case
  proof (cases "lengths = []")
    case False
    then have "length (drop kMaxCreditsPerBuffer lengths) < length lengths" by (simp add: kMaxCreditsPerBuffer_def)
    from keeps_bind [OF SendCreditUpdate_keeps less [OF this]] False show ?thesis
      by (simp add: keeps_def announce_buffers.simps [of svc lengths])
  qed (simp add: keeps_def announce_buffers.simps)
qed

lemma BasePostConfigure_keeps: "keeps_conn P (BasePostConfigure svc)"
proof -
  have "keeps_conn P (\<lambda>\<sigma>. bind_out (post_receive_buffers svc n [] \<sigma>) (\<lambda>lengths \<sigma>. announce_buffers svc lengths \<sigma>))" for n
    by (intro keeps_bind post_receive_buffers_keeps announce_buffers_keeps)
  then show ?thesis by (simp add: BasePostConfigure_def keeps_def split: option.split)
qed

lemma Configure_keeps:
  assumes "keeps_conn P post"
  shows "keeps_conn P (ConfigureBuffers svc post sz n)" and "keeps_conn P (ConfigureExternalBuffer svc post buffer sz n)"
proof -
  have "keeps_conn P (\<lambda>\<sigma>. bind_out (ProcessPreConfigureCredits svc \<sigma>) (\<lambda>_. post))"
    by (intro keeps_bind ProcessPreConfigureCredits_keeps assms)
  then show "keeps_conn P (ConfigureBuffers svc post sz n)" and "keeps_conn P (ConfigureExternalBuffer svc post buffer sz n)"
    by (simp_all add: ConfigureBuffers_def ConfigureExternalBuffer_def keeps_def Let_def split: sum.split)
qed

lemma with_buffer_wait_keeps:
  assumes "keeps_conn P body"
  shows "keeps_conn P (with_buffer_wait svc tid body)"
  using assms by (simp add: with_buffer_wait_def keeps_def Let_def case_prod_unfold split: sum.split)

lemma Acquire_keeps:
  "keeps_conn P (AcquireSendRegion svc tid timeoutMs)" "keeps_conn P (AcquireReceivedRegion svc tid timeoutMs)"
  unfolding AcquireSendRegion_def AcquireReceivedRegion_def
  by (intro keeps_if keeps_const with_buffer_wait_keeps wait_idle_keeps wait_completed_keeps)+

lemma Queue_keeps:
  "keeps_conn P (QueueBufferRegion svc i cb)" "keeps_conn P (QueueExternalBufferRegion svc tid p sz cb timeoutMs)"
proof -
  have queue: "keeps_conn P (\<lambda>(s, c). if b s then (Inl e, (s, c)) else SessionQueueBuffer svc i (u s, c))" for b e u i
    using SessionQueueBuffer_keeps [of i] by (simp add: keeps_def)
  show "keeps_conn P (QueueBufferRegion svc i cb)" unfolding QueueBufferRegion_def by (rule queue)
  show "keeps_conn P (QueueExternalBufferRegion svc tid p sz cb timeoutMs)"
    unfolding QueueExternalBufferRegion_def by (intro with_buffer_wait_keeps keeps_bind wait_idle_keeps queue)
qed

end

section \<open>What a user may do with a session\<close>

text \<open>
  The calls a connected session takes between construction and destruction, on any thread and with
  any arguments, and the credit handler thread; \<open>post\<close> is the platform's \<open>PostConfigure\<close>.
\<close>

inductive session_call :: "'c services \<Rightarrow> ('c, unit) session_op \<Rightarrow>
    ConnectedSession \<times> 'c \<Rightarrow> ConnectedSession \<times> 'c \<Rightarrow> bool" for svc post where
  call_ConfigureBuffers: "session_call svc post \<sigma> (snd (ConfigureBuffers svc post sz n \<sigma>))"
| call_ConfigureExternalBuffer: "session_call svc post \<sigma> (snd (ConfigureExternalBuffer svc post buffer sz n \<sigma>))"
| call_AcquireSendRegion: "session_call svc post \<sigma> (snd (AcquireSendRegion svc tid timeoutMs \<sigma>))"
| call_AcquireReceivedRegion: "session_call svc post \<sigma> (snd (AcquireReceivedRegion svc tid timeoutMs \<sigma>))"
| call_QueueBufferRegion: "session_call svc post \<sigma> (snd (QueueBufferRegion svc i cb \<sigma>))"
| call_QueueExternalBufferRegion: "session_call svc post \<sigma> (snd (QueueExternalBufferRegion svc tid p sz cb timeoutMs \<sigma>))"
| call_Requeue: "session_call svc post \<sigma> (snd (Requeue svc i \<sigma>))"
| call_Release: "session_call svc post \<sigma> (snd (RegionRelease i \<sigma>))"
| call_SetProperty: "session_call svc post (s, c) (snd (SessionSetProperty pid val s), c)"
| call_Cancel: "BaseCancel s = Inr (calls, s') \<Longrightarrow> session_call svc post (s, c) (s', c)"
| call_AckHandler: "session_call svc post \<sigma> (snd (AckHandlerThread svc n \<sigma>))"

context backend
begin

text \<open>Whatever the user does, the connection keeps what the services keep of it.\<close>

lemma session_call_keeps:
  assumes "session_call svc post \<sigma> \<sigma>'" and "keeps_conn P post" and "P (snd \<sigma>)"
  shows "P (snd \<sigma>')"
proof -
  note kept = Configure_keeps [OF assms(2)] Acquire_keeps Queue_keeps SessionQueueBuffer_keeps keeps_transfer_queue
  from assms(1) show ?thesis
  proof cases
    case (call_SetProperty s pid val c)
    with assms(3) show ?thesis by simp
  next
    case (call_Cancel s calls s' c)
    with assms(3) show ?thesis by simp
  qed (simp_all add: kept Requeue_def RegionRelease_def keeps_snd [where P = "\<lambda>\<sigma>. P (snd \<sigma>)", OF _ assms(3)] AckHandlerThread_keeps [OF assms(3)])
qed

end

end
