(* ===== verification/Address.thy ===== *)
theory Address
  imports Errors Endian
begin

text \<open>
  Socket addresses (\<^verbatim>\<open>core/common/RdmaAddress.h\<close>) and the enumeration of the local RDMA interfaces
  (\<^verbatim>\<open>core/linux/RdmaEnumeration.cpp\<close>).  An address is the 128 bytes of a \<open>sockaddr_storage\<close> in
  the layout of the Linux ABI on a little-endian host: family at offset 0 (host order), port at
  offset 2 (network order), the IPv4 address at offset 4, the IPv6 address at offset 8 and its
  scope id at offset 24 (host order).  \<open>getaddrinfo\<close>, \<open>inet_ntop\<close> and the interface tables of
  the operating system are arguments.
\<close>

section \<open>Strings\<close>

definition is_digit :: "char \<Rightarrow> bool" where
  "is_digit c \<longleftrightarrow> 48 \<le> (of_char c :: nat) \<and> (of_char c :: nat) \<le> 57"

definition is_space :: "char \<Rightarrow> bool" where
  "is_space c \<longleftrightarrow> (of_char c :: nat) \<in> {9, 10, 11, 12, 13, 32}"

fun digit_value :: "nat \<Rightarrow> char \<Rightarrow> nat option" where
  "digit_value base c =
     (let n = (of_char c :: nat);
          v = (if 48 \<le> n \<and> n \<le> 57 then n - 48
               else if 97 \<le> n \<and> n \<le> 122 then n - 87
               else if 65 \<le> n \<and> n \<le> 90 then n - 55 else base)
      in if v < base then Some v else None)"

declare digit_value.simps [simp del]

fun read_digits :: "nat \<Rightarrow> nat \<Rightarrow> string \<Rightarrow> nat" where
  "read_digits base acc [] = acc"
| "read_digits base acc (c # cs) =
     (case digit_value base c of None \<Rightarrow> acc | Some d \<Rightarrow> read_digits base (acc * base + d) cs)"

text \<open>\<open>std::stoi\<close>: white space, a sign, the prefix \<open>0x\<close> in base 16, digits; the rest is ignored.\<close>

definition stoi :: "nat \<Rightarrow> string \<Rightarrow> exn + int" where
  "stoi base s =
     (let s = dropWhile is_space s;
          neg = (s \<noteq> [] \<and> hd s = CHR ''-'');
          s = (if s \<noteq> [] \<and> (hd s = CHR ''-'' \<or> hd s = CHR ''+'') then tl s else s);
          s = (if base = 16 \<and> (take 2 s = ''0x'' \<or> take 2 s = ''0X'')
                  \<and> 2 < length s \<and> digit_value 16 (s ! 2) \<noteq> None then drop 2 s else s)
      in if s = [] \<or> digit_value base (hd s) = None then Inl StdException
         else let v = (if neg then - int (read_digits base 0 s) else int (read_digits base 0 s))
              in if - (2 ^ 31) \<le> v \<and> v < 2 ^ 31 then Inr v else Inl StdException)"

section \<open>Addresses\<close>

record RdmaAddress =
  address :: "u8 list"

definition AF_UNSPEC :: int where "AF_UNSPEC = 0"
definition AF_INET :: int where "AF_INET = 2"
definition AF_INET6 :: int where "AF_INET6 = 10"

definition RdmaAddress_h :: string where "RdmaAddress_h = ''core/common/RdmaAddress.h''"

definition sizeof_storage :: nat where "sizeof_storage = 128"

definition RdmaAddress_new :: RdmaAddress where
  "RdmaAddress_new = \<lparr>address = replicate sizeof_storage 0\<rparr>"

definition bytes_at :: "nat \<Rightarrow> nat \<Rightarrow> u8 list \<Rightarrow> u8 list" where
  "bytes_at i n bs = take n (drop i bs)"

definition store_at :: "nat \<Rightarrow> u8 list \<Rightarrow> u8 list \<Rightarrow> u8 list" where
  "store_at i xs bs = take i bs @ xs @ drop (i + length xs) bs"

definition sa_family :: "u8 list \<Rightarrow> int" where
  "sa_family sa = int (unat (decode_be (rev (bytes_at 0 2 sa)) :: u16))"

definition GetProtocol :: "RdmaAddress \<Rightarrow> int" where
  "GetProtocol a = sa_family (address a)"

definition GetAddrSize :: "u8 list \<Rightarrow> nat" where
  "GetAddrSize sa = (if sa_family sa = AF_INET then 16 else if sa_family sa = AF_INET6 then 28 else 0)"

definition AddrGetSize :: "RdmaAddress \<Rightarrow> nat" where
  "AddrGetSize a = GetAddrSize (address a)"

text \<open>From a socket address of the operating system.\<close>

definition RdmaAddress_of_sockaddr :: "u8 list \<Rightarrow> RdmaAddress" where
  "RdmaAddress_of_sockaddr sa = \<lparr>address = store_at 0 (take (GetAddrSize sa) sa) (address RdmaAddress_new)\<rparr>"

text \<open>\<open>std::regex_match\<close> of the whole string against \<open>(%[0-9]+)$\<close>.\<close>

definition scope_id_match :: "string \<Rightarrow> bool" where
  "scope_id_match s \<longleftrightarrow> s \<noteq> [] \<and> hd s = CHR ''%'' \<and> tl s \<noteq> [] \<and> list_all is_digit (tl s)"

definition sin6_scope_id :: "u8 list \<Rightarrow> u32" where
  "sin6_scope_id sa = decode_be (rev (bytes_at 24 4 sa))"

definition store_scope_id :: "u32 \<Rightarrow> u8 list \<Rightarrow> u8 list" where
  "store_scope_id scopeId = store_at 24 (rev (encode_be 4 scopeId))"

text \<open>\<open>getaddrinfo\<close> gives the first socket address it finds for the host and service, or fails.\<close>

definition RdmaAddress_parse :: "(string \<Rightarrow> string \<Rightarrow> u8 list option) \<Rightarrow> string \<Rightarrow> u16 \<Rightarrow> exn + RdmaAddress" where
  "RdmaAddress_parse getaddrinfo addr port =
     (let scopeId = (if scope_id_match addr then addr else '''') in
      case getaddrinfo addr (int_to_string (int (unat port))) of
        None \<Rightarrow> Inl (RDMA_THROW RdmaAddress_h 54 easyrdma_Error_InvalidAddress)
      | Some ai_addr \<Rightarrow>
          let a = store_at 0 (take (min (length ai_addr) sizeof_storage) ai_addr) (address RdmaAddress_new) in
          if scopeId \<noteq> [] then
            if sa_family a = AF_INET6
            then bind_res (stoi 10 scopeId) (\<lambda>v. Inr \<lparr>address = store_scope_id (of_int v) a\<rparr>)
            else Inl (RDMA_THROW RdmaAddress_h 64 easyrdma_Error_InvalidAddress)
          else Inr \<lparr>address = a\<rparr>)"

definition is_link_local :: "u8 list \<Rightarrow> bool" where
  "is_link_local sa \<longleftrightarrow> sa ! 8 = 0xFE \<and> sa ! 9 AND 0xC0 = 0x80"

definition IsIpV6LinkLocal :: "RdmaAddress \<Rightarrow> bool" where
  "IsIpV6LinkLocal a \<longleftrightarrow> GetProtocol a = AF_INET6 \<and> is_link_local (address a)"

definition SockAddrToIpAddrString :: "(int \<Rightarrow> u8 list \<Rightarrow> string) \<Rightarrow> u8 list \<Rightarrow> exn + string" where
  "SockAddrToIpAddrString inet_ntop sa =
     (if sa_family sa = AF_INET then Inr (inet_ntop AF_INET (bytes_at 4 4 sa))
      else if sa_family sa = AF_INET6 then
        Inr (inet_ntop AF_INET6 (bytes_at 8 16 sa)
             @ (if is_link_local sa \<and> sin6_scope_id sa \<noteq> 0
                then ''%'' @ int_to_string (int (unat (sin6_scope_id sa))) else ''''))
      else if sa_family sa = AF_UNSPEC then Inr ''*''
      else Inl (RDMA_THROW RdmaAddress_h 138 easyrdma_Error_InvalidArgument))"

definition GetAddrString :: "(int \<Rightarrow> u8 list \<Rightarrow> string) \<Rightarrow> RdmaAddress \<Rightarrow> exn + string" where
  "GetAddrString inet_ntop a = SockAddrToIpAddrString inet_ntop (address a)"

definition GetPort :: "RdmaAddress \<Rightarrow> exn + u16" where
  "GetPort a =
     (if GetProtocol a = AF_INET \<or> GetProtocol a = AF_INET6 then Inr (decode_be (bytes_at 2 2 (address a)))
      else if GetProtocol a = AF_UNSPEC then Inr 0
      else Inl (RDMA_THROW RdmaAddress_h 165 easyrdma_Error_InvalidArgument))"

definition SetPort :: "u16 \<Rightarrow> RdmaAddress \<Rightarrow> exn + RdmaAddress" where
  "SetPort port a =
     (if GetProtocol a = AF_INET \<or> GetProtocol a = AF_INET6
      then Inr \<lparr>address = store_at 2 (encode_be 2 port) (address a)\<rparr>
      else Inl (RDMA_THROW RdmaAddress_h 180 easyrdma_Error_InvalidArgument))"

definition SetScopeId :: "u32 \<Rightarrow> RdmaAddress \<Rightarrow> exn + RdmaAddress" where
  "SetScopeId scopeId a =
     (if GetProtocol a = AF_INET6 then Inr \<lparr>address = store_scope_id scopeId (address a)\<rparr>
      else Inl (RDMA_THROW RdmaAddress_h 191 easyrdma_Error_InvalidArgument))"

definition Address_ToString :: "(int \<Rightarrow> u8 list \<Rightarrow> string) \<Rightarrow> RdmaAddress \<Rightarrow> exn + string" where
  "Address_ToString inet_ntop a =
     bind_res (GetAddrString inet_ntop a) (\<lambda>output.
       bind_res (GetPort a) (\<lambda>port. Inr (output @ '':'' @ int_to_string (int (unat port)))))"

definition Address_equal :: "RdmaAddress \<Rightarrow> RdmaAddress \<Rightarrow> bool" where
  "Address_equal lhs rhs \<longleftrightarrow> take sizeof_storage (address lhs) = take sizeof_storage (address rhs)"

definition easyrdma_AddressFamily_AF_UNSPEC :: int where "easyrdma_AddressFamily_AF_UNSPEC = 0"
definition easyrdma_AddressFamily_AF_INET :: int where "easyrdma_AddressFamily_AF_INET = 4"
definition easyrdma_AddressFamily_AF_INET6 :: int where "easyrdma_AddressFamily_AF_INET6 = 6"

definition RdmaAddressFamilyToNative :: "int \<Rightarrow> exn + int" where
  "RdmaAddressFamilyToNative f =
     (if f = easyrdma_AddressFamily_AF_UNSPEC then Inr AF_UNSPEC
      else if f = easyrdma_AddressFamily_AF_INET then Inr AF_INET
      else if f = easyrdma_AddressFamily_AF_INET6 then Inr AF_INET6
      else Inl (RDMA_THROW RdmaAddress_h 240 easyrdma_Error_InvalidArgument))"

section \<open>Enumeration\<close>

text \<open>
  One entry of \<^verbatim>\<open>/sys/class/net\<close> with the contents of its property files, and one entry of the
  list that \<open>getifaddrs\<close> returns.
\<close>

record net_entry =
  ne_is_directory :: bool
  ne_name :: string
  ne_flags :: string
  ne_address :: string
  ne_ifindex :: string

record ifaddrs =
  ifa_name :: string
  ifa_flags :: u32
  ifa_addr :: "u8 list option"

record InterfaceInfo =
  ifIndex :: u32
  ifName :: string
  macAddress :: string
  ipAddresses :: "string list"

definition IFF_LOOPBACK :: u32 where "IFF_LOOPBACK = 8"

definition RdmaEnumeration_cpp :: string where
  "RdmaEnumeration_cpp = ''core/linux/RdmaEnumeration.cpp''"

text \<open>\<open>GetOsNetIfProperty\<close>: the contents of a property file without the end of line.\<close>

definition GetOsNetIfProperty :: "string \<Rightarrow> string" where
  "GetOsNetIfProperty contents =
     (if contents \<noteq> [] \<and> last contents = char_of (10::nat) then butlast contents else contents)"

fun physical_interfaces :: "net_entry list \<Rightarrow> exn + InterfaceInfo list" where
  "physical_interfaces [] = Inr []"
| "physical_interfaces (entry # entries) =
     (if \<not> ne_is_directory entry then physical_interfaces entries
      else bind_res (stoi 16 (GetOsNetIfProperty (ne_flags entry))) (\<lambda>flags.
        if (of_int flags :: u32) AND IFF_LOOPBACK \<noteq> 0 then physical_interfaces entries
        else bind_res (stoi 10 (GetOsNetIfProperty (ne_ifindex entry))) (\<lambda>index.
          bind_res (physical_interfaces entries) (\<lambda>rest.
            Inr (\<lparr>ifIndex = of_int index, ifName = ne_name entry,
                  macAddress = GetOsNetIfProperty (ne_address entry), ipAddresses = []\<rparr> # rest)))))"

text \<open>The second pass: the address of one list entry goes to the interfaces of that name.\<close>

fun add_ip_addresses ::
  "(int \<Rightarrow> u8 list \<Rightarrow> string) \<Rightarrow> ifaddrs list \<Rightarrow> InterfaceInfo list \<Rightarrow> exn + InterfaceInfo list" where
  "add_ip_addresses inet_ntop [] interfaces = Inr interfaces"
| "add_ip_addresses inet_ntop (ifa # ifas) interfaces =
     (case ifa_addr ifa of
        None \<Rightarrow> add_ip_addresses inet_ntop ifas interfaces
      | Some sa \<Rightarrow>
          if ifa_flags ifa AND IFF_LOOPBACK = IFF_LOOPBACK \<or> sa_family sa \<noteq> AF_INET \<and> sa_family sa \<noteq> AF_INET6
          then add_ip_addresses inet_ntop ifas interfaces
          else bind_res (SockAddrToIpAddrString inet_ntop sa) (\<lambda>ip.
            add_ip_addresses inet_ntop ifas
              (map (\<lambda>i. if ifName i = ifa_name ifa then i\<lparr>ipAddresses := ipAddresses i @ [ip]\<rparr> else i) interfaces)))"

definition GetInterfaces ::
  "(int \<Rightarrow> u8 list \<Rightarrow> string) \<Rightarrow> net_entry list \<Rightarrow> (int + ifaddrs list) \<Rightarrow> exn + InterfaceInfo list" where
  "GetInterfaces inet_ntop entries getifaddrs =
     bind_res (physical_interfaces entries) (\<lambda>interfaces.
       case getifaddrs of
         Inl errno \<Rightarrow> Inl (THROW_OS_ERROR RdmaEnumeration_cpp 69 errno)
       | Inr ifas \<Rightarrow> add_ip_addresses inet_ntop ifas interfaces)"

text \<open>
  \<open>created\<close> is the result of making an id (no channel, no id, or an id with the result of
  binding it); an id that was made is destroyed again, which the second component counts.
\<close>

definition IsAddressRdmaCompatible :: "exn + (int \<times> (RdmaAddress \<Rightarrow> int)) \<Rightarrow> RdmaAddress \<Rightarrow> bool \<times> nat" where
  "IsAddressRdmaCompatible created addr =
     (case created of
        Inl _ \<Rightarrow> (False, 0)
      | Inr (create_result, bind_addr) \<Rightarrow>
          if create_result = 0 then (bind_addr addr = 0, 1) else (False, 0))"

fun enumerate_addresses ::
  "(string \<Rightarrow> string \<Rightarrow> u8 list option) \<Rightarrow> (int \<Rightarrow> u8 list \<Rightarrow> string) \<Rightarrow> (RdmaAddress \<Rightarrow> bool) \<Rightarrow>
   int \<Rightarrow> int \<Rightarrow> u32 \<Rightarrow> string list \<Rightarrow> exn + string list" where
  "enumerate_addresses getaddrinfo inet_ntop compatible filterAddressFamily native index [] = Inr []"
| "enumerate_addresses getaddrinfo inet_ntop compatible filterAddressFamily native index (ip # ips) =
     bind_res (RdmaAddress_parse getaddrinfo ip 0) (\<lambda>parsed.
       if filterAddressFamily \<noteq> AF_UNSPEC \<and> GetProtocol parsed \<noteq> native
       then enumerate_addresses getaddrinfo inet_ntop compatible filterAddressFamily native index ips
       else bind_res (if IsIpV6LinkLocal parsed then SetScopeId index parsed else Inr parsed) (\<lambda>parsed.
         bind_res (if compatible parsed then bind_res (GetAddrString inet_ntop parsed) (\<lambda>s. Inr [s]) else Inr [])
           (\<lambda>found. bind_res
              (enumerate_addresses getaddrinfo inet_ntop compatible filterAddressFamily native index ips)
              (\<lambda>rest. Inr (found @ rest)))))"

fun enumerate_interfaces ::
  "(u32 \<Rightarrow> string list \<Rightarrow> exn + string list) \<Rightarrow> InterfaceInfo list \<Rightarrow> exn + string list" where
  "enumerate_interfaces f [] = Inr []"
| "enumerate_interfaces f (i # rest) =
     bind_res (f (ifIndex i) (ipAddresses i)) (\<lambda>found.
       bind_res (enumerate_interfaces f rest) (\<lambda>more. Inr (found @ more)))"

definition EnumerateInterfaces ::
  "(string \<Rightarrow> string \<Rightarrow> u8 list option) \<Rightarrow> (int \<Rightarrow> u8 list \<Rightarrow> string) \<Rightarrow> (RdmaAddress \<Rightarrow> bool) \<Rightarrow>
   net_entry list \<Rightarrow> (int + ifaddrs list) \<Rightarrow> int \<Rightarrow> exn + string list" where
  "EnumerateInterfaces getaddrinfo inet_ntop compatible entries getifaddrs filterAddressFamily =
     bind_res (RdmaAddressFamilyToNative filterAddressFamily) (\<lambda>native.
       bind_res (GetInterfaces inet_ntop entries getifaddrs) (\<lambda>interfaces.
         enumerate_interfaces
           (enumerate_addresses getaddrinfo inet_ntop compatible filterAddressFamily native) interfaces))"

section \<open>Properties\<close>

lemma length_store_at [simp]: "i + length xs \<le> length bs \<Longrightarrow> length (store_at i xs bs) = length bs"
  by (simp add: store_at_def)

lemma bytes_store_same: "i + length xs \<le> length bs \<Longrightarrow> n = length xs \<Longrightarrow> bytes_at i n (store_at i xs bs) = xs"
  by (simp add: bytes_at_def store_at_def)

lemma bytes_store_before: "i + n \<le> j \<Longrightarrow> j + length xs \<le> length bs \<Longrightarrow> bytes_at i n (store_at j xs bs) = bytes_at i n bs"
  by (auto simp: bytes_at_def store_at_def drop_take min_def)

lemma bytes_store_after: "j + length xs \<le> i \<Longrightarrow> j + length xs \<le> length bs \<Longrightarrow> bytes_at i n (store_at j xs bs) = bytes_at i n bs"
  by (simp add: bytes_at_def store_at_def)

lemmas bytes_store = bytes_store_same bytes_store_before bytes_store_after

lemma sa_family_store: "2 \<le> j \<Longrightarrow> j + length xs \<le> length bs \<Longrightarrow> sa_family (store_at j xs bs) = sa_family bs"
  by (simp add: sa_family_def bytes_store_before)

lemma stoi_percent: "stoi base (CHR ''%'' # s) = Inl StdException"
proof -
  have "\<not> is_space (CHR ''%'')" by (simp add: is_space_def)
  moreover have "digit_value base (CHR ''%'') = None" by (simp add: digit_value.simps)
  ultimately show ?thesis by (simp add: stoi_def Let_def)
qed

text \<open>
  Setting a part of an address and reading it back: after \<open>SetPort\<close> the port is the one set,
  and the family, the printed address and the scope id are unchanged; after \<open>SetScopeId\<close> the scope
  id is the one set and the family and the port are unchanged.
\<close>

theorem address_fields_roundtrip:
  assumes "length (address a) = sizeof_storage" and "SetPort port a = Inr b"
    and "GetProtocol a = AF_INET6 \<longrightarrow> SetScopeId scope a = Inr c"
  shows "GetPort b = Inr port \<and> GetProtocol b = GetProtocol a
    \<and> GetAddrString inet_ntop b = GetAddrString inet_ntop a
    \<and> (GetProtocol a = AF_INET6 \<longrightarrow> sin6_scope_id (address c) = scope \<and> GetPort c = GetPort a
         \<and> GetProtocol c = GetProtocol a)"
proof -
  let ?bs = "address a"
  have len: "length ?bs = 128" using assms(1) by (simp add: sizeof_storage_def)
  from assms(2) have b: "b = \<lparr>address = store_at 2 (encode_be 2 port) ?bs\<rparr>" and fam: "GetProtocol a = AF_INET \<or> GetProtocol a = AF_INET6"
    by (auto simp: SetPort_def split: if_splits)
  have fam_b: "sa_family (address b) = sa_family ?bs" using len by (simp add: b sa_family_store)
  have "bytes_at i n (address b) = bytes_at i n ?bs" if "4 \<le> i" for i n
    using that len by (simp add: b bytes_store_after)
  moreover have "address b ! 8 = ?bs ! 8" "address b ! 9 = ?bs ! 9"
    using len by (simp_all add: b store_at_def nth_append)
  ultimately have str: "GetAddrString inet_ntop b = GetAddrString inet_ntop a"
    by (simp add: GetAddrString_def SockAddrToIpAddrString_def fam_b is_link_local_def sin6_scope_id_def)
  have port: "GetPort b = Inr port"
    using fam fam_b len by (auto simp: GetPort_def GetProtocol_def b bytes_store_same)
  have "sin6_scope_id (address c) = scope \<and> GetPort c = GetPort a \<and> GetProtocol c = GetProtocol a"
    if v6: "GetProtocol a = AF_INET6"
  proof -
    from assms(3) v6 have c: "c = \<lparr>address = store_at 24 (rev (encode_be 4 scope)) ?bs\<rparr>"
      by (simp add: SetScopeId_def store_scope_id_def)
    have "GetProtocol c = GetProtocol a" using len by (simp add: GetProtocol_def c sa_family_store)
    then show ?thesis
      using v6 len by (simp add: GetPort_def c sin6_scope_id_def bytes_store)
  qed
  with port str fam_b show ?thesis by (simp add: GetProtocol_def)
qed

definition demo_v6 :: RdmaAddress where
  "demo_v6 = \<lparr>address = [10, 0, 0, 7] @ replicate 124 0\<rparr>"

theorem address_fields_roundtrip_witness:
  "GetPort (projr (SetPort 4242 demo_v6)) = Inr 4242 \<and> sin6_scope_id (address (projr (SetScopeId 3 demo_v6))) = 3"
proof -
  have v6: "GetProtocol demo_v6 = AF_INET6" and len: "length (address demo_v6) = sizeof_storage" by code_simp+
  show ?thesis
    using address_fields_roundtrip [OF len, of 4242 "projr (SetPort 4242 demo_v6)" 3 "projr (SetScopeId 3 demo_v6)"] v6
    by (simp add: SetPort_def SetScopeId_def)
qed

text \<open>
  The scope id of an address string is never stored by the constructor: the pattern is matched
  against the whole string, so a string with an address in front of the scope id is stored exactly
  as \<open>getaddrinfo\<close> returned it, and a string that is only a scope id can never be constructed.
\<close>

theorem scope_id_never_stored:
  "RdmaAddress_parse getaddrinfo addr port = Inr a \<Longrightarrow>
     \<not> scope_id_match addr \<and> (\<exists>ai. getaddrinfo addr (int_to_string (int (unat port))) = Some ai
       \<and> address a = store_at 0 (take sizeof_storage ai) (address RdmaAddress_new))"
  by (cases addr) (auto simp: RdmaAddress_parse_def Let_def scope_id_match_def stoi_percent min_def
      split: option.splits if_splits)

theorem scope_id_never_stored_witness:
  "\<not> scope_id_match ''fe80::1%3''"
proof -
  let ?g = "\<lambda>_ _. Some ([10, 0] @ replicate 26 (0::u8))"
  have "RdmaAddress_parse ?g ''fe80::1%3'' 0 = Inr (projr (RdmaAddress_parse ?g ''fe80::1%3'' 0))" by code_simp
  from scope_id_never_stored [OF this] show ?thesis by simp
qed

end
