(* ===== verification/ThreadUtility.thy ===== *)
theory ThreadUtility
  imports Errors
begin

text \<open>
  Creation of threads with a scheduling priority (\<^verbatim>\<open>core/common/ThreadUtility.{h,cpp}\<close>), Linux
  variant.  The scheduling policies are those of the Linux ABI; the system calls are arguments.
\<close>

datatype kThreadPriority = Higher | High | Normal

record tThreadAttrs =
  sched_policy :: int
  sched_priority :: int

definition SCHED_OTHER :: int where "SCHED_OTHER = 0"
definition SCHED_FIFO :: int where "SCHED_FIFO = 1"

definition ThreadUtility_cpp :: string where "ThreadUtility_cpp = ''core/common/ThreadUtility.cpp''"
definition ThreadUtility_h :: string where "ThreadUtility_h = ''core/common/ThreadUtility.h''"

text \<open>\<open>exists\<close> is \<open>boost::filesystem::exists\<close>.\<close>

definition IsRealtimeKernel :: "(string \<Rightarrow> bool) \<Rightarrow> bool" where
  "IsRealtimeKernel exists = exists ''/sys/kernel/realtime''"

fun GetThreadAttrs :: "kThreadPriority \<Rightarrow> tThreadAttrs" where
  "GetThreadAttrs Higher = \<lparr>sched_policy = SCHED_FIFO, sched_priority = 60\<rparr>"
| "GetThreadAttrs High = \<lparr>sched_policy = SCHED_FIFO, sched_priority = 29\<rparr>"
| "GetThreadAttrs Normal = \<lparr>sched_policy = SCHED_OTHER, sched_priority = 0\<rparr>"

text \<open>\<open>setschedparam\<close> is \<open>pthread_setschedparam\<close> on the calling thread.\<close>

definition SetPriorityForCurrentThread :: "(tThreadAttrs \<Rightarrow> int) \<Rightarrow> kThreadPriority \<Rightarrow> exn + unit" where
  "SetPriorityForCurrentThread setschedparam priority =
     (let ret = setschedparam (GetThreadAttrs priority) in
      if ret \<noteq> 0 then Inl (RDMA_THROW_WITH_SUBCODE ThreadUtility_cpp 60 easyrdma_Error_InternalError ret)
      else Inr ())"

definition ValidatePriorityForCurrentThread :: "int \<times> tThreadAttrs \<Rightarrow> kThreadPriority \<Rightarrow> exn + unit" where
  "ValidatePriorityForCurrentThread getschedparam priority =
     (case getschedparam of (ret, attrs) \<Rightarrow>
        if ret \<noteq> 0 then Inl (RDMA_THROW_WITH_SUBCODE ThreadUtility_cpp 74 easyrdma_Error_InternalError ret)
        else if sched_policy (GetThreadAttrs priority) \<noteq> sched_policy attrs
             \<or> sched_priority (GetThreadAttrs priority) \<noteq> sched_priority attrs
        then Inl (RDMA_THROW_WITH_SUBCODE ThreadUtility_cpp 77 easyrdma_Error_InternalError ret)
        else Inr ())"

text \<open>
  \<open>start\<close> is the constructor of \<open>boost::thread\<close> with its attributes, \<open>setname\<close> is
  \<open>pthread_setname_np\<close>.
\<close>

definition CreatePriorityThread ::
  "(tThreadAttrs \<Rightarrow> exn + unit) \<Rightarrow> (string \<Rightarrow> int) \<Rightarrow> kThreadPriority \<Rightarrow> string option \<Rightarrow> exn + unit" where
  "CreatePriorityThread start setname priority label =
     bind_res (start (GetThreadAttrs priority)) (\<lambda>_.
       case label of None \<Rightarrow> Inr ()
       | Some l \<Rightarrow>
           let rc = setname l in
           if rc \<noteq> 0 then Inl (RDMA_THROW_WITH_SUBCODE ThreadUtility_h 75 easyrdma_Error_InternalError rc)
           else Inr ())"

end
