(* ===== verification/LinuxSession.thy ===== *)
theory LinuxSession
  imports SessionBase EventManager Address ThreadUtility
begin

text \<open>
  \<open>RdmaConnectedSession\<close> of \<^verbatim>\<open>core/linux/RdmaConnectedSession.{h,cpp}\<close>: the Linux half of a
  connected session, on top of \<open>librdmacm\<close> and \<open>libibverbs\<close>.

  The record \<open>verbs\<close> holds the calls of these libraries and of the operating system, on a state
  \<open>'v\<close> of their own; a call that can fail gives its result and \<open>errno\<close>.  The record \<open>world\<close>
  adds what the library itself keeps globally (the event manager) and which connection ids and
  queue pairs exist, so that leaks can be stated.
\<close>

section \<open>State and environment\<close>

record 'v world =
  w_events :: EventManager
  w_ids :: "nat list"
  w_qps :: "nat list"
  w_state :: 'v

record linux_session =
  cm_id :: "nat option"
  localAddress :: RdmaAddress
  remoteAddress :: RdmaAddress
  connectionHandler :: bool
  transferHandler :: bool
  ls_ackHandler :: bool
  queueFdPoller :: FdPoller
  createdQp :: bool

type_synonym 'v conn = "linux_session \<times> 'v world"
type_synonym 'v linux_state = "ConnectedSession \<times> (linux_session \<times> 'v world)"
type_synonym ('v, 'a) linux_op = "ConnectedSession \<times> (linux_session \<times> 'v world) \<Rightarrow>
  (exn, 'a, ConnectedSession \<times> (linux_session \<times> 'v world)) outcome"

text \<open>A work completion; its \<open>wr_id\<close> is a pointer to a buffer of one of the session's two queues.\<close>

datatype buffer_ref = TransferBuffer nat | CreditBuffer nat
datatype ibv_wc_opcode = IBV_WC_RECV | IBV_WC_SEND | IBV_WC_opcode_other nat

record ibv_wc =
  wc_status :: ibv_wc_status
  wc_opcode :: ibv_wc_opcode
  wc_byte_len :: u32
  wc_wr_id :: buffer_ref

datatype handler = Connection_handler | Transfer_handler | Ack_handler

record 'v verbs =
  vb_post_send :: "nat \<Rightarrow> nat \<Rightarrow> u64 \<Rightarrow> u64 \<Rightarrow> 'v \<Rightarrow> (int \<times> int) \<times> 'v"
  vb_post_recv :: "nat \<Rightarrow> nat \<Rightarrow> u64 \<Rightarrow> u64 \<Rightarrow> 'v \<Rightarrow> (int \<times> int) \<times> 'v"
  vb_reg_msgs :: "nat \<Rightarrow> u64 \<Rightarrow> u64 \<Rightarrow> nat option \<times> int"
  vb_create_qp :: "nat \<Rightarrow> u32 \<Rightarrow> u32 \<Rightarrow> 'v \<Rightarrow> (int \<times> int) \<times> 'v"
  vb_destroy_qp :: "nat \<Rightarrow> 'v \<Rightarrow> 'v"
  vb_accept :: "nat \<Rightarrow> u8 list \<Rightarrow> 'v \<Rightarrow> (int \<times> int) \<times> 'v"
  vb_reject :: "nat \<Rightarrow> u8 list \<Rightarrow> 'v \<Rightarrow> 'v"
  vb_disconnect :: "nat \<Rightarrow> 'v \<Rightarrow> 'v"
  vb_destroy_id :: "nat \<Rightarrow> 'v \<Rightarrow> 'v"
  vb_local_addr :: "nat \<Rightarrow> 'v \<Rightarrow> u8 list"
  vb_peer_addr :: "nat \<Rightarrow> 'v \<Rightarrow> u8 list"
  vb_event_wait :: "'v \<Rightarrow> ConnectionQueue \<Rightarrow> bool \<times> ConnectionQueue"
  vb_poll_cq :: "Direction \<Rightarrow> 'v \<Rightarrow> (int \<times> ibv_wc) \<times> 'v"
  vb_req_notify_cq :: "Direction \<Rightarrow> 'v \<Rightarrow> int \<times> 'v"
  vb_get_cq_event :: "Direction \<Rightarrow> 'v \<Rightarrow> (int \<times> int \<times> bool) \<times> 'v"
  vb_seterrno :: "int \<Rightarrow> int \<times> int"
  vb_channel_fd :: "Direction \<Rightarrow> int"
  vb_fcntl :: "int \<Rightarrow> 'v \<Rightarrow> (int \<times> int) \<times> 'v"
  vb_poll :: "'v \<Rightarrow> pollfd list \<Rightarrow> int \<Rightarrow> int \<times> int \<times> pollfd list"
  vb_now :: "'v \<Rightarrow> int \<times> 'v"
  vb_wc_number :: "ibv_wc_status \<Rightarrow> int"
  vb_start_thread :: "tThreadAttrs \<Rightarrow> exn + unit"
  vb_setname :: "string \<Rightarrow> int"
  vb_file_exists :: "string \<Rightarrow> bool"
  vb_join :: "handler \<Rightarrow> ConnectedSession \<Rightarrow> ConnectedSession"
  vb_memalign :: "u64 \<Rightarrow> (u64 \<times> u8 list) option"
  vb_wait_transfer :: "ConnectedSession \<Rightarrow> bool \<times> ConnectedSession"
  vb_wait_credit :: "RdmaBufferQueue \<Rightarrow> bool \<times> RdmaBufferQueue"
  vb_regain :: "tAccessManager \<Rightarrow> tAccessManager"

definition ConnectedSession_cpp :: string where
  "ConnectedSession_cpp = ''core/linux/RdmaConnectedSession.cpp''"

definition lx_throw :: "int \<Rightarrow> int \<Rightarrow> exn" where
  "lx_throw line code = RDMA_THROW ConnectedSession_cpp line code"

text \<open>A call of the libraries on the state of a connection; a call of the event manager.\<close>

definition kernel :: "('v \<Rightarrow> 'a \<times> 'v) \<Rightarrow> 'v conn \<Rightarrow> 'a \<times> 'v conn" where
  "kernel f = (\<lambda>(l, w). case f (w_state w) of (a, v) \<Rightarrow> (a, (l, w\<lparr>w_state := v\<rparr>)))"

text \<open>\<open>HandleError(call)\<close>.\<close>

definition handled :: "string \<Rightarrow> int \<Rightarrow> ('v \<Rightarrow> (int \<times> int) \<times> 'v) \<Rightarrow> 'v conn \<Rightarrow> (exn, unit, 'v conn) outcome" where
  "handled file line f c = (case kernel f c of ((result, errno), c') \<Rightarrow> (HandleError file line result errno, c'))"

definition with_events ::
  "(EventManager \<Rightarrow> (exn, 'a, EventManager) outcome) \<Rightarrow> 'v conn \<Rightarrow> (exn, 'a, 'v conn) outcome" where
  "with_events f = (\<lambda>(l, w). case f (w_events w) of (r, em) \<Rightarrow> (r, (l, w\<lparr>w_events := em\<rparr>)))"

text \<open>An operation on the connection as an operation on the session.\<close>

definition on_conn :: "('v conn \<Rightarrow> (exn, 'a, 'v conn) outcome) \<Rightarrow> ('v, 'a) linux_op" where
  "on_conn f = (\<lambda>(s, c). case f c of (r, c') \<Rightarrow> (r, (s, c')))"

text \<open>A dereference of \<open>cm_id\<close>.\<close>

definition with_id :: "(nat \<Rightarrow> 'v conn \<Rightarrow> (exn, 'a, 'v conn) outcome) \<Rightarrow> 'v conn \<Rightarrow> (exn, 'a, 'v conn) outcome" where
  "with_id f c = (case cm_id (fst c) of None \<Rightarrow> (Inl (Crash ''null cm_id''), c) | Some i \<Rightarrow> f i c)"

section \<open>Memory regions and queue pairs\<close>

definition RdmaMemoryRegion_h :: string where "RdmaMemoryRegion_h = ''core/linux/RdmaMemoryRegion.h''"

definition RdmaMemoryRegion_new :: "'v verbs \<Rightarrow> nat \<Rightarrow> u64 \<Rightarrow> u64 \<Rightarrow> exn + nat" where
  "RdmaMemoryRegion_new vb i buffer len =
     (case vb_reg_msgs vb i buffer len of (mr, errno) \<Rightarrow>
        bind_res (HandleErrorFromPointer RdmaMemoryRegion_h 16 mr errno) (\<lambda>_. Inr (the mr)))"

definition CreateMemoryRegion :: "'v verbs \<Rightarrow> linux_session \<Rightarrow> u64 \<Rightarrow> u64 \<Rightarrow> exn + unit" where
  "CreateMemoryRegion vb l buffer len =
     (case cm_id l of None \<Rightarrow> Inl (Crash ''null cm_id'')
      | Some i \<Rightarrow> bind_res (RdmaMemoryRegion_new vb i buffer len) (\<lambda>_. Inr ()))"

definition kMaxWr :: u32 where "kMaxWr = 1024"

definition SetupQueuePair :: "'v verbs \<Rightarrow> 'v conn \<Rightarrow> (exn, unit, 'v conn) outcome" where
  "SetupQueuePair vb c =
     (case cpp_assert ''!createdQp'' (\<not> createdQp (fst c)) of Inl e \<Rightarrow> (Inl e, c)
      | Inr _ \<Rightarrow>
        with_id (\<lambda>i c. bind_out (handled ConnectedSession_cpp 338 (vb_create_qp vb i kMaxWr kMaxWr) c) (\<lambda>_ (l, w).
          (Inr (), (l\<lparr>createdQp := True\<rparr>, w\<lparr>w_qps := i # w_qps w\<rparr>)))) c)"

definition DestroyQP :: "'v verbs \<Rightarrow> 'v conn \<Rightarrow> (exn, unit, 'v conn) outcome" where
  "DestroyQP vb c =
     (if createdQp (fst c) then
        with_id (\<lambda>i c. case kernel (\<lambda>v. ((), vb_destroy_qp vb i v)) c of (_, (l, w)) \<Rightarrow>
          (Inr (), (l\<lparr>createdQp := False\<rparr>, w\<lparr>w_qps := remove1 i (w_qps w)\<rparr>))) c
      else (Inr (), c))"

text \<open>Under Valgrind a receive buffer is also cleared first; that is a debugging aid and left out.\<close>

definition QueueToQp :: "'v verbs \<Rightarrow> Direction \<Rightarrow> nat \<Rightarrow> RdmaBuffer \<Rightarrow> 'v conn \<Rightarrow> (exn, unit, 'v conn) outcome" where
  "QueueToQp vb dir i b =
     (if dir = Send
      then with_id (\<lambda>c. handled ConnectedSession_cpp 169 (vb_post_send vb c i (buf_ptr b) (usedBytes b)))
      else with_id (\<lambda>c. handled ConnectedSession_cpp 180 (vb_post_recv vb c i (buf_ptr b) (bufferSize b))))"

section \<open>Completions\<close>

definition MakeCQsNonBlocking :: "'v verbs \<Rightarrow> 'v conn \<Rightarrow> (exn, unit, 'v conn) outcome" where
  "MakeCQsNonBlocking vb =
     with_id (\<lambda>_ c. bind_out (handled ConnectedSession_cpp 193 (vb_fcntl vb (vb_channel_fd vb Receive)) c)
       (\<lambda>_ c. handled ConnectedSession_cpp 196 (vb_fcntl vb (vb_channel_fd vb Send)) c))"

text \<open>The send side is chosen only by \<open>Direction::Send\<close>.\<close>

definition cq_direction :: "Direction \<Rightarrow> Direction" where
  "cq_direction dir = (if dir = Send then Send else Receive)"

text \<open>
  The loop of \<open>PollCompletionQueue\<close>; the fuel bounds its iterations and the result \<open>None\<close> means that
  it is still running.  \<open>pollStart\<close> and \<open>vb_now\<close> are times in nanoseconds.
\<close>

fun PollCompletionQueue_loop ::
  "'v verbs \<Rightarrow> Direction \<Rightarrow> bool \<Rightarrow> int \<Rightarrow> int \<Rightarrow> nat \<Rightarrow> 'v linux_state \<Rightarrow>
   (exn + int \<times> ibv_wc) option \<times> 'v linux_state" where
  "PollCompletionQueue_loop vb dir blocking timeoutMs pollStart 0 \<sigma> = (None, \<sigma>)"
| "PollCompletionQueue_loop vb dir blocking timeoutMs pollStart (Suc n) (s, c) =
     (case kernel (vb_poll_cq vb (cq_direction dir)) c of ((ret, wc), c) \<Rightarrow>
        if ret \<noteq> 0 then (Some (Inr (ret, wc)), (s, c))
        else if blocking then
          (case kernel (vb_req_notify_cq vb (cq_direction dir)) c of (ret, c) \<Rightarrow>
             case (if ret \<noteq> 0 then (case vb_seterrno vb ret of (result, errno) \<Rightarrow>
                                      HandleError ConnectedSession_cpp 252 result errno) else Inr ()) of
               Inl e \<Rightarrow> (Some (Inl e), (s, c))
             | Inr _ \<Rightarrow>
                 (case kernel (vb_poll_cq vb (cq_direction dir)) c of ((ret, wc), c) \<Rightarrow>
                    if ret \<noteq> 0 then (Some (Inr (ret, wc)), (s, c))
                    else
                      (case PollOnFd (vb_poll vb (w_state (snd c))) (vb_channel_fd vb (cq_direction dir)) (-1)
                              (queueFdPoller (fst c)) of
                         Inl e \<Rightarrow> (Some (Inl e), (s, c))
                       | Inr ready \<Rightarrow>
                           if \<not> ready then (Some (Inl (lx_throw 263 easyrdma_Error_OperationCancelled)), (s, c))
                           else
                             (case kernel (vb_get_cq_event vb (cq_direction dir)) c of ((ret, errno, same), c) \<Rightarrow>
                                case bind_res (HandleError ConnectedSession_cpp 266 ret errno)
                                       (\<lambda>_. cpp_assert ''eventCq == cq && context == cm_id'' same) of
                                  Inl e \<Rightarrow> (Some (Inl e), (s, c))
                                | Inr _ \<Rightarrow> PollCompletionQueue_loop vb dir blocking timeoutMs pollStart n (s, c)))))
        else
          (case CheckQueueStatus s of
             Inl e \<Rightarrow> (Some (Inl e), (s, c))
           | Inr _ \<Rightarrow>
               if timeoutMs \<noteq> -1 then
                 (case kernel (vb_now vb) c of (now, c) \<Rightarrow>
                    if now - pollStart > timeoutMs * 1000000
                    then (Some (Inl (lx_throw 273 easyrdma_Error_Timeout)), (s, c))
                    else PollCompletionQueue_loop vb dir blocking timeoutMs pollStart n (s, c))
               else PollCompletionQueue_loop vb dir blocking timeoutMs pollStart n (s, c)))"

definition PollCompletionQueue ::
  "'v verbs \<Rightarrow> nat \<Rightarrow> Direction \<Rightarrow> bool \<Rightarrow> int \<Rightarrow> 'v linux_state \<Rightarrow> (exn + ibv_wc) option \<times> 'v linux_state" where
  "PollCompletionQueue vb fuel dir blocking timeoutMs = (\<lambda>(s, c).
     if cm_id (fst c) = None then (Some (Inl (Crash ''null cm_id'')), (s, c))
     else
       case kernel (vb_now vb) c of (pollStart, c) \<Rightarrow>
         (case PollCompletionQueue_loop vb dir blocking timeoutMs pollStart fuel (s, c) of
            (None, \<sigma>) \<Rightarrow> (None, \<sigma>)
          | (Some (Inl e), \<sigma>) \<Rightarrow> (Some (Inl e), \<sigma>)
          | (Some (Inr (ret, wc)), \<sigma>) \<Rightarrow>
              if ret < 0 then
                (case vb_seterrno vb ret of (result, errno) \<Rightarrow>
                   (Some (bind_res (HandleError ConnectedSession_cpp 280 result errno) (\<lambda>_. Inr wc)), \<sigma>))
              else (Some (Inr wc), \<sigma>)))"

text \<open>From a work completion to the completion of its buffer; shared by the two callers.\<close>

definition wc_error :: "'v verbs \<Rightarrow> int \<Rightarrow> ibv_wc \<Rightarrow> RdmaError" where
  "wc_error vb line wc =
     (if wc_status wc \<noteq> IBV_WC_SUCCESS
      then RdmaError_Assign RdmaError_new
             (RdmaError_of (IBVErrorToRdmaError (wc_status wc)) (vb_wc_number vb (wc_status wc)) ConnectedSession_cpp line)
      else RdmaError_new)"

definition referenced_buffer :: "buffer_ref \<Rightarrow> ConnectedSession \<Rightarrow> RdmaBuffer option" where
  "referenced_buffer ref s =
     (case ref of
        TransferBuffer i \<Rightarrow> map_option (\<lambda>q. buffers q ! i) (transferBuffers s)
      | CreditBuffer i \<Rightarrow> map_option (\<lambda>q. buffers q ! i) (creditBuffers s))"

definition bytes_transferred :: "int \<Rightarrow> ibv_wc \<Rightarrow> RdmaError \<Rightarrow> ConnectedSession \<Rightarrow> exn + u64" where
  "bytes_transferred line wc completionStatus s =
     (case wc_opcode wc of
        IBV_WC_RECV \<Rightarrow> Inr (ucast (wc_byte_len wc))
      | IBV_WC_SEND \<Rightarrow>
          if IsSuccess completionStatus then
            (case referenced_buffer (wc_wr_id wc) s of
               None \<Rightarrow> Inl (Crash ''dangling wr_id'')
             | Some b \<Rightarrow> Inr (usedBytes b))
          else Inr 0
      | IBV_WC_opcode_other _ \<Rightarrow> Inl (lx_throw line easyrdma_Error_InternalError))"

definition complete_buffer :: "buffer_ref \<Rightarrow> RdmaError \<Rightarrow> u64 \<Rightarrow> ('v, callback_call list) linux_op" where
  "complete_buffer ref completionStatus bytesTransferred =
     (case ref of
        TransferBuffer i \<Rightarrow> on_transfer (queue_only (RdmaBuffer_HandleCompletion i completionStatus bytesTransferred))
      | CreditBuffer i \<Rightarrow> on_credit (queue_only (RdmaBuffer_HandleCompletion i completionStatus bytesTransferred)))"

definition process_completion :: "'v verbs \<Rightarrow> int \<Rightarrow> int \<Rightarrow> ibv_wc \<Rightarrow> ('v, callback_call list) linux_op" where
  "process_completion vb line1 line2 wc \<sigma> =
     (let completionStatus = wc_error vb line1 wc in
      case bytes_transferred line2 wc completionStatus (fst \<sigma>) of
        Inl e \<Rightarrow> (Inl e, \<sigma>)
      | Inr bytesTransferred \<Rightarrow> complete_buffer (wc_wr_id wc) completionStatus bytesTransferred \<sigma>)"

definition PollForReceive :: "'v verbs \<Rightarrow> nat \<Rightarrow> int \<Rightarrow> 'v linux_state \<Rightarrow> (exn + callback_call list) option \<times> 'v linux_state" where
  "PollForReceive vb fuel timeoutMs \<sigma> =
     (case PollCompletionQueue vb fuel Receive False timeoutMs \<sigma> of
        (None, \<sigma>) \<Rightarrow> (None, \<sigma>)
      | (Some (Inl e), \<sigma>) \<Rightarrow> (Some (Inl e), \<sigma>)
      | (Some (Inr wc), \<sigma>) \<Rightarrow> (case process_completion vb 208 222 wc \<sigma> of (r, \<sigma>) \<Rightarrow> (Some r, \<sigma>)))"

text \<open>
  The handler thread.  \<open>Some (Inr calls)\<close> is a thread that has ended, with the callbacks it called;
  every exception ends it silently, a crash ends the process.
\<close>

definition thread_exit :: "exn \<Rightarrow> callback_call list \<Rightarrow> exn + callback_call list" where
  "thread_exit e calls = (if catchable e then Inr calls else Inl e)"

fun SendReceiveHandler_loop ::
  "'v verbs \<Rightarrow> Direction \<Rightarrow> nat \<Rightarrow> callback_call list \<Rightarrow> 'v linux_state \<Rightarrow>
   (exn + callback_call list) option \<times> 'v linux_state" where
  "SendReceiveHandler_loop vb dir 0 calls \<sigma> = (None, \<sigma>)"
| "SendReceiveHandler_loop vb dir (Suc n) calls \<sigma> =
     (if \<not> IsConnected (fst \<sigma>) then (Some (Inr calls), \<sigma>)
      else case PollCompletionQueue vb n dir True 0 \<sigma> of
        (None, \<sigma>) \<Rightarrow> (None, \<sigma>)
      | (Some (Inl e), \<sigma>) \<Rightarrow> (Some (thread_exit e calls), \<sigma>)
      | (Some (Inr wc), \<sigma>) \<Rightarrow>
          (case process_completion vb 296 310 wc \<sigma> of
             (Inl e, \<sigma>) \<Rightarrow> (Some (thread_exit e calls), \<sigma>)
           | (Inr new, \<sigma>) \<Rightarrow> SendReceiveHandler_loop vb dir n (calls @ new) \<sigma>))"

definition SendReceiveHandlerThread ::
  "'v verbs \<Rightarrow> Direction \<Rightarrow> nat \<Rightarrow> 'v linux_state \<Rightarrow> (exn + callback_call list) option \<times> 'v linux_state" where
  "SendReceiveHandlerThread vb dir fuel \<sigma> =
     (case on_conn (MakeCQsNonBlocking vb) \<sigma> of
        (Inl e, \<sigma>) \<Rightarrow> (Some (thread_exit e []), \<sigma>)
      | (Inr _, \<sigma>) \<Rightarrow> SendReceiveHandler_loop vb dir fuel [] \<sigma>)"

section \<open>The connection handler\<close>

text \<open>The thread that waits for the disconnection; any exception in it fails an \<open>assert\<close>.\<close>

fun ConnectionHandlerThread ::
  "'v verbs \<Rightarrow> nat \<Rightarrow> callback_call list \<Rightarrow> 'v linux_state \<Rightarrow> (exn + callback_call list) option \<times> 'v linux_state" where
  "ConnectionHandlerThread vb 0 calls \<sigma> = (None, \<sigma>)"
| "ConnectionHandlerThread vb (Suc n) calls (s, c) =
     (case with_id (\<lambda>i c. with_events (EM_WaitForEvent (vb_event_wait vb (w_state (snd c))) i (-1) True) c) c of
        (Inl e, c) \<Rightarrow> (Some (Inl (if catchable e then Crash ''assert(0)'' else e)), (s, c))
      | (Inr None, c) \<Rightarrow> (Some (Inr calls), (s, c))
      | (Inr (Some event), c) \<Rightarrow>
          if eventType event = RDMA_CM_EVENT_DISCONNECTED then
            (case HandleDisconnect s of
               Inl e \<Rightarrow> (Some (Inl (if catchable e then Crash ''assert(0)'' else e)), (s, c))
             | Inr (new, s) \<Rightarrow> ConnectionHandlerThread vb n (calls @ new) (s, c))
          else ConnectionHandlerThread vb n calls (s, c))"

definition create_thread :: "'v verbs \<Rightarrow> kThreadPriority \<Rightarrow> string \<Rightarrow> exn + unit" where
  "create_thread vb priority label =
     CreatePriorityThread (vb_start_thread vb) (vb_setname vb) priority (Some label)"

section \<open>The services of the base class\<close>

text \<open>
  The virtual functions of this class as the base class calls them.  A poll that does not return
  within the fuel has no outcome; it is marked as a crash with a text of its own.
\<close>

definition linux_services :: "'v verbs \<Rightarrow> nat \<Rightarrow> linux_session \<Rightarrow> (linux_session \<times> 'v world) services" where
  "linux_services vb fuel l =
     \<lparr>svc_QueueToQp = QueueToQp vb, svc_memalign = vb_memalign vb,
      svc_CreateMemoryRegion = CreateMemoryRegion vb l, svc_SetupQueuePair = SetupQueuePair vb,
      svc_wait_transfer = (\<lambda>(s, c). case vb_wait_transfer vb s of (timeout, s') \<Rightarrow> (timeout, (s', c))),
      svc_wait_credit = vb_wait_credit vb,
      svc_PollForReceive = (\<lambda>timeoutMs \<sigma>. case PollForReceive vb fuel timeoutMs \<sigma> of
         (None, \<sigma>) \<Rightarrow> (Inl (Crash ''still polling''), \<sigma>)
       | (Some (Inl e), \<sigma>) \<Rightarrow> (Inl e, \<sigma>)
       | (Some (Inr _), \<sigma>) \<Rightarrow> (Inr (), \<sigma>)),
      svc_regain = vb_regain vb, svc_CreatePriorityThread = create_thread vb Normal\<rparr>"

section \<open>Connecting, configuring, destroying\<close>

definition PostConnect :: "'v verbs \<Rightarrow> ('v, unit) linux_op" where
  "PostConnect vb = (\<lambda>(s, (l, w)).
     case cm_id l of None \<Rightarrow> (Inl (Crash ''null cm_id''), (s, (l, w)))
     | Some i \<Rightarrow>
       let l = l\<lparr>remoteAddress := RdmaAddress_of_sockaddr (vb_peer_addr vb i (w_state w))\<rparr>;
           s = BasePostConnect s in
       (case create_thread vb Normal ''ConnHandler'' of Inl e \<Rightarrow> (Inl e, (s, (l, w)))
        | Inr _ \<Rightarrow>
          let l = l\<lparr>connectionHandler := True\<rparr> in
          (case create_thread vb Normal
                  (if cs_direction s = Send then ''AckRecvHandler'' else ''AckSendHandler'') of
             Inl e \<Rightarrow> (Inl e, (s, (l, w)))
           | Inr _ \<Rightarrow> (Inr (), (s, (l\<lparr>ls_ackHandler := True\<rparr>, w))))))"

definition PostConfigure :: "'v verbs \<Rightarrow> nat \<Rightarrow> ('v, unit) linux_op" where
  "PostConfigure vb fuel = (\<lambda>(s, (l, w)).
     bind_out
       (if cs_direction s = Receive then
          if \<not> cs_usePolling s then
            (case create_thread vb (if IsRealtimeKernel (vb_file_exists vb) then High else Normal) ''RecvHandler'' of
               Inl e \<Rightarrow> (Inl e, (s, (l, w)))
             | Inr _ \<Rightarrow> (Inr (), (s, (l\<lparr>transferHandler := True\<rparr>, w))))
          else (Inr (), (s, (l, w)))
        else
          (case create_thread vb Normal ''SendHandler'' of
             Inl e \<Rightarrow> (Inl e, (s, (l, w)))
           | Inr _ \<Rightarrow> (Inr (), (s, (l\<lparr>transferHandler := True\<rparr>, w)))))
       (\<lambda>_ (s, (l, w)). BasePostConfigure (linux_services vb fuel l) (s, (l, w))))"

text \<open>
  Joining a handler: the session is then as the threads have left it.  \<open>pipe_written\<close> of the
  poller is whether the pipe had room for the byte, which it has unless it is full.
\<close>

definition join_handler :: "'v verbs \<Rightarrow> handler \<Rightarrow> bool \<Rightarrow> ConnectedSession \<Rightarrow> ConnectedSession" where
  "join_handler vb h joinable s = (if joinable then vb_join vb h s else s)"

definition Destroy :: "'v verbs \<Rightarrow> ('v, callback_call list) linux_op" where
  "Destroy vb = (\<lambda>(s, (l, w)).
     let w = (case cm_id l of Some i \<Rightarrow> w\<lparr>w_state := vb_disconnect vb i (w_state w)\<rparr> | None \<Rightarrow> w);
         l = l\<lparr>queueFdPoller := FdPoller_Cancel True (queueFdPoller l)\<rparr>;
         s = join_handler vb Transfer_handler (transferHandler l) s;
         l = l\<lparr>transferHandler := False\<rparr>;
         s = join_handler vb Ack_handler (ls_ackHandler l) s;
         l = l\<lparr>ls_ackHandler := False\<rparr> in
     bind_out (case cm_id l of Some i \<Rightarrow> on_conn (with_events (AbortWaits i)) (s, (l, w)) | None \<Rightarrow> (Inr (), (s, (l, w))))
       (\<lambda>_ (s, (l, w)).
         let s = join_handler vb Connection_handler (connectionHandler l) s;
             l = l\<lparr>connectionHandler := False\<rparr> in
         case HandleDisconnect s of Inl e \<Rightarrow> (Inl e, (s, (l, w)))
         | Inr (calls, s) \<Rightarrow>
             (case cm_id l of None \<Rightarrow> (Inr calls, (s, (l, w)))
              | Some i \<Rightarrow>
                  (case on_conn (DestroyQP vb) (s, (l, w)) of
                     (Inl e, \<sigma>) \<Rightarrow> (Inl e, \<sigma>)
                   | (Inr _, (s, (l, w))) \<Rightarrow>
                       (Inr calls, (s, (l\<lparr>cm_id := None\<rparr>,
                          w\<lparr>w_events := DestroyConnectionQueue i (w_events w), w_ids := remove1 i (w_ids w),
                            w_state := vb_destroy_id vb i (w_state w)\<rparr>)))))))"

definition linux_session_new :: "nat option \<Rightarrow> FdPoller \<Rightarrow> linux_session" where
  "linux_session_new i poller =
     \<lparr>cm_id = i, localAddress = RdmaAddress_new, remoteAddress = RdmaAddress_new, connectionHandler = False,
      transferHandler = False, ls_ackHandler = False, queueFdPoller = poller, createdQp = False\<rparr>"

text \<open>The end of the accepting constructor's \<open>try\<close> block: the wait for the established connection.\<close>

definition await_established :: "'v verbs \<Rightarrow> nat \<Rightarrow> ('v, unit) linux_op" where
  "await_established vb acceptedId \<sigma> =
     bind_out (on_conn (with_events (EM_WaitForEvent (vb_event_wait vb (w_state (snd (snd \<sigma>)))) acceptedId 1000 False)) \<sigma>)
       (\<lambda>event \<sigma>.
         if map_option eventType event \<noteq> Some RDMA_CM_EVENT_ESTABLISHED
         then (Inl (lx_throw 51 easyrdma_Error_UnableToConnect), \<sigma>)
         else bind_out (PostConnect vb \<sigma>) (\<lambda>_ (s, (l, w)).
           (Inr (), (s, (l\<lparr>localAddress := RdmaAddress_of_sockaddr (vb_local_addr vb acceptedId (w_state w))\<rparr>, w)))))"

definition reject_connection :: "'v verbs \<Rightarrow> nat \<Rightarrow> u8 list \<Rightarrow> 'v linux_state \<Rightarrow> 'v linux_state" where
  "reject_connection vb acceptedId connectionDataIn = (\<lambda>(s, (l, w)).
     (s, (l, w\<lparr>w_state := vb_reject vb acceptedId connectionDataIn (w_state w)\<rparr>)))"

text \<open>The part of the accepting constructor inside its \<open>try\<close>.\<close>

definition accept_handshake :: "'v verbs \<Rightarrow> nat \<Rightarrow> Direction \<Rightarrow> nat \<Rightarrow> u8 list \<Rightarrow> ('v, unit) linux_op" where
  "accept_handshake vb fuel dir acceptedId connectionDataIn \<sigma> =
     bind_out (on_conn (with_events (CreateConnectionQueue acceptedId)) \<sigma>) (\<lambda>_ \<sigma>.
       bind_out (PreConnect (linux_services vb fuel (fst (snd \<sigma>))) dir \<sigma>) (\<lambda>_ \<sigma>.
         case ValidateConnectionData connectionDataIn dir of
           Inl e \<Rightarrow> (Inl e, if catchable e then reject_connection vb acceptedId connectionDataIn \<sigma> else \<sigma>)
         | Inr _ \<Rightarrow>
             bind_out (on_conn (handled ConnectedSession_cpp 42 (vb_accept vb acceptedId (cs_connectionData (fst \<sigma>)))) \<sigma>)
               (\<lambda>_ \<sigma>. await_established vb acceptedId \<sigma>)))"

text \<open>
  The accepting constructor.  When the handshake throws, \<open>Destroy\<close> runs and the exception goes on;
  the members are then destroyed.
\<close>

definition RdmaConnectedSession_accept ::
  "'v verbs \<Rightarrow> nat \<Rightarrow> tAccessManager \<Rightarrow> FdPoller \<Rightarrow> Direction \<Rightarrow> nat \<Rightarrow> u8 list \<Rightarrow> u8 list \<Rightarrow> 'v world \<Rightarrow>
   (exn, unit, 'v linux_state) outcome" where
  "RdmaConnectedSession_accept vb fuel m poller dir acceptedId connectionDataIn connectionDataOut w =
     (case accept_handshake vb fuel dir acceptedId connectionDataIn
             (ConnectedSession_new_data connectionDataOut m, (linux_session_new (Some acceptedId) poller, w)) of
        (Inr _, \<sigma>) \<Rightarrow> (Inr (), \<sigma>)
      | (Inl e, \<sigma>) \<Rightarrow>
          if \<not> catchable e then (Inl e, \<sigma>)
          else (case Destroy vb \<sigma> of (Inl e', \<sigma>) \<Rightarrow> (Inl e', \<sigma>) | (Inr _, \<sigma>) \<Rightarrow> (Inl e, \<sigma>)))"

definition LinuxGetLocalAddress :: "linux_session \<Rightarrow> RdmaAddress" where
  "LinuxGetLocalAddress l = localAddress l"

definition LinuxGetRemoteAddress :: "linux_session \<Rightarrow> RdmaAddress" where
  "LinuxGetRemoteAddress l = remoteAddress l"

end
