(* ===== verification/LinuxEndpoints.thy ===== *)
theory LinuxEndpoints
  imports LinuxSession
begin

text \<open>
  The two ends that make connections on Linux: \<open>RdmaConnector\<close>
  (\<^verbatim>\<open>core/linux/RdmaConnector.{h,cpp}\<close>) and \<open>RdmaListener\<close> (\<^verbatim>\<open>core/linux/RdmaListener.{h,cpp}\<close>,
  \<^verbatim>\<open>core/common/RdmaListenerBase.{h,cpp}\<close>), with the access suspension of
  \<^verbatim>\<open>core/api/tAccessSuspender.h\<close> that both use while they block.
\<close>

section \<open>Calls of the connection manager\<close>

text \<open>
  \<open>cm_create_id\<close> makes an id or fails; \<open>cm_event_number\<close> is the number of an event type, which
  errors carry as their subcode.
\<close>

record 'v cm_calls =
  cm_create_channel :: "nat option \<times> int"
  cm_create_id :: "'v \<Rightarrow> ((int \<times> int) \<times> nat) \<times> 'v"
  cm_bind_addr :: "nat \<Rightarrow> RdmaAddress \<Rightarrow> 'v \<Rightarrow> (int \<times> int) \<times> 'v"
  cm_listen :: "nat \<Rightarrow> 'v \<Rightarrow> (int \<times> int) \<times> 'v"
  cm_resolve_addr :: "nat \<Rightarrow> RdmaAddress option \<Rightarrow> RdmaAddress \<Rightarrow> int \<Rightarrow> 'v \<Rightarrow> (int \<times> int) \<times> 'v"
  cm_resolve_route :: "nat \<Rightarrow> int \<Rightarrow> 'v \<Rightarrow> (int \<times> int) \<times> 'v"
  cm_connect :: "nat \<Rightarrow> u8 list \<Rightarrow> 'v \<Rightarrow> (int \<times> int) \<times> 'v"
  cm_event_number :: "rdma_cm_event_type \<Rightarrow> int"

definition Connector_cpp :: string where "Connector_cpp = ''core/linux/RdmaConnector.cpp''"
definition Listener_cpp :: string where "Listener_cpp = ''core/linux/RdmaListener.cpp''"

section \<open>Suspending access\<close>

text \<open>
  The body of a block with a \<open>tAccessSuspender\<close>: access is suspended first and resumed on every way
  out.  \<open>regain\<close> is the manager once a thread that had to queue for its access has got it.
\<close>

definition access_suspended ::
  "(tAccessManager \<Rightarrow> tAccessManager) \<Rightarrow> nat \<Rightarrow> ('s \<Rightarrow> tAccessManager) \<Rightarrow> (tAccessManager \<Rightarrow> 's \<Rightarrow> 's) \<Rightarrow>
   ('s \<Rightarrow> (exn, 'a, 's) outcome) \<Rightarrow> 's \<Rightarrow> (exn, 'a, 's) outcome" where
  "access_suspended regain tid get put body s =
     (case SuspendAccess tid (get s) of
        Inl e \<Rightarrow> (Inl e, s)
      | Inr m \<Rightarrow>
          (case body (put m s) of (r, s) \<Rightarrow>
             (case ResumeAccess tid (get s) of (blocked, m) \<Rightarrow> (r, put (if blocked then regain m else m) s))))"

definition session_manager_of :: "'v linux_state \<Rightarrow> tAccessManager" where
  "session_manager_of \<sigma> = cs_accessManager (fst \<sigma>)"

definition put_session_manager :: "tAccessManager \<Rightarrow> 'v linux_state \<Rightarrow> 'v linux_state" where
  "put_session_manager m \<sigma> = ((fst \<sigma>)\<lparr>cs_accessManager := m\<rparr>, snd \<sigma>)"

section \<open>The connector\<close>

record connector_flags =
  everConnected :: bool
  connectInProgress :: bool

text \<open>
  The constructor: the id, its event queue, its local address.  An exception after the base class
  is constructed runs the destructor of the base class, which is \<open>Destroy\<close>.  \<open>eventChannel\<close> is the
  global channel, if it exists already.
\<close>

definition connector_setup ::
  "'v cm_calls \<Rightarrow> 'v verbs \<Rightarrow> nat option \<Rightarrow> RdmaAddress \<Rightarrow> ('v, unit) linux_op" where
  "connector_setup cm vb eventChannel addr = (\<lambda>(s, (l, w)).
     case GetEventChannel (fst (cm_create_channel cm)) (snd (cm_create_channel cm)) eventChannel of
       (Inl e, _) \<Rightarrow> (Inl e, (s, (l, w)))
     | (Inr _, _) \<Rightarrow>
       (case cm_create_id cm (w_state w) of (((result, errno), i), v) \<Rightarrow>
          let w = w\<lparr>w_state := v\<rparr> in
          case HandleError Connector_cpp 16 result errno of Inl e \<Rightarrow> (Inl e, (s, (l, w)))
          | Inr _ \<Rightarrow>
            let l = l\<lparr>cm_id := Some i\<rparr>; w = w\<lparr>w_ids := i # w_ids w\<rparr> in
            bind_out (on_conn (with_events (CreateConnectionQueue i)) (s, (l, w))) (\<lambda>_ \<sigma>.
              bind_out (on_conn (handled Connector_cpp 18 (cm_bind_addr cm i addr)) \<sigma>) (\<lambda>_ (s, (l, w)).
                (Inr (), (s, (l\<lparr>localAddress := RdmaAddress_of_sockaddr (vb_local_addr vb i (w_state w))\<rparr>, w)))))))"

definition RdmaConnector_new ::
  "'v cm_calls \<Rightarrow> 'v verbs \<Rightarrow> nat option \<Rightarrow> tAccessManager \<Rightarrow> FdPoller \<Rightarrow> RdmaAddress \<Rightarrow> 'v world \<Rightarrow>
   (exn, connector_flags, 'v linux_state) outcome" where
  "RdmaConnector_new cm vb eventChannel m poller addr w =
     (case connector_setup cm vb eventChannel addr
             (ConnectedSession_new m, (linux_session_new None poller, w)) of
        (Inr _, \<sigma>) \<Rightarrow> (Inr \<lparr>everConnected = False, connectInProgress = False\<rparr>, \<sigma>)
      | (Inl e, \<sigma>) \<Rightarrow>
          if \<not> catchable e then (Inl e, \<sigma>)
          else (case Destroy vb \<sigma> of (Inl e', \<sigma>) \<Rightarrow> (Inl e', \<sigma>) | (Inr _, \<sigma>) \<Rightarrow> (Inl e, \<sigma>)))"

text \<open>\<open>RdmaConnector::Cancel\<close>, with the callbacks it fires.\<close>

definition Connector_Cancel :: "('v, callback_call list) linux_op" where
  "Connector_Cancel = (\<lambda>(s, (l, w)).
     bind_out (case cm_id l of Some i \<Rightarrow> on_conn (with_events (AbortWaits i)) (s, (l, w)) | None \<Rightarrow> (Inr (), (s, (l, w))))
       (\<lambda>_ (s, c). case BaseCancel s of Inl e \<Rightarrow> (Inl e, (s, c)) | Inr (calls, s) \<Rightarrow> (Inr calls, (s, c))))"

text \<open>
  One stage of the connection: a call, the wait for its event, the check of the event's type.
  The event is the result.
\<close>

definition connect_stage ::
  "'v cm_calls \<Rightarrow> 'v verbs \<Rightarrow> (nat \<Rightarrow> 'v \<Rightarrow> (int \<times> int) \<times> 'v) \<Rightarrow> int \<Rightarrow> int \<Rightarrow> int \<Rightarrow>
   rdma_cm_event_type \<Rightarrow> 'v conn \<Rightarrow> (exn, ConnectionEvent, 'v conn) outcome" where
  "connect_stage cm vb call line timeoutMs line' expected =
     with_id (\<lambda>i c.
       bind_out (handled Connector_cpp line (call i) c) (\<lambda>_ c.
         bind_out (with_events (EM_WaitForEvent (vb_event_wait vb (w_state (snd c))) i timeoutMs False) c) (\<lambda>event c.
           case event of
             None \<Rightarrow> (Inl (Crash ''no event''), c)
           | Some ev \<Rightarrow>
               if eventType ev \<noteq> expected
               then (Inl (RDMA_THROW_WITH_SUBCODE Connector_cpp line' easyrdma_Error_UnableToConnect
                            (cm_event_number cm (eventType ev))), c)
               else (Inr ev, c))))"

definition source_address :: "linux_session \<Rightarrow> RdmaAddress option" where
  "source_address l = (if GetProtocol (localAddress l) \<noteq> AF_UNSPEC then Some (localAddress l) else None)"

definition connect_stages ::
  "'v cm_calls \<Rightarrow> 'v verbs \<Rightarrow> Direction \<Rightarrow> RdmaAddress \<Rightarrow> int \<Rightarrow> ('v, unit) linux_op" where
  "connect_stages cm vb dir dest timeoutMs \<sigma> =
     bind_out (on_conn (connect_stage cm vb (\<lambda>i. cm_resolve_addr cm i (source_address (fst (snd \<sigma>))) dest timeoutMs)
                 40 (-1) 43 RDMA_CM_EVENT_ADDR_RESOLVED) \<sigma>) (\<lambda>_ \<sigma>.
       bind_out (on_conn (connect_stage cm vb (\<lambda>i. cm_resolve_route cm i timeoutMs) 47 (-1) 50
                   RDMA_CM_EVENT_ROUTE_RESOLVED) \<sigma>) (\<lambda>_ \<sigma>.
         bind_out (on_conn (connect_stage cm vb (\<lambda>i. cm_connect cm i (cs_connectionData (fst \<sigma>))) 59 timeoutMs 62
                     RDMA_CM_EVENT_ESTABLISHED) \<sigma>) (\<lambda>event \<sigma>.
           case ValidateConnectionData (ce_connectionData event) dir of
             Inl e \<Rightarrow> (Inl e, \<sigma>)
           | Inr _ \<Rightarrow> PostConnect vb \<sigma>)))"

text \<open>The \<open>try\<close> block of \<open>Connect\<close>, and its \<open>catch\<close> block.\<close>

definition connect_attempt ::
  "'v cm_calls \<Rightarrow> 'v verbs \<Rightarrow> nat \<Rightarrow> nat \<Rightarrow> Direction \<Rightarrow> RdmaAddress \<Rightarrow> int \<Rightarrow> ('v, unit) linux_op" where
  "connect_attempt cm vb fuel tid dir remote timeoutMs \<sigma> =
     bind_out (PreConnect (linux_services vb fuel (fst (snd \<sigma>))) dir \<sigma>) (\<lambda>_ \<sigma>.
       access_suspended (vb_regain vb) tid session_manager_of put_session_manager
         (connect_stages cm vb dir remote timeoutMs) \<sigma>)"

definition connect_undo :: "'v verbs \<Rightarrow> ('v, unit) linux_op" where
  "connect_undo vb \<sigma> = bind_out (Connector_Cancel \<sigma>) (\<lambda>_ \<sigma>. on_conn (DestroyQP vb) \<sigma>)"

definition Connect ::
  "'v cm_calls \<Rightarrow> 'v verbs \<Rightarrow> nat \<Rightarrow> nat \<Rightarrow> Direction \<Rightarrow> RdmaAddress \<Rightarrow> int \<Rightarrow>
   connector_flags \<times> 'v linux_state \<Rightarrow> (exn, unit, connector_flags \<times> 'v linux_state) outcome" where
  "Connect cm vb fuel tid dir remote timeoutMs = (\<lambda>(k, \<sigma>).
     if everConnected k then (Inl (RDMA_THROW Connector_cpp 29 easyrdma_Error_AlreadyConnected), (k, \<sigma>))
     else if connectInProgress k
     then (Inl (RDMA_THROW Connector_cpp 32 easyrdma_Error_InvalidOperation), (k, \<sigma>))
     else
       let k = k\<lparr>connectInProgress := True\<rparr> in
       case connect_attempt cm vb fuel tid dir remote timeoutMs \<sigma> of
         (Inr _, \<sigma>) \<Rightarrow> (Inr (), (k\<lparr>everConnected := True, connectInProgress := False\<rparr>, \<sigma>))
       | (Inl e, \<sigma>) \<Rightarrow>
           if \<not> catchable e then (Inl e, (k, \<sigma>))
           else
             (case connect_undo vb \<sigma> of
                (Inl e', \<sigma>) \<Rightarrow> (Inl e', (k, \<sigma>))
              | (Inr _, \<sigma>) \<Rightarrow> (Inl e, (k\<lparr>connectInProgress := False\<rparr>, \<sigma>))))"

section \<open>The listener\<close>

record RdmaListener =
  ln_cm_id :: "nat option"
  ln_localAddress :: RdmaAddress
  acceptInProgress :: bool
  ln_connectionData :: "u8 list"
  ln_accessManager :: tAccessManager

definition easyrdma_ListenerBase_cpp :: string where
  "easyrdma_ListenerBase_cpp = ''core/common/RdmaListenerBase.cpp''"

definition Listener_SetProperty :: "u32 \<Rightarrow> u8 list \<Rightarrow> RdmaListener \<Rightarrow> (exn, unit, RdmaListener) outcome" where
  "Listener_SetProperty propertyId val ln =
     (if propertyId = easyrdma_Property_ConnectionData then (Inr (), ln\<lparr>ln_connectionData := val\<rparr>)
      else (Inl (RDMA_THROW easyrdma_ListenerBase_cpp 21 easyrdma_Error_ReadOnlyProperty), ln))"

text \<open>
  The constructor.  An exception leaves the object unfinished, so the destructor does not run; the
  state of the world is what is left then.
\<close>

definition RdmaListener_new ::
  "'v cm_calls \<Rightarrow> 'v verbs \<Rightarrow> nat option \<Rightarrow> tAccessManager \<Rightarrow> RdmaAddress \<Rightarrow> 'v world \<Rightarrow>
   (exn, RdmaListener, 'v world) outcome" where
  "RdmaListener_new cm vb eventChannel m addr w =
     (case GetEventChannel (fst (cm_create_channel cm)) (snd (cm_create_channel cm)) eventChannel of
        (Inl e, _) \<Rightarrow> (Inl e, w)
      | (Inr _, _) \<Rightarrow>
        (case cm_create_id cm (w_state w) of (((result, errno), i), v) \<Rightarrow>
           let w = w\<lparr>w_state := v\<rparr> in
           case HandleError Listener_cpp 12 result errno of Inl e \<Rightarrow> (Inl e, w)
           | Inr _ \<Rightarrow>
             let w = w\<lparr>w_ids := i # w_ids w\<rparr> in
             (case CreateConnectionQueue i (w_events w) of
                (Inl e, em) \<Rightarrow> (Inl e, w\<lparr>w_events := em\<rparr>)
              | (Inr _, em) \<Rightarrow>
                let w = w\<lparr>w_events := em\<rparr> in
                (case cm_bind_addr cm i addr (w_state w) of ((result, errno), v) \<Rightarrow>
                   let w = w\<lparr>w_state := v\<rparr> in
                   case HandleError Listener_cpp 14 result errno of Inl e \<Rightarrow> (Inl e, w)
                   | Inr _ \<Rightarrow>
                     (case cm_listen cm i (w_state w) of ((result, errno), v) \<Rightarrow>
                        let w = w\<lparr>w_state := v\<rparr> in
                        case HandleError Listener_cpp 15 result errno of Inl e \<Rightarrow> (Inl e, w)
                        | Inr _ \<Rightarrow>
                          (Inr \<lparr>ln_cm_id = Some i,
                                ln_localAddress = RdmaAddress_of_sockaddr (vb_local_addr vb i (w_state w)),
                                acceptInProgress = False, ln_connectionData = [], ln_accessManager = m\<rparr>, w))))))"

definition RdmaListener_dtor :: "'v verbs \<Rightarrow> RdmaListener \<Rightarrow> 'v world \<Rightarrow> 'v world" where
  "RdmaListener_dtor vb ln w =
     (case ln_cm_id ln of None \<Rightarrow> w
      | Some i \<Rightarrow> w\<lparr>w_events := DestroyConnectionQueue i (w_events w), w_ids := remove1 i (w_ids w),
                   w_state := vb_destroy_id vb i (w_state w)\<rparr>)"

text \<open>
  The block of \<open>Accept\<close> with suspended access: the wait for a request, then the construction of the
  session with its access manager \<open>m\<close> and poller.  The id of a request is a resource of the world
  from the moment it is delivered.
\<close>

definition accept_body ::
  "'v verbs \<Rightarrow> nat \<Rightarrow> tAccessManager \<Rightarrow> FdPoller \<Rightarrow> Direction \<Rightarrow> int \<Rightarrow>
   RdmaListener \<times> 'v world \<Rightarrow> (exn, ConnectedSession \<times> linux_session, RdmaListener \<times> 'v world) outcome" where
  "accept_body vb fuel m poller dir timeoutMs = (\<lambda>(ln, w).
     case ln_cm_id ln of None \<Rightarrow> (Inl (Crash ''null cm_id''), (ln, w))
     | Some i \<Rightarrow>
       (case EM_WaitForEvent (vb_event_wait vb (w_state w)) i timeoutMs False (w_events w) of
          (Inl e, em) \<Rightarrow> (Inl e, (ln, w\<lparr>w_events := em\<rparr>))
        | (Inr event, em) \<Rightarrow>
          let w = w\<lparr>w_events := em\<rparr> in
          (case event of
             None \<Rightarrow> (Inl (Crash ''no event''), (ln, w))
           | Some ev \<Rightarrow>
             if eventType ev \<noteq> RDMA_CM_EVENT_CONNECT_REQUEST
             then (Inl (RDMA_THROW Listener_cpp 37 easyrdma_Error_UnableToConnect), (ln, w))
             else
               (case incomingConnectionId ev of None \<Rightarrow> (Inl (Crash ''null incomingConnectionId''), (ln, w))
                | Some c \<Rightarrow>
                  (case RdmaConnectedSession_accept vb fuel m poller dir c (ce_connectionData ev) (ln_connectionData ln)
                          (w\<lparr>w_ids := c # w_ids w\<rparr>) of
                     (Inl e, (s, (l, w))) \<Rightarrow> (Inl e, (ln, w))
                   | (Inr _, (s, (l, w))) \<Rightarrow> (Inr (s, l), (ln, w)))))))"

definition put_listener_manager :: "tAccessManager \<Rightarrow> RdmaListener \<times> 'v world \<Rightarrow> RdmaListener \<times> 'v world" where
  "put_listener_manager m p = ((fst p)\<lparr>ln_accessManager := m\<rparr>, snd p)"

definition Accept ::
  "'v verbs \<Rightarrow> nat \<Rightarrow> tAccessManager \<Rightarrow> FdPoller \<Rightarrow> nat \<Rightarrow> Direction \<Rightarrow> int \<Rightarrow>
   RdmaListener \<times> 'v world \<Rightarrow> (exn, ConnectedSession \<times> linux_session, RdmaListener \<times> 'v world) outcome" where
  "Accept vb fuel m poller tid dir timeoutMs = (\<lambda>(ln, w).
     if acceptInProgress ln then (Inl (RDMA_THROW Listener_cpp 30 easyrdma_Error_InvalidOperation), (ln, w))
     else
       case access_suspended (vb_regain vb) tid (\<lambda>(ln, _). ln_accessManager ln) put_listener_manager
              (accept_body vb fuel m poller dir timeoutMs) (ln\<lparr>acceptInProgress := True\<rparr>, w) of
         (Inr session, (ln, w)) \<Rightarrow> (Inr session, (ln\<lparr>acceptInProgress := False\<rparr>, w))
       | (Inl e, (ln, w)) \<Rightarrow>
           if catchable e then (Inl e, (ln\<lparr>acceptInProgress := False\<rparr>, w)) else (Inl e, (ln, w)))"

definition Listener_GetLocalAddress :: "RdmaListener \<Rightarrow> RdmaAddress" where
  "Listener_GetLocalAddress ln = ln_localAddress ln"

definition Listener_GetRemoteAddress :: "RdmaListener \<Rightarrow> RdmaAddress" where
  "Listener_GetRemoteAddress ln = RdmaAddress_new"

text \<open>No queue is ever made for a null id.\<close>

definition Listener_Cancel :: "RdmaListener \<times> 'v world \<Rightarrow> (exn, unit, RdmaListener \<times> 'v world) outcome" where
  "Listener_Cancel = (\<lambda>(ln, w).
     case ln_cm_id ln of
       None \<Rightarrow> (Inl (RDMA_THROW EventManager_h 129 easyrdma_Error_InternalError), (ln, w))
     | Some i \<Rightarrow> (case AbortWaits i (w_events w) of (r, em) \<Rightarrow> (r, (ln, w\<lparr>w_events := em\<rparr>))))"

end
