(* ===== verification/LinuxLemmas.thy ===== *)
theory LinuxLemmas
  imports Backend LinuxEndpoints EventTheorems
begin

text \<open>
  What the operations of the Linux session do to the resources of a connection: its id, its event
  queue and its queue pair.  The predicate \<open>owns\<close> says that a connection under construction has
  added exactly its own resources to the world it started in; every step keeps it, and \<open>Destroy\<close>
  gives all of them back.
\<close>

section \<open>Ownership\<close>

definition other_queues :: "nat \<Rightarrow> EventManager \<Rightarrow> nat \<Rightarrow> ConnectionQueue option" where
  "other_queues i em = (connectionMap em)(i := None)"

definition owns :: "nat \<Rightarrow> 'v world \<Rightarrow> 'v conn \<Rightarrow> bool" where
  "owns i w0 c \<longleftrightarrow> cm_id (fst c) = Some i \<and> connectionMap (w_events (snd c)) i \<noteq> None
     \<and> other_queues i (w_events (snd c)) = other_queues i (w_events w0)
     \<and> w_ids (snd c) = w_ids w0
     \<and> w_qps (snd c) = (if createdQp (fst c) then i # w_qps w0 else w_qps w0)"

definition released :: "nat \<Rightarrow> 'v world \<Rightarrow> 'v conn \<Rightarrow> bool" where
  "released i w0 c \<longleftrightarrow> cm_id (fst c) = None \<and> \<not> createdQp (fst c) \<and> \<not> connectionHandler (fst c)
     \<and> \<not> transferHandler (fst c) \<and> \<not> ls_ackHandler (fst c)
     \<and> connectionMap (w_events (snd c)) = other_queues i (w_events w0)
     \<and> w_ids (snd c) = remove1 i (w_ids w0) \<and> w_qps (snd c) = w_qps w0"

lemma owns_world_state [simp]: "owns i w0 (l, w\<lparr>w_state := v\<rparr>) = owns i w0 (l, w)"
  by (simp add: owns_def)

lemma owns_session_fields [simp]:
  "owns i w0 (l\<lparr>localAddress := a\<rparr>, w) = owns i w0 (l, w)"
  "owns i w0 (l\<lparr>remoteAddress := a\<rparr>, w) = owns i w0 (l, w)"
  "owns i w0 (l\<lparr>connectionHandler := b\<rparr>, w) = owns i w0 (l, w)"
  "owns i w0 (l\<lparr>transferHandler := b\<rparr>, w) = owns i w0 (l, w)"
  "owns i w0 (l\<lparr>ls_ackHandler := b\<rparr>, w) = owns i w0 (l, w)"
  "owns i w0 (l\<lparr>queueFdPoller := p\<rparr>, w) = owns i w0 (l, w)"
  by (simp_all add: owns_def)

lemma keeps_handled: "keeps (owns i w0) (handled file line f)"
  by (auto simp: handled_def kernel_def split: prod.splits)

lemma keeps_with_id: "(\<And>i. keeps P (f i)) \<Longrightarrow> keeps P (with_id f)"
  by (auto simp: with_id_def keeps_def split: option.splits)

lemma keeps_SetupQueuePair: "keeps (owns i w0) (SetupQueuePair vb)"
proof
  fix c :: "'a conn" assume own: "owns i w0 c"
  show "owns i w0 (snd (SetupQueuePair vb c))"
  proof (cases "createdQp (fst c)")
    case True
    with own show ?thesis by (simp add: SetupQueuePair_def)
  next
    case False
    obtain l w where c: "c = (l, w)" by (cases c)
    from own c have i: "cm_id l = Some i" by (simp add: owns_def)
    obtain r l' w' where h: "handled ConnectedSession_cpp 338 (vb_create_qp vb i kMaxWr kMaxWr) c = (r, (l', w'))"
      by (metis prod_cases3)
    from h have l': "l' = l" by (auto simp: handled_def kernel_def c split: prod.splits)
    from keepsD [OF keeps_handled own h] have "owns i w0 (l', w')" .
    with False show ?thesis
      by (cases r) (simp_all add: SetupQueuePair_def with_id_def i h c [symmetric] l', simp_all add: c i h [unfolded c] owns_def l')
  qed
qed

lemma DestroyQP_owned:
  assumes "owns i w0 (l, w)"
  shows "DestroyQP vb (l, w) = (Inr (),
    if createdQp l then (l\<lparr>createdQp := False\<rparr>, w\<lparr>w_state := vb_destroy_qp vb i (w_state w), w_qps := w_qps w0\<rparr>)
    else (l, w))"
  using assms by (simp add: owns_def DestroyQP_def with_id_def kernel_def)

lemma keeps_DestroyQP: "keeps (owns i w0) (DestroyQP vb)"
proof
  fix c :: "'a conn" assume own: "owns i w0 c"
  obtain l w where c: "c = (l, w)" by (cases c)
  from own show "owns i w0 (snd (DestroyQP vb c))"
    unfolding c DestroyQP_owned [OF own [unfolded c]] by (simp add: owns_def)
qed

lemma keeps_QueueToQp: "keeps (owns i w0) (QueueToQp vb dir j b)"
  by (auto simp: QueueToQp_def intro!: keeps_with_id keeps_handled)

lemma put_queue_simps:
  "connectionMap (put_queue i q em) i = Some q" "other_queues i (put_queue i q em) = other_queues i em"
  by (simp_all add: put_queue_def other_queues_def)

lemma owns_put_queue [simp]: "owns i w0 (l, w) \<Longrightarrow> owns i w0 (l, w\<lparr>w_events := put_queue i q (w_events w)\<rparr>)"
  by (simp add: owns_def put_queue_simps)

lemma keeps_WaitForEvent:
  "keeps (owns i w0) (\<lambda>c. with_events (EM_WaitForEvent (f c) i timeoutMs r) c)"
  by (auto simp: with_events_def EM_WaitForEvent_def split: prod.splits sum.splits)

lemma keeps_AbortWaits: "keeps (owns i w0) (with_events (AbortWaits i))"
  by (auto simp: with_events_def AbortWaits_def split: prod.splits sum.splits)

section \<open>Polling\<close>

text \<open>Polling for completions changes the state of the driver only.\<close>

definition driver_blind :: "('v conn \<Rightarrow> bool) \<Rightarrow> bool" where
  "driver_blind P \<longleftrightarrow> (\<forall>l w v. P (l, w\<lparr>w_state := v\<rparr>) = P (l, w))"

lemma driver_blind_owns: "driver_blind (owns i w0)"
  by (simp add: driver_blind_def)

lemma kernel_blind: "driver_blind P \<Longrightarrow> kernel f c = (a, c') \<Longrightarrow> P c' = P c"
  by (cases c) (auto simp: driver_blind_def kernel_def split: prod.splits)

lemma kernel_blind_snd: "driver_blind P \<Longrightarrow> P (snd (kernel f c)) = P c"
  using kernel_blind [of P f c "fst (kernel f c)" "snd (kernel f c)"] by simp

lemma PollCompletionQueue_loop_blind:
  assumes "driver_blind P"
  shows "P (snd \<sigma>) \<Longrightarrow> P (snd (snd (PollCompletionQueue_loop vb dir blocking timeoutMs pollStart n \<sigma>)))"
proof (induction n arbitrary: \<sigma> blocking timeoutMs)
  case (Suc n)
  obtain s c where \<sigma>: "\<sigma> = (s, c)" by (cases \<sigma>)
  have rest: "P c' \<Longrightarrow> P (snd (snd (PollCompletionQueue_loop vb dir b t pollStart n (s, c'))))" for c' b t
    using Suc.IH [of "(s, c')"] by simp
  note blind = kernel_blind_snd [OF assms]
  from Suc.prems \<sigma> have "P c" by simp
  then show ?case
    by (simp add: \<sigma> case_prod_unfold blind rest split: sum.split)
qed simp

lemma PollCompletionQueue_blind:
  assumes "driver_blind P" and "P (snd \<sigma>)"
  shows "P (snd (snd (PollCompletionQueue vb n dir blocking timeoutMs \<sigma>)))"
proof -
  obtain s c where \<sigma>: "\<sigma> = (s, c)" by (cases \<sigma>)
  obtain now c1 where k: "kernel (vb_now vb) c = (now, c1)" by (cases "kernel (vb_now vb) c")
  from PollCompletionQueue_loop_blind [OF assms(1), of "(s, c1)" vb dir blocking timeoutMs now n] kernel_blind [OF assms(1) k] assms(2) \<sigma>
  have "P (snd (snd (PollCompletionQueue_loop vb dir blocking timeoutMs now n (s, c1))))" by simp
  with assms(2) \<sigma> show ?thesis
    by (auto simp: PollCompletionQueue_def k split: prod.split option.split sum.split)
qed

lemma keeps_process_completion: "keeps_conn P (process_completion vb a b wc)"
proof -
  have "keeps_conn P (complete_buffer ref e n)" for ref e n
    by (cases ref) (simp_all add: complete_buffer_def keeps_transfer_queue keeps_credit_queue)
  then show ?thesis by (simp add: process_completion_def Let_def keeps_def split: sum.split)
qed

lemma PollForReceive_blind:
  assumes "driver_blind P" and "P (snd \<sigma>)"
  shows "P (snd (snd (PollForReceive vb n timeoutMs \<sigma>)))"
proof -
  obtain r \<sigma>1 where p: "PollCompletionQueue vb n Receive False timeoutMs \<sigma> = (r, \<sigma>1)"
    by (cases "PollCompletionQueue vb n Receive False timeoutMs \<sigma>")
  with PollCompletionQueue_blind [OF assms, of vb n Receive False timeoutMs] have own: "P (snd \<sigma>1)" by simp
  from own keeps_snd [OF keeps_process_completion [of P], OF own] show ?thesis
    by (simp add: PollForReceive_def p case_prod_unfold split: option.split sum.split)
qed

section \<open>The Linux session implements the interface of the base class\<close>

lemma linux_backend:
  assumes "driver_blind P" and "\<And>dir i b. keeps P (QueueToQp vb dir i b)" and "keeps P (SetupQueuePair vb)"
  shows "backend (linux_services vb fuel l) P"
proof
  fix \<sigma> :: "'a linux_state" and timeoutMs :: int
  assume "P (snd \<sigma>)"
  then show "P (snd (snd (svc_wait_transfer (linux_services vb fuel l) \<sigma>)))"
    by (cases \<sigma>) (simp add: linux_services_def split: prod.split)
next
  fix timeoutMs :: int
  show "keeps_conn P (svc_PollForReceive (linux_services vb fuel l) timeoutMs)"
  proof
    fix \<sigma> :: "'a linux_state" assume "P (snd \<sigma>)"
    from PollForReceive_blind [OF assms(1) this, of vb fuel timeoutMs]
    show "P (snd (snd (svc_PollForReceive (linux_services vb fuel l) timeoutMs \<sigma>)))"
      by (auto simp: linux_services_def split: prod.splits option.split sum.split)
  qed
qed (simp_all add: linux_services_def assms)

interpretation linux: backend "linux_services vb fuel l" "owns i w0" for vb fuel l i w0
  by (rule linux_backend) (rule driver_blind_owns keeps_QueueToQp keeps_SetupQueuePair)+

lemma keeps_on_conn: "keeps P f \<Longrightarrow> keeps (\<lambda>\<sigma>. P (snd \<sigma>)) (on_conn f)"
  by (auto simp: on_conn_def keeps_def split: prod.splits) (metis snd_conv)

lemma keeps_PostConnect: "keeps (\<lambda>\<sigma>. owns i w0 (snd \<sigma>)) (PostConnect vb)"
  by (auto simp: PostConnect_def Let_def split: option.splits sum.splits)

lemma keeps_suspended:
  assumes "keeps P body" and "\<And>m s. P (put m s) = P s"
  shows "keeps P (access_suspended regain tid get put body)"
  using assms by (auto simp: access_suspended_def keeps_def split: sum.splits prod.splits) (metis snd_conv)+

section \<open>Nothing but a crash stops a cancellation\<close>

lemma fifo_only_crashes:
  "fifo_front q = Inl e \<Longrightarrow> \<not> catchable e" "fifo_pop q = Inl e \<Longrightarrow> \<not> catchable e" "fifo_push x q = Inl e \<Longrightarrow> \<not> catchable e"
  by (auto simp: fifo_front_def fifo_pop_def fifo_push_def catchable_def split: if_splits)

lemma drain_only_crashes: "drain f t bufs cbs = Inl e \<Longrightarrow> \<not> catchable e"
proof (induction "unat (fifo_size f)" arbitrary: f t bufs cbs rule: less_induct)
  case less
  show ?case
    using less.prems less.hyps [OF fifo_pop_smaller]
    by (subst (asm) drain.simps)
       (auto simp: bind_res_eq_Inl GetAndClearCallbackData_def split: if_splits sum.splits
         dest: fifo_only_crashes)
qed

lemma Abort_only_crashes: "Abort code q = Inl e \<Longrightarrow> \<not> catchable e"
  by (auto simp: Abort_def Abort_locked_def bind_res_eq_Inl Let_def split: if_splits dest: drain_only_crashes)

lemma abort_option_only_crashes: "abort_option code q = Inl e \<Longrightarrow> \<not> catchable e"
  by (auto simp: abort_option_def bind_res_eq_Inl split: option.splits dest: Abort_only_crashes)

lemma BaseCancel_only_crashes: "BaseCancel s = Inl e \<Longrightarrow> \<not> catchable e"
  by (auto simp: BaseCancel_def bind_res_eq_Inl dest: abort_option_only_crashes)

lemma HandleDisconnect_only_crashes: "HandleDisconnect s = Inl e \<Longrightarrow> \<not> catchable e"
  by (auto simp: HandleDisconnect_def bind_res_eq_Inl Let_def dest: abort_option_only_crashes)

section \<open>Destroying\<close>

lemma AbortWaits_owned:
  assumes "owns i w0 (l, w)"
  shows "\<exists>q. with_events (AbortWaits i) (l, w) = (Inr (), (l, w\<lparr>w_events := put_queue i (CQ_CancelWaits q) (w_events w)\<rparr>))"
  using assms by (auto simp: owns_def with_events_def AbortWaits_def GetConnectionQueue_def GetConnectionQueueInternal_def)

lemma Destroy_owned:
  assumes own: "owns i w0 (snd \<sigma>)" and run: "Destroy vb \<sigma> = (r, \<sigma>')"
  shows "(\<exists>calls. r = Inr calls) \<and> released i w0 (snd \<sigma>') \<or> (\<exists>e. r = Inl e \<and> \<not> catchable e)"
proof -
  obtain s l w where \<sigma>: "\<sigma> = (s, (l, w))" by (metis prod_cases3)
  let ?l = "l\<lparr>queueFdPoller := FdPoller_Cancel True (queueFdPoller l), transferHandler := False, ls_ackHandler := False\<rparr>"
  let ?w = "w\<lparr>w_state := vb_disconnect vb i (w_state w)\<rparr>"
  let ?s = "join_handler vb Ack_handler (ls_ackHandler l) (join_handler vb Transfer_handler (transferHandler l) s)"
  from own \<sigma> have id: "cm_id l = Some i" by (simp add: owns_def)
  have "owns i w0 (?l, ?w)" using own \<sigma> by simp
  from AbortWaits_owned [OF this] obtain q where abort: "with_events (AbortWaits i) (?l, ?w)
      = (Inr (), (?l, ?w\<lparr>w_events := put_queue i (CQ_CancelWaits q) (w_events w)\<rparr>))" by auto
  let ?w2 = "?w\<lparr>w_events := put_queue i (CQ_CancelWaits q) (w_events w)\<rparr>"
  let ?l2 = "?l\<lparr>connectionHandler := False\<rparr>"
  have own2: "owns i w0 (?l2, ?w2)"
    using owns_put_queue [of i w0 l ?w "CQ_CancelWaits q"] own \<sigma> by simp
  obtain l3 w3 where qp: "DestroyQP vb (?l2, ?w2) = (Inr (), (l3, w3))"
    using DestroyQP_owned [OF own2, of vb] by (cases "createdQp ?l2") auto
  have own3: "owns i w0 (l3, w3)" and l3: "\<not> createdQp l3" "\<not> connectionHandler l3" "\<not> transferHandler l3" "\<not> ls_ackHandler l3"
    using keepsD [OF keeps_DestroyQP own2 qp] qp DestroyQP_owned [OF own2, of vb] by (auto split: if_splits)
  let ?s2 = "join_handler vb Connection_handler (connectionHandler l) ?s"
  show ?thesis
  proof (cases "HandleDisconnect ?s2")
    case (Inl e)
    then have "r = Inl e" using run by (simp add: Destroy_def \<sigma> Let_def id on_conn_def abort)
    with HandleDisconnect_only_crashes [OF Inl] show ?thesis by simp
  next
    case (Inr p)
    then obtain calls s3 where p: "HandleDisconnect ?s2 = Inr (calls, s3)" by (cases p) auto
    have "Destroy vb \<sigma> = (Inr calls, (s3, (l3\<lparr>cm_id := None\<rparr>,
        w3\<lparr>w_events := DestroyConnectionQueue i (w_events w3), w_ids := remove1 i (w_ids w3),
           w_state := vb_destroy_id vb i (w_state w3)\<rparr>)))"
      by (simp add: Destroy_def \<sigma> Let_def id on_conn_def abort p qp)
    with run own3 l3 show ?thesis
      by (auto simp: released_def owns_def DestroyConnectionQueue_def other_queues_def)
  qed
qed

end
