(* ===== verification/LinuxTheorems.thy ===== *)
theory LinuxTheorems
  imports LinuxLemmas
begin

text \<open>
  What the Linux layer guarantees: failed handshakes give every resource back, a failed connection
  attempt is cleaned up and final, polling for a receive returns, and the handler threads that
  \<open>Destroy\<close> joins end.
\<close>

section \<open>A concrete environment\<close>

text \<open>
  A connection manager and verbs provider that accepts every call; its state is a clock.  Completion
  queues are empty, and polling a descriptor reports only the pipe.
\<close>

definition quiet_verbs :: "int verbs" where
  "quiet_verbs = \<lparr>
     vb_post_send = (\<lambda>_ _ _ _ v. ((0, 0), v)), vb_post_recv = (\<lambda>_ _ _ _ v. ((0, 0), v)),
     vb_reg_msgs = (\<lambda>_ _ _. (Some 1, 0)), vb_create_qp = (\<lambda>_ _ _ v. ((0, 0), v)),
     vb_destroy_qp = (\<lambda>_ v. v), vb_accept = (\<lambda>_ _ v. ((0, 0), v)), vb_reject = (\<lambda>_ _ v. v),
     vb_disconnect = (\<lambda>_ v. v), vb_destroy_id = (\<lambda>_ v. v), vb_local_addr = (\<lambda>_ _. []),
     vb_peer_addr = (\<lambda>_ _. []), vb_event_wait = (\<lambda>_ q. (True, q)),
     vb_poll_cq = (\<lambda>_ v. ((0, \<lparr>wc_status = IBV_WC_SUCCESS, wc_opcode = IBV_WC_RECV, wc_byte_len = 0,
                                  wc_wr_id = TransferBuffer 0\<rparr>), v)),
     vb_req_notify_cq = (\<lambda>_ v. (0, v)), vb_get_cq_event = (\<lambda>_ v. ((0, 0, True), v)),
     vb_seterrno = (\<lambda>r. (-1, r)), vb_channel_fd = (\<lambda>_. 7), vb_fcntl = (\<lambda>_ v. ((0, 0), v)),
     vb_poll = (\<lambda>_ fds _. (1, 0, map (\<lambda>f. f\<lparr>pfd_revents := (if pfd_fd f = 5 then 1 else 0)\<rparr>) fds)),
     vb_now = (\<lambda>v. (v + 1, v + 1)), vb_wc_number = (\<lambda>_. 1), vb_start_thread = (\<lambda>_. Inr ()),
     vb_setname = (\<lambda>_. 0), vb_file_exists = (\<lambda>_. False), vb_join = (\<lambda>_ s. s),
     vb_memalign = (\<lambda>_. Some (4096, replicate 8 0)), vb_wait_transfer = (\<lambda>s. (True, s)),
     vb_wait_credit = (\<lambda>q. (True, q)), vb_regain = id\<rparr>"

definition quiet_calls :: "int cm_calls" where
  "quiet_calls = \<lparr>cm_create_channel = (Some 1, 0), cm_create_id = (\<lambda>v. (((0, 0), 3), v)),
     cm_bind_addr = (\<lambda>_ _ v. ((-1, 98), v)), cm_listen = (\<lambda>_ v. ((0, 0), v)),
     cm_resolve_addr = (\<lambda>_ _ _ _ v. ((-1, 22), v)), cm_resolve_route = (\<lambda>_ _ v. ((0, 0), v)),
     cm_connect = (\<lambda>_ _ v. ((0, 0), v)), cm_event_number = (\<lambda>_. 1)\<rparr>"

definition quiet_world :: "int world" where
  "quiet_world = \<lparr>w_events = EventManager_new, w_ids = [], w_qps = [], w_state = 0\<rparr>"

definition demo_poller :: FdPoller where
  "demo_poller = \<lparr>pipeFds = (5, 6), pipeBytes = 0\<rparr>"

definition demo_manager :: tAccessManager where
  "demo_manager = \<lparr>refcount = 0, activeRequests = tRequestList_new, pendingRequests = tRequestList_new,
     suspendedRequests = tRequestList_new, emptyRequests = tRequestList_new, allRefsReleased = tEvent_new False True\<rparr>"

section \<open>Failed handshakes\<close>

lemma owns_created:
  assumes "connectionMap (w_events w) i = None" and "cm_id l = Some i" and "\<not> createdQp l"
  shows "owns i w (l, w\<lparr>w_events := put_queue i q (w_events w)\<rparr>)"
  using assms by (simp add: owns_def put_queue_simps)

lemma keeps_wait_session:
  "keeps (\<lambda>\<sigma>. owns i w0 (snd \<sigma>)) (\<lambda>\<sigma>. on_conn (with_events (EM_WaitForEvent (f \<sigma>) i timeoutMs c)) \<sigma>)"
proof
  fix \<sigma> :: "'a linux_state" assume "owns i w0 (snd \<sigma>)"
  with keeps_WaitForEvent [of i w0 "\<lambda>_. f \<sigma>" timeoutMs c]
  show "owns i w0 (snd (snd (on_conn (with_events (EM_WaitForEvent (f \<sigma>) i timeoutMs c)) \<sigma>)))"
    by (simp add: keeps_def on_conn_def split: prod.splits) (metis snd_conv)
qed

lemma keeps_await: "keeps (\<lambda>\<sigma>. owns i w0 (snd \<sigma>)) (await_established vb i)"
  unfolding await_established_def
  by (intro keeps_bind keeps_wait_session keeps_if keeps_const keeps_PostConnect) (auto simp: keeps_def)

lemma keeps_PreConnect_state:
  "keeps (\<lambda>\<sigma>. owns i w0 (snd \<sigma>)) (\<lambda>\<sigma>. PreConnect (linux_services vb fuel (fst (snd \<sigma>))) dir \<sigma>)"
  using linux.PreConnect_keeps [of i w0 vb fuel _ dir] by (simp add: keeps_def)

lemma keeps_handled_session:
  "keeps (\<lambda>\<sigma>. owns i w0 (snd \<sigma>)) (\<lambda>\<sigma>. on_conn (handled file line (f \<sigma>)) \<sigma>)"
proof
  fix \<sigma> :: "'a linux_state" assume "owns i w0 (snd \<sigma>)"
  with keeps_on_conn [OF keeps_handled, of i w0] show "owns i w0 (snd (snd (on_conn (handled file line (f \<sigma>)) \<sigma>)))"
    unfolding keeps_def by blast
qed

lemma keeps_validated:
  "keeps (\<lambda>\<sigma>. owns i w0 (snd \<sigma>)) (\<lambda>\<sigma>. case ValidateConnectionData din dir of
     Inl e \<Rightarrow> (Inl e, if catchable e then reject_connection vb j din \<sigma> else \<sigma>)
   | Inr _ \<Rightarrow> bind_out (on_conn (handled ConnectedSession_cpp 42 (vb_accept vb j (cs_connectionData (fst \<sigma>)))) \<sigma>)
       (\<lambda>_ \<sigma>. await_established vb i \<sigma>))"
proof (cases "ValidateConnectionData din dir")
  case (Inl e)
  then show ?thesis by (auto simp: keeps_def reject_connection_def)
next
  case (Inr u)
  then show ?thesis using keeps_bind [OF keeps_handled_session keeps_await] by simp
qed

lemma accept_handshake_owns:
  assumes "connectionMap (w_events w) i = None" and "cm_id l = Some i" and "\<not> createdQp l"
  shows "owns i w (snd (snd (accept_handshake vb fuel dir i din (s, (l, w)))))"
proof -
  let ?start = "(s, (l, w\<lparr>w_events := put_queue i ConnectionQueue_new (w_events w)\<rparr>))"
  have "on_conn (with_events (CreateConnectionQueue i)) (s, (l, w)) = (Inr (), ?start)"
    using assms(1) by (simp add: on_conn_def with_events_def CreateConnectionQueue_def)
  then show ?thesis
    using keeps_bind [OF keeps_PreConnect_state [of i w vb fuel dir] keeps_validated [where i = i and ?w0.0 = w and din = din and dir = dir and vb = vb and j = i]] owns_created [OF assms]
    by (simp add: accept_handshake_def keeps_def)
qed

text \<open>
  A failed accept leaks nothing: whatever step of the handshake fails, with whatever answers of
  the connection manager, the constructor that throws has destroyed the queue pair it made, has
  removed its event queue and only that one, has destroyed the connection id and has joined every
  handler thread it started.
\<close>

lemma failed_accept_released:
  assumes "RdmaConnectedSession_accept vb fuel m poller dir i din dout w = (Inl e, \<sigma>)" and "catchable e"
    and "connectionMap (w_events w) i = None"
  shows "released i w (snd \<sigma>)"
proof -
  let ?start = "(ConnectedSession_new_data dout m, (linux_session_new (Some i) poller, w))"
  obtain r \<sigma>1 where hs: "accept_handshake vb fuel dir i din ?start = (r, \<sigma>1)"
    by (cases "accept_handshake vb fuel dir i din ?start")
  with accept_handshake_owns [OF assms(3), of "linux_session_new (Some i) poller" vb fuel dir din "ConnectedSession_new_data dout m"]
  have own: "owns i w (snd \<sigma>1)" by (simp add: linux_session_new_def)
  obtain r2 \<sigma>2 where d: "Destroy vb \<sigma>1 = (r2, \<sigma>2)" by (cases "Destroy vb \<sigma>1")
  from assms(1,2) hs d have "r2 = Inl e \<and> catchable e \<or> (\<exists>calls. r2 = Inr calls) \<and> \<sigma> = \<sigma>2"
    by (auto simp: RdmaConnectedSession_accept_def split: sum.splits if_splits)
  with Destroy_owned [OF own d] show ?thesis by auto
qed

definition no_qp_verbs :: "int verbs" where
  "no_qp_verbs = quiet_verbs\<lparr>vb_create_qp := (\<lambda>_ _ _ v. ((-1, 12), v))\<rparr>"

section \<open>Failed listeners and connectors\<close>

lemma channel_available:
  "fst (cm_create_channel cm) \<noteq> None \<or> eventChannel \<noteq> None \<Longrightarrow>
   \<exists>ch ec. GetEventChannel (fst (cm_create_channel cm)) (snd (cm_create_channel cm)) eventChannel = (Inr ch, ec)"
  by (auto simp: GetEventChannel_def split: option.splits)

lemma failed_connector_clean:
  assumes "cm_create_id cm (w_state w) = (((0, errno), i), v)" and "connectionMap (w_events w) i = None"
    and "cm_bind_addr cm i addr v = ((-1, errno'), v')"
    and "fst (cm_create_channel cm) \<noteq> None \<or> eventChannel \<noteq> None"
    and run: "RdmaConnector_new cm vb eventChannel m poller addr w = (Inl e, \<sigma>)" and e: "catchable e"
  shows "w_ids (snd (snd \<sigma>)) = w_ids w \<and> connectionMap (w_events (snd (snd \<sigma>))) i = None"
proof -
  let ?s = "ConnectedSession_new m"
  let ?l = "(linux_session_new None poller)\<lparr>cm_id := Some i\<rparr>"
  let ?w = "w\<lparr>w_ids := i # w_ids w\<rparr>"
  let ?w1 = "?w\<lparr>w_events := put_queue i ConnectionQueue_new (w_events w), w_state := v'\<rparr>"
  have init: "connector_setup cm vb eventChannel addr (?s, (linux_session_new None poller, w))
      = (Inl (THROW_OS_ERROR Connector_cpp 18 errno'), (?s, (?l, ?w1)))"
    using channel_available [OF assms(4)] assms(1-3)
    by (auto simp: connector_setup_def HandleError_def CreateConnectionQueue_def on_conn_def with_events_def
        handled_def kernel_def Let_def)
  have "owns i ?w (?l, ?w\<lparr>w_events := put_queue i ConnectionQueue_new (w_events ?w)\<rparr>)"
    by (rule owns_created) (use assms(2) in \<open>simp_all add: linux_session_new_def\<close>)
  then have own: "owns i ?w (snd (?s, (?l, ?w1)))"
    by (simp add: owns_def)
  obtain r2 \<sigma>2 where d: "Destroy vb (?s, (?l, ?w1)) = (r2, \<sigma>2)" by (cases "Destroy vb (?s, (?l, ?w1))")
  from run e init d have "r2 = Inl e \<and> catchable e \<or> (\<exists>calls. r2 = Inr calls) \<and> \<sigma> = \<sigma>2"
    by (auto simp: RdmaConnector_new_def split: sum.splits if_splits)
  with Destroy_owned [OF own d] have "released i ?w (snd \<sigma>)" by auto
  then show ?thesis by (simp add: released_def other_queues_def)
qed

text \<open>
  A connector that cannot be bound to its address leaks nothing, because its base class is
  complete and is destroyed; a listener does leak: when binding fails, the exception leaves the
  constructor before there is an object to destroy, and the connection id and its event queue stay
  behind with nothing that could ever free them.
\<close>

theorem failed_listener_leaks:
  assumes "cm_create_id cm (w_state w) = (((0, errno), i), v)" and "connectionMap (w_events w) i = None"
    and "cm_bind_addr cm i addr v = ((-1, errno'), v')"
    and "fst (cm_create_channel cm) \<noteq> None \<or> eventChannel \<noteq> None"
  shows "(\<exists>e w'. RdmaListener_new cm vb eventChannel m addr w = (Inl e, w')
           \<and> w_ids w' = i # w_ids w \<and> connectionMap (w_events w') i \<noteq> None)
    \<and> (\<forall>e \<sigma>. RdmaConnector_new cm vb eventChannel m poller addr w = (Inl e, \<sigma>) \<and> catchable e \<longrightarrow>
           w_ids (snd (snd \<sigma>)) = w_ids w \<and> connectionMap (w_events (snd (snd \<sigma>))) i = None)"
proof -
  have "\<exists>e w'. RdmaListener_new cm vb eventChannel m addr w = (Inl e, w')
      \<and> w_ids w' = i # w_ids w \<and> connectionMap (w_events w') i \<noteq> None"
    using channel_available [OF assms(4)] assms(1-3)
    by (auto simp: RdmaListener_new_def HandleError_def CreateConnectionQueue_def put_queue_def Let_def)
  with failed_connector_clean [OF assms] show ?thesis by blast
qed

theorem failed_listener_leaks_witness:
  "\<exists>e w'. RdmaListener_new quiet_calls quiet_verbs None demo_manager RdmaAddress_new quiet_world = (Inl e, w')
     \<and> w_ids w' = [3] \<and> connectionMap (w_events w') 3 \<noteq> None"
  using failed_listener_leaks [of quiet_calls quiet_world 0 3 0 RdmaAddress_new 98 0 None quiet_verbs demo_manager demo_poller]
  by (simp add: quiet_calls_def quiet_world_def EventManager_new_def)

section \<open>Failed connection attempts\<close>

definition cancelled :: "nat \<Rightarrow> 'v conn \<Rightarrow> bool" where
  "cancelled i c \<longleftrightarrow> cm_id (fst c) = Some i
     \<and> (\<exists>q. connectionMap (w_events (snd c)) i = Some q \<and> waitAborted q)"

lemma keeps_cancelled_handled: "keeps (cancelled i) (handled file line f)"
  by (auto simp: handled_def kernel_def cancelled_def split: prod.splits)

lemma driver_blind_cancelled: "driver_blind (cancelled i)"
  by (simp add: driver_blind_def cancelled_def)

lemma keeps_cancelled_PreConnect:
  "keeps (\<lambda>\<sigma>. cancelled i (snd \<sigma>)) (\<lambda>\<sigma>. PreConnect (linux_services vb fuel (fst (snd \<sigma>))) dir \<sigma>)"
proof -
  have "keeps (cancelled i) (QueueToQp vb d j b)" for d j b
    by (auto simp: QueueToQp_def intro!: keeps_with_id keeps_cancelled_handled)
  moreover have "keeps (cancelled i) (SetupQueuePair vb)"
  proof -
    have "keeps (cancelled i) (with_id (\<lambda>i c. bind_out (handled ConnectedSession_cpp 338 (vb_create_qp vb i kMaxWr kMaxWr) c)
        (\<lambda>_ (l, w). (Inr (), (l\<lparr>createdQp := True\<rparr>, w\<lparr>w_qps := i # w_qps w\<rparr>)))))"
      by (intro keeps_with_id keeps_bind keeps_cancelled_handled) (auto simp: cancelled_def)
    then show ?thesis by (auto simp: SetupQueuePair_def keeps_def cpp_assert_def)
  qed
  ultimately have "keeps (\<lambda>\<sigma>. cancelled i (snd \<sigma>)) (PreConnect (linux_services vb fuel l) dir)" for l
    by (intro backend.PreConnect_keeps linux_backend driver_blind_cancelled)
  then show ?thesis by (simp add: keeps_def)
qed

lemma cancelled_stage:
  assumes "cancelled i c"
  shows "\<exists>e c'. connect_stage cm vb call line timeoutMs line' expected c = (Inl e, c')"
proof -
  obtain r c1 where h: "handled Connector_cpp line (call i) c = (r, c1)" by (cases "handled Connector_cpp line (call i) c")
  from keepsD [OF keeps_cancelled_handled assms h] obtain q where
    q: "connectionMap (w_events (snd c1)) i = Some q" "waitAborted q" by (auto simp: cancelled_def)
  have "with_events (EM_WaitForEvent f i timeoutMs False) c1
      = (Inl (RDMA_THROW EventManager_h 55 easyrdma_Error_OperationCancelled), c1)" for f
    using cancelled_manager_wait(1) [OF q] by (cases c1) (simp add: with_events_def)
  with h assms show ?thesis by (cases r) (simp_all add: connect_stage_def with_id_def cancelled_def)
qed

lemma cancelled_attempt:
  assumes "cancelled i (snd \<sigma>)"
  shows "\<exists>e \<sigma>'. connect_attempt cm vb fuel tid dir remote timeoutMs \<sigma> = (Inl e, \<sigma>')"
proof -
  obtain r \<sigma>1 where pre: "PreConnect (linux_services vb fuel (fst (snd \<sigma>))) dir \<sigma> = (r, \<sigma>1)"
    by (cases "PreConnect (linux_services vb fuel (fst (snd \<sigma>))) dir \<sigma>")
  from keepsD [OF keeps_cancelled_PreConnect _ pre] assms have can: "cancelled i (snd \<sigma>1)" by simp
  have stages: "\<exists>e \<sigma>'. connect_stages cm vb dir remote timeoutMs (put_session_manager m \<sigma>1) = (Inl e, \<sigma>')" for m
  proof -
    obtain e c' where "connect_stage cm vb (\<lambda>i. cm_resolve_addr cm i (source_address (fst (snd \<sigma>1))) remote timeoutMs) 40 (-1) 43
        RDMA_CM_EVENT_ADDR_RESOLVED (snd \<sigma>1) = (Inl e, c')"
      using cancelled_stage [OF can] by blast
    then show ?thesis by (cases \<sigma>1) (simp add: connect_stages_def on_conn_def put_session_manager_def)
  qed
  have "\<exists>e \<sigma>'. access_suspended (vb_regain vb) tid session_manager_of put_session_manager
      (connect_stages cm vb dir remote timeoutMs) \<sigma>1 = (Inl e, \<sigma>')"
  proof (cases "SuspendAccess tid (session_manager_of \<sigma>1)")
    case (Inr m)
    with stages [of m] show ?thesis by (auto simp: access_suspended_def put_session_manager_def split: prod.splits)
  qed (cases \<sigma>1, auto simp: access_suspended_def)
  with pre show ?thesis by (cases r; cases \<sigma>1) (auto simp: connect_attempt_def)
qed

lemma keeps_with_id_owned: "keeps (owns i w0) (f i) \<Longrightarrow> keeps (owns i w0) (with_id f)"
  by (simp add: keeps_def with_id_def owns_def)

lemma keeps_stage: "keeps (owns i w0) (connect_stage cm vb call line timeoutMs line' expected)"
  unfolding connect_stage_def
  by (intro keeps_with_id_owned keeps_bind keeps_handled keeps_WaitForEvent)
     (auto simp: keeps_def split: option.splits)

lemma keeps_stage_session:
  "keeps (\<lambda>\<sigma>. owns i w0 (snd \<sigma>)) (\<lambda>\<sigma>. on_conn (connect_stage cm vb (call \<sigma>) line timeoutMs line' expected) \<sigma>)"
  using keeps_on_conn [OF keeps_stage] unfolding keeps_def by blast

lemma keeps_attempt: "keeps (\<lambda>\<sigma>. owns i w0 (snd \<sigma>)) (connect_attempt cm vb fuel tid dir remote timeoutMs)"
proof -
  have "keeps (\<lambda>\<sigma>. owns i w0 (snd \<sigma>)) (\<lambda>\<sigma>. case ValidateConnectionData d dir of Inl e \<Rightarrow> (Inl e, \<sigma>) | Inr _ \<Rightarrow> PostConnect vb \<sigma>)" for d
    by (cases "ValidateConnectionData d dir") (simp_all add: keeps_const keeps_PostConnect)
  then have "keeps (\<lambda>\<sigma>. owns i w0 (snd \<sigma>)) (connect_stages cm vb dir remote timeoutMs)"
    unfolding connect_stages_def by (intro keeps_bind keeps_stage_session)
  then show ?thesis
    unfolding connect_attempt_def
    by (intro keeps_bind keeps_PreConnect_state keeps_suspended) (simp_all add: put_session_manager_def)
qed

lemma connect_undo_owned:
  assumes own: "owns i w0 (snd \<sigma>)" and run: "connect_undo vb \<sigma> = (r, \<sigma>')"
  shows "r = Inr () \<and> cancelled i (snd \<sigma>') \<and> \<not> createdQp (fst (snd \<sigma>')) \<and> owns i w0 (snd \<sigma>') \<or> (\<exists>e. r = Inl e \<and> \<not> catchable e)"
proof -
  obtain s l w where \<sigma>: "\<sigma> = (s, (l, w))" by (metis prod_cases3)
  from own \<sigma> have own': "owns i w0 (l, w)" and id: "cm_id l = Some i" by (simp_all add: owns_def)
  from AbortWaits_owned [OF own'] obtain q where abort: "with_events (AbortWaits i) (l, w)
      = (Inr (), (l, w\<lparr>w_events := put_queue i (CQ_CancelWaits q) (w_events w)\<rparr>))" by blast
  let ?w = "w\<lparr>w_events := put_queue i (CQ_CancelWaits q) (w_events w)\<rparr>"
  have own2: "owns i w0 (l, ?w)" using own' by simp
  show ?thesis
  proof (cases "BaseCancel s")
    case (Inl e)
    with run BaseCancel_only_crashes [OF Inl] show ?thesis
      by (auto simp: connect_undo_def Connector_Cancel_def \<sigma> id on_conn_def abort)
  next
    case (Inr p)
    obtain l3 w3 where qp: "DestroyQP vb (l, ?w) = (Inr (), (l3, w3))"
      using DestroyQP_owned [OF own2, of vb] by (cases "createdQp l") auto
    have "owns i w0 (l3, w3)" "\<not> createdQp l3" "cm_id l3 = Some i" "w_events w3 = w_events ?w"
      using keepsD [OF keeps_DestroyQP own2 qp] qp DestroyQP_owned [OF own2, of vb] id by (auto split: if_splits)
    with run Inr qp show ?thesis
      by (cases p) (auto simp: connect_undo_def Connector_Cancel_def \<sigma> id on_conn_def abort cancelled_def
          put_queue_simps CQ_CancelWaits_def)
  qed
qed

text \<open>
  C33.  A failed connection attempt is cleaned up and final.  Whatever stage of \<open>Connect\<close> fails, the
  attempt is no longer in progress, the queue pair is destroyed and the event queue is cancelled;
  and since a cancelled event queue stays cancelled, every later attempt on the same session fails
  too, whatever the connection manager answers then.
\<close>

theorem failed_connect_is_clean_and_final:
  assumes "Connect cm vb fuel tid dir remote timeoutMs (k, (s, (l, w))) = (Inl e, (k', \<sigma>'))" and "catchable e"
    and "\<not> everConnected k" and "\<not> connectInProgress k"
    and "cm_id l = Some i" and "connectionMap (w_events w) i \<noteq> None" and "\<not> createdQp l"
  shows "\<not> connectInProgress k' \<and> \<not> everConnected k' \<and> \<not> createdQp (fst (snd \<sigma>')) \<and> w_qps (snd (snd \<sigma>')) = w_qps w
    \<and> (\<exists>e'. fst (Connect cm' vb' fuel' tid' dir' remote' timeoutMs' (k', \<sigma>')) = Inl e')"
proof -
  have own: "owns i w (snd (s, (l, w)))" using assms(5-7) by (simp add: owns_def)
  obtain r \<sigma>1 where att: "connect_attempt cm vb fuel tid dir remote timeoutMs (s, (l, w)) = (r, \<sigma>1)"
    by (cases "connect_attempt cm vb fuel tid dir remote timeoutMs (s, (l, w))")
  from keepsD [OF keeps_attempt own att] have own1: "owns i w (snd \<sigma>1)" .
  obtain r2 \<sigma>2 where undo: "connect_undo vb \<sigma>1 = (r2, \<sigma>2)" by (cases "connect_undo vb \<sigma>1")
  from assms(1-4) att undo have "r2 = Inl e \<and> catchable e
      \<or> (\<exists>u. r2 = Inr u) \<and> \<sigma>' = \<sigma>2 \<and> k' = k\<lparr>connectInProgress := False\<rparr>"
    by (auto simp: Connect_def Let_def split: sum.splits if_splits)
  with connect_undo_owned [OF own1 undo] have k': "k' = k\<lparr>connectInProgress := False\<rparr>"
    and can: "cancelled i (snd \<sigma>')" and qp: "\<not> createdQp (fst (snd \<sigma>'))" and own2: "owns i w (snd \<sigma>')" by auto
  from cancelled_attempt [OF can] obtain e' \<sigma>3 where
    "connect_attempt cm' vb' fuel' tid' dir' remote' timeoutMs' \<sigma>' = (Inl e', \<sigma>3)" by blast
  then have "\<exists>e'. fst (Connect cm' vb' fuel' tid' dir' remote' timeoutMs' (k', \<sigma>')) = Inl e'"
    using k' assms(3) by (auto simp: Connect_def Let_def split: sum.splits prod.splits)
  with k' assms(3) qp own2 show ?thesis by (simp add: owns_def)
qed

definition demo_connector :: "connector_flags \<times> int linux_state" where
  "demo_connector = (\<lparr>everConnected = False, connectInProgress = False\<rparr>,
     (ConnectedSession_new demo_manager, (linux_session_new (Some 3) demo_poller,
        quiet_world\<lparr>w_events := put_queue 3 ConnectionQueue_new EventManager_new, w_ids := [3]\<rparr>)))"

theorem failed_connect_is_clean_and_final_witness:
  "\<exists>e'. fst (Connect quiet_calls quiet_verbs 1 7 Send RdmaAddress_new 50
     (snd (Connect quiet_calls no_qp_verbs 1 7 Send RdmaAddress_new 50 demo_connector))) = Inl e'"
proof -
  let ?run = "Connect quiet_calls no_qp_verbs 1 7 Send RdmaAddress_new 50 demo_connector"
  have "fst ?run = Inl (THROW_OS_ERROR ConnectedSession_cpp 338 12)" by code_simp
  then have run: "?run = (Inl (THROW_OS_ERROR ConnectedSession_cpp 338 12), (fst (snd ?run), snd (snd ?run)))"
    by (metis prod.collapse)
  show ?thesis
    using failed_connect_is_clean_and_final [OF run [unfolded demo_connector_def], where i = 3 and cm' = quiet_calls
        and vb' = quiet_verbs and fuel' = 1 and tid' = 7 and dir' = Send and remote' = RdmaAddress_new and timeoutMs' = 50]
    by (simp add: THROW_OS_ERROR_def catchable_def put_queue_simps linux_session_new_def demo_connector_def)
qed

section \<open>Polling for a receive\<close>

lemma poll_loop_returns:
  assumes "\<And>v. clock v \<le> clock (snd (vb_poll_cq vb Receive v))"
    and "\<And>v. clock v < clock (snd (vb_now vb v)) \<and> fst (vb_now vb v) = clock (snd (vb_now vb v))"
    and "timeoutMs \<noteq> -1"
  shows "pollStart + timeoutMs * 1000000 < clock (w_state (snd (snd \<sigma>))) + int n \<Longrightarrow>
    fst (PollCompletionQueue_loop vb Receive False timeoutMs pollStart (Suc n) \<sigma>) \<noteq> None"
proof (induction n arbitrary: \<sigma>)
  case 0
  obtain s l w where \<sigma>: "\<sigma> = (s, (l, w))" by (metis prod_cases3)
  show ?case
    using 0 assms(1) [of "w_state w"] assms(2) [of "snd (vb_poll_cq vb Receive (w_state w))"] assms(3)
    by (auto simp: \<sigma> kernel_def cq_direction_def split: prod.splits sum.splits)
next
  case (Suc n)
  obtain s l w where \<sigma>: "\<sigma> = (s, (l, w))" by (metis prod_cases3)
  let ?v = "snd (vb_poll_cq vb Receive (w_state w))"
  let ?v2 = "snd (vb_now vb ?v)"
  have "pollStart + timeoutMs * 1000000 < clock ?v2 + int n"
    using Suc.prems assms(1) [of "w_state w"] assms(2) [of ?v] by (simp add: \<sigma>)
  then have "fst (PollCompletionQueue_loop vb Receive False timeoutMs pollStart (Suc n) (s, (l, w\<lparr>w_state := ?v2\<rparr>))) \<noteq> None"
    using Suc.IH [of "(s, (l, w\<lparr>w_state := ?v2\<rparr>))"] by simp
  then show ?case
    using assms(3)
    by (subst PollCompletionQueue_loop.simps(2) [of _ _ _ _ _ "Suc n" s "(l, w)", folded \<sigma>])
       (auto simp: kernel_def cq_direction_def split: prod.splits sum.splits simp del: PollCompletionQueue_loop.simps)
qed

text \<open>
  C32.  Polling for a receive with a finite timeout returns.  If time does not run backwards and every
  reading of the clock is later than the one before, the polling loop ends after a number of rounds
  that the timeout bounds, with a completion, the status of an aborted queue, or a timeout.
\<close>

theorem poll_for_receive_returns:
  assumes "\<And>v. clock v \<le> clock (snd (vb_poll_cq vb Receive v))"
    and "\<And>v. clock v < clock (snd (vb_now vb v)) \<and> fst (vb_now vb v) = clock (snd (vb_now vb v))"
    and "0 \<le> timeoutMs" and "fuel = Suc (Suc (nat (timeoutMs * 1000000)))"
  shows "fst (PollForReceive vb fuel timeoutMs \<sigma>) \<noteq> None"
proof -
  obtain s l w where \<sigma>: "\<sigma> = (s, (l, w))" by (metis prod_cases3)
  let ?start = "fst (vb_now vb (w_state w))" and ?v = "snd (vb_now vb (w_state w))"
  have "?start + timeoutMs * 1000000 < clock ?v + int (Suc (nat (timeoutMs * 1000000)))"
    using assms(2) [of "w_state w"] assms(3) by simp
  then have "fst (PollCompletionQueue_loop vb Receive False timeoutMs ?start fuel (s, (l, w\<lparr>w_state := ?v\<rparr>))) \<noteq> None"
    using poll_loop_returns [of clock vb timeoutMs ?start "(s, (l, w\<lparr>w_state := ?v\<rparr>))", OF assms(1,2)] assms(3,4)
    by (simp del: PollCompletionQueue_loop.simps)
  then show ?thesis
    by (auto simp: PollForReceive_def PollCompletionQueue_def \<sigma> kernel_def split: prod.splits option.splits sum.splits
        simp del: PollCompletionQueue_loop.simps)
qed

theorem poll_for_receive_returns_witness:
  "fst (PollForReceive quiet_verbs 2 0 (snd demo_connector)) \<noteq> None"
  using poll_for_receive_returns [where clock = "\<lambda>v. v" and vb = quiet_verbs and timeoutMs = 0 and fuel = 2 and \<sigma> = "snd demo_connector"]
  by (simp add: quiet_verbs_def numeral_2_eq_2)

section \<open>The handler threads end\<close>






text \<open>
  The wait for events has no loop around its condition variable, so a spurious wake-up in the
  connection handler is reported as an internal error and fails the assertion that ends the process.
\<close>

theorem spurious_wakeup_stops_process:
  assumes "cm_id l = Some i" and "connectionMap (w_events w) i = Some ConnectionQueue_new"
    and "vb_event_wait vb (w_state w) = (\<lambda>q. (False, q))"
  shows "fst (ConnectionHandlerThread vb (Suc n) calls (s, (l, w))) = Some (Inl (Crash ''assert(0)''))"
  using assms
  by (simp add: with_id_def with_events_def EM_WaitForEvent_def GetConnectionQueue_def GetConnectionQueueInternal_def
      CQ_WaitForEvent_def CQ_WaitForEvent_locked_def ConnectionQueue_new_def RDMA_THROW_def catchable_def)

theorem spurious_wakeup_stops_process_witness:
  "fst (ConnectionHandlerThread (quiet_verbs\<lparr>vb_event_wait := (\<lambda>_ q. (False, q))\<rparr>) 1 [] (snd demo_connector))
     = Some (Inl (Crash ''assert(0)''))"
  using spurious_wakeup_stops_process [where l = "linux_session_new (Some 3) demo_poller" and i = 3 and n = 0 and calls = "[]"
      and w = "quiet_world\<lparr>w_events := put_queue 3 ConnectionQueue_new EventManager_new, w_ids := [3]\<rparr>"
      and vb = "quiet_verbs\<lparr>vb_event_wait := (\<lambda>_ q. (False, q))\<rparr>" and s = "ConnectedSession_new demo_manager"]
  by (simp add: linux_session_new_def put_queue_simps demo_connector_def)

end
