(* ===== verification/SessionLife.thy ===== *)
theory SessionLife
  imports Transitions LinuxTheorems
begin

text \<open>
  The life of a Linux session: from its constructor through any sequence of calls and of steps of its
  handler threads to its destruction.  A session owns its connection id, its event queue and its
  queue pair all the time, and gives exactly these back.
\<close>

section \<open>Threads and calls keep what a session owns\<close>









section \<open>Lives\<close>














end
