(* ===== verification/SessionObjects.thy ===== *)
theory SessionObjects
  imports LinuxEndpoints
begin

text \<open>
  The class hierarchy of \<^verbatim>\<open>core/common/RdmaSession.h\<close>: a session is a connected session, a
  connector or a listener, and the API calls the virtual functions of the base class.  A function
  that a class does not override throws.  The operations work on the object with the world.
\<close>

datatype session_object =
    Connected_session ConnectedSession linux_session
  | Connector_session connector_flags ConnectedSession linux_session
  | Listener_session RdmaListener

type_synonym ('v, 'a) object_op =
  "session_object \<times> 'v world \<Rightarrow> (exn, 'a, session_object \<times> 'v world) outcome"

fun object_manager :: "session_object \<Rightarrow> tAccessManager" where
  "object_manager (Connected_session s l) = cs_accessManager s"
| "object_manager (Connector_session k s l) = cs_accessManager s"
| "object_manager (Listener_session ln) = ln_accessManager ln"

fun put_manager :: "tAccessManager \<Rightarrow> session_object \<Rightarrow> session_object" where
  "put_manager m (Connected_session s l) = Connected_session (s\<lparr>cs_accessManager := m\<rparr>) l"
| "put_manager m (Connector_session k s l) = Connector_session k (s\<lparr>cs_accessManager := m\<rparr>) l"
| "put_manager m (Listener_session ln) = Listener_session (ln\<lparr>ln_accessManager := m\<rparr>)"

definition session_throw :: "int \<Rightarrow> exn" where
  "session_throw line = RDMA_THROW RdmaSession_h line easyrdma_Error_InvalidOperation"

text \<open>An operation of connected sessions, which connectors inherit; \<open>line\<close> is the throw of the base class.\<close>

fun session_virtual :: "int \<Rightarrow> ('v, 'a) linux_op \<Rightarrow> ('v, 'a) object_op" where
  "session_virtual line f (Connected_session s l, w) =
     (case f (s, (l, w)) of (r, (s, (l, w))) \<Rightarrow> (r, (Connected_session s l, w)))"
| "session_virtual line f (Connector_session k s l, w) =
     (case f (s, (l, w)) of (r, (s, (l, w))) \<Rightarrow> (r, (Connector_session k s l, w)))"
| "session_virtual line f (Listener_session ln, w) = (Inl (session_throw line), (Listener_session ln, w))"

text \<open>The services of a session as it is when the operation starts.\<close>

definition with_services ::
  "'v verbs \<Rightarrow> nat \<Rightarrow> ((linux_session \<times> 'v world) services \<Rightarrow> ('v, 'a) linux_op) \<Rightarrow> ('v, 'a) linux_op" where
  "with_services vb fuel f \<sigma> = f (linux_services vb fuel (fst (snd \<sigma>))) \<sigma>"

fun Object_Connect ::
  "'v cm_calls \<Rightarrow> 'v verbs \<Rightarrow> nat \<Rightarrow> nat \<Rightarrow> Direction \<Rightarrow> RdmaAddress \<Rightarrow> int \<Rightarrow> ('v, unit) object_op" where
  "Object_Connect cm vb fuel tid dir remote timeoutMs (Connector_session k s l, w) =
     (case Connect cm vb fuel tid dir remote timeoutMs (k, (s, (l, w))) of
        (r, (k, (s, (l, w)))) \<Rightarrow> (r, (Connector_session k s l, w)))"
| "Object_Connect cm vb fuel tid dir remote timeoutMs (ob, w) = (Inl (session_throw 79), (ob, w))"

fun Object_Accept ::
  "'v verbs \<Rightarrow> nat \<Rightarrow> tAccessManager \<Rightarrow> FdPoller \<Rightarrow> nat \<Rightarrow> Direction \<Rightarrow> int \<Rightarrow> ('v, session_object) object_op" where
  "Object_Accept vb fuel m poller tid dir timeoutMs (Listener_session ln, w) =
     (case Accept vb fuel m poller tid dir timeoutMs (ln, w) of
        (Inl e, (ln, w)) \<Rightarrow> (Inl e, (Listener_session ln, w))
      | (Inr (s, l), (ln, w)) \<Rightarrow> (Inr (Connected_session s l), (Listener_session ln, w)))"
| "Object_Accept vb fuel m poller tid dir timeoutMs (ob, w) = (Inl (session_throw 83), (ob, w))"

text \<open>The result is the list of callbacks fired.\<close>

fun Object_Cancel :: "('v, callback_call list) object_op" where
  "Object_Cancel (Connected_session s l, w) =
     (case BaseCancel s of
        Inl e \<Rightarrow> (Inl e, (Connected_session s l, w))
      | Inr (calls, s) \<Rightarrow> (Inr calls, (Connected_session s l, w)))"
| "Object_Cancel (Connector_session k s l, w) =
     (case Connector_Cancel (s, (l, w)) of (r, (s, (l, w))) \<Rightarrow> (r, (Connector_session k s l, w)))"
| "Object_Cancel (Listener_session ln, w) =
     (case Listener_Cancel (ln, w) of
        (Inl e, (ln, w)) \<Rightarrow> (Inl e, (Listener_session ln, w))
      | (Inr _, (ln, w)) \<Rightarrow> (Inr [], (Listener_session ln, w)))"

fun Object_GetProperty :: "u32 \<Rightarrow> session_object \<Rightarrow> exn + PropertyData" where
  "Object_GetProperty propertyId (Connected_session s l) = SessionGetProperty propertyId s"
| "Object_GetProperty propertyId (Connector_session k s l) = SessionGetProperty propertyId s"
| "Object_GetProperty propertyId (Listener_session ln) =
     Inl (RDMA_THROW RdmaSession_h 95 easyrdma_Error_InvalidProperty)"

fun Object_SetProperty :: "u32 \<Rightarrow> u8 list \<Rightarrow> ('v, unit) object_op" where
  "Object_SetProperty propertyId val (Listener_session ln, w) =
     (case Listener_SetProperty propertyId val ln of (r, ln) \<Rightarrow> (r, (Listener_session ln, w)))"
| "Object_SetProperty propertyId val (ob, w) =
     session_virtual 99 (\<lambda>(s, c). case SessionSetProperty propertyId val s of (r, s) \<Rightarrow> (r, (s, c))) (ob, w)"

fun Object_GetLocalAddress :: "session_object \<Rightarrow> RdmaAddress" where
  "Object_GetLocalAddress (Connected_session s l) = LinuxGetLocalAddress l"
| "Object_GetLocalAddress (Connector_session k s l) = LinuxGetLocalAddress l"
| "Object_GetLocalAddress (Listener_session ln) = Listener_GetLocalAddress ln"

fun Object_GetRemoteAddress :: "session_object \<Rightarrow> RdmaAddress" where
  "Object_GetRemoteAddress (Connected_session s l) = LinuxGetRemoteAddress l"
| "Object_GetRemoteAddress (Connector_session k s l) = LinuxGetRemoteAddress l"
| "Object_GetRemoteAddress (Listener_session ln) = Listener_GetRemoteAddress ln"

definition Object_ConfigureBuffers :: "'v verbs \<Rightarrow> nat \<Rightarrow> u64 \<Rightarrow> u64 \<Rightarrow> ('v, unit) object_op" where
  "Object_ConfigureBuffers vb fuel maxTransactionSize maxConcurrentTransactions =
     session_virtual 114 (with_services vb fuel (\<lambda>svc.
       ConfigureBuffers svc (PostConfigure vb fuel) maxTransactionSize maxConcurrentTransactions))"

definition Object_ConfigureExternalBuffer :: "'v verbs \<Rightarrow> nat \<Rightarrow> u64 \<Rightarrow> u64 \<Rightarrow> u64 \<Rightarrow> ('v, unit) object_op" where
  "Object_ConfigureExternalBuffer vb fuel externalBuffer sz maxConcurrentTransactions =
     session_virtual 120 (with_services vb fuel (\<lambda>svc.
       ConfigureExternalBuffer svc (PostConfigure vb fuel) externalBuffer sz maxConcurrentTransactions))"

definition Object_AcquireSendRegion :: "'v verbs \<Rightarrow> nat \<Rightarrow> nat \<Rightarrow> int \<Rightarrow> ('v, nat) object_op" where
  "Object_AcquireSendRegion vb fuel tid timeoutMs =
     session_virtual 131 (with_services vb fuel (\<lambda>svc. AcquireSendRegion svc tid timeoutMs))"

definition Object_QueueBufferRegion ::
  "'v verbs \<Rightarrow> nat \<Rightarrow> nat \<Rightarrow> BufferCompletionCallbackData \<Rightarrow> ('v, unit) object_op" where
  "Object_QueueBufferRegion vb fuel i callbackData =
     session_virtual 137 (with_services vb fuel (\<lambda>svc. QueueBufferRegion svc i callbackData))"

definition Object_AcquireReceivedRegion :: "'v verbs \<Rightarrow> nat \<Rightarrow> nat \<Rightarrow> int \<Rightarrow> ('v, nat) object_op" where
  "Object_AcquireReceivedRegion vb fuel tid timeoutMs =
     session_virtual 143 (with_services vb fuel (\<lambda>svc. AcquireReceivedRegion svc tid timeoutMs))"

definition Object_QueueExternalBufferRegion ::
  "'v verbs \<Rightarrow> nat \<Rightarrow> nat \<Rightarrow> u64 \<Rightarrow> u64 \<Rightarrow> BufferCompletionCallbackData \<Rightarrow> int \<Rightarrow> ('v, unit) object_op" where
  "Object_QueueExternalBufferRegion vb fuel tid pointerWithinBuffer sz callbackData timeoutMs =
     session_virtual 153 (with_services vb fuel (\<lambda>svc.
       QueueExternalBufferRegion svc tid pointerWithinBuffer sz callbackData timeoutMs))"

fun Object_CheckDeferredDestructionConditionsMet :: "session_object \<Rightarrow> bool" where
  "Object_CheckDeferredDestructionConditionsMet (Connected_session s l) = CheckDeferredDestructionConditionsMet s"
| "Object_CheckDeferredDestructionConditionsMet (Connector_session k s l) = CheckDeferredDestructionConditionsMet s"
| "Object_CheckDeferredDestructionConditionsMet (Listener_session ln) = True"

text \<open>
  The region functions of a transfer buffer: \<open>Requeue\<close>, \<open>Release\<close> and \<open>SetUsed\<close>, which reach the
  buffer's own session and queue.  Only connected sessions have buffers.
\<close>

definition Region_Requeue :: "'v verbs \<Rightarrow> nat \<Rightarrow> nat \<Rightarrow> ('v, unit) object_op" where
  "Region_Requeue vb fuel i = session_virtual 0 (with_services vb fuel (\<lambda>svc. Requeue svc i))"

definition Region_Release :: "nat \<Rightarrow> ('v, unit) object_op" where
  "Region_Release i = session_virtual 0 (RegionRelease i)"

definition Region_SetUsed :: "nat \<Rightarrow> u64 \<Rightarrow> ('v, unit) object_op" where
  "Region_SetUsed i sz = session_virtual 0 (on_transfer (queue_only (\<lambda>q.
     case SetUsed sz (buffers q ! i) of Inl e \<Rightarrow> (Inl e, q) | Inr b \<Rightarrow> (Inr (), set_buffer i b q))))"

text \<open>
  Destruction through the last \<open>shared_ptr\<close>: the derived destructor, then the base class, then the
  access manager.  The callbacks fired are the result.
\<close>

definition session_dtor :: "'v verbs \<Rightarrow> ConnectedSession \<times> (linux_session \<times> 'v world) \<Rightarrow> (exn, callback_call list, 'v world) outcome" where
  "session_dtor vb \<sigma> =
     (case Destroy vb \<sigma> of
        (Inl e, (s, (l, w))) \<Rightarrow> (Inl e, w)
      | (Inr calls, (s, (l, w))) \<Rightarrow>
          (case bind_res (ConnectedSession_dtor s) (\<lambda>calls'.
                  bind_res (tAccessManager_dtor (cs_accessManager s)) (\<lambda>_. Inr (calls @ calls'))) of
             Inl e \<Rightarrow> (Inl e, w) | Inr calls \<Rightarrow> (Inr calls, w)))"

fun Object_dtor :: "'v verbs \<Rightarrow> session_object \<times> 'v world \<Rightarrow> (exn, callback_call list, 'v world) outcome" where
  "Object_dtor vb (Connected_session s l, w) = session_dtor vb (s, (l, w))"
| "Object_dtor vb (Connector_session k s l, w) = session_dtor vb (s, (l, w))"
| "Object_dtor vb (Listener_session ln, w) =
     (case tAccessManager_dtor (ln_accessManager ln) of
        Inl e \<Rightarrow> (Inl e, RdmaListener_dtor vb ln w)
      | Inr _ \<Rightarrow> (Inr [], RdmaListener_dtor vb ln w))"

end
