(* ===== verification/SessionBalance.thy ===== *)
theory SessionBalance
  imports AccessBalance Backend LinuxLemmas SessionObjects
begin

text \<open>
  A session keeps its caller's accesses and everyone else's: every operation of a session leaves the
  calling thread with the accesses it had, also when it suspends them while it waits, and does not
  touch those of another thread.  Both are predicates on the access manager in the phases of the
  locale \<open>access_phases\<close>; the locale \<open>private_waits\<close> states what an operation relies on of the threads
  that run while it waits, and the Linux session interprets it.
\<close>

section \<open>Operations that do not touch the access manager\<close>

abbreviation keeps_mgr :: "(tAccessManager \<Rightarrow> bool) \<Rightarrow> ('c, 'a) session_op \<Rightarrow> bool" where
  "keeps_mgr Q f \<equiv> keeps (\<lambda>\<sigma>. Q (cs_accessManager (fst \<sigma>))) f"

named_theorems keeps_mgr_intros

lemma keeps_mgr_transfer [keeps_mgr_intros]: "keeps_mgr Q (on_transfer f)"
  by (auto simp: on_transfer_def split: option.splits prod.splits)

lemma keeps_mgr_credit [keeps_mgr_intros]: "keeps_mgr Q (on_credit f)"
  by (auto simp: on_credit_def split: option.splits prod.splits)

lemma keeps_mgr_conn [keeps_mgr_intros]: "keeps_mgr Q (on_conn f)"
  by (auto simp: on_conn_def split: prod.splits)

lemma keeps_mgr_conn_now [keeps_mgr_intros]: "keeps_mgr Q (\<lambda>\<sigma>. on_conn (f \<sigma>) \<sigma>)"
  by (auto simp: on_conn_def split: prod.splits)

lemma keeps_mgr_virtual:
  assumes "\<And>s. Q (cs_accessManager s) \<Longrightarrow> Q (cs_accessManager (u s))" and "keeps_mgr Q f"
  shows "keeps_mgr Q (\<lambda>(s, c). f (u s, c))"
  using assms by (auto simp: keeps_def)

lemmas keeps_basic = keeps_bind keeps_if keeps_const keeps_checked_first

lemma keeps_mgr_BaseCancel: "BaseCancel s = Inr (calls, s') \<Longrightarrow> cs_accessManager s' = cs_accessManager s"
  by (auto simp: BaseCancel_def bind_res_eq_Inr)

lemma keeps_mgr_SetProperty: "cs_accessManager (snd (SessionSetProperty propertyId bytes s)) = cs_accessManager s"
  by (simp add: SessionSetProperty_def Let_def split: sum.split)

lemma keeps_mgr_post_credit [keeps_mgr_intros]: "keeps_mgr Q (post_credit_buffers svc n)"
  by (induction n) (simp add: keeps_def, simp, intro keeps_bind keeps_mgr_intros)

lemma keeps_mgr_PreConnect: "keeps_mgr Q (PreConnect svc dir)"
proof -
  have "keeps_mgr Q (\<lambda>\<sigma>. bind_out (post_credit_buffers svc n \<sigma>) (\<lambda>_ (s, c).
      case svc_CreatePriorityThread svc ''AckHandler'' of Inl e \<Rightarrow> (Inl e, (s, c)) | Inr _ \<Rightarrow> (Inr (), (s\<lparr>ackHandler := True\<rparr>, c))))" for n
    by (intro keeps_bind keeps_mgr_intros) (simp add: keeps_def split: sum.split)
  then show ?thesis
    by (simp add: PreConnect_def Let_def keeps_def case_prod_unfold split: sum.split)
qed

lemma keeps_mgr_SendCreditUpdate [keeps_mgr_intros]: "keeps_mgr Q (SendCreditUpdate svc lengths)"
  unfolding SendCreditUpdate_def by (intro keeps_basic keeps_mgr_intros)

lemma keeps_mgr_QueueRecvBuffer [keeps_mgr_intros]: "keeps_mgr Q (QueueRecvBuffer svc i b)"
proof -
  have "keeps_mgr Q (\<lambda>\<sigma>. SendCreditUpdate svc (f \<sigma>) \<sigma>)" for f
    using keeps_mgr_SendCreditUpdate unfolding keeps_def by blast
  then show ?thesis unfolding QueueRecvBuffer_def by (intro keeps_basic keeps_mgr_intros)
qed

lemma keeps_mgr_SessionQueueBuffer [keeps_mgr_intros]: "keeps_mgr Q (SessionQueueBuffer svc i)"
  unfolding SessionQueueBuffer_def QueueSendBuffer_def by (intro keeps_basic keeps_mgr_intros)

lemma keeps_mgr_PreConfigureCredits [keeps_mgr_intros]: "keeps_mgr Q (ProcessPreConfigureCredits svc)"
proof -
  have "keeps_mgr Q (ProcessPreConfigureCredits_loop svc szs)" for szs
  proof (induction szs)
    case (Cons sz szs)
    then show ?case
      unfolding ProcessPreConfigureCredits_loop.simps
      by (intro keeps_bind keeps_mgr_transfer keeps_mgr_virtual) simp_all
  qed (simp add: keeps_def)
  then show ?thesis unfolding ProcessPreConfigureCredits_def keeps_def by blast
qed

lemma keeps_mgr_announce [keeps_mgr_intros]: "keeps_mgr Q (announce_buffers svc lengths)"
proof (induction "length lengths" arbitrary: lengths rule: less_induct)
  case less
  show ?case
  proof (cases "lengths = []")
    case False
    then have "length (drop kMaxCreditsPerBuffer lengths) < length lengths" by (simp add: kMaxCreditsPerBuffer_def)
    from keeps_bind [OF keeps_mgr_SendCreditUpdate less [OF this]] False show ?thesis
      by (simp add: keeps_def announce_buffers.simps [of svc lengths])
  qed (simp add: keeps_def announce_buffers.simps)
qed

lemma keeps_mgr_Configure:
  assumes "keeps_mgr Q post"
  shows "keeps_mgr Q (ConfigureBuffers svc post sz n)" and "keeps_mgr Q (ConfigureExternalBuffer svc post buffer sz n)"
proof -
  have "keeps_mgr Q (\<lambda>\<sigma>. bind_out (ProcessPreConfigureCredits svc \<sigma>) (\<lambda>_. post))"
    by (intro keeps_bind keeps_mgr_intros assms)
  then show "keeps_mgr Q (ConfigureBuffers svc post sz n)" and "keeps_mgr Q (ConfigureExternalBuffer svc post buffer sz n)"
    by (simp_all add: ConfigureBuffers_def ConfigureExternalBuffer_def keeps_def Let_def split: sum.split)
qed

section \<open>What an operation relies on\<close>

text \<open>
  A predicate on the manager that thread \<open>u\<close>'s operations keep comes in three phases: \<open>P\<close> while
  the thread runs, \<open>S\<close> while it has suspended its accesses, \<open>W\<close> while it waits to get them back.
  The thread's own accesses are one such predicate, what it finds of another thread the second.
\<close>

locale access_phases =
  fixes u :: nat and P S W :: "tAccessManager \<Rightarrow> bool"
  assumes suspended: "P m \<Longrightarrow> SuspendAccess u m = Inr m' \<Longrightarrow> S m'"
    and resumed: "S m \<Longrightarrow> ResumeAccess u m = (b, m') \<Longrightarrow> if b then W m' else P m'"

interpretation own: access_phases t "mine t False st" "mine t True st" "queued t st" for t st
  by unfold_locales (rule mine_Suspend mine_Resume, assumption+)+

interpretation other: access_phases u "undisturbed u t v" "bystander u False t v" "bystander u True t v" for u t v
  by unfold_locales (rule undisturbed_Suspend undisturbed_Resume, assumption+)+

text \<open>
  Other threads run while a thread waits for a buffer and while it waits to get its suspended access
  back.  The operations of a session keep whatever those threads keep.
\<close>

locale private_waits =
  fixes svc :: "'c services"
    and rely :: "nat \<Rightarrow> (tAccessManager \<Rightarrow> bool) \<Rightarrow> (tAccessManager \<Rightarrow> bool) \<Rightarrow> (tAccessManager \<Rightarrow> bool) \<Rightarrow> bool"
  assumes phases: "rely u P S W \<Longrightarrow> access_phases u P S W"
    and wait_private: "rely u P S W \<Longrightarrow> Q \<in> {P, S} \<Longrightarrow> Q (cs_accessManager (fst \<sigma>))
      \<Longrightarrow> Q (cs_accessManager (fst (snd (svc_wait_transfer svc \<sigma>))))"
    and poll_private: "rely u P S W \<Longrightarrow> Q \<in> {P, S} \<Longrightarrow> keeps_mgr Q (svc_PollForReceive svc timeoutMs)"
    and regain_private: "rely u P S W \<Longrightarrow> W m \<Longrightarrow> P (svc_regain svc m)"
begin

lemma wait_idle_private:
  assumes rely: "rely u P S W" "Q \<in> {P, S}"
  shows "keeps_mgr Q (wait_idle_transfer svc timeoutMs)"
proof
  fix \<sigma> :: "ConnectedSession \<times> 'c" assume own: "Q (cs_accessManager (fst \<sigma>))"
  obtain s c where \<sigma>: "\<sigma> = (s, c)" by (cases \<sigma>)
  obtain timeout \<sigma>1 where w: "svc_wait_transfer svc (s, c) = (timeout, \<sigma>1)" by (cases "svc_wait_transfer svc (s, c)")
  with wait_private [OF rely own] \<sigma> have "Q (cs_accessManager (fst \<sigma>1))" by simp
  note kept = this [THEN keeps_snd [OF keeps_mgr_transfer [where Q = Q]]] own [unfolded \<sigma>, THEN keeps_snd [OF keeps_mgr_transfer [where Q = Q]]]
  from own show "Q (cs_accessManager (fst (snd (wait_idle_transfer svc timeoutMs \<sigma>))))"
    by (simp add: wait_idle_transfer_def \<sigma> w kept split: option.split)
qed

lemma wait_completed_private:
  assumes rely: "rely u P S W" "Q \<in> {P, S}"
  shows "keeps_mgr Q (wait_completed_transfer svc timeoutMs)"
proof
  fix \<sigma> :: "ConnectedSession \<times> 'c" assume own: "Q (cs_accessManager (fst \<sigma>))"
  obtain s c where \<sigma>: "\<sigma> = (s, c)" by (cases \<sigma>)
  obtain timeout \<sigma>1 where w: "svc_wait_transfer svc (s, c) = (timeout, \<sigma>1)" by (cases "svc_wait_transfer svc (s, c)")
  obtain r \<sigma>2 where p: "svc_PollForReceive svc timeoutMs (s, c) = (r, \<sigma>2)" by (cases "svc_PollForReceive svc timeoutMs (s, c)")
  have "Q (cs_accessManager (fst \<sigma>1))" "Q (cs_accessManager (fst \<sigma>2))"
    using wait_private [OF rely own] keepsD [OF poll_private [OF rely] _ p] own \<sigma> w by simp_all
  note kept = this [THEN keeps_snd [OF keeps_mgr_transfer [where Q = Q]]] own [unfolded \<sigma>, THEN keeps_snd [OF keeps_mgr_transfer [where Q = Q]]]
  from own show "Q (cs_accessManager (fst (snd (wait_completed_transfer svc timeoutMs \<sigma>))))"
    by (simp add: wait_completed_transfer_def \<sigma> w p kept split: option.split)
qed

lemma post_receive_private:
  assumes rely: "rely u P S W" "Q \<in> {P, S}"
  shows "keeps_mgr Q (post_receive_buffers svc n lengths)"
proof (induction n arbitrary: lengths)
  case 0
  then show ?case by (simp add: keeps_def)
next
  case (Suc n)
  have "keeps_mgr Q (\<lambda>\<sigma>. bind_out (QueueRecvBuffer svc i False \<sigma>) (\<lambda>_ \<sigma>'. post_receive_buffers svc n (f \<sigma>) \<sigma>'))" for i f
  proof -
    have "keeps_mgr Q (\<lambda>\<sigma>. bind_out (QueueRecvBuffer svc i False \<sigma>) (\<lambda>_ \<sigma>'. post_receive_buffers svc n ls \<sigma>'))" for ls
      by (intro keeps_bind keeps_mgr_intros Suc)
    then show ?thesis unfolding keeps_def by blast
  qed
  then show ?case unfolding post_receive_buffers.simps by (intro keeps_bind wait_idle_private [OF rely])
qed

lemma BasePostConfigure_private:
  assumes rely: "rely u P S W" "Q \<in> {P, S}"
  shows "keeps_mgr Q (BasePostConfigure svc)"
proof -
  have "keeps_mgr Q (\<lambda>\<sigma>. bind_out (post_receive_buffers svc n [] \<sigma>) (\<lambda>lengths \<sigma>. announce_buffers svc lengths \<sigma>))" for n
    by (intro keeps_bind post_receive_private [OF rely] keeps_mgr_intros)
  then show ?thesis by (simp add: BasePostConfigure_def keeps_def split: option.split)
qed

text \<open>The suspender gives back what it took, whether or not the thread has to queue again.\<close>

lemma with_buffer_wait_private:
  assumes rely: "rely u P S W" and body: "keeps_mgr S body"
  shows "keeps_mgr P (with_buffer_wait svc u body)"
proof
  fix \<sigma> :: "ConnectedSession \<times> 'c" assume own: "P (cs_accessManager (fst \<sigma>))"
  obtain s c where \<sigma>: "\<sigma> = (s, c)" by (cases \<sigma>)
  show "P (cs_accessManager (fst (snd (with_buffer_wait svc u body \<sigma>))))"
  proof (cases "SuspendAccess u (cs_accessManager s)")
    case (Inl e)
    with own show ?thesis by (simp add: with_buffer_wait_def \<sigma> Let_def)
  next
    case (Inr m)
    let ?s = "s\<lparr>bufferWaitInProgress := True, cs_accessManager := m\<rparr>"
    obtain r s1 c1 where run: "body (?s, c) = (r, (s1, c1))" by (metis prod_cases3)
    from own \<sigma> access_phases.suspended [OF phases [OF rely] _ Inr] have "S m" by simp
    with keepsD [OF body _ run] have "S (cs_accessManager s1)" by simp
    from access_phases.resumed [OF phases [OF rely] this]
    have "if fst (ResumeAccess u (cs_accessManager s1)) then W (snd (ResumeAccess u (cs_accessManager s1)))
        else P (snd (ResumeAccess u (cs_accessManager s1)))"
      by (metis prod.collapse)
    with regain_private [OF rely] own show ?thesis
      by (simp add: with_buffer_wait_def \<sigma> Let_def Inr run case_prod_unfold split: if_splits)
  qed
qed

lemma Acquire_private:
  assumes rely: "rely u P S W"
  shows "keeps_mgr P (AcquireSendRegion svc u timeoutMs)" and "keeps_mgr P (AcquireReceivedRegion svc u timeoutMs)"
  unfolding AcquireSendRegion_def AcquireReceivedRegion_def
  by (intro keeps_if keeps_const with_buffer_wait_private [OF rely] wait_idle_private [OF rely]
      wait_completed_private [OF rely] insertI2 singletonI)+

lemma Queue_private:
  assumes rely: "rely u P S W"
  shows "keeps_mgr P (QueueBufferRegion svc i cb)" and "keeps_mgr P (QueueExternalBufferRegion svc u p sz cb timeoutMs)"
proof -
  have queue: "keeps_mgr Q (\<lambda>(s, c). if f s then (Inl e, (s, c)) else SessionQueueBuffer svc j (change_buffer j g s, c))"
    for Q f e j g
    using keeps_mgr_SessionQueueBuffer [of Q svc j] by (simp add: keeps_def change_buffer_def)
  show "keeps_mgr P (QueueBufferRegion svc i cb)" unfolding QueueBufferRegion_def by (rule queue)
  show "keeps_mgr P (QueueExternalBufferRegion svc u p sz cb timeoutMs)"
    unfolding QueueExternalBufferRegion_def
    by (intro with_buffer_wait_private [OF rely] keeps_bind wait_idle_private [OF rely] queue) simp
qed

end

section \<open>The Linux session\<close>

text \<open>What a call relies on of the threads that run inside the waits of a session.\<close>

definition verbs_keep ::
  "'v verbs \<Rightarrow> nat \<Rightarrow> (tAccessManager \<Rightarrow> bool) \<Rightarrow> (tAccessManager \<Rightarrow> bool) \<Rightarrow> (tAccessManager \<Rightarrow> bool) \<Rightarrow> bool" where
  "verbs_keep vb u P S W \<longleftrightarrow> access_phases u P S W
     \<and> (\<forall>s. P (cs_accessManager s) \<longrightarrow> P (cs_accessManager (snd (vb_wait_transfer vb s))))
     \<and> (\<forall>s. S (cs_accessManager s) \<longrightarrow> S (cs_accessManager (snd (vb_wait_transfer vb s))))
     \<and> (\<forall>m. W m \<longrightarrow> P (vb_regain vb m))"

lemma PollCompletionQueue_loop_session:
  "Q (fst \<sigma>) \<Longrightarrow> Q (fst (snd (PollCompletionQueue_loop vb dir blocking timeoutMs pollStart n \<sigma>)))"
proof (induction n arbitrary: \<sigma> blocking timeoutMs)
  case (Suc n)
  obtain s c where \<sigma>: "\<sigma> = (s, c)" by (cases \<sigma>)
  from Suc.prems \<sigma> have Q: "Q s" by simp
  have rest: "Q (fst (snd (PollCompletionQueue_loop vb dir b t pollStart n (s, c'))))" for c' b t
    using Suc.IH [of "(s, c')" b t] Q by simp
  from Q show ?case by (simp add: \<sigma> case_prod_unfold rest split: sum.split)
qed simp

lemma PollCompletionQueue_session:
  assumes "Q (fst \<sigma>)"
  shows "Q (fst (snd (PollCompletionQueue vb n dir blocking timeoutMs \<sigma>)))"
proof -
  obtain s c where \<sigma>: "\<sigma> = (s, c)" by (cases \<sigma>)
  obtain now c1 where k: "kernel (vb_now vb) c = (now, c1)" by (cases "kernel (vb_now vb) c")
  from PollCompletionQueue_loop_session [of Q "(s, c1)" vb dir blocking timeoutMs now n] assms \<sigma> show ?thesis
    by (auto simp: PollCompletionQueue_def k split: prod.split option.split sum.split)
qed

lemma keeps_mgr_process_completion [keeps_mgr_intros]: "keeps_mgr Q (process_completion vb a b wc)"
proof -
  have "keeps_mgr Q (complete_buffer ref e n :: ('a, callback_call list) linux_op)" for ref e n
    by (cases ref) (simp_all add: complete_buffer_def keeps_mgr_transfer keeps_mgr_credit)
  then have "Q (cs_accessManager (fst (snd (complete_buffer ref e n \<sigma>))))" if "Q (cs_accessManager (fst \<sigma>))"
    for ref e n and \<sigma> :: "'a linux_state"
    using that by (rule keeps_snd)
  then show ?thesis by (intro keepsI) (simp add: process_completion_def Let_def split: sum.split)
qed

lemma PollForReceive_mgr:
  assumes "Q (cs_accessManager (fst \<sigma>))"
  shows "Q (cs_accessManager (fst (snd (PollForReceive vb n timeoutMs \<sigma>))))"
proof -
  obtain r \<sigma>1 where p: "PollCompletionQueue vb n Receive False timeoutMs \<sigma> = (r, \<sigma>1)"
    by (cases "PollCompletionQueue vb n Receive False timeoutMs \<sigma>")
  with PollCompletionQueue_session [of "\<lambda>s. Q (cs_accessManager s)" \<sigma> vb n Receive False timeoutMs] assms have own: "Q (cs_accessManager (fst \<sigma>1))" by simp
  from own keeps_snd [OF keeps_mgr_process_completion [where Q = Q], OF own] show ?thesis
    by (simp add: PollForReceive_def p case_prod_unfold split: option.split sum.split)
qed

interpretation linux_waits: private_waits "linux_services vb fuel l" "verbs_keep vb" for vb fuel l
proof (rule private_waits.intro)
  fix u P S W timeoutMs and Q :: "tAccessManager \<Rightarrow> bool"
  show "keeps_mgr Q (svc_PollForReceive (linux_services vb fuel l) timeoutMs)"
  proof
    fix \<sigma> :: "'a linux_state" assume "Q (cs_accessManager (fst \<sigma>))"
    from PollForReceive_mgr [where Q = Q, OF this, of vb fuel timeoutMs]
    show "Q (cs_accessManager (fst (snd (svc_PollForReceive (linux_services vb fuel l) timeoutMs \<sigma>))))"
      by (auto simp: linux_services_def split: prod.splits option.split sum.split)
  qed
next
  fix u P S W and Q :: "tAccessManager \<Rightarrow> bool" and \<sigma> :: "'a linux_state"
  assume "verbs_keep vb u P S W" and "Q \<in> {P, S}" and "Q (cs_accessManager (fst \<sigma>))"
  then show "Q (cs_accessManager (fst (snd (svc_wait_transfer (linux_services vb fuel l) \<sigma>))))"
    by (cases \<sigma>) (auto simp: linux_services_def verbs_keep_def case_prod_unfold)
qed (simp_all add: linux_services_def verbs_keep_def)

lemma keeps_mgr_PostConnect [keeps_mgr_intros]: "keeps_mgr Q (PostConnect vb)"
  by (auto simp: PostConnect_def Let_def BasePostConnect_def split: option.splits sum.splits)

lemma PostConfigure_private:
  assumes "verbs_keep vb u P S W"
  shows "keeps_mgr P (PostConfigure vb fuel)"
proof -
  have "keeps_mgr P (\<lambda>(s, (l, w)). BasePostConfigure (linux_services vb fuel l) (s, (l, w)))"
    using linux_waits.BasePostConfigure_private [OF assms insertI1] by (simp add: keeps_def)
  then show ?thesis
    by (simp add: PostConfigure_def keeps_def bind_out_def split: sum.split)
qed

lemma keeps_mgr_Connector_Cancel [keeps_mgr_intros]: "keeps_mgr Q Connector_Cancel"
  by (rule keepsI) (auto simp: Connector_Cancel_def bind_out_def on_conn_def dest: keeps_mgr_BaseCancel
      split: option.splits sum.splits prod.splits)

text \<open>The suspender of the connection calls, for any owner of a manager.\<close>

lemma access_suspended_private:
  assumes vb: "verbs_keep vb u P S W" and body: "keeps (\<lambda>s. S (get s)) body" and put: "\<And>m s. get (put m s) = m"
  shows "keeps (\<lambda>s. P (get s)) (access_suspended (vb_regain vb) u get put body)"
proof
  fix s assume own: "P (get s)"
  show "P (get (snd (access_suspended (vb_regain vb) u get put body s)))"
  proof (cases "SuspendAccess u (get s)")
    case (Inl e)
    with own show ?thesis by (simp add: access_suspended_def)
  next
    case (Inr m)
    obtain r s1 where run: "body (put m s) = (r, s1)" by (cases "body (put m s)")
    from vb have phases: "access_phases u P S W" by (simp add: verbs_keep_def)
    from access_phases.suspended [OF this own Inr] have "S (get (put m s))" by (simp add: put)
    from keepsD [OF body this run] have "S (get s1)" .
    from access_phases.resumed [OF phases this]
    have "if fst (ResumeAccess u (get s1)) then W (snd (ResumeAccess u (get s1))) else P (snd (ResumeAccess u (get s1)))"
      by (metis prod.collapse)
    with vb show ?thesis
      by (simp add: access_suspended_def Inr run case_prod_unfold put verbs_keep_def split: if_splits)
  qed
qed

section \<open>Connecting and accepting\<close>

lemma keeps_mgr_connect_stages: "keeps_mgr Q (connect_stages cm vb dir remote timeoutMs)"
  unfolding connect_stages_def
  by (intro keeps_bind keeps_mgr_conn_now keeps_checked_first keeps_mgr_PostConnect)

lemma keeps_mgr_PreConnect_now: "keeps_mgr Q (\<lambda>\<sigma>. PreConnect (svc \<sigma>) dir \<sigma>)"
  using keeps_snd [OF keeps_mgr_PreConnect [where Q = Q]] by (intro keepsI) blast

lemma connect_attempt_private:
  assumes "verbs_keep vb u P S W"
  shows "keeps_mgr P (connect_attempt cm vb fuel u dir remote timeoutMs)"
proof -
  have "keeps_mgr P (access_suspended (vb_regain vb) u session_manager_of put_session_manager
      (connect_stages cm vb dir remote timeoutMs))"
    using access_suspended_private [OF assms, where get = session_manager_of and put = put_session_manager
        and body = "connect_stages cm vb dir remote timeoutMs"]
      keeps_mgr_connect_stages [where Q = S and cm = cm and vb = vb and dir = dir]
    by (simp add: session_manager_of_def put_session_manager_def)
  then show ?thesis unfolding connect_attempt_def by (intro keeps_bind keeps_mgr_PreConnect_now)
qed

lemma Connect_private:
  assumes "verbs_keep vb u P S W"
  shows "keeps (\<lambda>(k, \<sigma>). P (cs_accessManager (fst \<sigma>))) (Connect cm vb fuel u dir remote timeoutMs)"
proof (rule keepsI)
  fix p :: "connector_flags \<times> 'a linux_state"
  assume "case p of (k, \<sigma>) \<Rightarrow> P (cs_accessManager (fst \<sigma>))"
  then obtain k \<sigma> where p: "p = (k, \<sigma>)" and own: "P (cs_accessManager (fst \<sigma>))" by (cases p) simp
  obtain r \<sigma>1 where att: "connect_attempt cm vb fuel u dir remote timeoutMs \<sigma> = (r, \<sigma>1)"
    by (cases "connect_attempt cm vb fuel u dir remote timeoutMs \<sigma>")
  from keepsD [OF connect_attempt_private [OF assms] own att] have own1: "P (cs_accessManager (fst \<sigma>1))" .
  have "keeps_mgr P (connect_undo vb)"
    unfolding connect_undo_def by (intro keeps_bind keeps_mgr_intros)
  from keeps_snd [OF this own1] own own1
  show "case snd (Connect cm vb fuel u dir remote timeoutMs p) of (k, \<sigma>) \<Rightarrow> P (cs_accessManager (fst \<sigma>))"
    by (simp add: p Connect_def Let_def att case_prod_unfold split: sum.split)
qed

text \<open>An accepted session starts with the manager it is given, and the handshake leaves it alone.\<close>

lemma keeps_mgr_accept_handshake: "keeps_mgr Q (accept_handshake vb fuel dir i din)"
proof -
  have established: "keeps_mgr Q (await_established vb i)"
    unfolding await_established_def
    by (intro keeps_bind keeps_mgr_conn_now keeps_if keeps_mgr_PostConnect) (simp_all add: keeps_def)
  have "keeps_mgr Q (\<lambda>\<sigma>. case ValidateConnectionData din dir of
           Inl e \<Rightarrow> (Inl e, if catchable e then reject_connection vb i din \<sigma> else \<sigma>)
         | Inr _ \<Rightarrow> bind_out (on_conn (handled ConnectedSession_cpp 42 (vb_accept vb i (cs_connectionData (fst \<sigma>)))) \<sigma>)
               (\<lambda>_ \<sigma>. await_established vb i \<sigma>))"
  proof (cases "ValidateConnectionData din dir")
    case (Inr a)
    have "keeps_mgr Q (\<lambda>\<sigma>. bind_out (on_conn (handled ConnectedSession_cpp 42 (vb_accept vb i (cs_connectionData (fst \<sigma>)))) \<sigma>)
               (\<lambda>_ \<sigma>. await_established vb i \<sigma>))"
      by (intro keeps_bind keeps_mgr_conn_now established)
    with Inr show ?thesis by simp
  qed (simp add: keeps_def reject_connection_def)
  then show ?thesis
    unfolding accept_handshake_def by (intro keeps_bind keeps_mgr_conn keeps_mgr_PreConnect_now)
qed

lemma accepted_manager:
  assumes "RdmaConnectedSession_accept vb fuel m poller dir i din dout w = (Inr u, \<sigma>)" and "Q m"
  shows "Q (cs_accessManager (fst \<sigma>))"
proof -
  let ?\<sigma> = "(ConnectedSession_new_data dout m, (linux_session_new (Some i) poller, w))"
  from assms(1) have run: "accept_handshake vb fuel dir i din ?\<sigma> = (Inr u, \<sigma>)"
    by (auto simp: RdmaConnectedSession_accept_def split: prod.splits sum.splits if_splits)
  have "Q (cs_accessManager (fst ?\<sigma>))"
    using assms(2) by (simp add: ConnectedSession_new_data_def ConnectedSession_new_def)
  from keepsD [OF keeps_mgr_accept_handshake [where Q = Q] this run] show ?thesis .
qed

lemma accept_body_listener:
  assumes "accept_body vb fuel m poller dir timeoutMs (ln, w) = (r, (ln', w'))"
  shows "ln_accessManager ln' = ln_accessManager ln" and "r = Inr (s, l) \<Longrightarrow> Q m \<Longrightarrow> Q (cs_accessManager s)"
  using assms
  by (auto simp: accept_body_def Let_def dest!: accepted_manager [where Q = Q]
      split: option.splits prod.splits sum.splits if_splits)

section \<open>Session objects\<close>

text \<open>An operation on an object keeps a predicate on its access manager.\<close>

abbreviation keeps_object :: "(tAccessManager \<Rightarrow> bool) \<Rightarrow> ('v, 'a) object_op \<Rightarrow> bool" where
  "keeps_object P f \<equiv> keeps (\<lambda>p. P (object_manager (fst p))) f"

lemma keeps_object_virtual:
  assumes "keeps_mgr P f"
  shows "keeps_object P (session_virtual line f)"
proof (rule keepsI)
  fix p :: "session_object \<times> 'a world" assume own: "P (object_manager (fst p))"
  obtain ob w where p: "p = (ob, w)" by (cases p)
  have kept: "P (cs_accessManager (fst (snd (f (s, c)))))" if "P (cs_accessManager s)" for s c
    using keeps_snd [OF assms, of "(s, c)"] that by simp
  from own show "P (object_manager (fst (snd (session_virtual line f p))))"
    by (cases ob) (auto simp: p kept case_prod_unfold)
qed

lemma keeps_object_services:
  assumes "\<And>l. keeps_mgr P (f (linux_services vb fuel l))"
  shows "keeps_object P (session_virtual line (with_services vb fuel f))"
  by (rule keeps_object_virtual, rule keepsI) (simp add: with_services_def keeps_snd [OF assms])

lemma object_calls_private:
  assumes "verbs_keep vb u P S W"
  shows "keeps_object P (Object_ConfigureBuffers vb fuel sz n)"
    and "keeps_object P (Object_ConfigureExternalBuffer vb fuel ptr sz n)"
    and "keeps_object P (Object_AcquireSendRegion vb fuel u timeoutMs)"
    and "keeps_object P (Object_AcquireReceivedRegion vb fuel u timeoutMs)"
    and "keeps_object P (Object_QueueBufferRegion vb fuel i cb)"
    and "keeps_object P (Object_QueueExternalBufferRegion vb fuel u ptr sz cb timeoutMs)"
  unfolding Object_ConfigureBuffers_def Object_ConfigureExternalBuffer_def Object_AcquireSendRegion_def
    Object_AcquireReceivedRegion_def Object_QueueBufferRegion_def Object_QueueExternalBufferRegion_def
  by (intro keeps_object_services keeps_mgr_Configure PostConfigure_private [OF assms]
      linux_waits.Acquire_private [OF assms] linux_waits.Queue_private [OF assms])+

lemma region_calls_private:
  "keeps_object P (Region_Requeue vb fuel i)" "keeps_object P (Region_Release i)" "keeps_object P (Region_SetUsed i sz)"
  unfolding Region_Requeue_def Region_Release_def Region_SetUsed_def Requeue_def RegionRelease_def
  by (intro keeps_object_services keeps_object_virtual keeps_mgr_intros)+

lemma cancel_private: "keeps_object P Object_Cancel"
proof (rule keepsI)
  fix p :: "session_object \<times> 'a world" assume own: "P (object_manager (fst p))"
  obtain ob w where p: "p = (ob, w)" by (cases p)
  show "P (object_manager (fst (snd (Object_Cancel p))))"
  proof (cases ob)
    case (Connected_session s l)
    with own p show ?thesis by (auto dest: keeps_mgr_BaseCancel split: sum.split)
  next
    case (Connector_session k s l)
    with own p keeps_snd [OF keeps_mgr_Connector_Cancel [where Q = P], of "(s, (l, w))"]
    show ?thesis by (simp add: case_prod_unfold)
  next
    case (Listener_session ln)
    with own p show ?thesis by (auto simp: Listener_Cancel_def split: option.split prod.split sum.split)
  qed
qed

lemma property_private: "keeps_object P (Object_SetProperty propertyId bytes)"
proof (rule keepsI)
  fix p :: "session_object \<times> 'a world" assume own: "P (object_manager (fst p))"
  obtain ob w where p: "p = (ob, w)" by (cases p)
  have set: "keeps_mgr Q (\<lambda>(s, c). case SessionSetProperty propertyId bytes s of (r, s) \<Rightarrow> (r, (s, c)))" for Q
    by (rule keepsI) (auto simp: case_prod_unfold keeps_mgr_SetProperty)
  from own keeps_snd [OF keeps_object_virtual [OF set [of P]], of p 99]
  show "P (object_manager (fst (snd (Object_SetProperty propertyId bytes p))))"
    by (cases ob) (auto simp: p Listener_SetProperty_def)
qed

lemma Object_Connect_private:
  assumes "verbs_keep vb u P S W"
  shows "keeps_object P (Object_Connect cm vb fuel u dir remote timeoutMs)"
proof (rule keepsI)
  fix p :: "session_object \<times> 'a world" assume own: "P (object_manager (fst p))"
  obtain ob w where p: "p = (ob, w)" by (cases p)
  show "P (object_manager (fst (snd (Object_Connect cm vb fuel u dir remote timeoutMs p))))"
  proof (cases ob)
    case (Connector_session k s l)
    with own p keeps_snd [OF Connect_private [OF assms, of cm fuel dir remote timeoutMs], of "(k, (s, (l, w)))"]
    show ?thesis by (auto simp: case_prod_unfold)
  qed (use own p in auto)
qed

lemma access_suspended_result:
  "access_suspended regain t get put body s = (Inr a, s') \<Longrightarrow> \<exists>s1 s2. body s1 = (Inr a, s2)"
  by (auto simp: access_suspended_def split: sum.splits prod.splits)

lemma Accept_private:
  assumes "verbs_keep vb u P S W"
  shows "keeps (\<lambda>(ln, w). P (ln_accessManager ln)) (Accept vb fuel m poller u dir timeoutMs)"
proof (rule keepsI)
  fix p :: "RdmaListener \<times> 'a world" assume "case p of (ln, w) \<Rightarrow> P (ln_accessManager ln)"
  then obtain ln w where p: "p = (ln, w)" and own: "P (ln_accessManager ln)" by (cases p) simp
  have "keeps (\<lambda>p. S ((\<lambda>(ln, _). ln_accessManager ln) p)) (accept_body vb fuel m poller dir timeoutMs)"
  proof (rule keepsI)
    fix p :: "RdmaListener \<times> 'a world" assume own: "S ((\<lambda>(ln, _). ln_accessManager ln) p)"
    obtain r ln' w' where run: "accept_body vb fuel m poller dir timeoutMs (fst p, snd p) = (r, (ln', w'))"
      by (metis prod_cases3)
    from accept_body_listener(1) [OF this] own
    show "S ((\<lambda>(ln, _). ln_accessManager ln) (snd (accept_body vb fuel m poller dir timeoutMs p)))"
      using run by (simp add: case_prod_unfold)
  qed
  from access_suspended_private [OF assms this, of put_listener_manager]
  have "keeps (\<lambda>p. P ((\<lambda>(ln, _). ln_accessManager ln) p))
      (access_suspended (vb_regain vb) u (\<lambda>(ln, _). ln_accessManager ln) put_listener_manager
        (accept_body vb fuel m poller dir timeoutMs))"
    by (simp add: put_listener_manager_def case_prod_unfold)
  from keeps_snd [OF this, of "(ln\<lparr>acceptInProgress := True\<rparr>, w)"] own
  show "case snd (Accept vb fuel m poller u dir timeoutMs p) of (ln, w) \<Rightarrow> P (ln_accessManager ln)"
    by (auto simp: p Accept_def split: prod.split sum.split)
qed

lemma Object_Accept_private:
  assumes "verbs_keep vb u P S W"
  shows "keeps_object P (Object_Accept vb fuel m poller u dir timeoutMs)"
proof (rule keepsI)
  fix p :: "session_object \<times> 'a world" assume own: "P (object_manager (fst p))"
  obtain ob w where p: "p = (ob, w)" by (cases p)
  show "P (object_manager (fst (snd (Object_Accept vb fuel m poller u dir timeoutMs p))))"
  proof (cases ob)
    case (Listener_session ln)
    with own p keeps_snd [OF Accept_private [OF assms, of fuel m poller dir timeoutMs], of "(ln, w)"]
    show ?thesis by (auto split: prod.split sum.split)
  qed (use own p in auto)
qed

lemma accepted_object_manager:
  assumes run: "Object_Accept vb fuel m poller u dir timeoutMs p = (Inr ob, p')" and m: "Q m"
  shows "Q (object_manager ob)"
proof -
  obtain ob0 w where p: "p = (ob0, w)" by (cases p)
  from run obtain ln s l x where "ob0 = Listener_session ln" "ob = Connected_session s l"
    "Accept vb fuel m poller u dir timeoutMs (ln, w) = (Inr (s, l), x)"
    by (cases ob0) (auto simp: p split: prod.splits sum.splits)
  moreover from this obtain p1 p2 where "accept_body vb fuel m poller dir timeoutMs p1 = (Inr (s, l), p2)"
    by (auto simp: Accept_def split: prod.splits sum.splits if_splits dest!: access_suspended_result)
  ultimately show ?thesis
    using accept_body_listener(2) [where Q = Q, OF _ refl m, of vb fuel poller dir timeoutMs "fst p1" "snd p1" s l "fst p2" "snd p2"]
    by simp
qed

end
