(* ===== verification/SessionManager.thy ===== *)
theory SessionManager
  imports SessionObjects
begin

text \<open>
  References with access (\<^verbatim>\<open>core/api/tAccessManagedRef.h\<close>) and the registry of sessions
  (\<open>SessionManager\<close> of \<^verbatim>\<open>core/api/rdma_api_common.h\<close>).

  The process is the registry, the session objects by address, the world below them, the last
  errors of the threads and the callbacks that have been called.  A \<open>std::map\<close> is an association
  list with distinct keys.  The record \<open>env\<close> is everything a call of the API meets outside the
  library, with the points where other threads run: while the caller waits for access
  (\<open>env_gain\<close>) and while it waits for the other references (\<open>env_refs_gone\<close>).
\<close>

section \<open>State\<close>

record session_registry =
  sessionMap :: "(u64 \<times> nat) list"
  deferredCloseSessionMap :: "(u64 \<times> nat) list"
  nextSession :: u64

record 'v process =
  pr_registry :: session_registry
  pr_heap :: "nat \<Rightarrow> session_object option"
  pr_world :: "'v world"
  pr_errors :: last_errors
  pr_calls :: "callback_call list"

record 'v env =
  env_verbs :: "'v verbs"
  env_cm :: "'v cm_calls"
  env_fuel :: nat
  env_tid :: nat
  env_memory :: tRequest
  env_requests :: "nat \<Rightarrow> tRequest"
  env_address :: nat
  env_pipe :: "(int \<times> int) option \<times> int"
  env_channel :: "nat option"
  env_getaddrinfo :: "string \<Rightarrow> string \<Rightarrow> u8 list option"
  env_inet_ntop :: "int \<Rightarrow> u8 list \<Rightarrow> string"
  env_net_entries :: "net_entry list"
  env_getifaddrs :: "int + ifaddrs list"
  env_gain :: "nat \<Rightarrow> 'v process \<Rightarrow> 'v process"
  env_refs_gone :: "nat \<Rightarrow> 'v process \<Rightarrow> 'v process"

definition registry_new :: session_registry where
  "registry_new = \<lparr>sessionMap = [], deferredCloseSessionMap = [], nextSession = 1\<rparr>"

section \<open>The registry alone\<close>

text \<open>\<open>map[key] = value\<close> and \<open>map.erase(key)\<close>.\<close>

definition map_put :: "u64 \<Rightarrow> nat \<Rightarrow> (u64 \<times> nat) list \<Rightarrow> (u64 \<times> nat) list" where
  "map_put k v m = (k, v) # filter (\<lambda>(k', _). k' \<noteq> k) m"

definition map_erase :: "u64 \<Rightarrow> (u64 \<times> nat) list \<Rightarrow> (u64 \<times> nat) list" where
  "map_erase k m = filter (\<lambda>(k', _). k' \<noteq> k) m"

definition registry_add :: "nat \<Rightarrow> session_registry \<Rightarrow> u64 \<times> session_registry" where
  "registry_add a reg =
     (let h = nextSession reg in
      (h, reg\<lparr>nextSession := nextSession reg + 1, sessionMap := map_put h a (sessionMap reg)\<rparr>))"

definition registry_remove :: "u64 \<Rightarrow> session_registry \<Rightarrow> session_registry" where
  "registry_remove h reg = reg\<lparr>sessionMap := map_erase h (sessionMap reg)\<rparr>"

definition registry_defer :: "u64 \<Rightarrow> nat \<Rightarrow> session_registry \<Rightarrow> session_registry" where
  "registry_defer h a reg = reg\<lparr>deferredCloseSessionMap := map_put h a (deferredCloseSessionMap reg)\<rparr>"

definition registry_undefer :: "u64 \<Rightarrow> session_registry \<Rightarrow> session_registry" where
  "registry_undefer h reg = reg\<lparr>deferredCloseSessionMap := map_erase h (deferredCloseSessionMap reg)\<rparr>"

section \<open>References\<close>

datatype tAccessType = kAccess_Shared | kAccess_Exclusive
datatype tCheckDeferredCloseTable = CheckDeferred_No | CheckDeferred_Yes

record session_ref =
  ref_resource :: "nat option"
  ref_exclusive :: bool
  ref_destructionPending :: bool

definition ref_null :: session_ref where
  "ref_null = \<lparr>ref_resource = None, ref_exclusive = False, ref_destructionPending = False\<rparr>"

text \<open>An operation on the object at an address.\<close>

definition at_object :: "nat \<Rightarrow> ('v, 'a) object_op \<Rightarrow> 'v process \<Rightarrow> (exn, 'a, 'v process) outcome" where
  "at_object a f p =
     (case pr_heap p a of
        None \<Rightarrow> (Inl (Crash ''dangling session''), p)
      | Some ob \<Rightarrow> (case f (ob, pr_world p) of
                      (r, (ob, w)) \<Rightarrow> (r, p\<lparr>pr_heap := (pr_heap p)(a := Some ob), pr_world := w\<rparr>)))"

definition set_manager :: "nat \<Rightarrow> tAccessManager \<Rightarrow> 'v process \<Rightarrow> 'v process" where
  "set_manager a m p = p\<lparr>pr_heap := (pr_heap p)(a := map_option (put_manager m) (pr_heap p a))\<rparr>"

definition ref_acquire :: "'v env \<Rightarrow> nat \<Rightarrow> bool \<Rightarrow> 'v process \<Rightarrow> (exn, unit, 'v process) outcome" where
  "ref_acquire E a exclusive p =
     (case pr_heap p a of
        None \<Rightarrow> (Inl (Crash ''dangling session''), p)
      | Some ob \<Rightarrow>
          (case Acquire (env_memory E) (env_tid E) exclusive (object_manager ob) of
             Inl e \<Rightarrow> (Inl e, p)
           | Inr (blocked, m) \<Rightarrow>
               (Inr (), if blocked then env_gain E a (set_manager a m p) else set_manager a m p)))"

definition ref_release :: "'v env \<Rightarrow> nat \<Rightarrow> 'v process \<Rightarrow> (exn, unit, 'v process) outcome" where
  "ref_release E a p =
     (case pr_heap p a of
        None \<Rightarrow> (Inl (Crash ''dangling session''), p)
      | Some ob \<Rightarrow>
          (case Release (env_tid E) (object_manager ob) of
             Inl e \<Rightarrow> (Inl e, p)
           | Inr (_, m) \<Rightarrow> (Inr (), set_manager a m p)))"

definition tAccessManagedRef_new ::
  "'v env \<Rightarrow> nat \<Rightarrow> tAccessType \<Rightarrow> bool \<Rightarrow> 'v process \<Rightarrow> (exn, session_ref, 'v process) outcome" where
  "tAccessManagedRef_new E a access destructionPending p =
     bind_out (ref_acquire E a (access = kAccess_Exclusive) p) (\<lambda>_ p.
       (Inr \<lparr>ref_resource = Some a, ref_exclusive = (access = kAccess_Exclusive),
             ref_destructionPending = destructionPending\<rparr>, p))"

definition tAccessManagedRef_copy :: "'v env \<Rightarrow> session_ref \<Rightarrow> 'v process \<Rightarrow> (exn, session_ref, 'v process) outcome" where
  "tAccessManagedRef_copy E other p =
     (case ref_resource other of None \<Rightarrow> (Inr other, p)
      | Some a \<Rightarrow> bind_out (ref_acquire E a (ref_exclusive other) p) (\<lambda>_ p. (Inr other, p)))"

definition tAccessManagedRef_dtor :: "'v env \<Rightarrow> session_ref \<Rightarrow> 'v process \<Rightarrow> (exn, unit, 'v process) outcome" where
  "tAccessManagedRef_dtor E ref p =
     (case ref_resource ref of None \<Rightarrow> (Inr (), p) | Some a \<Rightarrow> ref_release E a p)"

text \<open>\<open>operator=\<close> between different references.\<close>

definition tAccessManagedRef_assign ::
  "'v env \<Rightarrow> session_ref \<Rightarrow> session_ref \<Rightarrow> 'v process \<Rightarrow> (exn, session_ref, 'v process) outcome" where
  "tAccessManagedRef_assign E ref other p =
     bind_out (tAccessManagedRef_dtor E ref p) (\<lambda>_ p. tAccessManagedRef_copy E other p)"

text \<open>
  \<open>ReleaseAndWaitForAllReferencesGone\<close>: after the wait the reference lets go of the object, which
  is the end of the object.
\<close>

definition destroy_object :: "'v env \<Rightarrow> nat \<Rightarrow> 'v process \<Rightarrow> (exn, unit, 'v process) outcome" where
  "destroy_object E a p =
     (case pr_heap p a of
        None \<Rightarrow> (Inl (Crash ''dangling session''), p)
      | Some ob \<Rightarrow>
          (case Object_dtor (env_verbs E) (ob, pr_world p) of
             (Inl e, w) \<Rightarrow> (Inl e, p\<lparr>pr_world := w\<rparr>)
           | (Inr calls, w) \<Rightarrow>
               (Inr (), p\<lparr>pr_heap := (pr_heap p)(a := None), pr_world := w, pr_calls := pr_calls p @ calls\<rparr>)))"

definition ReleaseAndWaitForAllReferencesGone ::
  "'v env \<Rightarrow> session_ref \<Rightarrow> 'v process \<Rightarrow> (exn, session_ref, 'v process) outcome" where
  "ReleaseAndWaitForAllReferencesGone E ref p =
     (case ref_resource ref of
        None \<Rightarrow> (Inl (Crash ''_resource''), p)
      | Some a \<Rightarrow>
          bind_out (ref_release E a p) (\<lambda>_ p.
            let p = (case pr_heap p a of None \<Rightarrow> p
                     | Some ob \<Rightarrow> (case WaitForAllReferencesToBeReleased [] (object_manager ob) of
                                     Some _ \<Rightarrow> p | None \<Rightarrow> env_refs_gone E a p)) in
            bind_out (destroy_object E a p) (\<lambda>_ p. (Inr (ref\<lparr>ref_resource := None\<rparr>), p))))"

section \<open>The session manager\<close>

definition rdma_api_common_h :: string where "rdma_api_common_h = ''core/api/rdma_api_common.h''"

definition RegisterSession :: "nat \<Rightarrow> 'v process \<Rightarrow> u64 \<times> 'v process" where
  "RegisterSession a p = (case registry_add a (pr_registry p) of (h, reg) \<Rightarrow> (h, p\<lparr>pr_registry := reg\<rparr>))"

definition GetSession ::
  "'v env \<Rightarrow> u64 \<Rightarrow> tAccessType \<Rightarrow> tCheckDeferredCloseTable \<Rightarrow> 'v process \<Rightarrow> (exn, session_ref, 'v process) outcome" where
  "GetSession E h access checkDeferred p =
     (case map_of (sessionMap (pr_registry p)) h of
        Some a \<Rightarrow> tAccessManagedRef_new E a access False p
      | None \<Rightarrow>
          (case (if checkDeferred = CheckDeferred_Yes
                 then map_of (deferredCloseSessionMap (pr_registry p)) h else None) of
             Some a \<Rightarrow> tAccessManagedRef_new E a access True p
           | None \<Rightarrow> (Inl (RDMA_THROW rdma_api_common_h 46 easyrdma_Error_InvalidSession), p)))"

definition easyrdma_CloseFlags_DeferWhileUserBuffersOutstanding :: u32 where
  "easyrdma_CloseFlags_DeferWhileUserBuffersOutstanding = 1"

text \<open>Cancelling a session appends the callbacks it fires to the trace.\<close>

definition cancel_session :: "nat \<Rightarrow> 'v process \<Rightarrow> (exn, unit, 'v process) outcome" where
  "cancel_session a p =
     bind_out (at_object a Object_Cancel p) (\<lambda>calls p. (Inr (), p\<lparr>pr_calls := pr_calls p @ calls\<rparr>))"

text \<open>The destructor of a local reference runs on every way out; its own exception wins.\<close>

definition release_on_exit :: "'v env \<Rightarrow> (exn, 'a, session_ref \<times> 'v process) outcome \<Rightarrow> (exn, 'a, 'v process) outcome" where
  "release_on_exit E res =
     (case res of (r, (ref, p)) \<Rightarrow>
        (case r of
           Inl (Crash m) \<Rightarrow> (Inl (Crash m), p)
         | _ \<Rightarrow> (case tAccessManagedRef_dtor E ref p of (Inl e, p) \<Rightarrow> (Inl e, p) | (Inr _, p) \<Rightarrow> (r, p))))"

text \<open>
  \<open>DestroySession\<close> once the reference is held: the registry part, the cancellation, and the wait for
  the other references unless destruction is deferred.
\<close>

definition DestroySession_held :: "'v env \<Rightarrow> u64 \<Rightarrow> u32 \<Rightarrow> nat \<Rightarrow> session_ref \<times> 'v process \<Rightarrow>
    (exn, unit, session_ref \<times> 'v process) outcome" where
  "DestroySession_held E h flags a = (\<lambda>(ref, p).
     let p = p\<lparr>pr_registry := registry_remove h (pr_registry p)\<rparr>;
         deferredDestruction =
           (flags AND easyrdma_CloseFlags_DeferWhileUserBuffersOutstanding \<noteq> 0
            \<and> \<not> (case pr_heap p a of Some ob \<Rightarrow> Object_CheckDeferredDestructionConditionsMet ob | None \<Rightarrow> True));
         p = (if deferredDestruction then p\<lparr>pr_registry := registry_defer h a (pr_registry p)\<rparr> else p) in
     case cancel_session a p of
       (Inl e, p) \<Rightarrow> (Inl e, (ref, p))
     | (Inr _, p) \<Rightarrow>
         if deferredDestruction then (Inr (), (ref, p))
         else (case ReleaseAndWaitForAllReferencesGone E ref p of
                 (Inl e, p) \<Rightarrow> (Inl e, (ref, p))
               | (Inr ref, p) \<Rightarrow> (Inr (), (ref, p))))"

definition DestroySession :: "'v env \<Rightarrow> u64 \<Rightarrow> u32 \<Rightarrow> 'v process \<Rightarrow> (exn, unit, 'v process) outcome" where
  "DestroySession E h flags p =
     (case map_of (sessionMap (pr_registry p)) h of
        None \<Rightarrow> (Inl (RDMA_THROW rdma_api_common_h 66 easyrdma_Error_InvalidSession), p)
      | Some a \<Rightarrow>
          bind_out (tAccessManagedRef_new E a kAccess_Exclusive False p) (\<lambda>temporary p.
            bind_out (tAccessManagedRef_assign E ref_null temporary p) (\<lambda>erasedSession p.
              bind_out (tAccessManagedRef_dtor E temporary p) (\<lambda>_ p.
                release_on_exit E (DestroySession_held E h flags a (erasedSession, p))))))"

definition CheckDeferredSessionDestructionReady ::
  "'v env \<Rightarrow> u64 \<Rightarrow> session_ref \<times> 'v process \<Rightarrow> (exn, unit, session_ref \<times> 'v process) outcome" where
  "CheckDeferredSessionDestructionReady E h = (\<lambda>(ref, p).
     case cpp_assert ''sessionRef.IsDestructionPending()'' (ref_destructionPending ref) of
       Inl e \<Rightarrow> (Inl e, (ref, p))
     | Inr _ \<Rightarrow>
       (case ref_resource ref of None \<Rightarrow> (Inl (Crash ''null session''), (ref, p))
        | Some a \<Rightarrow>
          if (case pr_heap p a of Some ob \<Rightarrow> Object_CheckDeferredDestructionConditionsMet ob | None \<Rightarrow> True) then
            (case cpp_assert ''deferredCloseSessionMap.find(sessionHandle) != end''
                    (map_of (deferredCloseSessionMap (pr_registry p)) h \<noteq> None) of
               Inl e \<Rightarrow> (Inl e, (ref, p))
             | Inr _ \<Rightarrow>
                 (case ReleaseAndWaitForAllReferencesGone E ref (p\<lparr>pr_registry := registry_undefer h (pr_registry p)\<rparr>) of
                    (Inl e, p) \<Rightarrow> (Inl e, (ref, p))
                  | (Inr ref, p) \<Rightarrow> (Inr (), (ref, p))))
          else (Inr (), (ref, p))))"

definition GetOpenedSessions :: "'v process \<Rightarrow> u64" where
  "GetOpenedSessions p = of_nat (length (sessionMap (pr_registry p)))"

definition GetDeferredCloseSessions :: "'v process \<Rightarrow> u64" where
  "GetDeferredCloseSessions p = of_nat (length (deferredCloseSessionMap (pr_registry p)))"

end
