(* ===== verification/Api.thy ===== *)
theory Api
  imports SessionManager
begin

text \<open>
  The C API of \<^verbatim>\<open>core/api/rdma_api_c.cpp\<close>.  Every function runs its body, turns an exception into
  a status, stores the status as the calling thread's last error and returns its code; a crash is
  the only thing that does not come back.  Pointer arguments that may be null are options, output
  parameters are components of the result, given when the body comes to its end.
\<close>

section \<open>The frame of an API function\<close>

definition rdma_api_c_cpp :: string where "rdma_api_c_cpp = ''core/api/rdma_api_c.cpp''"

definition api_throw :: "int \<Rightarrow> int \<Rightarrow> exn" where
  "api_throw line code = RDMA_THROW rdma_api_c_cpp line code"

text \<open>\<open>API_CATCH_EXCEPTION\<close>; \<open>line\<close> is where the macro is used.\<close>

fun API_CATCH_EXCEPTION :: "int \<Rightarrow> exn \<Rightarrow> RdmaError \<Rightarrow> RdmaError" where
  "API_CATCH_EXCEPTION line (RdmaException e) status = RdmaError_Assign status e"
| "API_CATCH_EXCEPTION line BadAlloc status = RdmaError_Assign4 status easyrdma_Error_OutOfMemory 0 rdma_api_c_cpp line"
| "API_CATCH_EXCEPTION line StdException status = RdmaError_Assign4 status easyrdma_Error_InternalError 0 rdma_api_c_cpp line"
| "API_CATCH_EXCEPTION line (Crash m) status = status"

definition UpdateLastError :: "nat \<Rightarrow> RdmaError \<Rightarrow> 'v process \<Rightarrow> 'v process" where
  "UpdateLastError tid status p = p\<lparr>pr_errors := PopulateLastRdmaError tid status (pr_errors p)\<rparr>"

text \<open>
  The frame: the result is a crash, or the code with what the body wrote to the output parameters
  (none when it threw).
\<close>

definition api_call :: "'v env \<Rightarrow> int \<Rightarrow> ('v process \<Rightarrow> (exn, 'a, 'v process) outcome) \<Rightarrow>
    'v process \<Rightarrow> (exn, int \<times> 'a option, 'v process) outcome" where
  "api_call E line body p =
     (case body p of
        (Inl (Crash m), p) \<Rightarrow> (Inl (Crash m), p)
      | (Inl e, p) \<Rightarrow>
          (let status = API_CATCH_EXCEPTION line e RdmaError_new
           in (Inr (GetCode status, None), UpdateLastError (env_tid E) status p))
      | (Inr out, p) \<Rightarrow> (Inr (GetCode RdmaError_new, Some out), UpdateLastError (env_tid E) RdmaError_new p))"

text \<open>A body that holds a session: the reference is released on every way out.\<close>

definition with_session ::
  "'v env \<Rightarrow> u64 \<Rightarrow> tCheckDeferredCloseTable \<Rightarrow>
   (session_ref \<times> 'v process \<Rightarrow> (exn, 'a, session_ref \<times> 'v process) outcome) \<Rightarrow>
   'v process \<Rightarrow> (exn, 'a, 'v process) outcome" where
  "with_session E h checkDeferred body p =
     bind_out (GetSession E h kAccess_Exclusive checkDeferred p) (\<lambda>ref p. release_on_exit E (body (ref, p)))"

text \<open>A virtual call through the reference.\<close>

definition on_session :: "('v, 'a) object_op \<Rightarrow> session_ref \<times> 'v process \<Rightarrow> (exn, 'a, session_ref \<times> 'v process) outcome" where
  "on_session f = (\<lambda>(ref, p).
     case ref_resource ref of
       None \<Rightarrow> (Inl (Crash ''null session''), (ref, p))
     | Some a \<Rightarrow> (case at_object a f p of (r, p) \<Rightarrow> (r, (ref, p))))"

definition read_session :: "(session_object \<Rightarrow> exn + 'a) \<Rightarrow> ('v, 'a) object_op" where
  "read_session f = (\<lambda>(ob, w). (f ob, (ob, w)))"

section \<open>Sessions\<close>

definition kAddressStringLength :: nat where "kAddressStringLength = 64"

text \<open>
  \<open>strncpy(dst, s, sizeof - 1)\<close> into a field of 64 bytes: at most 63 characters, padded with zero
  bytes; the last byte keeps what it held.
\<close>

definition strncpy_address :: "string \<Rightarrow> string \<Rightarrow> string" where
  "strncpy_address dst s =
     (let t = take (kAddressStringLength - 1) s in
      t @ replicate (kAddressStringLength - 1 - length t) (char_of (0::nat)) @ drop (kAddressStringLength - 1) dst)"

definition compatible_address :: "'v env \<Rightarrow> 'v process \<Rightarrow> RdmaAddress \<Rightarrow> bool" where
  "compatible_address E p addr =
     (let channel = fst (GetEventChannel (fst (cm_create_channel (env_cm E))) (snd (cm_create_channel (env_cm E)))
                           (env_channel E)) in
      case cm_create_id (env_cm E) (w_state (pr_world p)) of (((result, _), i), v) \<Rightarrow>
        fst (IsAddressRdmaCompatible
          (case channel of Inl e \<Rightarrow> Inl e
           | Inr _ \<Rightarrow> Inr (result, \<lambda>addr. fst (fst (cm_bind_addr (env_cm E) i addr v)))) addr))"

text \<open>The array of the caller is \<open>None\<close> for a null pointer; the result is the array and \<open>*numAddresses\<close>.\<close>

definition easyrdma_Enumerate ::
  "'v env \<Rightarrow> string list option \<Rightarrow> u64 option \<Rightarrow> int \<Rightarrow> 'v process \<Rightarrow>
   (exn, int \<times> (string list option \<times> u64) option, 'v process) outcome" where
  "easyrdma_Enumerate E addresses numAddresses filterAddressFamily =
     api_call E 61 (\<lambda>p.
       case numAddresses of
         None \<Rightarrow> (Inl (api_throw 48 easyrdma_Error_InvalidArgument), p)
       | Some n \<Rightarrow>
           (case EnumerateInterfaces (env_getaddrinfo E) (env_inet_ntop E) (compatible_address E p)
                   (env_net_entries E) (env_getifaddrs E) filterAddressFamily of
              Inl e \<Rightarrow> (Inl e, p)
            | Inr interfaces \<Rightarrow>
                (case addresses of
                   None \<Rightarrow> (Inr (None, of_nat (length interfaces)), p)
                 | Some array \<Rightarrow>
                     let n = min (of_nat (length interfaces)) n in
                     (Inr (Some (map2 strncpy_address (take (unat n) array) (take (unat n) interfaces) @ drop (unat n) array), n), p))))"

text \<open>
  A new object at a fresh address, with a reference to it, registered; the reference is a local
  variable of the API function.
\<close>

definition register_object :: "'v env \<Rightarrow> session_object \<Rightarrow> 'v process \<Rightarrow> (exn, u64, 'v process) outcome" where
  "register_object E ob p =
     (let a = env_address E; p = p\<lparr>pr_heap := (pr_heap p)(a := Some ob)\<rparr> in
      bind_out (tAccessManagedRef_new E a kAccess_Exclusive False p) (\<lambda>ref p.
        case RegisterSession a p of (h, p) \<Rightarrow> release_on_exit E (Inr h, (ref, p))))"

definition easyrdma_CreateConnectorSession ::
  "'v env \<Rightarrow> string option \<Rightarrow> u16 \<Rightarrow> bool \<Rightarrow> 'v process \<Rightarrow> (exn, int \<times> u64 option, 'v process) outcome" where
  "easyrdma_CreateConnectorSession E addr port hasSession =
     api_call E 78 (\<lambda>p.
       if \<not> hasSession then (Inl (api_throw 71 easyrdma_Error_InvalidArgument), p)
       else
         case RdmaAddress_parse (env_getaddrinfo E) (case addr of Some s \<Rightarrow> s | None \<Rightarrow> '''') port of
           Inl e \<Rightarrow> (Inl e, p)
         | Inr localAddr \<Rightarrow>
             (case FdPoller_new (fst (env_pipe E)) (snd (env_pipe E)) of
                Inl e \<Rightarrow> (Inl e, p)
              | Inr poller \<Rightarrow>
                  (case RdmaConnector_new (env_cm E) (env_verbs E) (env_channel E) (tAccessManager_new (env_requests E))
                          poller localAddr (pr_world p) of
                     (Inl e, (s, (l, w))) \<Rightarrow> (Inl e, p\<lparr>pr_world := w\<rparr>)
                   | (Inr k, (s, (l, w))) \<Rightarrow> register_object E (Connector_session k s l) (p\<lparr>pr_world := w\<rparr>))))"

definition easyrdma_CreateListenerSession ::
  "'v env \<Rightarrow> string option \<Rightarrow> u16 \<Rightarrow> bool \<Rightarrow> 'v process \<Rightarrow> (exn, int \<times> u64 option, 'v process) outcome" where
  "easyrdma_CreateListenerSession E addr port hasSession =
     api_call E 95 (\<lambda>p.
       if \<not> hasSession then (Inl (api_throw 88 easyrdma_Error_InvalidArgument), p)
       else
         case RdmaAddress_parse (env_getaddrinfo E) (case addr of Some s \<Rightarrow> s | None \<Rightarrow> '''') port of
           Inl e \<Rightarrow> (Inl e, p)
         | Inr localAddr \<Rightarrow>
             (case RdmaListener_new (env_cm E) (env_verbs E) (env_channel E) (tAccessManager_new (env_requests E))
                     localAddr (pr_world p) of
                (Inl e, w) \<Rightarrow> (Inl e, p\<lparr>pr_world := w\<rparr>)
              | (Inr ln, w) \<Rightarrow> register_object E (Listener_session ln) (p\<lparr>pr_world := w\<rparr>)))"

definition easyrdma_CloseSession :: "'v env \<Rightarrow> u64 \<Rightarrow> u32 \<Rightarrow> 'v process \<Rightarrow> (exn, int \<times> unit option, 'v process) outcome" where
  "easyrdma_CloseSession E session flags =
     api_call E 107 (\<lambda>p. if session \<noteq> 0 then DestroySession E session flags p else (Inr (), p))"

definition easyrdma_AbortSession :: "'v env \<Rightarrow> u64 \<Rightarrow> 'v process \<Rightarrow> (exn, int \<times> unit option, 'v process) outcome" where
  "easyrdma_AbortSession E session =
     api_call E 120 (with_session E session CheckDeferred_No (\<lambda>(ref, p).
       case ref_resource ref of None \<Rightarrow> (Inl (Crash ''null session''), (ref, p))
       | Some a \<Rightarrow> (case cancel_session a p of (r, p) \<Rightarrow> (r, (ref, p)))))"

text \<open>The address is parsed after the session is found, as an argument of the call.\<close>

definition easyrdma_Connect ::
  "'v env \<Rightarrow> u64 \<Rightarrow> u32 \<Rightarrow> string option \<Rightarrow> u16 \<Rightarrow> int \<Rightarrow> 'v process \<Rightarrow> (exn, int \<times> unit option, 'v process) outcome" where
  "easyrdma_Connect E session direction remoteAddr remotePort timeoutMs =
     api_call E 135 (\<lambda>p.
       case remoteAddr of
         None \<Rightarrow> (Inl (api_throw 130 easyrdma_Error_InvalidArgument), p)
       | Some addr \<Rightarrow>
           with_session E session CheckDeferred_No (\<lambda>\<rho>.
             case RdmaAddress_parse (env_getaddrinfo E) addr remotePort of
               Inl e \<Rightarrow> (Inl e, \<rho>)
             | Inr remote \<Rightarrow>
                 on_session (Object_Connect (env_cm E) (env_verbs E) (env_fuel E) (env_tid E)
                   (Direction_cast direction) remote timeoutMs) \<rho>) p)"

text \<open>The new session is registered while the listener's reference is held.\<close>

definition easyrdma_Accept ::
  "'v env \<Rightarrow> u64 \<Rightarrow> u32 \<Rightarrow> int \<Rightarrow> bool \<Rightarrow> 'v process \<Rightarrow> (exn, int \<times> u64 option, 'v process) outcome" where
  "easyrdma_Accept E session direction timeoutMs hasConnected =
     api_call E 151 (\<lambda>p.
       if \<not> hasConnected then (Inl (api_throw 145 easyrdma_Error_InvalidArgument), p)
       else with_session E session CheckDeferred_No (\<lambda>\<rho>.
         case FdPoller_new (fst (env_pipe E)) (snd (env_pipe E)) of
           Inl e \<Rightarrow> (Inl e, \<rho>)
         | Inr poller \<Rightarrow>
             bind_out (on_session (Object_Accept (env_verbs E) (env_fuel E) (tAccessManager_new (env_requests E)) poller
                         (env_tid E) (Direction_cast direction) timeoutMs) \<rho>)
               (\<lambda>ob (ref, p). case register_object E ob p of (r, p) \<Rightarrow> (r, (ref, p)))) p)"

text \<open>The flags say which output pointers are given.\<close>

definition address_outputs ::
  "'v env \<Rightarrow> string option \<Rightarrow> bool \<Rightarrow> RdmaAddress \<Rightarrow> exn + string option \<times> u16 option" where
  "address_outputs E addressString wantPort addr =
     bind_res (case addressString of None \<Rightarrow> Inr None
               | Some dst \<Rightarrow> bind_res (GetAddrString (env_inet_ntop E) addr) (\<lambda>s. Inr (Some (strncpy_address dst s)))) (\<lambda>out.
       bind_res (if wantPort then bind_res (GetPort addr) (\<lambda>port. Inr (Some port)) else Inr None) (\<lambda>port.
         Inr (out, port)))"

definition easyrdma_GetLocalAddress ::
  "'v env \<Rightarrow> u64 \<Rightarrow> string option \<Rightarrow> bool \<Rightarrow> 'v process \<Rightarrow> (exn, int \<times> (string option \<times> u16 option) option, 'v process) outcome" where
  "easyrdma_GetLocalAddress E session addressString wantPort =
     api_call E 170 (with_session E session CheckDeferred_No
       (on_session (read_session (\<lambda>ob. address_outputs E addressString wantPort (Object_GetLocalAddress ob)))))"

definition easyrdma_GetRemoteAddress ::
  "'v env \<Rightarrow> u64 \<Rightarrow> string option \<Rightarrow> bool \<Rightarrow> 'v process \<Rightarrow> (exn, int \<times> (string option \<times> u16 option) option, 'v process) outcome" where
  "easyrdma_GetRemoteAddress E session addressString wantPort =
     api_call E 189 (with_session E session CheckDeferred_No
       (on_session (read_session (\<lambda>ob. address_outputs E addressString wantPort (Object_GetRemoteAddress ob)))))"

section \<open>Buffers\<close>

definition easyrdma_ConfigureBuffers ::
  "'v env \<Rightarrow> u64 \<Rightarrow> u64 \<Rightarrow> u64 \<Rightarrow> 'v process \<Rightarrow> (exn, int \<times> unit option, 'v process) outcome" where
  "easyrdma_ConfigureBuffers E session maxTransactionSize maxConcurrentTransactions =
     api_call E 201 (with_session E session CheckDeferred_No
       (on_session (Object_ConfigureBuffers (env_verbs E) (env_fuel E) maxTransactionSize maxConcurrentTransactions)))"

definition easyrdma_ConfigureExternalBuffer ::
  "'v env \<Rightarrow> u64 \<Rightarrow> u64 \<Rightarrow> u64 \<Rightarrow> u64 \<Rightarrow> 'v process \<Rightarrow> (exn, int \<times> unit option, 'v process) outcome" where
  "easyrdma_ConfigureExternalBuffer E session externalBuffer sz maxConcurrentTransactions =
     api_call E 213 (with_session E session CheckDeferred_No
       (on_session (Object_ConfigureExternalBuffer (env_verbs E) (env_fuel E) externalBuffer sz maxConcurrentTransactions)))"

text \<open>
  A region as the user sees it.  The first internal reference is the session's handle, the second
  the pointer to the buffer: the address of its session and its index in the transfer queue.
\<close>

record easyrdma_InternalBufferRegion =
  rg_buffer :: u64
  rg_bufferSize :: u64
  rg_usedSize :: u64
  internalReference1 :: u64
  internalReference2 :: "(nat \<times> nat) option"

definition object_buffer :: "nat \<Rightarrow> session_object \<Rightarrow> exn + RdmaBuffer" where
  "object_buffer i ob =
     (case ob of
        Connected_session s l \<Rightarrow> (case transferBuffers s of Some q \<Rightarrow> Inr (buffers q ! i) | None \<Rightarrow> Inl (Crash ''null transferBuffers''))
      | Connector_session k s l \<Rightarrow> (case transferBuffers s of Some q \<Rightarrow> Inr (buffers q ! i) | None \<Rightarrow> Inl (Crash ''null transferBuffers''))
      | Listener_session ln \<Rightarrow> Inl (Crash ''not a buffer''))"

definition fill_region ::
  "u64 \<Rightarrow> (RdmaBuffer \<Rightarrow> u64) \<Rightarrow> nat \<Rightarrow> session_ref \<times> 'v process \<Rightarrow>
   (exn, easyrdma_InternalBufferRegion, session_ref \<times> 'v process) outcome" where
  "fill_region session used i \<rho> =
     bind_out (on_session (read_session (object_buffer i)) \<rho>) (\<lambda>b (ref, p).
       (Inr \<lparr>rg_buffer = buf_ptr b, rg_bufferSize = bufferSize b, rg_usedSize = used b,
             internalReference1 = session, internalReference2 = Some (the (ref_resource ref), i)\<rparr>, (ref, p)))"

definition easyrdma_AcquireSendRegion ::
  "'v env \<Rightarrow> u64 \<Rightarrow> int \<Rightarrow> bool \<Rightarrow> 'v process \<Rightarrow> (exn, int \<times> easyrdma_InternalBufferRegion option, 'v process) outcome" where
  "easyrdma_AcquireSendRegion E session timeoutMs hasRegion =
     api_call E 233 (\<lambda>p.
       if \<not> hasRegion then (Inl (api_throw 223 easyrdma_Error_InvalidArgument), p)
       else with_session E session CheckDeferred_No (\<lambda>\<rho>.
         bind_out (on_session (Object_AcquireSendRegion (env_verbs E) (env_fuel E) (env_tid E) timeoutMs) \<rho>)
           (\<lambda>i \<rho>. fill_region session bufferSize i \<rho>)) p)"

definition easyrdma_AcquireReceivedRegion ::
  "'v env \<Rightarrow> u64 \<Rightarrow> int \<Rightarrow> bool \<Rightarrow> 'v process \<Rightarrow> (exn, int \<times> easyrdma_InternalBufferRegion option, 'v process) outcome" where
  "easyrdma_AcquireReceivedRegion E session timeoutMs hasRegion =
     api_call E 254 (\<lambda>p.
       if \<not> hasRegion then (Inl (api_throw 244 easyrdma_Error_InvalidArgument), p)
       else with_session E session CheckDeferred_No (\<lambda>\<rho>.
         bind_out (on_session (Object_AcquireReceivedRegion (env_verbs E) (env_fuel E) (env_tid E) timeoutMs) \<rho>)
           (\<lambda>i \<rho>. fill_region session usedBytes i \<rho>)) p)"

text \<open>The checks of a region argument; a region that passes has both references.\<close>

definition region_invalid :: "easyrdma_InternalBufferRegion option \<Rightarrow> bool" where
  "region_invalid region =
     (case region of None \<Rightarrow> True | Some rg \<Rightarrow> internalReference1 rg = 0 \<or> internalReference2 rg = None)"

text \<open>An operation on a region, which acts on the session the buffer belongs to.\<close>

definition on_region :: "easyrdma_InternalBufferRegion \<Rightarrow> (nat \<Rightarrow> ('v, 'a) object_op) \<Rightarrow>
    session_ref \<times> 'v process \<Rightarrow> (exn, 'a, session_ref \<times> 'v process) outcome" where
  "on_region rg f = (\<lambda>(ref, p).
     case internalReference2 rg of
       None \<Rightarrow> (Inl (Crash ''null region''), (ref, p))
     | Some (a, i) \<Rightarrow> (case at_object a (f i) p of (r, p) \<Rightarrow> (r, (ref, p))))"

definition callback_argument :: "BufferCompletionCallbackData option \<Rightarrow> BufferCompletionCallbackData" where
  "callback_argument callback =
     (case callback of Some cb \<Rightarrow> if callbackFunction cb \<noteq> None then cb else no_callback | None \<Rightarrow> no_callback)"

text \<open>
  \<open>QueueBufferRegion\<close> on a buffer of another session mixes up the linked lists of two queues; that
  is outside what the language defines, and is marked as a crash.
\<close>

definition queue_region ::
  "'v env \<Rightarrow> easyrdma_InternalBufferRegion \<Rightarrow> BufferCompletionCallbackData \<Rightarrow> session_ref \<times> 'v process \<Rightarrow>
   (exn, unit, session_ref \<times> 'v process) outcome" where
  "queue_region E rg callbackData \<rho> =
     (case internalReference2 rg of
        None \<Rightarrow> (Inl (Crash ''null region''), \<rho>)
      | Some (a, i) \<Rightarrow>
          if ref_resource (fst \<rho>) \<noteq> Some a then (Inl (Crash ''buffer of another session''), \<rho>)
          else on_session (Object_QueueBufferRegion (env_verbs E) (env_fuel E) i callbackData) \<rho>)"

definition easyrdma_QueueBufferRegion ::
  "'v env \<Rightarrow> u64 \<Rightarrow> easyrdma_InternalBufferRegion option \<Rightarrow> BufferCompletionCallbackData option \<Rightarrow> 'v process \<Rightarrow>
   (exn, int \<times> unit option, 'v process) outcome" where
  "easyrdma_QueueBufferRegion E session region callback =
     api_call E 277 (\<lambda>p.
       if region_invalid region then (Inl (api_throw 264 easyrdma_Error_InvalidArgument), p)
       else with_session E session CheckDeferred_No (\<lambda>\<rho>.
         bind_out (on_region (the region) (\<lambda>i. Region_SetUsed i (rg_usedSize (the region))) \<rho>) (\<lambda>_ \<rho>.
           queue_region E (the region) (callback_argument callback) \<rho>)) p)"

text \<open>The inner handler of \<open>ReleaseReceivedBufferRegion\<close>: a disconnected session gets its buffer back.\<close>

definition requeue_or_release ::
  "'v env \<Rightarrow> easyrdma_InternalBufferRegion \<Rightarrow> session_ref \<times> 'v process \<Rightarrow> (exn, unit, session_ref \<times> 'v process) outcome" where
  "requeue_or_release E rg \<rho> =
     (case on_region rg (Region_Requeue (env_verbs E) (env_fuel E)) \<rho> of
        (Inl (RdmaException e), \<rho>) \<Rightarrow>
          if GetCode e = easyrdma_Error_Disconnected then on_region rg Region_Release \<rho>
          else (Inl (RdmaException e), \<rho>)
      | res \<Rightarrow> res)"

definition easyrdma_ReleaseReceivedBufferRegion ::
  "'v env \<Rightarrow> u64 \<Rightarrow> easyrdma_InternalBufferRegion option \<Rightarrow> 'v process \<Rightarrow> (exn, int \<times> unit option, 'v process) outcome" where
  "easyrdma_ReleaseReceivedBufferRegion E session region =
     api_call E 307 (\<lambda>p.
       if region_invalid region then (Inl (api_throw 287 easyrdma_Error_InvalidArgument), p)
       else if internalReference1 (the region) \<noteq> session then (Inl (api_throw 291 easyrdma_Error_InvalidArgument), p)
       else with_session E session CheckDeferred_No (requeue_or_release E (the region)) p)"

definition easyrdma_ReleaseUserBufferRegionToIdle ::
  "'v env \<Rightarrow> u64 \<Rightarrow> easyrdma_InternalBufferRegion option \<Rightarrow> 'v process \<Rightarrow> (exn, int \<times> unit option, 'v process) outcome" where
  "easyrdma_ReleaseUserBufferRegionToIdle E session region =
     api_call E 329 (\<lambda>p.
       if region_invalid region then (Inl (api_throw 317 easyrdma_Error_InvalidArgument), p)
       else if internalReference1 (the region) \<noteq> session then (Inl (api_throw 321 easyrdma_Error_InvalidArgument), p)
       else with_session E session CheckDeferred_Yes (\<lambda>\<rho>.
         bind_out (on_region (the region) Region_Release \<rho>) (\<lambda>_ \<rho>.
           if ref_destructionPending (fst \<rho>) then CheckDeferredSessionDestructionReady E session \<rho>
           else (Inr (), \<rho>))) p)"

definition easyrdma_QueueExternalBufferRegion ::
  "'v env \<Rightarrow> u64 \<Rightarrow> u64 \<Rightarrow> u64 \<Rightarrow> BufferCompletionCallbackData option \<Rightarrow> int \<Rightarrow> 'v process \<Rightarrow>
   (exn, int \<times> unit option, 'v process) outcome" where
  "easyrdma_QueueExternalBufferRegion E session pointerWithinBuffer sz callback timeoutMs =
     api_call E 350 (\<lambda>p.
       if pointerWithinBuffer = 0 then (Inl (api_throw 339 easyrdma_Error_InvalidArgument), p)
       else with_session E session CheckDeferred_No
         (on_session (Object_QueueExternalBufferRegion (env_verbs E) (env_fuel E) (env_tid E) pointerWithinBuffer sz
            (callback_argument callback) timeoutMs)) p)"

section \<open>Errors and properties\<close>

record easyrdma_ErrorInfo =
  ei_errorCode :: int
  ei_errorSubCode :: int
  ei_filename :: "string option"
  ei_fileLineNumber :: int

definition easyrdma_GetLastError :: "nat \<Rightarrow> bool \<Rightarrow> 'v process \<Rightarrow> (int \<times> easyrdma_ErrorInfo option) \<times> 'v process" where
  "easyrdma_GetLastError tid hasStatus p =
     (case GetLastRdmaError tid RdmaError_new (pr_errors p) of (status, errs) \<Rightarrow>
        let p = p\<lparr>pr_errors := errs\<rparr> in
        if hasStatus then
          ((easyrdma_Error_Success,
            Some \<lparr>ei_errorCode = errorCode status, ei_errorSubCode = errorSubCode status,
                  ei_filename = filename status, ei_fileLineNumber = fileLineNumber status\<rparr>), p)
        else ((easyrdma_Error_InvalidArgument, None), p))"

text \<open>\<open>strncpy(buffer, s, size)\<close>: the string and zero bytes up to the size.\<close>

definition strncpy :: "string \<Rightarrow> string \<Rightarrow> nat \<Rightarrow> string" where
  "strncpy dst s n = take n s @ replicate (n - length s) (char_of (0::nat)) @ drop n dst"

definition easyrdma_GetLastErrorString :: "nat \<Rightarrow> string option \<Rightarrow> u64 \<Rightarrow> 'v process \<Rightarrow> (int \<times> string option) \<times> 'v process" where
  "easyrdma_GetLastErrorString tid buffer sz p =
     (case buffer of
        None \<Rightarrow> ((easyrdma_Error_InvalidArgument, None), p)
      | Some dst \<Rightarrow>
          (case GetLastRdmaError tid RdmaError_new (pr_errors p) of (status, errs) \<Rightarrow>
             let p = p\<lparr>pr_errors := errs\<rparr>; err_str = GetErrorDescription status in
             if sz > of_nat (length err_str) + 1
             then ((easyrdma_Error_Success, Some (strncpy dst err_str (unat sz))), p)
             else ((easyrdma_Error_InvalidSize, Some dst), p)))"

text \<open>The result is the output buffer and \<open>*valueSize\<close>.\<close>

definition easyrdma_GetProperty ::
  "'v env \<Rightarrow> u64 \<Rightarrow> u32 \<Rightarrow> u8 list option \<Rightarrow> u64 option \<Rightarrow> 'v process \<Rightarrow>
   (exn, int \<times> (u8 list option \<times> u64) option, 'v process) outcome" where
  "easyrdma_GetProperty E session propertyId val valueSize =
     api_call E 413 (\<lambda>p.
       case valueSize of
         None \<Rightarrow> (Inl (api_throw 391 easyrdma_Error_InvalidArgument), p)
       | Some sz \<Rightarrow>
           bind_out
             (if propertyId = easyrdma_Property_ConnectionData
              then (Inl (api_throw 398 easyrdma_Error_WriteOnlyProperty), p)
              else if propertyId = easyrdma_Property_NumOpenedSessions
              then (Inr (PropertyData_u64 (GetOpenedSessions p)), p)
              else if propertyId = easyrdma_Property_NumPendingDestructionSessions
              then (Inr (PropertyData_u64 (GetDeferredCloseSessions p)), p)
              else with_session E session CheckDeferred_No (on_session (read_session (Object_GetProperty propertyId))) p)
             (\<lambda>output p. case CopyToOutput output val sz of
                (Inl e, _) \<Rightarrow> (Inl e, p) | (Inr _, out) \<Rightarrow> (Inr out, p)))"

definition easyrdma_SetProperty ::
  "'v env \<Rightarrow> u64 \<Rightarrow> u32 \<Rightarrow> u8 list \<Rightarrow> 'v process \<Rightarrow> (exn, int \<times> unit option, 'v process) outcome" where
  "easyrdma_SetProperty E session propertyId val =
     api_call E 424 (with_session E session CheckDeferred_No (on_session (Object_SetProperty propertyId val)))"

definition easyrdma_testsetLastOsError :: "'v env \<Rightarrow> int \<Rightarrow> 'v process \<Rightarrow> (exn, int \<times> unit option, 'v process) outcome" where
  "easyrdma_testsetLastOsError E osErrorCode =
     api_call E 439 (\<lambda>p. (Inl (THROW_OS_ERROR rdma_api_c_cpp 436 osErrorCode), p))"

end
