(* ===== verification/RegistryTheorems.thy ===== *)
theory RegistryTheorems
  imports Transitions Api
begin

text \<open>
  Session handles.  The maps of the registry satisfy the laws of a finite map with distinct keys;
  over any sequence of registrations and closes a handle is issued once, is never zero, and is at
  any time open, waiting for its deferred destruction, or gone.
\<close>

section \<open>The maps\<close>

text \<open>What the session manager relies on of \<open>std::map\<close>.\<close>

locale keyed_table =
  fixes put :: "'k \<Rightarrow> 'a \<Rightarrow> 'm \<Rightarrow> 'm"
    and erase :: "'k \<Rightarrow> 'm \<Rightarrow> 'm"
    and find :: "'m \<Rightarrow> 'k \<Rightarrow> 'a option"
    and count :: "'m \<Rightarrow> nat"
    and valid :: "'m \<Rightarrow> bool"
  assumes find_put: "valid m \<Longrightarrow> find (put k v m) = (find m)(k \<mapsto> v)"
    and find_erase: "valid m \<Longrightarrow> find (erase k m) = (find m)(k := None)"
    and valid_put: "valid m \<Longrightarrow> valid (put k v m)"
    and valid_erase: "valid m \<Longrightarrow> valid (erase k m)"
    and count_find: "valid m \<Longrightarrow> count m = card (dom (find m))"
    and finite_find: "finite (dom (find m))"
begin

lemma put_erase: "valid m \<Longrightarrow> find m k = None \<Longrightarrow> find (erase k (put k v m)) = find m"
  by (auto simp: find_put find_erase valid_put)

lemma dom_put: "valid m \<Longrightarrow> dom (find (put k v m)) = insert k (dom (find m))"
  by (simp add: find_put)

lemma dom_erase: "valid m \<Longrightarrow> dom (find (erase k m)) = dom (find m) - {k}"
  by (simp add: find_erase)

lemma count_put: "valid m \<Longrightarrow> find m k = None \<Longrightarrow> count (put k v m) = Suc (count m)"
  by (simp add: count_find valid_put find_put finite_find domIff)

lemma count_erase: "valid m \<Longrightarrow> find m k \<noteq> None \<Longrightarrow> Suc (count (erase k m)) = count m"
  using card_Suc_Diff1 [OF finite_find [of m], of k]
  by (simp add: count_find valid_erase dom_erase domIff)

lemmas table_simps = find_put find_erase valid_put valid_erase dom_put dom_erase

end

definition distinct_keys :: "(u64 \<times> nat) list \<Rightarrow> bool" where
  "distinct_keys m \<longleftrightarrow> distinct (map fst m)"

lemma map_of_erase: "map_of (map_erase k m) = (map_of m)(k := None)"
  by (induction m) (auto simp: map_erase_def)

lemma set_map_erase: "set (map_erase k m) = {x \<in> set m. fst x \<noteq> k}"
  by (auto simp: map_erase_def)

lemma set_map_put: "set (map_put k v m) = insert (k, v) {x \<in> set m. fst x \<noteq> k}"
  by (auto simp: map_put_def)

lemma distinct_keys_erase: "distinct_keys m \<Longrightarrow> distinct_keys (map_erase k m)"
  by (auto simp: distinct_keys_def map_erase_def distinct_map intro: inj_on_subset)

lemma map_put_erase: "map_put k v m = (k, v) # map_erase k m"
  by (simp add: map_put_def map_erase_def)

interpretation handles: keyed_table map_put map_erase map_of length distinct_keys
proof
  show "map_of (map_put k v m) = (map_of m)(k \<mapsto> v)" for k v m
    by (simp add: map_put_erase map_of_erase)
  show "map_of (map_erase k m) = (map_of m)(k := None)" for k m
    by (rule map_of_erase)
  show "distinct_keys (map_erase k m)" if "distinct_keys m" for k m
    using that by (rule distinct_keys_erase)
  show "distinct_keys (map_put k v m)" if "distinct_keys m" for k v m
    using distinct_keys_erase [OF that, of k]
    by (simp add: distinct_keys_def map_put_erase image_iff set_map_erase)
  show "length m = card (dom (map_of m))" if "distinct_keys m" for m
    using that by (simp add: distinct_keys_def dom_map_of_conv_image_fst distinct_card flip: set_map)
  show "finite (dom (map_of m))" for m :: "(u64 \<times> nat) list"
    by (rule finite_dom_map_of)
qed

section \<open>Runs of the registry\<close>

text \<open>
  A run of the registry with the handles it has issued, newest first: registrations, closes that
  destroy at once, closes that defer, and deferred destructions.  The bound on registrations is the
  number of non-zero handles.
\<close>

type_synonym registry_state = "u64 list \<times> session_registry"

inductive registry_step :: "registry_state \<Rightarrow> registry_state \<Rightarrow> bool" where
  register: "registry_add a reg = (h, reg') \<Longrightarrow> Suc (length issued) < 2 ^ 64
     \<Longrightarrow> registry_step (issued, reg) (h # issued, reg')"
| close: "map_of (sessionMap reg) h = Some a
     \<Longrightarrow> registry_step (issued, reg) (issued, registry_remove h reg)"
| close_deferred: "map_of (sessionMap reg) h = Some a
     \<Longrightarrow> registry_step (issued, reg) (issued, registry_defer h a (registry_remove h reg))"
| deferred_gone: "map_of (deferredCloseSessionMap reg) h = Some a
     \<Longrightarrow> registry_step (issued, reg) (issued, registry_undefer h reg)"

inductive_cases registry_stepE: "registry_step s s'"

definition registry_init :: "registry_state \<Rightarrow> bool" where
  "registry_init s \<longleftrightarrow> s = ([], registry_new)"

text \<open>The handles issued are one, two, three and so on; the maps only hold handles issued.\<close>

definition issued_in_order :: "u64 list \<Rightarrow> u64 \<Rightarrow> bool" where
  "issued_in_order issued n \<longleftrightarrow> distinct issued \<and> set issued = (\<lambda>n. of_nat (Suc n)) ` {..<length issued}
     \<and> length issued < 2 ^ 64 \<and> n = of_nat (Suc (length issued))"

definition registry_inv :: "registry_state \<Rightarrow> bool" where
  "registry_inv s \<longleftrightarrow> (case s of (issued, reg) \<Rightarrow>
     issued_in_order issued (nextSession reg)
     \<and> distinct_keys (sessionMap reg) \<and> distinct_keys (deferredCloseSessionMap reg)
     \<and> dom (map_of (sessionMap reg)) \<union> dom (map_of (deferredCloseSessionMap reg)) \<subseteq> set issued
     \<and> dom (map_of (sessionMap reg)) \<inter> dom (map_of (deferredCloseSessionMap reg)) = {})"

lemma of_nat_word_eq_iff:
  "m < 2 ^ 64 \<Longrightarrow> n < 2 ^ 64 \<Longrightarrow> (of_nat m :: u64) = of_nat n \<longleftrightarrow> m = n"
proof
  assume bounds: "m < 2 ^ 64" "n < 2 ^ 64" and "(of_nat m :: u64) = of_nat n"
  then have "unat (of_nat m :: u64) = unat (of_nat n :: u64)" by metis
  then show "m = n" using bounds of_nat_inverse_word [where 'a = 64] by auto
qed simp

lemma issued_facts:
  assumes "issued_in_order issued next"
  shows "distinct issued" "0 \<notin> set issued"
    "Suc (length issued) < 2 ^ 64 \<Longrightarrow> next \<notin> set issued"
    "Suc (length issued) < 2 ^ 64 \<Longrightarrow> next \<noteq> 0"
    "Suc (length issued) < 2 ^ 64 \<Longrightarrow> issued_in_order (next # issued) (next + 1)"
proof -
  let ?f = "\<lambda>n. of_nat (Suc n) :: u64"
  have set: "set issued = ?f ` {..<length issued}" and len: "length issued < 2 ^ 64"
    and nxt: "next = ?f (length issued)"
    using assms unfolding issued_in_order_def by blast+
  have inj: "?f m = ?f n \<longleftrightarrow> m = n" if "Suc m < 2 ^ 64" "Suc n < 2 ^ 64" for m n
    using of_nat_word_eq_iff [of "Suc m" "Suc n"] that by blast
  have nz: "?f n \<noteq> 0" if "Suc n < 2 ^ 64" for n
    using of_nat_word_eq_iff [of "Suc n" 0] that by simp
  show dist: "distinct issued" using assms by (simp add: issued_in_order_def)
  show "0 \<notin> set issued"
  proof
    assume "0 \<in> set issued"
    then obtain n where "n < length issued" "?f n = 0" unfolding set by auto
    with nz [of n] len show False by simp
  qed
  show new: "next \<notin> set issued" if "Suc (length issued) < 2 ^ 64"
  proof
    assume "next \<in> set issued"
    then obtain n where "n < length issued" "?f (length issued) = ?f n" unfolding set nxt by auto
    with inj [of "length issued" n] that show False by simp
  qed
  show "next \<noteq> 0" if "Suc (length issued) < 2 ^ 64" using nz [OF that] nxt by simp
  show "issued_in_order (next # issued) (next + 1)" if "Suc (length issued) < 2 ^ 64"
    unfolding issued_in_order_def using dist new [OF that] that
    by (simp add: set lessThan_Suc nxt)
qed

lemma registry_inv_step:
  assumes "registry_inv s" and "registry_step s s'"
  shows "registry_inv s'"
  using assms(2)
proof cases
  case (register a reg h reg' issued)
  then have "issued_in_order issued (nextSession reg)" using assms(1) by (simp add: registry_inv_def)
  moreover have "distinct_keys (sessionMap reg)" using register assms(1) by (simp add: registry_inv_def)
  note handles.dom_put [OF this] handles.valid_put [OF this]
  moreover have "h = nextSession reg" "nextSession reg' = nextSession reg + 1"
    "sessionMap reg' = map_put h a (sessionMap reg)" "deferredCloseSessionMap reg' = deferredCloseSessionMap reg"
    using register by (auto simp: registry_add_def Let_def)
  ultimately show ?thesis
    using register assms(1) issued_facts(3,5) [of issued "nextSession reg"]
    by (simp add: registry_inv_def) blast
next
  case (close reg h a issued)
  with assms(1) show ?thesis
    by (auto simp: registry_inv_def registry_remove_def handles.table_simps)
next
  case (close_deferred reg h a issued)
  with assms(1) show ?thesis
    by (auto simp: registry_inv_def registry_remove_def registry_defer_def handles.table_simps)
next
  case (deferred_gone reg h a issued)
  with assms(1) show ?thesis
    by (auto simp: registry_inv_def registry_undefer_def handles.table_simps)
qed

interpretation registry: invariant_system registry_init registry_step registry_inv
proof
  show "registry_inv s" if "registry_init s" for s
    using that by (simp add: registry_init_def registry_inv_def registry_new_def distinct_keys_def issued_in_order_def)
qed (rule registry_inv_step)

text \<open>
  C20.  Handles identify sessions.  After any sequence of registrations, closes, deferred closes and
  deferred destructions, every handle was issued once and is not zero; a handle is open or waiting
  for its destruction but never both; the counters that the API exposes are the numbers of such
  handles; and the next registration makes a new handle the name of the new session without
  touching any other handle.
\<close>

theorem handles_identify_sessions:
  assumes "registry_step\<^sup>*\<^sup>* ([], registry_new) (issued, reg)" and "pr_registry p = reg"
    and "Suc (length issued) < 2 ^ 64" and "registry_add a reg = (h, reg')"
  shows "distinct issued \<and> 0 \<notin> set issued
    \<and> dom (map_of (sessionMap reg)) \<union> dom (map_of (deferredCloseSessionMap reg)) \<subseteq> set issued
    \<and> dom (map_of (sessionMap reg)) \<inter> dom (map_of (deferredCloseSessionMap reg)) = {}
    \<and> unat (GetOpenedSessions p) = card (dom (map_of (sessionMap reg)))
    \<and> unat (GetDeferredCloseSessions p) = card (dom (map_of (deferredCloseSessionMap reg)))
    \<and> h \<notin> set issued \<and> h \<noteq> 0 \<and> map_of (sessionMap reg') = (map_of (sessionMap reg))(h \<mapsto> a)
    \<and> deferredCloseSessionMap reg' = deferredCloseSessionMap reg"
proof -
  have inv: "registry_inv (issued, reg)"
    using registry.reachable_inv [OF _ assms(1)] by (simp add: registry_init_def)
  then have keys: "distinct_keys (sessionMap reg)" "distinct_keys (deferredCloseSessionMap reg)"
    and dom: "dom (map_of (sessionMap reg)) \<union> dom (map_of (deferredCloseSessionMap reg)) \<subseteq> set issued"
    and disj: "dom (map_of (sessionMap reg)) \<inter> dom (map_of (deferredCloseSessionMap reg)) = {}"
    and ord: "issued_in_order issued (nextSession reg)"
    by (simp_all add: registry_inv_def)
  have small: "card (dom (map_of (sessionMap reg))) < 2 ^ 64"
    "card (dom (map_of (deferredCloseSessionMap reg))) < 2 ^ 64"
    using card_mono [OF _ order_trans [OF Un_upper1 dom]] card_mono [OF _ order_trans [OF Un_upper2 dom]]
      card_length [of issued] assms(3) by fastforce+
  have counts: "unat (GetOpenedSessions p) = card (dom (map_of (sessionMap reg)))"
    "unat (GetDeferredCloseSessions p) = card (dom (map_of (deferredCloseSessionMap reg)))"
    using small assms(2) keys handles.count_find
    by (simp_all add: GetOpenedSessions_def GetDeferredCloseSessions_def of_nat_inverse_word)
  have new: "h = nextSession reg" "reg' = reg\<lparr>nextSession := nextSession reg + 1, sessionMap := map_put h a (sessionMap reg)\<rparr>"
    using assms(4) by (auto simp: registry_add_def Let_def)
  from issued_facts(1-4) [OF ord] assms(3) keys dom disj counts new show ?thesis
    by (simp add: handles.find_put)
qed

theorem handles_identify_sessions_witness:
  "distinct [2, 1 :: u64] \<and> (3 :: u64) \<notin> set [2, 1]
   \<and> map_of (sessionMap (snd (registry_add 9 \<lparr>sessionMap = [(2, 8)], deferredCloseSessionMap = [(1, 7)], nextSession = 3\<rparr>)))
       = [2 \<mapsto> 8, 3 \<mapsto> 9]"
proof -
  let ?r1 = "\<lparr>sessionMap = [(1, 7)], deferredCloseSessionMap = [], nextSession = 2\<rparr>"
  let ?r2 = "\<lparr>sessionMap = [(2, 8), (1, 7)], deferredCloseSessionMap = [], nextSession = 3\<rparr>"
  let ?r3 = "\<lparr>sessionMap = [(2, 8)], deferredCloseSessionMap = [(1, 7)], nextSession = 3\<rparr>"
  let ?p = "\<lparr>pr_registry = ?r3, pr_heap = Map.empty, pr_world = undefined, pr_errors = last_errors_init, pr_calls = []\<rparr>
    :: unit process"
  have "registry_step ([], registry_new) ([1], ?r1)"
    by (rule registry_step.register [where a = 7]) (simp_all add: registry_add_def registry_new_def map_put_def)
  moreover have "registry_step ([1], ?r1) ([2, 1], ?r2)"
    by (rule registry_step.register [where a = 8]) (simp_all add: registry_add_def map_put_def)
  moreover have "registry_step ([2, 1], ?r2) ([2, 1], ?r3)"
    using registry_step.close_deferred [of ?r2 1 7 "[2, 1]"]
    by (simp add: registry_defer_def registry_remove_def map_put_def map_erase_def)
  ultimately have "registry_step\<^sup>*\<^sup>* ([], registry_new) ([2, 1], ?r3)"
    by (meson converse_rtranclp_into_rtranclp rtranclp.rtrancl_refl)
  from handles_identify_sessions [OF this, of ?p 9 3 "snd (registry_add 9 ?r3)"]
  show ?thesis by (simp add: registry_add_def)
qed

end
