(* ===== verification/ApiLemmas.thy ===== *)
theory ApiLemmas
  imports RegistryTheorems
begin

text \<open>
  The invariant of the process under calls of the API: handles name live objects, different handles
  name different objects.  Most calls change neither the registry nor which objects exist
  (\<open>stable\<close>); creating, accepting, closing and releasing change both in step.
\<close>

section \<open>The invariant\<close>

definition registered :: "'v process \<Rightarrow> (u64 \<times> nat) list" where
  "registered p = sessionMap (pr_registry p) @ deferredCloseSessionMap (pr_registry p)"

text \<open>Two maps from handles to objects, and the objects that live.\<close>

definition maps_ok :: "(u64 \<times> nat) list \<Rightarrow> (u64 \<times> nat) list \<Rightarrow> nat set \<Rightarrow> bool" where
  "maps_ok m n live \<longleftrightarrow> distinct_keys m \<and> distinct_keys n \<and> distinct (map snd m) \<and> distinct (map snd n)
     \<and> snd ` set m \<inter> snd ` set n = {} \<and> snd ` set m \<subseteq> live \<and> snd ` set n \<subseteq> live"

definition process_ok :: "'v process \<Rightarrow> bool" where
  "process_ok p \<longleftrightarrow> maps_ok (sessionMap (pr_registry p)) (deferredCloseSessionMap (pr_registry p)) (dom (pr_heap p))"

definition stable :: "'v process \<Rightarrow> 'v process \<Rightarrow> bool" where
  "stable p p' \<longleftrightarrow> pr_registry p' = pr_registry p \<and> dom (pr_heap p') = dom (pr_heap p)"

text \<open>
  What a call relies on of the threads that run while it waits.  They keep the invariant and the
  object waited for.  While a call waits for access it holds the lock of the open sessions, so those
  stay as they are and the deferred ones can only disappear, and the memory that the call is going to
  get from the allocator is not in use; while it waits for the other references
  to go, the object it is about to destroy cannot be registered again.
\<close>

definition env_ok :: "'v env \<Rightarrow> bool" where
  "env_ok E \<longleftrightarrow>
     (\<forall>a p. process_ok p \<longrightarrow> a \<in> dom (pr_heap p) \<longrightarrow>
        process_ok (env_gain E a p) \<and> a \<in> dom (pr_heap (env_gain E a p))
        \<and> (env_address E \<notin> dom (pr_heap p) \<longrightarrow> env_address E \<notin> dom (pr_heap (env_gain E a p)))
        \<and> sessionMap (pr_registry (env_gain E a p)) = sessionMap (pr_registry p)
        \<and> map_of (deferredCloseSessionMap (pr_registry (env_gain E a p)))
            \<subseteq>\<^sub>m map_of (deferredCloseSessionMap (pr_registry p)))
   \<and> (\<forall>a p. process_ok p \<longrightarrow> a \<notin> snd ` set (registered p) \<longrightarrow>
        process_ok (env_refs_gone E a p) \<and> a \<notin> snd ` set (registered (env_refs_gone E a p)))"

lemma maps_ok_sym: "maps_ok m n live = maps_ok n m live"
  by (auto simp: maps_ok_def)

lemma distinct_snd_erase: "distinct (map snd m) \<Longrightarrow> distinct (map snd (map_erase k m))"
  by (auto simp: map_erase_def distinct_map intro: inj_on_subset)

lemma snd_erase_subset: "snd ` set (map_erase k m) \<subseteq> snd ` set m"
  by (auto simp: set_map_erase)

lemma maps_ok_erase:
  assumes "maps_ok m n live"
  shows "maps_ok (map_erase k m) n live"
proof -
  have sub: "X \<inter> Z = {} \<and> X \<subseteq> L" if "X \<subseteq> Y" "Y \<inter> Z = {}" "Y \<subseteq> L" for X Y Z L :: "nat set"
    using that by blast
  from assms show ?thesis
    using sub [OF snd_erase_subset [of k m], of "snd ` set n" live] distinct_snd_erase [of m k] handles.valid_erase [of m k]
    by (simp add: maps_ok_def)
qed

lemma maps_ok_put:
  assumes "maps_ok m n live" and "a \<in> live" and "a \<notin> snd ` set m" and "a \<notin> snd ` set n"
  shows "maps_ok (map_put k a m) n live"
  using maps_ok_erase [OF assms(1), of k] handles.valid_put [of m k a] assms snd_erase_subset [of k m]
  unfolding maps_ok_def map_put_erase by auto

lemma maps_ok_erased:
  assumes "maps_ok m n live" and "map_of m k = Some a"
  shows "a \<notin> snd ` set (map_erase k m) \<union> snd ` set n"
proof -
  have ka: "(k, a) \<in> set m" using assms(2) by (rule map_of_SomeD)
  have inj: "inj_on snd (set m)" and disj: "snd ` set m \<inter> snd ` set n = {}"
    using assms(1) by (simp_all add: maps_ok_def distinct_map)
  have "a \<notin> snd ` set (map_erase k m)"
  proof
    assume "a \<in> snd ` set (map_erase k m)"
    then obtain k' where "(k', a) \<in> set m" "k' \<noteq> k" by (auto simp: set_map_erase)
    with inj_onD [OF inj _ ka, of "(k', a)"] show False by simp
  qed
  moreover have "a \<notin> snd ` set n" using ka disj by force
  ultimately show ?thesis by simp
qed

lemma maps_ok_less_live: "maps_ok m n live \<Longrightarrow> a \<notin> snd ` set m \<union> snd ` set n \<Longrightarrow> maps_ok m n (live - {a})"
  unfolding maps_ok_def by blast

lemma maps_ok_more_live: "maps_ok m n live \<Longrightarrow> live \<subseteq> live' \<Longrightarrow> maps_ok m n live'"
  unfolding maps_ok_def by blast

named_theorems stable_intros

lemma snd_bind_out_value [simp]: "snd (bind_out x (\<lambda>a s. (Inr (f a), s))) = snd x"
  by (auto simp: bind_out_def split: prod.splits sum.splits)

lemma stable_refl [simp, stable_intros]: "stable p p"
  by (simp add: stable_def)

lemma stable_trans: "stable p q \<Longrightarrow> stable q r \<Longrightarrow> stable p r"
  by (simp add: stable_def)

lemma process_ok_stable: "process_ok p \<Longrightarrow> stable p p' \<Longrightarrow> process_ok p'"
  by (simp add: process_ok_def registered_def stable_def)

lemma stable_fields [stable_intros]:
  "stable p (p\<lparr>pr_world := w\<rparr>)" "stable p (p\<lparr>pr_calls := c\<rparr>)" "stable p (p\<lparr>pr_errors := e\<rparr>)"
  by (simp_all add: stable_def)

lemma at_object_stable [stable_intros]: "stable p (snd (at_object a f p))"
  by (auto simp: at_object_def stable_def domIff split: option.splits prod.splits)

lemma set_manager_stable [stable_intros]: "stable p (set_manager a m p)"
  by (auto simp: set_manager_def stable_def domIff split: if_splits)

lemma ref_release_stable [stable_intros]: "stable p (snd (ref_release E a p))"
  by (auto simp: ref_release_def set_manager_stable split: option.splits sum.splits)

lemma dtor_stable [stable_intros]: "stable p (snd (tAccessManagedRef_dtor E ref p))"
  by (auto simp: tAccessManagedRef_dtor_def ref_release_stable split: option.splits)

lemma cancel_session_stable [stable_intros]: "stable p (snd (cancel_session a p))"
  using at_object_stable [of p a Object_Cancel]
  by (cases "at_object a Object_Cancel p") (auto simp: cancel_session_def bind_out_def split: sum.splits intro: stable_trans stable_fields)

lemma release_on_exit_stable: "stable (snd (snd res)) (snd (release_on_exit E res))"
proof -
  obtain r ref p where res: "res = (r, (ref, p))" by (cases res) auto
  show ?thesis
    using dtor_stable [of p E ref]
    by (auto simp: res release_on_exit_def split: sum.splits exn.splits prod.splits)
qed

lemma UpdateLastError_stable [stable_intros]: "stable p (UpdateLastError tid status p)"
  by (simp add: UpdateLastError_def stable_def)

lemma api_call_stable: "stable (snd (body p)) (snd (api_call E line body p))"
  using UpdateLastError_stable
  by (auto simp: api_call_def Let_def split: prod.splits sum.splits exn.splits)

lemma api_call_ok: "process_ok (snd (body p)) \<Longrightarrow> process_ok (snd (api_call E line body p))"
  using process_ok_stable api_call_stable by blast

section \<open>Acquiring\<close>

text \<open>
  The state after an acquisition: the invariant, the object still there, the open sessions as they
  were, and no new deferred session.
\<close>

definition after_wait :: "'v env \<Rightarrow> nat \<Rightarrow> 'v process \<Rightarrow> 'v process \<Rightarrow> bool" where
  "after_wait E a p p' \<longleftrightarrow> process_ok p' \<and> (a \<in> dom (pr_heap p) \<longrightarrow> a \<in> dom (pr_heap p'))
     \<and> (env_address E \<notin> dom (pr_heap p) \<longrightarrow> env_address E \<notin> dom (pr_heap p'))
     \<and> sessionMap (pr_registry p') = sessionMap (pr_registry p)
     \<and> map_of (deferredCloseSessionMap (pr_registry p')) \<subseteq>\<^sub>m map_of (deferredCloseSessionMap (pr_registry p))"

lemma after_wait_stable: "process_ok p \<Longrightarrow> stable p p' \<Longrightarrow> after_wait E a p p'"
  by (simp add: after_wait_def process_ok_stable stable_def)

lemma after_wait_trans: "after_wait E a p q \<Longrightarrow> after_wait E a q r \<Longrightarrow> after_wait E a p r"
  by (auto simp: after_wait_def intro: map_le_trans)

lemma after_wait_gain: "env_ok E \<Longrightarrow> process_ok p \<Longrightarrow> a \<in> dom (pr_heap p) \<Longrightarrow> after_wait E a p (env_gain E a p)"
  by (simp add: env_ok_def after_wait_def)

lemma ref_acquire_waits:
  assumes "env_ok E" and "process_ok p"
  shows "after_wait E a p (snd (ref_acquire E a exclusive p))"
proof (cases "pr_heap p a")
  case None
  with assms(2) show ?thesis by (simp add: ref_acquire_def after_wait_stable)
next
  case (Some ob)
  then have "a \<in> dom (pr_heap p)" by auto
  then have managed: "process_ok (set_manager a m p)" "a \<in> dom (pr_heap (set_manager a m p))" for m
    using process_ok_stable [OF assms(2) set_manager_stable, of a m] set_manager_stable [of p a m]
    by (auto simp: stable_def)
  have "after_wait E a p (set_manager a m p)" "after_wait E a p (env_gain E a (set_manager a m p))" for m
    using after_wait_stable [OF assms(2) set_manager_stable] after_wait_gain [OF assms(1) managed] after_wait_trans
    by blast+
  then show ?thesis
    using after_wait_stable [OF assms(2) stable_refl]
    by (auto simp: Some ref_acquire_def split: sum.splits)
qed

lemma ref_new_waits:
  assumes "env_ok E" and "process_ok p"
  shows "after_wait E a p (snd (tAccessManagedRef_new E a access pending p))"
  using ref_acquire_waits [OF assms]
  by (simp add: tAccessManagedRef_new_def)

lemma ref_new_result:
  "tAccessManagedRef_new E a access pending p = (Inr ref, p') \<Longrightarrow>
     ref_resource ref = Some a \<and> ref_destructionPending ref = pending"
  by (auto simp: tAccessManagedRef_new_def bind_out_def split: prod.splits sum.splits)

lemma ref_copy_waits:
  assumes "env_ok E" and "process_ok p" and "ref_resource other = Some a"
  shows "after_wait E a p (snd (tAccessManagedRef_copy E other p))"
  using ref_acquire_waits [OF assms(1,2)] assms(3) by (simp add: tAccessManagedRef_copy_def)

lemma GetSession_waits:
  assumes "env_ok E" and "process_ok p" and "GetSession E h access c p = (r, p')"
  shows "process_ok p'"
    and "r = Inr ref \<Longrightarrow> \<exists>a. ref_resource ref = Some a \<and> after_wait E a p p'
      \<and> (if ref_destructionPending ref
         then map_of (sessionMap (pr_registry p)) h = None \<and> map_of (deferredCloseSessionMap (pr_registry p)) h = Some a
         else map_of (sessionMap (pr_registry p)) h = Some a)"
proof -
  have waits: "after_wait E a p q" if "tAccessManagedRef_new E a access pending p = (r, q)" for a pending q
    using ref_new_waits [OF assms(1,2), of a access pending] that by simp
  show "process_ok p'"
    using assms(2,3) waits by (auto simp: GetSession_def after_wait_def split: option.splits if_splits)
  assume "r = Inr ref"
  with assms(3) waits show "\<exists>a. ref_resource ref = Some a \<and> after_wait E a p p'
      \<and> (if ref_destructionPending ref
         then map_of (sessionMap (pr_registry p)) h = None \<and> map_of (deferredCloseSessionMap (pr_registry p)) h = Some a
         else map_of (sessionMap (pr_registry p)) h = Some a)"
    by (auto simp: GetSession_def split: option.splits if_splits dest: ref_new_result)
qed

text \<open>A call that holds a session and keeps registry and objects keeps the invariant.\<close>

lemma with_session_ok:
  assumes "env_ok E" and "process_ok p"
    and body: "\<And>ref q. process_ok q \<Longrightarrow> GetSession E h kAccess_Exclusive c p = (Inr ref, q) \<Longrightarrow>
      process_ok (snd (snd (body (ref, q))))"
  shows "process_ok (snd (with_session E h c body p))"
proof (cases "GetSession E h kAccess_Exclusive c p")
  case (Pair r q)
  note got = GetSession_waits(1) [OF assms(1,2) Pair]
  show ?thesis
  proof (cases r)
    case (Inr ref)
    with Pair body got have "process_ok (snd (snd (body (ref, q))))" by blast
    from process_ok_stable [OF this release_on_exit_stable] show ?thesis
      using Pair Inr by (simp add: with_session_def bind_out_def)
  qed (use Pair got in \<open>simp add: with_session_def bind_out_def\<close>)
qed

lemma on_session_stable [stable_intros]: "stable (snd \<rho>) (snd (snd (on_session f \<rho>)))"
proof -
  obtain ref p where \<rho>: "\<rho> = (ref, p)" by (cases \<rho>)
  show ?thesis
    using at_object_stable [of p _ f] unfolding \<rho> on_session_def
    by (auto split: option.splits prod.splits) (metis snd_conv)
qed

lemma on_region_stable [stable_intros]: "stable (snd \<rho>) (snd (snd (on_region rg f \<rho>)))"
proof -
  obtain ref p where \<rho>: "\<rho> = (ref, p)" by (cases \<rho>)
  show ?thesis
    unfolding \<rho> on_region_def
    by (auto split: option.splits prod.splits) (metis at_object_stable snd_conv)
qed

text \<open>Sequencing of stable steps.\<close>

lemma bind_out_stable:
  assumes "stable p (snd (snd x))" and "\<And>a \<rho>. x = (Inr a, \<rho>) \<Longrightarrow> stable (snd \<rho>) (snd (snd (f a \<rho>)))"
  shows "stable p (snd (snd (bind_out x f)))"
proof -
  obtain r \<rho> where "x = (r, \<rho>)" by (cases x) blast
  with assms show ?thesis by (cases r) (auto simp: bind_out_def intro: stable_trans)
qed

lemma fill_region_stable [stable_intros]: "stable (snd \<rho>) (snd (snd (fill_region session used i \<rho>)))"
  unfolding fill_region_def
  by (rule bind_out_stable [OF on_session_stable]) (auto split: prod.splits)

lemma queue_region_stable [stable_intros]: "stable (snd \<rho>) (snd (snd (queue_region E rg cb \<rho>)))"
  by (auto simp: queue_region_def on_session_stable split: option.splits)

lemma requeue_or_release_stable [stable_intros]: "stable (snd \<rho>) (snd (snd (requeue_or_release E rg \<rho>)))"
proof -
  obtain r \<rho>' where Pair: "on_region rg (Region_Requeue (env_verbs E) (env_fuel E)) \<rho> = (r, \<rho>')"
    by (cases "on_region rg (Region_Requeue (env_verbs E) (env_fuel E)) \<rho>") blast
  then have step: "stable (snd \<rho>) (snd \<rho>')" using on_region_stable by (metis snd_conv)
  from this stable_trans [OF this on_region_stable [of \<rho>' rg Region_Release]] show ?thesis
    using Pair by (auto simp: requeue_or_release_def split: sum.splits exn.splits)
qed

lemma with_session_stable_ok:
  assumes "env_ok E" and "process_ok p" and "\<And>\<rho>. stable (snd \<rho>) (snd (snd (body \<rho>)))"
  shows "process_ok (snd (with_session E h c body p))"
  using with_session_ok [OF assms(1,2)] process_ok_stable assms(3) by (metis snd_conv)

section \<open>Creating\<close>

lemma map_of_distinct_keys: "distinct_keys m \<Longrightarrow> (k, v) \<in> set m \<longleftrightarrow> map_of m k = Some v"
  by (simp add: distinct_keys_def)

lemma new_object_ok: "process_ok p \<Longrightarrow> process_ok (p\<lparr>pr_heap := (pr_heap p)(a \<mapsto> ob)\<rparr>)"
  unfolding process_ok_def by (simp add: maps_ok_more_live subset_insertI)

lemma after_wait_registered:
  assumes "after_wait E a p p'" and "process_ok p"
  shows "snd ` set (registered p') \<subseteq> snd ` set (registered p)"
proof -
  have "set (deferredCloseSessionMap (pr_registry p')) \<subseteq> set (deferredCloseSessionMap (pr_registry p))"
  proof
    fix x assume x: "x \<in> set (deferredCloseSessionMap (pr_registry p'))"
    have "distinct_keys (deferredCloseSessionMap (pr_registry p'))"
      using assms(1) by (simp add: after_wait_def process_ok_def maps_ok_def)
    with x have "map_of (deferredCloseSessionMap (pr_registry p')) (fst x) = Some (snd x)"
      by (simp add: map_of_distinct_keys [symmetric])
    then have "map_of (deferredCloseSessionMap (pr_registry p)) (fst x) = Some (snd x)"
      using assms(1) by (force simp: after_wait_def map_le_def)
    from map_of_SomeD [OF this] show "x \<in> set (deferredCloseSessionMap (pr_registry p))" by simp
  qed
  with assms(1) show ?thesis by (auto simp: registered_def after_wait_def)
qed

lemma RegisterSession_ok:
  assumes "process_ok p" and "a \<in> dom (pr_heap p)" and "a \<notin> snd ` set (registered p)"
  shows "process_ok (snd (RegisterSession a p))"
  using assms maps_ok_put
  by (simp add: process_ok_def registered_def image_Un RegisterSession_def registry_add_def Let_def)

lemma register_object_ok:
  assumes "env_ok E" and "process_ok p" and "env_address E \<notin> dom (pr_heap p)"
  shows "process_ok (snd (register_object E ob p))"
proof -
  let ?a = "env_address E" and ?p = "p\<lparr>pr_heap := (pr_heap p)(env_address E \<mapsto> ob)\<rparr>"
  have ok: "process_ok ?p" using assms(2) by (rule new_object_ok)
  obtain r q where new: "tAccessManagedRef_new E ?a kAccess_Exclusive False ?p = (r, q)" by fastforce
  then have wait: "after_wait E ?a ?p q" using ref_new_waits [OF assms(1) ok] by (metis snd_conv)
  have "?a \<notin> snd ` set (registered ?p)"
    using assms(2,3) unfolding process_ok_def registered_def maps_ok_def by auto
  then have "?a \<notin> snd ` set (registered q)" using after_wait_registered [OF wait ok] by blast
  then have "process_ok (snd (RegisterSession ?a q))"
    using RegisterSession_ok wait by (auto simp: after_wait_def)
  then have "process_ok (snd (release_on_exit E (Inr h, (ref, snd (RegisterSession ?a q)))))" for h ref
    using process_ok_stable release_on_exit_stable by (metis snd_conv)
  then show ?thesis
    using new wait
    by (cases r) (auto simp: register_object_def Let_def bind_out_def after_wait_def split: prod.splits)
qed

section \<open>Closing\<close>

lemma registry_remove_ok:
  assumes "process_ok p" and "map_of (sessionMap (pr_registry p)) h = Some a"
  shows "process_ok (p\<lparr>pr_registry := registry_remove h (pr_registry p)\<rparr>)"
    and "a \<notin> snd ` set (registered (p\<lparr>pr_registry := registry_remove h (pr_registry p)\<rparr>))"
  using maps_ok_erase maps_ok_erased assms unfolding process_ok_def registered_def registry_remove_def
  by (auto simp: image_Un simp del: Un_iff)

lemma registry_undefer_ok:
  assumes "process_ok p" and "map_of (deferredCloseSessionMap (pr_registry p)) h = Some a"
  shows "process_ok (p\<lparr>pr_registry := registry_undefer h (pr_registry p)\<rparr>)"
    and "a \<notin> snd ` set (registered (p\<lparr>pr_registry := registry_undefer h (pr_registry p)\<rparr>))"
proof -
  let ?sm = "sessionMap (pr_registry p)" and ?dm = "deferredCloseSessionMap (pr_registry p)"
  have ok: "maps_ok ?dm ?sm (dom (pr_heap p))"
    using assms(1) unfolding process_ok_def by (subst maps_ok_sym)
  from maps_ok_erase [OF ok, of h] show "process_ok (p\<lparr>pr_registry := registry_undefer h (pr_registry p)\<rparr>)"
    unfolding process_ok_def by (subst maps_ok_sym) (simp add: registry_undefer_def)
  from maps_ok_erased [OF ok assms(2)]
  show "a \<notin> snd ` set (registered (p\<lparr>pr_registry := registry_undefer h (pr_registry p)\<rparr>))"
    by (simp add: registered_def registry_undefer_def image_Un)
qed

lemma registry_defer_ok:
  assumes "process_ok p" and "a \<in> dom (pr_heap p)" and "a \<notin> snd ` set (registered p)"
  shows "process_ok (p\<lparr>pr_registry := registry_defer h a (pr_registry p)\<rparr>)"
  using assms maps_ok_put [of "deferredCloseSessionMap (pr_registry p)" "sessionMap (pr_registry p)" "dom (pr_heap p)" a h]
  by (simp add: process_ok_def registered_def image_Un registry_defer_def
      maps_ok_sym [of "sessionMap (pr_registry p)"])

lemma destroy_object_ok:
  assumes "process_ok p" and "a \<notin> snd ` set (registered p)"
  shows "process_ok (snd (destroy_object E a p))"
  using assms maps_ok_less_live
  by (simp add: destroy_object_def process_ok_def registered_def image_Un split: option.split prod.split sum.split)

lemma ReleaseAndWait_ok:
  assumes "env_ok E" and "process_ok p" and "ref_resource ref = Some a" and "a \<notin> snd ` set (registered p)"
  shows "process_ok (snd (ReleaseAndWaitForAllReferencesGone E ref p))"
proof -
  obtain r q where rel: "ref_release E a p = (r, q)" by fastforce
  then have "stable p q" using ref_release_stable by (metis snd_conv)
  then have ok: "process_ok q" "a \<notin> snd ` set (registered q)"
    using assms(2,4) process_ok_stable by (auto simp: stable_def registered_def)
  define q' where "q' = (case pr_heap q a of None \<Rightarrow> q
     | Some ob \<Rightarrow> (case WaitForAllReferencesToBeReleased [] (object_manager ob) of
                     Some _ \<Rightarrow> q | None \<Rightarrow> env_refs_gone E a q))"
  have "process_ok q'" "a \<notin> snd ` set (registered q')"
    using ok assms(1) by (auto simp: q'_def env_ok_def split: option.splits)
  then have "process_ok (snd (destroy_object E a q'))" by (rule destroy_object_ok)
  then show ?thesis
    using rel ok(1) assms(3)
    by (cases r) (simp_all add: ReleaseAndWaitForAllReferencesGone_def bind_out_def [of "ref_release E a p"] Let_def
        flip: q'_def)
qed

text \<open>Once the reference is held, a close takes the handle away and then defers or destroys.\<close>

lemma DestroySession_held_ok:
  assumes "env_ok E" and "process_ok p" and "a \<in> dom (pr_heap p)"
    and "map_of (sessionMap (pr_registry p)) h = Some a" and "ref_resource ref = Some a"
  shows "process_ok (snd (snd (DestroySession_held E h flags a (ref, p))))"
proof -
  define p1 where "p1 = p\<lparr>pr_registry := registry_remove h (pr_registry p)\<rparr>"
  define deferred where "deferred \<longleftrightarrow>
    flags AND easyrdma_CloseFlags_DeferWhileUserBuffersOutstanding \<noteq> 0
    \<and> \<not> (case pr_heap p1 a of Some ob \<Rightarrow> Object_CheckDeferredDestructionConditionsMet ob | None \<Rightarrow> True)"
  define p2 where "p2 = (if deferred then p1\<lparr>pr_registry := registry_defer h a (pr_registry p1)\<rparr> else p1)"
  obtain r q where cancel: "cancel_session a p2 = (r, q)" by fastforce
  have p1: "process_ok p1" "a \<notin> snd ` set (registered p1)" "a \<in> dom (pr_heap p1)"
    using registry_remove_ok [OF assms(2,4)] assms(3) by (simp_all add: p1_def)
  then have "process_ok p2" unfolding p2_def using registry_defer_ok [OF p1(1,3,2)] by simp
  moreover have "stable p2 q" using cancel_session_stable cancel by (metis snd_conv)
  ultimately have q: "process_ok q" by (rule process_ok_stable)
  have "a \<notin> snd ` set (registered q)" if "\<not> deferred"
    using \<open>stable p2 q\<close> p1(2) that by (simp add: p2_def stable_def registered_def)
  with q have "process_ok (snd (ReleaseAndWaitForAllReferencesGone E ref q))" if "\<not> deferred"
    using ReleaseAndWait_ok [OF assms(1) q assms(5)] that by blast
  moreover have "DestroySession_held E h flags a (ref, p) =
    (case cancel_session a p2 of
       (Inl e, p) \<Rightarrow> (Inl e, (ref, p))
     | (Inr _, p) \<Rightarrow>
         if deferred then (Inr (), (ref, p))
         else (case ReleaseAndWaitForAllReferencesGone E ref p of
                 (Inl e, p) \<Rightarrow> (Inl e, (ref, p))
               | (Inr ref, p) \<Rightarrow> (Inr (), (ref, p))))"
    unfolding DestroySession_held_def Let_def p1_def p2_def deferred_def prod.case ..
  ultimately show ?thesis
    using q by (auto simp: cancel split: sum.split prod.split)
qed

lemma DestroySession_ok:
  assumes "env_ok E" and "process_ok p"
  shows "process_ok (snd (DestroySession E h flags p))"
proof (cases "map_of (sessionMap (pr_registry p)) h")
  case None
  with assms(2) show ?thesis by (simp add: DestroySession_def)
next
  case (Some a)
  then have "a \<in> snd ` set (sessionMap (pr_registry p))" by (force dest: map_of_SomeD)
  then have live: "a \<in> dom (pr_heap p)" using assms(2) unfolding process_ok_def maps_ok_def by blast
  obtain r1 p1 where 1: "tAccessManagedRef_new E a kAccess_Exclusive False p = (r1, p1)" by fastforce
  then have w1: "after_wait E a p p1" using ref_new_waits [OF assms] by (metis snd_conv)
  show ?thesis
  proof (cases r1)
    case (Inl e)
    with w1 1 Some show ?thesis by (simp add: DestroySession_def bind_out_def after_wait_def)
  next
    case (Inr temp)
    with 1 have temp: "ref_resource temp = Some a" using ref_new_result by blast
    obtain r2 p2 where 2: "tAccessManagedRef_assign E ref_null temp p1 = (r2, p2)" by fastforce
    then have copy: "tAccessManagedRef_copy E temp p1 = (r2, p2)"
      by (simp add: tAccessManagedRef_assign_def ref_null_def tAccessManagedRef_dtor_def bind_out_def)
    then have w2: "after_wait E a p p2"
      using ref_copy_waits [OF assms(1) _ temp, of p1] w1 after_wait_trans
      by (metis after_wait_def snd_conv)
    obtain r3 p3 where 3: "tAccessManagedRef_dtor E temp p2 = (r3, p3)" by fastforce
    then have "stable p2 p3" using dtor_stable by (metis snd_conv)
    with w2 have w3: "after_wait E a p p3"
      using after_wait_stable after_wait_trans by (metis after_wait_def)
    have held: "process_ok (snd (snd (DestroySession_held E h flags a (ref, p3))))" if "ref_resource ref = Some a" for ref
      using DestroySession_held_ok [OF assms(1) _ _ _ that] w3 Some live by (simp add: after_wait_def)
    have copied: "ref = temp" if "r2 = Inr ref" for ref
      using copy that temp by (auto simp: tAccessManagedRef_copy_def bind_out_def split: prod.splits sum.splits)
    have "process_ok (snd (release_on_exit E (DestroySession_held E h flags a (temp, p3))))"
      using process_ok_stable [OF held [OF temp] release_on_exit_stable] .
    with w2 w3 copied show ?thesis
      by (cases r2; cases r3) (auto simp: DestroySession_def Some 1 Inr 2 3 bind_out_def after_wait_def)
  qed
qed

lemma CheckDeferred_ok:
  assumes "env_ok E" and "process_ok p" and "ref_resource ref = Some a"
    and "map_of (deferredCloseSessionMap (pr_registry p)) h \<in> {None, Some a}"
  shows "process_ok (snd (snd (CheckDeferredSessionDestructionReady E h (ref, p))))"
proof (cases "map_of (deferredCloseSessionMap (pr_registry p)) h = Some a")
  case True
  note undeferred = registry_undefer_ok [OF assms(2) True]
  have "process_ok (snd (ReleaseAndWaitForAllReferencesGone E ref (p\<lparr>pr_registry := registry_undefer h (pr_registry p)\<rparr>)))"
    using ReleaseAndWait_ok [OF assms(1) undeferred(1) assms(3) undeferred(2)] .
  then show ?thesis
    using assms(2)
    by (auto simp: CheckDeferredSessionDestructionReady_def assms(3) split: sum.split prod.split)
next
  case False
  with assms show ?thesis
    by (auto simp: CheckDeferredSessionDestructionReady_def cpp_assert_def split: sum.split)
qed

end
