(* ===== verification/ApiTheorems.thy ===== *)
theory ApiTheorems
  imports AccessTheorems LinuxTheorems ApiLemmas
begin

text \<open>
  What the C API promises its callers: sessions behind handles, errors, closing and the size
  protocols of its output buffers.
\<close>

section \<open>Runs of the API\<close>

text \<open>
  A step of the process is a call of any API function with any arguments, in any environment that
  keeps its part (\<open>env_ok\<close>) and whose allocator returns unused memory.
\<close>

inductive api_step :: "'v process \<Rightarrow> 'v process \<Rightarrow> bool"
  where
  Enumerate: "env_ok E \<Longrightarrow> api_step p (snd (easyrdma_Enumerate E addresses num family p))"
| CreateConnector: "env_ok E \<Longrightarrow> env_address E \<notin> dom (pr_heap p)
    \<Longrightarrow> api_step p (snd (easyrdma_CreateConnectorSession E addr port hasSession p))"
| CreateListener: "env_ok E \<Longrightarrow> env_address E \<notin> dom (pr_heap p)
    \<Longrightarrow> api_step p (snd (easyrdma_CreateListenerSession E addr port hasSession p))"
| CloseSession: "env_ok E \<Longrightarrow> api_step p (snd (easyrdma_CloseSession E session flags p))"
| AbortSession: "env_ok E \<Longrightarrow> api_step p (snd (easyrdma_AbortSession E session p))"
| Connect: "env_ok E \<Longrightarrow> api_step p (snd (easyrdma_Connect E session dir remote remotePort timeoutMs p))"
| Accept: "env_ok E \<Longrightarrow> env_address E \<notin> dom (pr_heap p)
    \<Longrightarrow> api_step p (snd (easyrdma_Accept E session dir timeoutMs hasConnected p))"
| GetLocal: "env_ok E \<Longrightarrow> api_step p (snd (easyrdma_GetLocalAddress E session str wantPort p))"
| GetRemote: "env_ok E \<Longrightarrow> api_step p (snd (easyrdma_GetRemoteAddress E session str wantPort p))"
| ConfigureInternal: "env_ok E \<Longrightarrow> api_step p (snd (easyrdma_ConfigureBuffers E session sz n p))"
| ConfigureExternal: "env_ok E \<Longrightarrow> api_step p (snd (easyrdma_ConfigureExternalBuffer E session ptr sz n p))"
| AcquireSend: "env_ok E \<Longrightarrow> api_step p (snd (easyrdma_AcquireSendRegion E session timeoutMs hasRegion p))"
| AcquireReceived: "env_ok E \<Longrightarrow> api_step p (snd (easyrdma_AcquireReceivedRegion E session timeoutMs hasRegion p))"
| QueueRegion: "env_ok E \<Longrightarrow> api_step p (snd (easyrdma_QueueBufferRegion E session region callback p))"
| ReleaseReceived: "env_ok E \<Longrightarrow> api_step p (snd (easyrdma_ReleaseReceivedBufferRegion E session region p))"
| ReleaseUser: "env_ok E \<Longrightarrow> api_step p (snd (easyrdma_ReleaseUserBufferRegionToIdle E session region p))"
| QueueExternal: "env_ok E \<Longrightarrow> api_step p (snd (easyrdma_QueueExternalBufferRegion E session ptr sz callback timeoutMs p))"
| LastError: "api_step p (snd (easyrdma_GetLastError tid hasStatus p))"
| LastErrorString: "api_step p (snd (easyrdma_GetLastErrorString tid buffer sz p))"
| PropertyGet: "env_ok E \<Longrightarrow> api_step p (snd (easyrdma_GetProperty E session propertyId val valueSize p))"
| PropertySet: "env_ok E \<Longrightarrow> api_step p (snd (easyrdma_SetProperty E session propertyId bytes p))"
| TestOsError: "env_ok E \<Longrightarrow> api_step p (snd (easyrdma_testsetLastOsError E osErrorCode p))"

definition process_init :: "'v process \<Rightarrow> bool" where
  "process_init p \<longleftrightarrow> pr_registry p = registry_new"

section \<open>Every call keeps the invariant\<close>

lemma api_with_session_ok:
  assumes "env_ok E" and "process_ok p" and "\<And>\<rho>. stable (snd \<rho>) (snd (snd (body \<rho>)))"
  shows "process_ok (snd (api_call E line (with_session E h c body) p))"
  using api_call_ok with_session_stable_ok [OF assms] by blast

lemma Enumerate_ok: "process_ok p \<Longrightarrow> process_ok (snd (easyrdma_Enumerate E addresses num family p))"
  unfolding easyrdma_Enumerate_def
  by (rule api_call_ok) (auto simp: Let_def split: option.split sum.split)

lemma CreateConnector_ok:
  assumes "env_ok E" and "process_ok p" and "env_address E \<notin> dom (pr_heap p)"
  shows "process_ok (snd (easyrdma_CreateConnectorSession E addr port hasSession p))"
proof -
  have "process_ok (p\<lparr>pr_world := w\<rparr>)" for w using assms(2) process_ok_stable stable_fields(1) by blast
  then have "process_ok (snd (register_object E ob (p\<lparr>pr_world := w\<rparr>)))" "process_ok (p\<lparr>pr_world := w\<rparr>)" for ob w
    using register_object_ok [OF assms(1)] assms(3) by simp_all
  then show ?thesis
    unfolding easyrdma_CreateConnectorSession_def using assms(2)
    by (intro api_call_ok) (auto split: sum.split prod.split)
qed

lemma CreateListener_ok:
  assumes "env_ok E" and "process_ok p" and "env_address E \<notin> dom (pr_heap p)"
  shows "process_ok (snd (easyrdma_CreateListenerSession E addr port hasSession p))"
proof -
  have "process_ok (p\<lparr>pr_world := w\<rparr>)" for w using assms(2) process_ok_stable stable_fields(1) by blast
  then have "process_ok (snd (register_object E ob (p\<lparr>pr_world := w\<rparr>)))" "process_ok (p\<lparr>pr_world := w\<rparr>)" for ob w
    using register_object_ok [OF assms(1)] assms(3) by simp_all
  then show ?thesis
    unfolding easyrdma_CreateListenerSession_def using assms(2)
    by (intro api_call_ok) (auto split: sum.split prod.split)
qed

lemma CloseSession_ok:
  assumes "env_ok E" and "process_ok p"
  shows "process_ok (snd (easyrdma_CloseSession E session flags p))"
  unfolding easyrdma_CloseSession_def
  by (rule api_call_ok) (use DestroySession_ok [OF assms] assms(2) in simp)

lemma Connect_ok:
  assumes "env_ok E" and "process_ok p"
  shows "process_ok (snd (easyrdma_Connect E session dir remote remotePort timeoutMs p))"
  unfolding easyrdma_Connect_def
proof (rule api_call_ok, cases remote)
  case (Some addr)
  show "process_ok (snd (case remote of None \<Rightarrow> (Inl (api_throw 130 easyrdma_Error_InvalidArgument), p)
       | Some addr \<Rightarrow> with_session E session CheckDeferred_No (\<lambda>\<rho>.
           case RdmaAddress_parse (env_getaddrinfo E) addr remotePort of Inl e \<Rightarrow> (Inl e, \<rho>)
           | Inr remote \<Rightarrow> on_session (Object_Connect (env_cm E) (env_verbs E) (env_fuel E) (env_tid E)
                (Direction_cast dir) remote timeoutMs) \<rho>) p))"
    unfolding Some option.case
    by (rule with_session_stable_ok [OF assms]) (auto simp: on_session_stable split: sum.split)
qed (simp add: assms)

lemma AbortSession_ok:
  assumes "env_ok E" and "process_ok p"
  shows "process_ok (snd (easyrdma_AbortSession E session p))"
  unfolding easyrdma_AbortSession_def
proof (rule api_with_session_ok [OF assms])
  fix \<rho> :: "session_ref \<times> 'a process"
  show "stable (snd \<rho>) (snd (snd (case \<rho> of (ref, p) \<Rightarrow>
    case ref_resource ref of None \<Rightarrow> (Inl (Crash ''null session''), (ref, p))
    | Some a \<Rightarrow> (case cancel_session a p of (r, p) \<Rightarrow> (r, (ref, p))))))"
    by (auto split: prod.split option.split) (metis cancel_session_stable snd_conv)
qed

lemma Accept_ok:
  assumes "env_ok E" and "process_ok p" and "env_address E \<notin> dom (pr_heap p)"
  shows "process_ok (snd (easyrdma_Accept E session dir timeoutMs hasConnected p))"
proof -
  let ?body = "\<lambda>\<rho>. case FdPoller_new (fst (env_pipe E)) (snd (env_pipe E)) of
           Inl e \<Rightarrow> (Inl e, \<rho>)
         | Inr poller \<Rightarrow>
             bind_out (on_session (Object_Accept (env_verbs E) (env_fuel E) (tAccessManager_new (env_requests E)) poller
                         (env_tid E) (Direction_cast dir) timeoutMs) \<rho>)
               (\<lambda>ob (ref, p). case register_object E ob p of (r, p) \<Rightarrow> (r, (ref, p)))"
  have "process_ok (snd (with_session E session CheckDeferred_No ?body p))"
  proof (rule with_session_ok [OF assms(1,2)])
    fix ref q assume q: "process_ok q" and got: "GetSession E session kAccess_Exclusive CheckDeferred_No p = (Inr ref, q)"
    have fresh: "env_address E \<notin> dom (pr_heap q)"
      using GetSession_waits(2) [OF assms(1,2) got, of ref] assms(3) by (auto simp: after_wait_def)
    have *: "process_ok (snd (snd (bind_out (on_session f (ref, q))
         (\<lambda>ob (ref, p). case register_object E ob p of (r, p) \<Rightarrow> (r, (ref, p))))))" for f
    proof -
      obtain r ref' q' where s: "on_session f (ref, q) = (r, (ref', q'))"
        by (cases "on_session f (ref, q)") auto
      then have st: "stable q q'" using on_session_stable [of "(ref, q)" f] by simp
      then have "process_ok q'" "env_address E \<notin> dom (pr_heap q')"
        using process_ok_stable [OF q] fresh by (auto simp: stable_def)
      then show ?thesis
        using register_object_ok [OF assms(1)] unfolding s
        by (cases r) (simp_all add: bind_out_def case_prod_unfold)
    qed
    then show "process_ok (snd (snd (?body (ref, q))))" using q by (auto split: sum.split)
  qed
  then show ?thesis
    unfolding easyrdma_Accept_def using assms(2) by (intro api_call_ok) simp
qed

lemma AcquireSend_ok:
  assumes "env_ok E" and "process_ok p"
  shows "process_ok (snd (easyrdma_AcquireSendRegion E session timeoutMs hasRegion p))"
  unfolding easyrdma_AcquireSendRegion_def
  by (rule api_call_ok)
    (auto simp: assms(2) intro!: with_session_stable_ok [OF assms] bind_out_stable on_session_stable fill_region_stable)

lemma AcquireReceived_ok:
  assumes "env_ok E" and "process_ok p"
  shows "process_ok (snd (easyrdma_AcquireReceivedRegion E session timeoutMs hasRegion p))"
  unfolding easyrdma_AcquireReceivedRegion_def
  by (rule api_call_ok)
    (auto simp: assms(2) intro!: with_session_stable_ok [OF assms] bind_out_stable on_session_stable fill_region_stable)

lemma QueueRegion_ok:
  assumes "env_ok E" and "process_ok p"
  shows "process_ok (snd (easyrdma_QueueBufferRegion E session region callback p))"
  unfolding easyrdma_QueueBufferRegion_def
  by (rule api_call_ok)
    (auto simp: assms(2) intro!: with_session_stable_ok [OF assms] bind_out_stable on_region_stable queue_region_stable)

lemma QueueExternal_ok:
  assumes "env_ok E" and "process_ok p"
  shows "process_ok (snd (easyrdma_QueueExternalBufferRegion E session ptr sz callback timeoutMs p))"
  unfolding easyrdma_QueueExternalBufferRegion_def
  by (rule api_call_ok) (auto simp: assms(2) intro!: with_session_stable_ok [OF assms] on_session_stable)

lemma ReleaseReceived_ok:
  assumes "env_ok E" and "process_ok p"
  shows "process_ok (snd (easyrdma_ReleaseReceivedBufferRegion E session region p))"
  unfolding easyrdma_ReleaseReceivedBufferRegion_def
  by (rule api_call_ok) (auto simp: assms(2) intro!: with_session_stable_ok [OF assms] requeue_or_release_stable)

lemma ReleaseUser_ok:
  assumes "env_ok E" and "process_ok p"
  shows "process_ok (snd (easyrdma_ReleaseUserBufferRegionToIdle E session region p))"
proof -
  let ?body = "\<lambda>\<rho>. bind_out (on_region (the region) Region_Release \<rho>) (\<lambda>_ \<rho>.
     if ref_destructionPending (fst \<rho>) then CheckDeferredSessionDestructionReady E session \<rho> else (Inr (), \<rho>))"
  have "process_ok (snd (with_session E session CheckDeferred_Yes ?body p))"
  proof (rule with_session_ok [OF assms])
    fix ref q assume q: "process_ok q" and got: "GetSession E session kAccess_Exclusive CheckDeferred_Yes p = (Inr ref, q)"
    obtain r \<rho> where s: "on_region (the region) Region_Release (ref, q) = (r, \<rho>)"
      by (cases "on_region (the region) Region_Release (ref, q)") auto
    then have ref: "fst \<rho> = ref" by (auto simp: on_region_def split: option.splits prod.splits)
    have st: "stable q (snd \<rho>)" using on_region_stable [of "(ref, q)" "the region" Region_Release] s by simp
    then have ok: "process_ok (snd \<rho>)" by (rule process_ok_stable [OF q])
    obtain a where a: "ref_resource ref = Some a"
      and "after_wait E a p q" "ref_destructionPending ref \<longrightarrow> map_of (deferredCloseSessionMap (pr_registry p)) session = Some a"
      using GetSession_waits(2) [OF assms got, of ref] by auto
    then have "ref_destructionPending ref \<longrightarrow> map_of (deferredCloseSessionMap (pr_registry (snd \<rho>))) session \<in> {None, Some a}"
      using st by (auto simp: after_wait_def stable_def map_le_def dom_def)
    with CheckDeferred_ok [OF assms(1) ok a, of session] ref ok show "process_ok (snd (snd (?body (ref, q))))"
      unfolding s by (cases r; cases \<rho>) (auto simp: bind_out_def)
  qed
  then show ?thesis
    unfolding easyrdma_ReleaseUserBufferRegionToIdle_def using assms(2) by (intro api_call_ok) simp
qed

lemma GetProperty_ok:
  assumes "env_ok E" and "process_ok p"
  shows "process_ok (snd (easyrdma_GetProperty E session propertyId val valueSize p))"
proof -
  have *: "process_ok (snd (bind_out x (\<lambda>output p. case CopyToOutput output val sz of
      (Inl e, _) \<Rightarrow> (Inl e, p) | (Inr _, out) \<Rightarrow> (Inr out, p))))" if "process_ok (snd x)" for x sz
    using that by (cases x) (auto simp: bind_out_def split: sum.split prod.split)
  have held: "process_ok (snd (with_session E session CheckDeferred_No
      (on_session (read_session (Object_GetProperty propertyId))) p))"
    by (rule with_session_stable_ok [OF assms on_session_stable])
  show ?thesis
  proof (cases valueSize)
    case None
    with assms(2) show ?thesis
      unfolding easyrdma_GetProperty_def by (intro api_call_ok) simp
  next
    case (Some sz)
    show ?thesis
      unfolding easyrdma_GetProperty_def Some option.case
      by (rule api_call_ok, rule *) (use assms(2) held in simp)
  qed
qed

lemma session_calls_ok:
  assumes "env_ok E" and "process_ok p"
  shows "process_ok (snd (easyrdma_GetLocalAddress E session str wantPort p))"
    and "process_ok (snd (easyrdma_GetRemoteAddress E session str wantPort p))"
    and "process_ok (snd (easyrdma_ConfigureBuffers E session sz n p))"
    and "process_ok (snd (easyrdma_ConfigureExternalBuffer E session ptr sz n p))"
    and "process_ok (snd (easyrdma_SetProperty E session propertyId bytes p))"
  unfolding easyrdma_GetLocalAddress_def easyrdma_GetRemoteAddress_def easyrdma_ConfigureBuffers_def
    easyrdma_ConfigureExternalBuffer_def easyrdma_SetProperty_def
  by (rule api_with_session_ok [OF assms on_session_stable])+

lemma error_calls_ok:
  assumes "process_ok p"
  shows "process_ok (snd (easyrdma_GetLastError tid hasStatus p))"
    and "process_ok (snd (easyrdma_GetLastErrorString tid buffer buf_sz p))"
    and "process_ok (snd (easyrdma_testsetLastOsError E osErrorCode p))"
proof -
  have "process_ok (p\<lparr>pr_errors := e\<rparr>)" for e using process_ok_stable [OF assms stable_fields(3)] .
  then show "process_ok (snd (easyrdma_GetLastError tid hasStatus p))"
    "process_ok (snd (easyrdma_GetLastErrorString tid buffer buf_sz p))"
    using assms
    by (auto simp: easyrdma_GetLastError_def easyrdma_GetLastErrorString_def Let_def split: prod.split option.split)
  show "process_ok (snd (easyrdma_testsetLastOsError E osErrorCode p))"
    unfolding easyrdma_testsetLastOsError_def by (rule api_call_ok) (simp add: assms)
qed

lemmas api_calls_ok = Enumerate_ok CreateConnector_ok CreateListener_ok CloseSession_ok AbortSession_ok Connect_ok
  Accept_ok AcquireSend_ok AcquireReceived_ok QueueRegion_ok QueueExternal_ok ReleaseReceived_ok ReleaseUser_ok
  GetProperty_ok session_calls_ok error_calls_ok

interpretation api: invariant_system process_init api_step process_ok
proof
  show "process_ok p" if "process_init p" for p :: "'a process"
    using that by (simp add: process_init_def process_ok_def maps_ok_def registry_new_def distinct_keys_def)
  show "process_ok p'" if "process_ok p" and "api_step p p'" for p p' :: "'a process"
    using that(2,1) by cases (simp only:, intro api_calls_ok, assumption+)+
qed

section \<open>A process to try things on\<close>

text \<open>Every call of the system succeeds and nobody else runs.\<close>

definition demo_env :: "int env" where
  "demo_env = \<lparr>env_verbs = quiet_verbs, env_cm = quiet_calls\<lparr>cm_bind_addr := \<lambda>_ _ v. ((0, 0), v)\<rparr>,
     env_fuel = 3, env_tid = 7, env_memory = demo_memory, env_requests = (\<lambda>_. demo_memory), env_address = 4,
     env_pipe = (Some (5, 6), 0), env_channel = None, env_getaddrinfo = (\<lambda>_ _. Some [2, 0]),
     env_inet_ntop = (\<lambda>_ _. ''10.0.0.1''), env_net_entries = [], env_getifaddrs = Inl 1,
     env_gain = (\<lambda>_ p. p), env_refs_gone = (\<lambda>_ p. p)\<rparr>"

definition demo_process :: "int process" where
  "demo_process = \<lparr>pr_registry = registry_new, pr_heap = Map.empty, pr_world = quiet_world,
     pr_errors = last_errors_init, pr_calls = []\<rparr>"

text \<open>The process with one listener, and after it is closed.\<close>

definition demo_listening :: "int process" where
  "demo_listening = snd (easyrdma_CreateListenerSession demo_env None 0 True demo_process)"

lemma demo_env_ok: "env_ok demo_env"
  by (simp add: env_ok_def demo_env_def)

lemma demo_init: "process_init demo_process"
  by (simp add: process_init_def demo_process_def)

lemma demo_run: "api_step\<^sup>*\<^sup>* demo_process demo_listening"
  unfolding demo_listening_def
  by (rule r_into_rtranclp, rule api_step.CreateListener [OF demo_env_ok]) (simp add: demo_process_def)

lemma demo_registered: "registered demo_listening = [(1, 4)]"
  by code_simp

section \<open>Properties\<close>

text \<open>
  C5.  Handles never dangle.  In every state that any sequence of API calls reaches, an open or
  deferred handle names a session object that exists, different handles name different objects,
  and looking up a handle gives a reference to an existing object, an error of the access manager
  of that object, or the error for an invalid session.
\<close>

theorem sessions_never_dangle:
  assumes "process_init p0" and "api_step\<^sup>*\<^sup>* p0 p"
  shows "snd ` set (registered p) \<subseteq> dom (pr_heap p) \<and> distinct (map snd (registered p))
    \<and> (\<forall>E h access c. env_ok E \<longrightarrow>
        (case GetSession E h access c p of
           (Inr ref, p') \<Rightarrow> \<exists>a. ref_resource ref = Some a \<and> a \<in> dom (pr_heap p')
         | (Inl e, p') \<Rightarrow> p' = p
             \<and> (e = RDMA_THROW rdma_api_common_h 46 easyrdma_Error_InvalidSession
                 \<or> (\<exists>ob \<in> ran (pr_heap p). \<exists>exclusive.
                      Acquire (env_memory E) (env_tid E) exclusive (object_manager ob) = Inl e))))"
proof -
  have ok: "process_ok p" using api.reachable_inv [OF assms] .
  then have live: "snd ` set (registered p) \<subseteq> dom (pr_heap p)" and dist: "distinct (map snd (registered p))"
    by (auto simp: process_ok_def maps_ok_def registered_def)
  have refs: "\<exists>a. ref_resource ref = Some a \<and> a \<in> dom (pr_heap p')"
    if E: "env_ok E" and got: "GetSession E h access c p = (Inr ref, p')" for E h access c ref p'
  proof -
    obtain a where "ref_resource ref = Some a" "after_wait E a p p'" "a \<in> snd ` set (registered p)"
      using GetSession_waits(2) [OF E ok got refl]
      by (force simp: registered_def split: if_splits dest: map_of_SomeD)
    then show ?thesis using live by (auto simp: after_wait_def)
  qed
  have errs: "p' = p \<and> (e = RDMA_THROW rdma_api_common_h 46 easyrdma_Error_InvalidSession
                 \<or> (\<exists>ob \<in> ran (pr_heap p). \<exists>exclusive.
                      Acquire (env_memory E) (env_tid E) exclusive (object_manager ob) = Inl e))"
    if "GetSession E h access c p = (Inl e, p')" for E h access c e p'
  proof -
    have acq: "p' = p \<and> (\<exists>ob \<in> ran (pr_heap p). \<exists>exclusive.
        Acquire (env_memory E) (env_tid E) exclusive (object_manager ob) = Inl e)"
      if new: "tAccessManagedRef_new E a access pending p = (Inl e, p')" and reg: "(h, a) \<in> set (registered p)" for a pending
    proof -
      obtain ob where ob: "pr_heap p a = Some ob" using live reg by force
      with new show ?thesis
        by (auto simp: tAccessManagedRef_new_def bind_out_def ref_acquire_def intro: ranI
            split: sum.splits prod.splits)
    qed
    from that acq show ?thesis
      by (auto simp: GetSession_def registered_def split: option.splits if_splits dest: map_of_SomeD)
  qed
  show ?thesis using live dist refs errs by (auto split: prod.split sum.split)
qed

theorem sessions_never_dangle_witness:
  "registered demo_listening = [(1, 4)] \<and> 4 \<in> dom (pr_heap demo_listening)"
  using sessions_never_dangle [OF demo_init demo_run] by (simp add: demo_registered)

text \<open>
  C36.  The status of a call.  Whatever the body of an API function does, the code the function
  returns is the one its thread then reads with \<open>easyrdma_GetLastError\<close>; after a success the last
  error is cleared, after a library error it is that error with its subcode, file and line; and the
  last errors of the other threads are as the body left them.
\<close>

theorem api_reports_last_error:
  assumes "api_call E line body p = (Inr (code, out), p')"
  shows "\<exists>info. fst (easyrdma_GetLastError (env_tid E) True p') = (easyrdma_Error_Success, Some info)
    \<and> ei_errorCode info = code
    \<and> (code = 0 \<longrightarrow> ei_errorSubCode info = 0 \<and> ei_filename info = None \<and> ei_fileLineNumber info = 0)
    \<and> (\<forall>e. fst (body p) = Inl (RdmaException e) \<longrightarrow> IsError e \<longrightarrow>
         info = \<lparr>ei_errorCode = errorCode e, ei_errorSubCode = errorSubCode e, ei_filename = filename e,
                 ei_fileLineNumber = fileLineNumber e\<rparr>)
    \<and> (\<forall>t. t \<noteq> env_tid E \<longrightarrow> the_last_error t (pr_errors p') = the_last_error t (pr_errors (snd (body p))))"
proof -
  define status where "status = (case fst (body p) of Inl e \<Rightarrow> API_CATCH_EXCEPTION line e RdmaError_new | Inr _ \<Rightarrow> RdmaError_new)"
  have call: "code = GetCode status" "p' = UpdateLastError (env_tid E) status (snd (body p))"
    using assms
    by (auto simp: api_call_def status_def Let_def split: prod.splits sum.splits exn.splits)
  define last where "last = (if IsError status then status else RdmaError_new)"
  have errors: "the_last_error t (pr_errors p') = (if t = env_tid E then last else the_last_error t (pr_errors (snd (body p))))" for t
    by (simp add: call UpdateLastError_def the_last_error_populate last_def)
  have thrown: "last = e" if "fst (body p) = Inl (RdmaException e)" "IsError e" for e
    using that by (simp add: last_def status_def RdmaError_Assign_def RdmaError_new_def IsError_def)
  have "fst (easyrdma_GetLastError (env_tid E) True p') = (easyrdma_Error_Success,
      Some \<lparr>ei_errorCode = errorCode last, ei_errorSubCode = errorSubCode last, ei_filename = filename last,
            ei_fileLineNumber = fileLineNumber last\<rparr>)"
    by (simp add: easyrdma_GetLastError_def GetLastRdmaError_def Let_def errors RdmaError_Assign_def RdmaError_new_def)
  moreover have "errorCode last = code"
    by (simp add: last_def call(1) GetCode_def IsError_def RdmaError_new_def)
  moreover have "code = 0 \<longrightarrow> last = RdmaError_new" by (simp add: last_def call(1) GetCode_def IsError_def)
  ultimately show ?thesis using thrown errors by (auto simp: RdmaError_new_def)
qed

theorem api_reports_last_error_witness:
  "\<exists>info. fst (easyrdma_GetLastError 7 True (snd (easyrdma_AbortSession demo_env 5 demo_process)))
      = (easyrdma_Error_Success, Some info) \<and> ei_errorCode info = easyrdma_Error_InvalidSession"
proof -
  have "fst (easyrdma_AbortSession demo_env 5 demo_process) = Inr (easyrdma_Error_InvalidSession, None)"
    by code_simp
  then have "easyrdma_AbortSession demo_env 5 demo_process
      = (Inr (easyrdma_Error_InvalidSession, None), snd (easyrdma_AbortSession demo_env 5 demo_process))"
    by (metis prod.collapse)
  from api_reports_last_error [OF this [unfolded easyrdma_AbortSession_def]] show ?thesis
    by (auto simp: easyrdma_AbortSession_def demo_env_def)
qed

section \<open>Unknown handles\<close>






end
