(* ===== verification/ApiBalance.thy ===== *)
theory ApiBalance
  imports ApiTheorems SessionBalance AccessNesting
begin

text \<open>
  The accesses of a calling thread over a whole call of the API.  A reference takes an access to a
  session's manager and its destructor gives it back; here every path of every call, the exceptional
  ones included, is shown to end without an access, provided that the other threads leave the
  caller's accesses alone while it waits.
\<close>

section \<open>The accesses of a thread in a process\<close>

definition managers :: "(nat \<Rightarrow> tAccessManager \<Rightarrow> bool) \<Rightarrow> 'v process \<Rightarrow> bool" where
  "managers Q p \<longleftrightarrow> (\<forall>a ob. pr_heap p a = Some ob \<longrightarrow> Q a (object_manager ob))"

definition accesses :: "nat \<Rightarrow> 'v process \<Rightarrow> (nat \<Rightarrow> bool list) \<Rightarrow> bool" where
  "accesses t p f \<longleftrightarrow> managers (\<lambda>a. mine t False (f a)) p"

abbreviation access_free :: "nat \<Rightarrow> 'v process \<Rightarrow> bool" where
  "access_free t p \<equiv> accesses t p (\<lambda>_. [])"

text \<open>The thread waits for access to the session at an address and has what it has of the others.\<close>

definition awaits :: "nat \<Rightarrow> nat \<Rightarrow> 'v process \<Rightarrow> (nat \<Rightarrow> bool list) \<Rightarrow> bool" where
  "awaits t a p f \<longleftrightarrow> managers (\<lambda>b. settled t (b = a) (f b)) p"

text \<open>What a call relies on of the other threads.\<close>

definition verbs_private :: "nat \<Rightarrow> 'v verbs \<Rightarrow> bool" where
  "verbs_private t vb \<longleftrightarrow> (\<forall>st. verbs_keep vb t (mine t False st) (mine t True st) (queued t st))"

lemma verbs_privateD: "verbs_private t vb \<Longrightarrow> verbs_keep vb t (mine t False st) (mine t True st) (queued t st)"
  by (simp add: verbs_private_def)

definition env_private :: "'v env \<Rightarrow> bool" where
  "env_private E \<longleftrightarrow> env_tid E < max_threads \<and> verbs_private (env_tid E) (env_verbs E)
     \<and> (\<forall>a p f. awaits (env_tid E) a p f \<longrightarrow> accesses (env_tid E) (env_gain E a p) f)
     \<and> (\<forall>a p f. accesses (env_tid E) p f \<longrightarrow> accesses (env_tid E) (env_refs_gone E a p) f)"

lemma env_privateD:
  assumes "env_private E"
  shows "env_tid E < max_threads" and "verbs_private (env_tid E) (env_verbs E)"
    and "awaits (env_tid E) a p f \<Longrightarrow> accesses (env_tid E) (env_gain E a p) f"
    and "accesses (env_tid E) p f \<Longrightarrow> accesses (env_tid E) (env_refs_gone E a p) f"
  using assms unfolding env_private_def by blast+

lemma object_manager_put [simp]: "object_manager (put_manager m ob) = m"
  by (cases ob) simp_all

lemma managers_fields [simp]:
  "managers Q (p\<lparr>pr_registry := reg\<rparr>) = managers Q p" "managers Q (p\<lparr>pr_world := w\<rparr>) = managers Q p"
  "managers Q (p\<lparr>pr_errors := errs\<rparr>) = managers Q p" "managers Q (p\<lparr>pr_calls := cs\<rparr>) = managers Q p"
  by (simp_all add: managers_def)

lemma managers_set: "managers Q p \<Longrightarrow> Q a m \<Longrightarrow> managers Q (set_manager a m p)"
  by (auto simp: managers_def set_manager_def split: if_splits)

lemma managers_gone: "managers Q p \<Longrightarrow> managers Q (p\<lparr>pr_heap := (pr_heap p)(a := None)\<rparr>)"
  by (simp add: managers_def)

lemma managers_object:
  "managers Q p \<Longrightarrow> Q a (object_manager ob) \<Longrightarrow> managers Q (p\<lparr>pr_heap := (pr_heap p)(a := Some ob)\<rparr>)"
  by (simp add: managers_def)

lemma accesses_fields [simp]:
  "accesses t (p\<lparr>pr_registry := reg\<rparr>) f = accesses t p f" "accesses t (p\<lparr>pr_world := w\<rparr>) f = accesses t p f"
  "accesses t (p\<lparr>pr_errors := errs\<rparr>) f = accesses t p f" "accesses t (p\<lparr>pr_calls := cs\<rparr>) f = accesses t p f"
  by (simp_all add: accesses_def)

lemma accesses_object: "accesses t p f \<Longrightarrow> mine t False st (object_manager ob)
   \<Longrightarrow> accesses t (p\<lparr>pr_heap := (pr_heap p)(a := Some ob)\<rparr>) (f(a := st))"
  by (simp add: accesses_def managers_def)

lemma accesses_set: "accesses t p f \<Longrightarrow> mine t False st m \<Longrightarrow> accesses t (set_manager a m p) (f(a := st))"
  by (auto simp: accesses_def managers_def set_manager_def split: if_splits)

lemma awaits_set: "accesses t p f \<Longrightarrow> queued t st m \<Longrightarrow> awaits t a (set_manager a m p) (f(a := st))"
  by (auto simp: accesses_def managers_def awaits_def set_manager_def split: if_splits)

section \<open>Nothing but a crash stops an acquisition or a release\<close>

definition returned :: "exn + 'a \<Rightarrow> bool" where
  "returned r \<longleftrightarrow> (\<forall>e. r = Inl e \<longrightarrow> catchable e)"

lemma returned_simps [simp]: "returned (Inr a)" "returned (Inl e) = catchable e" "\<not> catchable (Crash m)"
  by (simp_all add: returned_def catchable_def)

lemma request_only_crashes:
  "tRequest_Add type r = Inl e \<Longrightarrow> \<not> catchable e" "tRequest_ctor t type r = Inl e \<Longrightarrow> \<not> catchable e"
  "tRequest_RemoveLast r = Inl e \<Longrightarrow> \<not> catchable e" "DecRef m = Inl e \<Longrightarrow> \<not> catchable e"
  by (cases type; auto simp: tRequest_ctor_def tRequest_Add_def tRequest_AddExclusive_def tRequest_RemoveLast_def DecRef_def
      cpp_assert_def bind_res_eq_Inl Let_def split: if_splits)+

lemma Acquire_only_crashes: "Acquire memory t x m = Inl e \<Longrightarrow> \<not> catchable e"
  by (auto simp: Acquire_def Let_def GetExclusiveAccess_def GetSharedAccess_def bind_res_eq_Inl
      split: if_splits option.splits prod.splits dest: request_only_crashes)

lemma Release_only_crashes: "Release t m = Inl e \<Longrightarrow> \<not> catchable e"
  by (auto simp: Release_def Let_def bind_res_eq_Inl split: option.splits prod.splits dest: request_only_crashes)

section \<open>References\<close>

lemma acquire_accesses:
  assumes "env_private E" and "accesses (env_tid E) p f" and "ref_acquire E a x p = (r, p')"
  shows "case r of Inl e \<Rightarrow> p' = p \<and> \<not> catchable e | Inr _ \<Rightarrow> accesses (env_tid E) p' (f(a := x # f a))"
proof (cases "pr_heap p a")
  case None
  with assms(3) show ?thesis by (auto simp: ref_acquire_def)
next
  case (Some ob)
  show ?thesis
  proof (cases "Acquire (env_memory E) (env_tid E) x (object_manager ob)")
    case (Inl e)
    with Some assms(3) show ?thesis by (auto simp: ref_acquire_def Acquire_only_crashes)
  next
    case (Inr q)
    then obtain b m where q: "Acquire (env_memory E) (env_tid E) x (object_manager ob) = Inr (b, m)" by (cases q) simp
    from assms(2) Some have "mine (env_tid E) False (f a) (object_manager ob)" by (simp add: accesses_def managers_def)
    from mine_Acquire [OF this env_privateD(1) [OF assms(1)] q] have "settled (env_tid E) b (x # f a) m" .
    with assms Some q show ?thesis
      by (auto simp: ref_acquire_def accesses_set intro!: env_privateD(3) awaits_set split: if_splits)
  qed
qed

lemma release_accesses:
  assumes "accesses t p f" and "ref_release E a p = (r, p')" and "env_tid E = t"
  shows "case r of Inl e \<Rightarrow> p' = p \<and> \<not> catchable e | Inr _ \<Rightarrow> (\<exists>x st. f a = x # st \<and> accesses t p' (f(a := st)))"
proof (cases "pr_heap p a")
  case None
  with assms(2) show ?thesis by (auto simp: ref_release_def)
next
  case (Some ob)
  show ?thesis
  proof (cases "Release t (object_manager ob)")
    case (Inl e)
    with Some assms(2,3) show ?thesis by (auto simp: ref_release_def Release_only_crashes)
  next
    case (Inr q)
    then obtain x m where q: "Release t (object_manager ob) = Inr (x, m)" by (cases q) simp
    from assms(1) Some have "mine t False (f a) (object_manager ob)" by (simp add: accesses_def managers_def)
    from mine_Release [OF this q] obtain st where "f a = x # st" "mine t False st m" .
    with assms Some q show ?thesis by (auto simp: ref_release_def accesses_set)
  qed
qed

text \<open>
  A call that holds a reference has at most the one access the reference stands for; a reference
  that has let go of its session stands for none.
\<close>

definition holds :: "nat \<Rightarrow> session_ref \<times> 'v process \<Rightarrow> bool" where
  "holds t \<rho> \<longleftrightarrow> (\<exists>f. accesses t (snd \<rho>) f \<and> (\<forall>b. f b \<noteq> [] \<longrightarrow> ref_resource (fst \<rho>) = Some b \<and> length (f b) = 1))"

lemma free_holds: "access_free t p \<Longrightarrow> holds t (ref, p)"
  by (auto simp: holds_def)

lemma holdsI: "accesses t p ((\<lambda>_. [])(a := [x])) \<Longrightarrow> ref_resource ref = Some a \<Longrightarrow> holds t (ref, p)"
  unfolding holds_def by (intro exI [of _ "(\<lambda>_. [])(a := [x])"]) auto

lemma holds_release:
  assumes "holds t (ref, p)" and "ref_resource ref = Some a" and "ref_release E a p = (r, p')" and "env_tid E = t"
  shows "case r of Inl e \<Rightarrow> p' = p \<and> \<not> catchable e | Inr _ \<Rightarrow> access_free t p'"
proof -
  from assms(1,2) obtain f where f: "accesses t p f" "\<forall>b. f b \<noteq> [] \<longrightarrow> a = b \<and> length (f b) = 1"
    by (auto simp: holds_def)
  have "f(a := st) = (\<lambda>_. [])" if "f a = x # st" for x st
    using f(2) spec [OF f(2), of a] that by (auto simp: fun_eq_iff)
  with release_accesses [OF f(1) assms(3,4)] show ?thesis by (auto split: sum.splits)
qed

lemma dtor_free:
  assumes "holds t (ref, p)" and "tAccessManagedRef_dtor E ref p = (r, p')" and "env_tid E = t"
  shows "case r of Inl e \<Rightarrow> p' = p \<and> \<not> catchable e | Inr _ \<Rightarrow> access_free t p'"
proof (cases "ref_resource ref")
  case None
  with assms(1) obtain f where "accesses t p f" "\<forall>b. f b = []" by (auto simp: holds_def)
  then have "access_free t p" by (simp add: fun_eq_iff [symmetric])
  with None assms(2) show ?thesis by (auto simp: tAccessManagedRef_dtor_def)
next
  case (Some a)
  with assms(2) holds_release [OF assms(1) Some _ assms(3)] show ?thesis by (simp add: tAccessManagedRef_dtor_def)
qed

lemma release_on_exit_free:
  assumes "returned (fst res) \<Longrightarrow> holds t (snd res)" and "release_on_exit E res = (r, p')" and "returned r" and "env_tid E = t"
  shows "access_free t p'"
proof -
  obtain r0 ref p where res: "res = (r0, (ref, p))" by (cases res) auto
  have ok: "returned r0" using assms(2,3) by (cases r0) (auto simp: res release_on_exit_def catchable_def split: exn.splits)
  obtain r1 p1 where d: "tAccessManagedRef_dtor E ref p = (r1, p1)" by (cases "tAccessManagedRef_dtor E ref p")
  from dtor_free [OF _ d assms(4)] assms(1) ok res
  have "case r1 of Inl e \<Rightarrow> p1 = p \<and> \<not> catchable e | Inr _ \<Rightarrow> access_free t p1" by simp
  with assms(2,3) ok show ?thesis
    by (auto simp: res release_on_exit_def d catchable_def split: sum.splits exn.splits)
qed

section \<open>Calls through a reference\<close>

lemma object_call_managers:
  assumes "\<And>b. keeps_object (Q b) op" and "managers Q p"
  shows "managers Q (snd (at_object a op p))"
proof (cases "pr_heap p a")
  case None
  with assms(2) show ?thesis by (simp add: at_object_def)
next
  case (Some ob)
  obtain r ob' w where run: "op (ob, pr_world p) = (r, (ob', w))" by (metis prod_cases3)
  from assms(2) Some have "Q a (object_manager ob)" by (simp add: accesses_def managers_def)
  from keepsD [OF assms(1) _ run, of a] this have "Q a (object_manager ob')" by simp
  from managers_object [where Q = Q and a = a, OF assms(2) this] show ?thesis
    by (simp add: at_object_def Some run managers_def)
qed

lemma cancel_managers: "managers Q p \<Longrightarrow> managers Q (snd (cancel_session a p))"
  using object_call_managers [where Q = Q, OF cancel_private, of p a]
  by (cases "at_object a Object_Cancel p") (auto simp: cancel_session_def bind_out_def split: sum.split)

lemma object_call_accesses:
  assumes "\<And>st. keeps_object (mine t False st) op" and "accesses t p f"
  shows "accesses t (snd (at_object a op p)) f"
  using object_call_managers [where Q = "\<lambda>a. mine t False (f a)", OF assms(1)] assms(2) by (simp add: accesses_def)

lemma cancel_accesses: "accesses t p f \<Longrightarrow> accesses t (snd (cancel_session a p)) f"
  by (simp add: accesses_def cancel_managers)

abbreviation keeps_held :: "nat \<Rightarrow> (session_ref \<times> 'v process \<Rightarrow> (exn, 'a, session_ref \<times> 'v process) outcome) \<Rightarrow> bool" where
  "keeps_held t body \<equiv> keeps (holds t) body"

lemma holds_process:
  "(\<And>f. accesses t p f \<Longrightarrow> accesses t p' f) \<Longrightarrow> holds t (ref, p) \<Longrightarrow> holds t (ref, p')"
  unfolding holds_def by auto

lemma on_session_held:
  assumes "\<And>st. keeps_object (mine t False st) op"
  shows "keeps_held t (on_session op)"
proof (rule keepsI)
  fix \<rho> :: "session_ref \<times> 'a process" assume held: "holds t \<rho>"
  obtain ref p where \<rho>: "\<rho> = (ref, p)" by (cases \<rho>)
  from holds_process [OF object_call_accesses [OF assms]] held \<rho>
  show "holds t (snd (on_session op \<rho>))"
    by (auto simp: on_session_def case_prod_unfold split: option.split)
qed

lemma on_region_held:
  assumes "\<And>i st. keeps_object (mine t False st) (op i)"
  shows "keeps_held t (on_region rg op)"
proof (rule keepsI)
  fix \<rho> :: "session_ref \<times> 'a process" assume held: "holds t \<rho>"
  obtain ref p where \<rho>: "\<rho> = (ref, p)" by (cases \<rho>)
  from holds_process [OF object_call_accesses [OF assms]] held \<rho>
  show "holds t (snd (on_region rg op \<rho>))"
    by (auto simp: on_region_def case_prod_unfold split: option.split)
qed

lemma read_private: "keeps_object P (read_session f)"
  by (rule keepsI) (simp add: read_session_def case_prod_unfold)

lemma fill_region_held: "keeps_held t (fill_region session used i)"
  unfolding fill_region_def
  by (intro keeps_bind on_session_held read_private) (auto simp: case_prod_unfold)

lemma queue_region_held:
  assumes "verbs_private t (env_verbs E)"
  shows "keeps_held t (queue_region E rg cb)"
  using on_session_held [OF object_calls_private(5) [OF verbs_privateD [OF assms]]]
  by (auto simp: queue_region_def keeps_def split: option.split)

lemma requeue_or_release_held: "keeps_held t (requeue_or_release E rg)"
proof (rule keepsI)
  fix \<rho> :: "session_ref \<times> 'a process" assume held: "holds t \<rho>"
  obtain r \<rho>1 where run: "on_region rg (Region_Requeue (env_verbs E) (env_fuel E)) \<rho> = (r, \<rho>1)"
    by (cases "on_region rg (Region_Requeue (env_verbs E) (env_fuel E)) \<rho>")
  from keepsD [OF on_region_held [OF region_calls_private(1)] held run] have "holds t \<rho>1" .
  with keeps_snd [OF on_region_held [OF region_calls_private(2)] this] show "holds t (snd (requeue_or_release E rg \<rho>))"
    by (auto simp: requeue_or_release_def run split: sum.split exn.split)
qed

text \<open>Waiting for the other references gives the access up, and the object is gone afterwards.\<close>

lemma destroy_free: "access_free t p \<Longrightarrow> access_free t (snd (destroy_object E a p))"
  by (auto simp: destroy_object_def accesses_def managers_gone split: option.split prod.split sum.split)

lemma ReleaseAndWait_held:
  assumes "env_private E" and "holds (env_tid E) (ref, p)" and "ReleaseAndWaitForAllReferencesGone E ref p = (r, p')"
  shows "holds (env_tid E) (case r of Inl _ \<Rightarrow> ref | Inr ref' \<Rightarrow> ref', p')"
proof (cases "ref_resource ref")
  case None
  with assms(2,3) show ?thesis by (auto simp: ReleaseAndWaitForAllReferencesGone_def)
next
  case (Some a)
  obtain r1 p1 where rel: "ref_release E a p = (r1, p1)" by (cases "ref_release E a p")
  note got = holds_release [OF assms(2) Some rel refl]
  show ?thesis
  proof (cases r1)
    case (Inl e)
    with got assms(2,3) Some rel show ?thesis by (auto simp: ReleaseAndWaitForAllReferencesGone_def)
  next
    case (Inr u)
    with got have free: "access_free (env_tid E) p1" by simp
    let ?p2 = "case pr_heap p1 a of None \<Rightarrow> p1
                 | Some ob \<Rightarrow> (case WaitForAllReferencesToBeReleased [] (object_manager ob) of
                                 Some _ \<Rightarrow> p1 | None \<Rightarrow> env_refs_gone E a p1)"
    have "access_free (env_tid E) ?p2"
      using free env_privateD(4) [OF assms(1)] by (auto split: option.split)
    from destroy_free [OF this, of E a] free_holds have "holds (env_tid E) (ref', snd (destroy_object E a ?p2))" for ref'
      by blast
    with assms(3) Some rel Inr show ?thesis
      by (cases "destroy_object E a ?p2") (auto simp: ReleaseAndWaitForAllReferencesGone_def Let_def bind_out_def split: sum.splits)
  qed
qed

lemma CheckDeferred_held:
  assumes "env_private E"
  shows "keeps_held (env_tid E) (CheckDeferredSessionDestructionReady E h)"
proof (rule keepsI)
  fix \<rho> :: "session_ref \<times> 'a process" assume held: "holds (env_tid E) \<rho>"
  obtain ref p where \<rho>: "\<rho> = (ref, p)" by (cases \<rho>)
  let ?p = "p\<lparr>pr_registry := registry_undefer h (pr_registry p)\<rparr>"
  obtain r p1 where run: "ReleaseAndWaitForAllReferencesGone E ref ?p = (r, p1)"
    by (cases "ReleaseAndWaitForAllReferencesGone E ref ?p")
  have "holds (env_tid E) (ref, ?p)" using held by (auto simp: \<rho> holds_def)
  from ReleaseAndWait_held [OF assms this run] held
  show "holds (env_tid E) (snd (CheckDeferredSessionDestructionReady E h \<rho>))"
    by (auto simp: \<rho> CheckDeferredSessionDestructionReady_def run split: sum.splits option.split)
qed

section \<open>Sessions and calls\<close>

lemma ref_new_accesses:
  assumes "env_private E" and "accesses (env_tid E) p f" and "tAccessManagedRef_new E a access pending p = (r, p')"
  shows "case r of Inl e \<Rightarrow> p' = p \<and> \<not> catchable e
    | Inr ref \<Rightarrow> ref_resource ref = Some a \<and> accesses (env_tid E) p' (f(a := (access = kAccess_Exclusive) # f a))"
  using acquire_accesses [OF assms(1,2)] assms(3)
  by (cases "ref_acquire E a (access = kAccess_Exclusive) p")
    (fastforce simp: tAccessManagedRef_new_def bind_out_def split: sum.splits)

lemma GetSession_held:
  assumes "env_private E" and "access_free (env_tid E) p" and "GetSession E h access c p = (r, p')"
  shows "case r of Inl e \<Rightarrow> p' = p | Inr ref \<Rightarrow> holds (env_tid E) (ref, p')"
  using assms(3) ref_new_accesses [OF assms(1,2)] holdsI
  by (fastforce simp: GetSession_def split: option.splits if_splits sum.splits)

lemma with_session_free:
  assumes "env_private E" and "access_free (env_tid E) p"
    and body: "\<And>\<rho>. holds (env_tid E) \<rho> \<Longrightarrow> returned (fst (body \<rho>)) \<Longrightarrow> holds (env_tid E) (snd (body \<rho>))"
    and "with_session E h c body p = (r, p')" and "returned r"
  shows "access_free (env_tid E) p'"
proof (cases "GetSession E h kAccess_Exclusive c p")
  case (Pair r0 p0)
  note got = GetSession_held [OF assms(1,2) Pair]
  show ?thesis
  proof (cases r0)
    case (Inl e)
    with got assms(2,4) Pair show ?thesis by (simp add: with_session_def bind_out_def)
  next
    case (Inr ref)
    with got have "holds (env_tid E) (ref, p0)" by simp
    from release_on_exit_free [OF body [OF this] _ assms(5) refl] assms(4) Pair Inr show ?thesis
      by (simp add: with_session_def bind_out_def)
  qed
qed

lemma register_accesses:
  assumes "env_private E" and "accesses (env_tid E) p f" and "mine (env_tid E) False [] (object_manager ob)"
    and "register_object E ob p = (r, p')" and "returned r"
  shows "accesses (env_tid E) p' (f(env_address E := []))"
proof -
  let ?a = "env_address E"
  let ?p = "p\<lparr>pr_heap := (pr_heap p)(?a := Some ob)\<rparr>"
  note placed = accesses_object [OF assms(2,3), of ?a]
  obtain r1 p1 where new: "tAccessManagedRef_new E ?a kAccess_Exclusive False ?p = (r1, p1)"
    by (cases "tAccessManagedRef_new E ?a kAccess_Exclusive False ?p")
  note got = ref_new_accesses [OF assms(1) placed new]
  show ?thesis
  proof (cases r1)
    case (Inl e)
    with got placed assms(4) new show ?thesis by (simp add: register_object_def Let_def bind_out_def)
  next
    case (Inr ref)
    with got have ref: "ref_resource ref = Some ?a" and acc: "accesses (env_tid E) p1 (f(?a := [True]))" by auto
    obtain h p2 where reg: "RegisterSession ?a p1 = (h, p2)" by (cases "RegisterSession ?a p1")
    then have acc2: "accesses (env_tid E) p2 (f(?a := [True]))"
      using acc by (auto simp: RegisterSession_def split: prod.splits)
    obtain r3 p3 where rel: "ref_release E ?a p2 = (r3, p3)" by (cases "ref_release E ?a p2")
    from release_accesses [OF acc2 rel refl] assms(4,5) new Inr reg ref show ?thesis
      by (auto simp: register_object_def Let_def bind_out_def release_on_exit_def tAccessManagedRef_dtor_def rel
          split: sum.splits exn.splits)
  qed
qed

lemma DestroySession_held_balance:
  assumes "env_private E" and "holds (env_tid E) (ref, p)"
  shows "holds (env_tid E) (snd (DestroySession_held E h flags a (ref, p)))"
proof -
  have cancel: "holds (env_tid E) (ref, snd (cancel_session a q))" if "pr_heap q = pr_heap p" for q
  proof -
    from assms(2) that have "holds (env_tid E) (ref, q)" by (auto simp: holds_def accesses_def managers_def)
    from holds_process [OF _ this] cancel_accesses show ?thesis by blast
  qed
  have wait: "holds (env_tid E) (snd (case ReleaseAndWaitForAllReferencesGone E ref q of
      (Inl e, p) \<Rightarrow> (Inl e, (ref, p)) | (Inr ref, p) \<Rightarrow> (Inr (), (ref, p))))" if "holds (env_tid E) (ref, q)" for q
    using ReleaseAndWait_held [OF assms(1) that] by (auto split: prod.split sum.split)
  let ?d = "flags AND easyrdma_CloseFlags_DeferWhileUserBuffersOutstanding \<noteq> 0
            \<and> \<not> (case pr_heap p a of Some ob \<Rightarrow> Object_CheckDeferredDestructionConditionsMet ob | None \<Rightarrow> True)"
  let ?p = "p\<lparr>pr_registry := registry_remove h (pr_registry p)\<rparr>"
  obtain q where q: "q = (if ?d then ?p\<lparr>pr_registry := registry_defer h a (pr_registry ?p)\<rparr> else ?p)" by simp
  then have "pr_heap q = pr_heap p" by simp
  obtain r1 p1 where run: "cancel_session a q = (r1, p1)" by (cases "cancel_session a q")
  with cancel [OF \<open>pr_heap q = pr_heap p\<close>] have held: "holds (env_tid E) (ref, p1)" by simp
  have "DestroySession_held E h flags a (ref, p) =
     (case r1 of Inl e \<Rightarrow> (Inl e, (ref, p1))
      | Inr _ \<Rightarrow> if ?d then (Inr (), (ref, p1))
         else (case ReleaseAndWaitForAllReferencesGone E ref p1 of
                 (Inl e, p) \<Rightarrow> (Inl e, (ref, p)) | (Inr ref, p) \<Rightarrow> (Inr (), (ref, p))))"
    using run unfolding q by (cases r1) (simp_all add: DestroySession_held_def Let_def)
  with held wait [OF held] show ?thesis by (simp split: sum.split)
qed

lemma DestroySession_free:
  assumes "env_private E" and "access_free (env_tid E) p" and "DestroySession E h flags p = (r, p')" and "returned r"
  shows "access_free (env_tid E) p'"
proof (cases "map_of (sessionMap (pr_registry p)) h")
  case None
  with assms(2,3) show ?thesis by (simp add: DestroySession_def)
next
  case (Some a)
  obtain r1 p1 where new: "tAccessManagedRef_new E a kAccess_Exclusive False p = (r1, p1)"
    by (cases "tAccessManagedRef_new E a kAccess_Exclusive False p")
  note got = ref_new_accesses [OF assms(1,2) new]
  show ?thesis
  proof (cases r1)
    case (Inl e)
    with got assms(2,3) Some new show ?thesis by (simp add: DestroySession_def bind_out_def)
  next
    case (Inr temporary)
    with got have ref: "ref_resource temporary = Some a" and acc1: "accesses (env_tid E) p1 ((\<lambda>_. [])(a := [True]))" by auto
    let ?x = "ref_exclusive temporary"
    obtain r2 p2 where copy: "ref_acquire E a ?x p1 = (r2, p2)" by (cases "ref_acquire E a ?x p1")
    note copied = acquire_accesses [OF assms(1) acc1 copy]
    show ?thesis
    proof (cases r2)
      case (Inl e)
      with copied assms(3,4) Some new \<open>r1 = Inr temporary\<close> ref copy show ?thesis
        by (auto simp: DestroySession_def bind_out_def tAccessManagedRef_assign_def tAccessManagedRef_dtor_def
            tAccessManagedRef_copy_def ref_null_def)
    next
      case (Inr u)
      with copied have acc2: "accesses (env_tid E) p2 ((\<lambda>_. [])(a := [?x, True]))" by simp
      obtain r3 p3 where drop: "ref_release E a p2 = (r3, p3)" by (cases "ref_release E a p2")
      from release_accesses [OF acc2 drop refl]
      have dropped: "case r3 of Inl e \<Rightarrow> \<not> catchable e | Inr _ \<Rightarrow> holds (env_tid E) (temporary, p3)"
        using holdsI [OF _ ref, of "env_tid E" p3] by (auto split: sum.splits)
      show ?thesis
      proof (cases r3)
        case (Inl e)
        with dropped assms(3,4) Some new \<open>r1 = Inr temporary\<close> \<open>r2 = Inr u\<close> ref copy drop show ?thesis
          by (auto simp: DestroySession_def bind_out_def tAccessManagedRef_assign_def tAccessManagedRef_dtor_def
              tAccessManagedRef_copy_def ref_null_def)
      next
        case (Inr v)
        with dropped have "holds (env_tid E) (temporary, p3)" by simp
        from release_on_exit_free [OF DestroySession_held_balance [OF assms(1) this] _ assms(4) refl]
          assms(3) Some new \<open>r1 = Inr temporary\<close> \<open>r2 = Inr u\<close> Inr ref copy drop show ?thesis
          by (simp add: DestroySession_def bind_out_def tAccessManagedRef_assign_def tAccessManagedRef_dtor_def
              tAccessManagedRef_copy_def ref_null_def)
      qed
    qed
  qed
qed

text \<open>The frame of a call.\<close>

lemma api_call_free:
  assumes "\<And>r q. body p = (r, q) \<Longrightarrow> returned r \<Longrightarrow> access_free t q" and "api_call E line body p = (Inr out, p')"
  shows "access_free t p'"
proof -
  obtain r q where run: "body p = (r, q)" by (cases "body p")
  with assms(2) have "returned r" by (auto simp: api_call_def catchable_def returned_def split: sum.splits exn.splits)
  with assms(1) run have "access_free t q" by blast
  with assms(2) run show ?thesis
    by (auto simp: api_call_def UpdateLastError_def Let_def split: sum.splits exn.splits)
qed

lemma held_call_free:
  assumes "env_private E" and "access_free (env_tid E) p"
    and "\<And>\<rho>. holds (env_tid E) \<rho> \<Longrightarrow> returned (fst (body \<rho>)) \<Longrightarrow> holds (env_tid E) (snd (body \<rho>))"
    and "api_call E line (with_session E h c body) p = (Inr out, p')"
  shows "access_free (env_tid E) p'"
  by (rule api_call_free [OF _ assms(4)]) (rule with_session_free [OF assms(1-3)])

text \<open>The same behind a check of the arguments.\<close>

lemma checked_call_free:
  assumes "env_private E" and "access_free (env_tid E) p"
    and "\<And>\<rho>. \<not> bad \<Longrightarrow> holds (env_tid E) \<rho> \<Longrightarrow> returned (fst (body \<rho>)) \<Longrightarrow> holds (env_tid E) (snd (body \<rho>))"
    and "api_call E line (\<lambda>p. if bad then (Inl e, p) else with_session E h c body p) p = (Inr out, p')"
  shows "access_free (env_tid E) p'"
proof (cases bad)
  case True
  with assms(2,4) show ?thesis by (auto intro: api_call_free)
next
  case False
  with assms(4) have "api_call E line (with_session E h c body) p = (Inr out, p')" by (simp add: api_call_def)
  from held_call_free [OF assms(1,2) assms(3) [OF False] this] show ?thesis .
qed

section \<open>The calls\<close>

text \<open>A call of the API by the thread of the environment that comes back, with a result or a status.\<close>

inductive api_returns :: "'v env \<Rightarrow> 'v process \<Rightarrow> 'v process \<Rightarrow> bool" for E where
  ret_Enumerate: "easyrdma_Enumerate E addresses num family p = (Inr out, p') \<Longrightarrow> api_returns E p p'"
| ret_CreateConnector: "easyrdma_CreateConnectorSession E addr port hasSession p = (Inr out', p') \<Longrightarrow> api_returns E p p'"
| ret_CreateListener: "easyrdma_CreateListenerSession E addr port hasSession p = (Inr out', p') \<Longrightarrow> api_returns E p p'"
| ret_CloseSession: "easyrdma_CloseSession E session flags p = (Inr done, p') \<Longrightarrow> api_returns E p p'"
| ret_AbortSession: "easyrdma_AbortSession E session p = (Inr done, p') \<Longrightarrow> api_returns E p p'"
| ret_Connect: "easyrdma_Connect E session dir remote remotePort timeoutMs p = (Inr done, p') \<Longrightarrow> api_returns E p p'"
| ret_Accept: "easyrdma_Accept E session dir timeoutMs hasConnected p = (Inr out', p') \<Longrightarrow> api_returns E p p'"
| ret_GetLocal: "easyrdma_GetLocalAddress E session str wantPort p = (Inr addr', p') \<Longrightarrow> api_returns E p p'"
| ret_GetRemote: "easyrdma_GetRemoteAddress E session str wantPort p = (Inr addr', p') \<Longrightarrow> api_returns E p p'"
| ret_ConfigureInternal: "easyrdma_ConfigureBuffers E session sz n p = (Inr done, p') \<Longrightarrow> api_returns E p p'"
| ret_ConfigureExternal: "easyrdma_ConfigureExternalBuffer E session ptr sz n p = (Inr done, p') \<Longrightarrow> api_returns E p p'"
| ret_AcquireSend: "easyrdma_AcquireSendRegion E session timeoutMs hasRegion p = (Inr region', p') \<Longrightarrow> api_returns E p p'"
| ret_AcquireReceived: "easyrdma_AcquireReceivedRegion E session timeoutMs hasRegion p = (Inr region', p') \<Longrightarrow> api_returns E p p'"
| ret_QueueRegion: "easyrdma_QueueBufferRegion E session region callback p = (Inr done, p') \<Longrightarrow> api_returns E p p'"
| ret_ReleaseReceived: "easyrdma_ReleaseReceivedBufferRegion E session region p = (Inr done, p') \<Longrightarrow> api_returns E p p'"
| ret_ReleaseUser: "easyrdma_ReleaseUserBufferRegionToIdle E session region p = (Inr done, p') \<Longrightarrow> api_returns E p p'"
| ret_QueueExternal: "easyrdma_QueueExternalBufferRegion E session ptr sz callback timeoutMs p = (Inr done, p') \<Longrightarrow> api_returns E p p'"
| ret_LastError: "easyrdma_GetLastError (env_tid E) hasStatus p = (status, p') \<Longrightarrow> api_returns E p p'"
| ret_LastErrorString: "easyrdma_GetLastErrorString (env_tid E) buffer sz p = (text', p') \<Longrightarrow> api_returns E p p'"
| ret_GetProperty: "easyrdma_GetProperty E session propertyId val valueSize p = (Inr val', p') \<Longrightarrow> api_returns E p p'"
| ret_SetProperty: "easyrdma_SetProperty E session propertyId bytes p = (Inr done, p') \<Longrightarrow> api_returns E p p'"
| ret_TestOsError: "easyrdma_testsetLastOsError E osErrorCode p = (Inr done, p') \<Longrightarrow> api_returns E p p'"

lemma new_session_manager:
  assumes "Q m"
  shows "RdmaConnector_new cm vb ch m poller addr w = (Inr k, (s, c)) \<Longrightarrow> Q (cs_accessManager s)"
    and "RdmaListener_new cm vb ch m addr w = (Inr ln, w') \<Longrightarrow> Q (ln_accessManager ln)"
proof -
  have built: "keeps_mgr Q (connector_setup cm vb ch addr)"
  proof (rule keepsI)
    fix \<sigma> :: "'a linux_state" assume "Q (cs_accessManager (fst \<sigma>))"
    then show "Q (cs_accessManager (fst (snd (connector_setup cm vb ch addr \<sigma>))))"
      by (auto simp: connector_setup_def Let_def bind_out_def on_conn_def split: prod.splits sum.splits)
  qed
  show "Q (cs_accessManager s)" if "RdmaConnector_new cm vb ch m poller addr w = (Inr k, (s, c))"
  proof -
    from that have "connector_setup cm vb ch addr (ConnectedSession_new m, (linux_session_new None poller, w)) = (Inr (), (s, c))"
      by (auto simp: RdmaConnector_new_def split: prod.splits sum.splits if_splits)
    from keepsD [OF built _ this] assms show ?thesis by (simp add: ConnectedSession_new_def)
  qed
  show "Q (ln_accessManager ln)" if "RdmaListener_new cm vb ch m addr w = (Inr ln, w')"
    using that assms by (auto simp: RdmaListener_new_def Let_def split: prod.splits sum.splits)
qed

lemma register_free:
  assumes "env_private E" and "access_free (env_tid E) p" and "mine (env_tid E) False [] (object_manager ob)"
    and "register_object E ob p = (r, p')" and "returned r"
  shows "access_free (env_tid E) p'"
  using register_accesses [OF assms] by (simp add: fun_upd_idem)

lemma create_free:
  assumes "env_private E" and "access_free (env_tid E) p"
  shows "easyrdma_CreateConnectorSession E addr port hasSession p = (Inr out', p') \<Longrightarrow> access_free (env_tid E) p'"
    and "easyrdma_CreateListenerSession E addr port hasSession p = (Inr out', p') \<Longrightarrow> access_free (env_tid E) p'"
proof -
  let ?new = "tAccessManager_new (env_requests E)"
  have new: "mine (env_tid E) False [] ?new" by (rule mine_new)
  have placed: "access_free (env_tid E) q" if "mine (env_tid E) False [] (object_manager ob)"
    and "register_object E ob (p\<lparr>pr_world := w\<rparr>) = (r, q)" and "returned r" for ob w r q
    using that(1) assms(2) by (intro register_free [OF assms(1) _ that]) simp
  have connector: "access_free (env_tid E) q"
    if "RdmaConnector_new cm vb ch ?new poller a w = (Inr k', (s, c))"
      and "register_object E (Connector_session k s l) (p\<lparr>pr_world := w'\<rparr>) = (r, q)" and "returned r"
    for cm vb ch poller a w k' s c k l w' r q
    using new_session_manager(1) [where Q = "mine (env_tid E) False []", OF new that(1)]
    by (intro placed [OF _ that(2,3)]) simp
  have listener: "access_free (env_tid E) q"
    if "RdmaListener_new cm vb ch ?new a w = (Inr ln, w1)"
      and "register_object E (Listener_session ln) (p\<lparr>pr_world := w'\<rparr>) = (r, q)" and "returned r"
    for cm vb ch a w ln w1 w' r q
    using new_session_manager(2) [where Q = "mine (env_tid E) False []", OF new that(1)]
    by (intro placed [OF _ that(2,3)]) simp
  show "access_free (env_tid E) p'" if "easyrdma_CreateConnectorSession E addr port hasSession p = (Inr out', p')"
    using that assms(2) connector unfolding easyrdma_CreateConnectorSession_def
    by (elim api_call_free [rotated]) (auto split: if_splits sum.splits prod.splits)
  show "access_free (env_tid E) p'" if "easyrdma_CreateListenerSession E addr port hasSession p = (Inr out', p')"
    using that assms(2) listener unfolding easyrdma_CreateListenerSession_def
    by (elim api_call_free [rotated]) (auto split: if_splits sum.splits prod.splits)
qed

lemma holds_register:
  assumes "env_private E" and "holds (env_tid E) (ref, p)" and "mine (env_tid E) False [] (object_manager ob)"
    and "register_object E ob p = (r, p')" and "returned r"
  shows "holds (env_tid E) (ref, p')"
proof -
  from assms(2) obtain f where f: "accesses (env_tid E) p f" "\<forall>b. f b \<noteq> [] \<longrightarrow> ref_resource ref = Some b \<and> length (f b) = 1"
    by (auto simp: holds_def)
  from register_accesses [OF assms(1) f(1) assms(3-5)] f(2) show ?thesis
    unfolding holds_def by (intro exI [of _ "f(env_address E := [])"]) simp
qed

lemma accept_free:
  assumes "env_private E" and "access_free (env_tid E) p" and "easyrdma_Accept E session dir timeoutMs hasConnected p = (Inr out', p')"
  shows "access_free (env_tid E) p'"
  using assms(3) unfolding easyrdma_Accept_def
proof (rule checked_call_free [OF assms(1,2), rotated])
  fix \<rho> :: "session_ref \<times> 'a process"
  let ?t = "env_tid E"
  let ?new = "tAccessManager_new (env_requests E)"
  let ?body = "\<lambda>\<rho>. case FdPoller_new (fst (env_pipe E)) (snd (env_pipe E)) of
           Inl e \<Rightarrow> (Inl e, \<rho>)
         | Inr poller \<Rightarrow>
             bind_out (on_session (Object_Accept (env_verbs E) (env_fuel E) ?new poller ?t (Direction_cast dir) timeoutMs) \<rho>)
               (\<lambda>ob (ref, p). case register_object E ob p of (r, p) \<Rightarrow> (r, (ref, p)))"
  assume held: "holds ?t \<rho>" and ret: "returned (fst (?body \<rho>))"
  note vb = env_privateD(2) [OF assms(1)]
  show "holds ?t (snd (?body \<rho>))"
  proof (cases "FdPoller_new (fst (env_pipe E)) (snd (env_pipe E))")
    case (Inl e)
    with held show ?thesis by simp
  next
    case (Inr poller)
    let ?op = "Object_Accept (env_verbs E) (env_fuel E) ?new poller ?t (Direction_cast dir) timeoutMs"
    obtain r1 ref1 p1 where run: "on_session ?op \<rho> = (r1, (ref1, p1))" by (metis prod_cases3)
    from keepsD [OF on_session_held [OF Object_Accept_private [OF verbs_privateD [OF vb]]] held run] have held1: "holds ?t (ref1, p1)" .
    show ?thesis
    proof (cases r1)
      case (Inl e)
      with held1 Inr run show ?thesis by (simp add: bind_out_def)
    next
      case (Inr ob)
      with run obtain q q' where "?op q = (Inr ob, q')"
        by (auto simp: on_session_def at_object_def split: option.splits prod.splits)
      from accepted_object_manager [where Q = "mine ?t False []", OF this mine_new] have "mine ?t False [] (object_manager ob)" .
      from holds_register [OF assms(1) held1 this] ret run Inr \<open>FdPoller_new _ _ = Inr poller\<close> show ?thesis
        by (auto simp: bind_out_def split: prod.splits)
    qed
  qed
qed

lemma kept_call_free:
  assumes "env_private E" and "access_free (env_tid E) p" and "keeps_held (env_tid E) body"
    and "api_call E line (with_session E h c body) p = (Inr out, p')"
  shows "access_free (env_tid E) p'"
  using held_call_free [OF assms(1,2) keeps_snd [OF assms(3)] assms(4)] .

lemma kept_checked_free:
  assumes "env_private E" and "access_free (env_tid E) p" and "keeps_held (env_tid E) body"
    and "api_call E line (\<lambda>p. if bad then (Inl e, p) else with_session E h c body p) p = (Inr out, p')"
  shows "access_free (env_tid E) p'"
  using checked_call_free [OF assms(1,2) keeps_snd [OF assms(3)] assms(4)] .

lemma connect_free:
  assumes "env_private E" and "access_free (env_tid E) p"
    and "easyrdma_Connect E session dir remote remotePort timeoutMs p = (Inr done, p')"
  shows "access_free (env_tid E) p'"
proof (cases remote)
  case None
  with assms(2,3) show ?thesis unfolding easyrdma_Connect_def by (auto elim!: api_call_free [rotated])
next
  case (Some addr)
  let ?body = "\<lambda>\<rho>. case RdmaAddress_parse (env_getaddrinfo E) addr remotePort of
               Inl e \<Rightarrow> (Inl e, \<rho>)
             | Inr remote \<Rightarrow>
                 on_session (Object_Connect (env_cm E) (env_verbs E) (env_fuel E) (env_tid E)
                   (Direction_cast dir) remote timeoutMs) \<rho>"
  have "keeps_held (env_tid E) ?body"
    using on_session_held [OF Object_Connect_private [OF verbs_privateD [OF env_privateD(2) [OF assms(1)]]]]
    by (intro keepsI) (auto simp: keeps_def split: sum.split)
  moreover from assms(3) Some have "api_call E 135 (with_session E session CheckDeferred_No ?body) p = (Inr done, p')"
    by (simp add: easyrdma_Connect_def api_call_def)
  ultimately show ?thesis by (rule kept_call_free [OF assms(1,2)])
qed

lemma abort_free:
  assumes "env_private E" and "access_free (env_tid E) p" and "easyrdma_AbortSession E session p = (Inr done, p')"
  shows "access_free (env_tid E) p'"
proof -
  let ?body = "\<lambda>(ref, p :: 'a process). case ref_resource ref of None \<Rightarrow> (Inl (Crash ''null session''), (ref, p))
       | Some a \<Rightarrow> (case cancel_session a p of (r, p) \<Rightarrow> (r, (ref, p)))"
  have "keeps_held (env_tid E) ?body"
  proof (rule keepsI)
    fix \<rho> :: "session_ref \<times> 'a process" assume held: "holds (env_tid E) \<rho>"
    obtain ref q where \<rho>: "\<rho> = (ref, q)" by (cases \<rho>)
    have "holds (env_tid E) (ref, snd (cancel_session a q))" for a
      using holds_process [OF _ held [unfolded \<rho>]] cancel_accesses by blast
    with held show "holds (env_tid E) (snd (?body \<rho>))"
      by (simp add: \<rho> case_prod_unfold split: option.split)
  qed
  from kept_call_free [OF assms(1,2) this] assms(3) show ?thesis unfolding easyrdma_AbortSession_def by blast
qed

lemma session_calls_free:
  assumes "env_private E" and "access_free (env_tid E) p"
  shows "easyrdma_GetLocalAddress E session str wantPort p = (Inr addr', p') \<Longrightarrow> access_free (env_tid E) p'"
    and "easyrdma_GetRemoteAddress E session str wantPort p = (Inr addr', p') \<Longrightarrow> access_free (env_tid E) p'"
    and "easyrdma_ConfigureBuffers E session sz n p = (Inr done, p') \<Longrightarrow> access_free (env_tid E) p'"
    and "easyrdma_ConfigureExternalBuffer E session ptr sz n p = (Inr done, p') \<Longrightarrow> access_free (env_tid E) p'"
    and "easyrdma_SetProperty E session propertyId bytes p = (Inr done, p') \<Longrightarrow> access_free (env_tid E) p'"
  unfolding easyrdma_GetLocalAddress_def easyrdma_GetRemoteAddress_def easyrdma_ConfigureBuffers_def
    easyrdma_ConfigureExternalBuffer_def easyrdma_SetProperty_def
  by (rule kept_call_free [OF assms on_session_held]; (assumption | rule read_private property_private
        object_calls_private [OF verbs_privateD [OF env_privateD(2) [OF assms(1)]]]))+

lemma region_calls_free:
  assumes "env_private E" and "access_free (env_tid E) p"
  shows "easyrdma_AcquireSendRegion E session timeoutMs hasRegion p = (Inr region', p') \<Longrightarrow> access_free (env_tid E) p'"
    and "easyrdma_AcquireReceivedRegion E session timeoutMs hasRegion p = (Inr region', p') \<Longrightarrow> access_free (env_tid E) p'"
    and "easyrdma_QueueBufferRegion E session region callback p = (Inr done, p') \<Longrightarrow> access_free (env_tid E) p'"
    and "easyrdma_ReleaseReceivedBufferRegion E session region p = (Inr done, p') \<Longrightarrow> access_free (env_tid E) p'"
    and "easyrdma_QueueExternalBufferRegion E session ptr sz callback timeoutMs p = (Inr done, p') \<Longrightarrow> access_free (env_tid E) p'"
proof -
  note vb = env_privateD(2) [OF assms(1)]
  note calls = object_calls_private [OF verbs_privateD [OF vb]]
  note call = kept_checked_free [OF assms]
  note steps = keeps_bind on_session_held fill_region_held on_region_held region_calls_private queue_region_held [OF vb] calls
  show "access_free (env_tid E) p'" if "easyrdma_AcquireSendRegion E session timeoutMs hasRegion p = (Inr region', p')"
    using that unfolding easyrdma_AcquireSendRegion_def by (rule call [rotated]) (intro steps)
  show "access_free (env_tid E) p'" if "easyrdma_AcquireReceivedRegion E session timeoutMs hasRegion p = (Inr region', p')"
    using that unfolding easyrdma_AcquireReceivedRegion_def by (rule call [rotated]) (intro steps)
  show "access_free (env_tid E) p'" if "easyrdma_QueueBufferRegion E session region callback p = (Inr done, p')"
    using that unfolding easyrdma_QueueBufferRegion_def by (rule call [rotated]) (intro steps)
  show "access_free (env_tid E) p'" if "easyrdma_QueueExternalBufferRegion E session ptr sz callback timeoutMs p = (Inr done, p')"
    using that unfolding easyrdma_QueueExternalBufferRegion_def by (rule call [rotated]) (intro steps)
  show "access_free (env_tid E) p'" if "easyrdma_ReleaseReceivedBufferRegion E session region p = (Inr done, p')"
    using that assms(2) with_session_free [OF assms keeps_snd [OF requeue_or_release_held]]
    unfolding easyrdma_ReleaseReceivedBufferRegion_def by (auto elim!: api_call_free [rotated] split: if_splits)
qed

lemma release_user_free:
  assumes "env_private E" and "access_free (env_tid E) p"
    and "easyrdma_ReleaseUserBufferRegionToIdle E session region p = (Inr done, p')"
  shows "access_free (env_tid E) p'"
proof -
  let ?body = "\<lambda>\<rho>. bind_out (on_region (the region) Region_Release \<rho>) (\<lambda>_ \<rho>.
           if ref_destructionPending (fst \<rho>) then CheckDeferredSessionDestructionReady E session \<rho> else (Inr (), \<rho>))"
  have "keeps_held (env_tid E) ?body"
    by (intro keeps_bind keeps_if keeps_const on_region_held region_calls_private CheckDeferred_held assms(1))
  from with_session_free [OF assms(1,2) keeps_snd [OF this]] assms(2,3) show ?thesis
    unfolding easyrdma_ReleaseUserBufferRegionToIdle_def by (auto elim!: api_call_free [rotated] split: if_splits)
qed

lemma get_property_free:
  assumes "env_private E" and "access_free (env_tid E) p"
    and "easyrdma_GetProperty E session propertyId val valueSize p = (Inr val', p')"
  shows "access_free (env_tid E) p'"
proof -
  have "access_free (env_tid E) q"
    if "with_session E session CheckDeferred_No (on_session (read_session (Object_GetProperty propertyId))) p = (r, q)"
      and "returned r" for r q
    using with_session_free [OF assms(1,2) keeps_snd [OF on_session_held [OF read_private]] that] .
  with assms(2,3) show ?thesis unfolding easyrdma_GetProperty_def
    by (elim api_call_free [rotated]) (fastforce simp: bind_out_def split: option.splits if_splits prod.splits sum.splits)
qed

lemma api_returns_free:
  assumes "api_returns E p p'" and "env_private E" and "access_free (env_tid E) p"
  shows "access_free (env_tid E) p'"
  using assms(1)
proof cases
  case (ret_Enumerate addresses num family out)
  then show ?thesis using assms(3) unfolding easyrdma_Enumerate_def
    by (auto elim!: api_call_free [rotated] simp: Let_def split: option.splits sum.splits)
next
  case (ret_CloseSession session flags)
  then show ?thesis using assms(3) DestroySession_free [OF assms(2,3)] unfolding easyrdma_CloseSession_def
    by (auto elim!: api_call_free [rotated] split: if_splits)
next
  case (ret_LastError hasStatus status)
  then show ?thesis using assms(3) by (auto simp: easyrdma_GetLastError_def Let_def split: prod.splits if_splits)
next
  case (ret_LastErrorString buffer sz res)
  then show ?thesis using assms(3)
    by (auto simp: easyrdma_GetLastErrorString_def Let_def split: option.splits prod.splits if_splits)
next
  case (ret_TestOsError osErrorCode)
  then show ?thesis using assms(3) unfolding easyrdma_testsetLastOsError_def by (auto elim!: api_call_free [rotated])
qed (rule create_free [OF assms(2,3)] connect_free [OF assms(2,3)] accept_free [OF assms(2,3)] abort_free [OF assms(2,3)]
    session_calls_free [OF assms(2,3)] region_calls_free [OF assms(2,3)] release_user_free [OF assms(2,3)]
    get_property_free [OF assms(2,3)], assumption)+

section \<open>Runs\<close>

text \<open>
  What happens to a process as one thread sees it: calls of its own that come back, with other
  threads inside their waits, and between them whatever other threads do that leaves its accesses
  alone.
\<close>

inductive thread_step :: "nat \<Rightarrow> 'v process \<Rightarrow> 'v process \<Rightarrow> bool" for t where
  thread_calls: "env_tid E = t \<Longrightarrow> env_private E \<Longrightarrow> api_returns E p p' \<Longrightarrow> thread_step t p p'"
| others_run: "(\<And>f. accesses t p f \<Longrightarrow> accesses t p' f) \<Longrightarrow> thread_step t p p'"

interpretation balance: invariant_system "\<lambda>p. pr_heap p = Map.empty" "thread_step t" "access_free t" for t
proof
  show "access_free t p" if "pr_heap p = Map.empty" for p :: "'a process"
    using that by (simp add: accesses_def managers_def)
  show "access_free t p'" if "access_free t p" and "thread_step t p p'" for p p' :: "'a process"
    using that(2,1) by cases (auto intro: api_returns_free)
qed

section \<open>A thread alone\<close>

text \<open>The manager when all the other threads have gone and the thread has the accesses it waited for.\<close>

definition alone :: "nat \<Rightarrow> tAccessManager \<Rightarrow> tAccessManager" where
  "alone t m = snd (snd (projr (AcquireAll_loop demo_memory t (rev (held m t)) (tAccessManager_new (\<lambda>_. demo_memory)))))"

lemma lone_mine: "lone t st m \<Longrightarrow> mine t False st m"
  by (auto simp: mine_def lone_def held_def intro!: exI [of _ "{}"] split: if_splits)

lemma alone_lone:
  assumes "mgr_inv m B" and "t < max_threads"
  shows "lone t (held m t) (alone t m)"
proof -
  have "length (held m t) \<le> 32"
  proof (cases "held m t = []")
    case False
    with held_iff [OF assms(1), of t "held m t"] have "(t, held m t) \<in> claims m" by simp
    then obtain r where "req_stack r = held m t" "good_request r"
      using assms(1) by (auto simp: claims_def mgr_inv_def acc_inv_def)
    moreover from this(2) have "length (req_stack r) \<le> 32" by (simp add: good_request_def req_count_le)
    ultimately show ?thesis by simp
  qed simp
  with lone_acquire_all [where xs = "rev (held m t)" and memory = demo_memory, OF lone_new [of t "\<lambda>_. demo_memory"] assms(2)]
  show ?thesis by (auto simp: alone_def)
qed

lemma alone_mine:
  assumes "queued t st m" and "t < max_threads"
  shows "mine t False st (alone t m)"
proof -
  from assms(1) obtain B where "mgr_inv m B" "held m t = st" by (auto simp: queued_def access_inv_def)
  with alone_lone [OF _ assms(2)] lone_mine show ?thesis by metis
qed

text \<open>The environment of a thread whose companions leave as soon as it waits.\<close>

definition lonely_env :: "int env" where
  "lonely_env = demo_env\<lparr>env_verbs := (env_verbs demo_env)\<lparr>vb_regain := alone 7\<rparr>,
     env_gain := \<lambda>a p. case pr_heap p a of None \<Rightarrow> p | Some ob \<Rightarrow> set_manager a (alone 7 (object_manager ob)) p\<rparr>"

lemma lonely_private: "env_private lonely_env"
proof -
  have t: "env_tid lonely_env = 7" "(7::nat) < max_threads" by (simp_all add: lonely_env_def demo_env_def max_threads_def)
  have "verbs_private 7 (env_verbs lonely_env)"
    using alone_mine [OF _ t(2)] own.access_phases_axioms
    by (simp add: verbs_private_def verbs_keep_def lonely_env_def demo_env_def quiet_verbs_def)
  moreover have "accesses 7 (env_gain lonely_env a p) f" if "awaits 7 a p f" for a p f
    using that alone_mine [OF _ t(2)]
    by (auto simp: lonely_env_def awaits_def accesses_def managers_def set_manager_def split: option.split if_splits)
      (metis option.distinct(1))
  moreover have "env_refs_gone lonely_env = (\<lambda>_ p. p)" by (simp add: lonely_env_def demo_env_def)
  ultimately show ?thesis by (simp add: env_private_def t)
qed

section \<open>The property\<close>

text \<open>
  C6.  No call of the API keeps an access.  Whatever calls a thread makes, with whatever arguments
  and whether they succeed, are refused or end in an exception half way, and whatever other threads
  do that leaves its accesses alone, after every call that comes back the thread has no access to
  any session: it is in none of the lists of any session's access manager, so it never keeps another
  thread from a session and never stops the session's destructor.
\<close>

theorem calls_keep_no_access:
  assumes "pr_heap p0 = Map.empty" and "(thread_step t)\<^sup>*\<^sup>* p0 p" and "pr_heap p a = Some ob"
  shows "held (object_manager ob) t = []
    \<and> (\<forall>l \<in> {activeRequests (object_manager ob), pendingRequests (object_manager ob), suspendedRequests (object_manager ob)}.
        t \<notin> set (rl_tids l))"
proof -
  from balance.reachable_inv [OF assms(1,2)] assms(3) have "mine t False [] (object_manager ob)"
    by (simp add: accesses_def managers_def)
  with mine_none(2) [OF this] show ?thesis by (auto simp: mine_def)
qed

text \<open>A listener is made, then an accept waits on it and times out.\<close>

definition lonely_listening :: "int process" where
  "lonely_listening = snd (easyrdma_CreateListenerSession lonely_env None 0 True demo_process)"

definition lonely_accepted :: "int process" where
  "lonely_accepted = snd (easyrdma_Accept lonely_env 1 0 100 True lonely_listening)"

lemma lonely_calls:
  "fst (easyrdma_CreateListenerSession lonely_env None 0 True demo_process) = Inr (0, Some 1)"
  "fst (easyrdma_Accept lonely_env 1 0 100 True lonely_listening) = Inr (easyrdma_Error_Timeout, None)"
  by code_simp+

lemma lonely_created: "api_returns lonely_env demo_process lonely_listening"
  by (rule ret_CreateListener) (use lonely_calls(1) in \<open>simp add: lonely_listening_def prod_eq_iff\<close>)

lemma lonely_run: "(thread_step 7)\<^sup>*\<^sup>* demo_process lonely_accepted"
proof -
  have tid: "env_tid lonely_env = 7" by (simp add: lonely_env_def demo_env_def)
  have "api_returns lonely_env lonely_listening lonely_accepted"
    by (rule ret_Accept) (use lonely_calls(2) in \<open>simp add: lonely_accepted_def prod_eq_iff\<close>)
  then show ?thesis using lonely_created thread_calls [OF tid lonely_private] by (meson rtranclp.simps)
qed

lemma lonely_listener: "map_option object_manager (pr_heap lonely_accepted 4) \<noteq> None"
  by code_simp

theorem calls_keep_no_access_witness:
  "\<exists>ob. pr_heap lonely_accepted 4 = Some ob \<and> held (object_manager ob) 7 = []"
proof -
  from lonely_listener obtain ob where "pr_heap lonely_accepted 4 = Some ob" by auto
  with calls_keep_no_access [OF _ lonely_run this] show ?thesis by (simp add: demo_process_def)
qed

end
