(* ===== verification/ApiFrame.thy ===== *)
theory ApiFrame
  imports ApiBalance
begin

text \<open>
  The other side of \<open>ApiBalance\<close>: a call of one thread does not touch the accesses of another.  What
  a call relies on, that other threads leave its accesses alone, is therefore what every call of the
  library guarantees to the other threads.
\<close>

section \<open>A bystander\<close>

text \<open>
  The caller \<open>u\<close> runs, and at every session it finds of thread \<open>t\<close>, which does not wait, a stack of
  accesses and whether it is suspended.
\<close>

type_synonym standing = "nat \<Rightarrow> bool list \<times> bool"

abbreviation resting_view :: "bool list \<times> bool \<Rightarrow> access_view" where
  "resting_view x \<equiv> (fst x, False, snd x)"

definition sees :: "nat \<Rightarrow> nat \<Rightarrow> standing \<Rightarrow> 'v process \<Rightarrow> bool" where
  "sees u t g p \<longleftrightarrow> managers (\<lambda>a. undisturbed u t (resting_view (g a))) p"




lemma sees_fields [simp]:
  "sees u t g (p\<lparr>pr_registry := reg\<rparr>) = sees u t g p" "sees u t g (p\<lparr>pr_world := w\<rparr>) = sees u t g p"
  "sees u t g (p\<lparr>pr_errors := errs\<rparr>) = sees u t g p" "sees u t g (p\<lparr>pr_calls := cs\<rparr>) = sees u t g p"
  by (simp_all add: sees_def)

section \<open>References\<close>












section \<open>Sessions\<close>






section \<open>The calls\<close>














section \<open>What the caller can see\<close>



section \<open>The property\<close>


section \<open>A bystander with a suspended access\<close>
















end
