(* ===== verification/CloseTheorems.thy ===== *)
theory CloseTheorems
  imports ApiTheorems FlowTheorems
begin

text \<open>
  Closing sessions: a close destroys the session or defers it while the user holds buffers, and the
  release of the last such buffer destroys a deferred session.
\<close>

section \<open>Destruction\<close>

definition gone :: "nat \<Rightarrow> 'v process \<Rightarrow> bool" where
  "gone a p \<longleftrightarrow> a \<notin> dom (pr_heap p) \<and> a \<notin> snd ` set (registered p)"

lemma gone_stable: "gone a p \<Longrightarrow> stable p p' \<Longrightarrow> gone a p'"
  by (simp add: gone_def stable_def registered_def)

lemma ReleaseAndWait_gone:
  assumes "env_ok E" and "process_ok p" and "ref_resource ref = Some a" and "a \<notin> snd ` set (registered p)"
    and "ReleaseAndWaitForAllReferencesGone E ref p = (Inr ref', p')"
  shows "gone a p' \<and> ref_resource ref' = None"
proof -
  obtain r q where rel: "ref_release E a p = (r, q)" by fastforce
  then have "stable p q" using ref_release_stable by (metis snd_conv)
  then have ok: "process_ok q" "a \<notin> snd ` set (registered q)"
    using assms(2,4) process_ok_stable by (auto simp: stable_def registered_def)
  define q' where "q' = (case pr_heap q a of None \<Rightarrow> q
     | Some ob \<Rightarrow> (case WaitForAllReferencesToBeReleased [] (object_manager ob) of
                     Some _ \<Rightarrow> q | None \<Rightarrow> env_refs_gone E a q))"
  have "a \<notin> snd ` set (registered q')"
    using ok assms(1) by (auto simp: q'_def env_ok_def split: option.splits)
  moreover have "bind_out (destroy_object E a q') (\<lambda>_ p. (Inr (ref\<lparr>ref_resource := None\<rparr>), p)) = (Inr ref', p')"
    using assms(3,5) rel
    by (cases r) (simp_all add: ReleaseAndWaitForAllReferencesGone_def bind_out_def [of "ref_release E a p"] Let_def flip: q'_def)
  ultimately show ?thesis
    by (auto simp: bind_out_def destroy_object_def gone_def registered_def
        split: option.splits prod.splits sum.splits)
qed

lemma DestroySession_held_result:
  assumes "env_ok E" and "process_ok p" and "a \<in> dom (pr_heap p)"
    and "map_of (sessionMap (pr_registry p)) h = Some a" and "ref_resource ref = Some a"
    and "DestroySession_held E h flags a (ref, p) = (Inr (), (ref', p'))"
  shows "gone a p' \<or>
    flags AND easyrdma_CloseFlags_DeferWhileUserBuffersOutstanding \<noteq> 0
    \<and> sessionMap (pr_registry p') = map_erase h (sessionMap (pr_registry p))
    \<and> map_of (deferredCloseSessionMap (pr_registry p')) h = Some a \<and> a \<in> dom (pr_heap p')"
proof -
  define p1 where "p1 = p\<lparr>pr_registry := registry_remove h (pr_registry p)\<rparr>"
  define deferred where "deferred \<longleftrightarrow>
    flags AND easyrdma_CloseFlags_DeferWhileUserBuffersOutstanding \<noteq> 0
    \<and> \<not> (case pr_heap p1 a of Some ob \<Rightarrow> Object_CheckDeferredDestructionConditionsMet ob | None \<Rightarrow> True)"
  define p2 where "p2 = (if deferred then p1\<lparr>pr_registry := registry_defer h a (pr_registry p1)\<rparr> else p1)"
  obtain r q where cancel: "cancel_session a p2 = (r, q)" by fastforce
  then have st: "stable p2 q" using cancel_session_stable by (metis snd_conv)
  have p1: "process_ok p1" "a \<notin> snd ` set (registered p1)" "a \<in> dom (pr_heap p1)"
    using registry_remove_ok [OF assms(2,4)] assms(3) by (simp_all add: p1_def)
  have run: "(case cancel_session a p2 of
       (Inl e, p) \<Rightarrow> (Inl e, (ref, p))
     | (Inr _, p) \<Rightarrow>
         if deferred then (Inr (), (ref, p))
         else (case ReleaseAndWaitForAllReferencesGone E ref p of
                 (Inl e, p) \<Rightarrow> (Inl e, (ref, p))
               | (Inr ref, p) \<Rightarrow> (Inr (), (ref, p)))) = (Inr (), (ref', p'))"
    using assms(6) unfolding DestroySession_held_def Let_def p1_def p2_def deferred_def prod.case .
  show ?thesis
  proof (cases deferred)
    case True
    with run cancel have "p' = q" by (auto split: sum.splits)
    moreover have "map_of (deferredCloseSessionMap (pr_registry p2)) h = Some a"
      using True p1(1) unfolding process_ok_def maps_ok_def
      by (simp add: p2_def registry_defer_def map_put_erase)
    ultimately show ?thesis
      using True st assms(3)
      by (simp add: p2_def p1_def deferred_def stable_def registry_remove_def registry_defer_def)
  next
    case False
    then have "process_ok q" "a \<notin> snd ` set (registered q)"
      using st p1 process_ok_stable by (auto simp: p2_def stable_def registered_def)
    from ReleaseAndWait_gone [OF assms(1) this(1) assms(5) this(2)] show ?thesis
      using run cancel False by (auto split: sum.splits prod.splits)
  qed
qed

text \<open>
  C18.  A close that succeeds takes the session away from its handle for good: either the object
  is destroyed and no handle names it any more, or, if the caller asked for it, the object lives on
  under its handle in the table of deferred sessions, while the other open sessions stay.
\<close>

theorem close_destroys_or_defers:
  assumes "process_init p0" and "api_step\<^sup>*\<^sup>* p0 p" and "env_ok E"
    and "map_of (sessionMap (pr_registry p)) h = Some a" and "DestroySession E h flags p = (Inr (), p')"
  shows "a \<notin> dom (pr_heap p') \<and> a \<notin> snd ` set (registered p') \<or>
    flags AND easyrdma_CloseFlags_DeferWhileUserBuffersOutstanding \<noteq> 0
    \<and> sessionMap (pr_registry p') = map_erase h (sessionMap (pr_registry p))
    \<and> map_of (deferredCloseSessionMap (pr_registry p')) h = Some a \<and> a \<in> dom (pr_heap p')"
proof -
  have ok: "process_ok p" using api.reachable_inv [OF assms(1,2)] .
  have "a \<in> snd ` set (sessionMap (pr_registry p))" using assms(4) by (force dest: map_of_SomeD)
  then have live: "a \<in> dom (pr_heap p)" using ok unfolding process_ok_def maps_ok_def by blast
  obtain temp p1 ref p2 p3 where
    1: "tAccessManagedRef_new E a kAccess_Exclusive False p = (Inr temp, p1)" and
    2: "tAccessManagedRef_assign E ref_null temp p1 = (Inr ref, p2)" and
    3: "tAccessManagedRef_dtor E temp p2 = (Inr (), p3)" and
    4: "release_on_exit E (DestroySession_held E h flags a (ref, p3)) = (Inr (), p')"
    using assms(4,5) by (auto simp: DestroySession_def bind_out_def split: prod.splits sum.splits)
  have w1: "after_wait E a p p1" using ref_new_waits [OF assms(3) ok] 1 by (metis snd_conv)
  have temp: "ref_resource temp = Some a" using 1 ref_new_result by blast
  have copy: "tAccessManagedRef_copy E temp p1 = (Inr ref, p2)"
    using 2 by (simp add: tAccessManagedRef_assign_def ref_null_def tAccessManagedRef_dtor_def bind_out_def)
  then have ref: "ref_resource ref = Some a"
    using temp by (auto simp: tAccessManagedRef_copy_def bind_out_def split: prod.splits sum.splits)
  have w2: "after_wait E a p p2"
    using ref_copy_waits [OF assms(3) _ temp, of p1] w1 after_wait_trans copy by (metis after_wait_def snd_conv)
  have "stable p2 p3" using dtor_stable 3 by (metis snd_conv)
  with w2 have w3: "process_ok p3" "a \<in> dom (pr_heap p3)" "sessionMap (pr_registry p3) = sessionMap (pr_registry p)"
    using after_wait_stable live by (auto simp: after_wait_def stable_def process_ok_def)
  obtain r ref' q where held: "DestroySession_held E h flags a (ref, p3) = (r, (ref', q))"
    by (cases "DestroySession_held E h flags a (ref, p3)") auto
  have st: "stable q p'" using release_on_exit_stable [of "(r, (ref', q))" E] 4 by (simp add: held)
  have "r = Inr ()"
    using 4 by (auto simp: held release_on_exit_def split: sum.splits exn.splits prod.splits)
  from DestroySession_held_result [OF assms(3) w3(1,2) _ ref held [unfolded this]] w3(3) assms(4)
  show ?thesis
    using st gone_stable [OF _ st] by (auto simp: gone_def stable_def)
qed

theorem close_destroys_or_defers_witness:
  "4 \<notin> dom (pr_heap (snd (DestroySession demo_env 1 0 demo_listening)))"
proof -
  have "map_of (sessionMap (pr_registry demo_listening)) 1 = Some 4" by code_simp
  moreover have "DestroySession demo_env 1 0 demo_listening = (Inr (), snd (DestroySession demo_env 1 0 demo_listening))"
  proof -
    have "fst (DestroySession demo_env 1 0 demo_listening) = Inr ()" by code_simp
    then show ?thesis by (metis prod.collapse)
  qed
  ultimately show ?thesis
    using close_destroys_or_defers [OF demo_init demo_run demo_env_ok] by fastforce
qed

section \<open>Deferred destruction\<close>

lemma Met_put_manager [simp]:
  "Object_CheckDeferredDestructionConditionsMet (put_manager m ob) = Object_CheckDeferredDestructionConditionsMet ob"
  by (cases ob) (simp_all add: CheckDeferredDestructionConditionsMet_def)

text \<open>A session that is still waiting: it exists and the user holds buffers of it.\<close>

definition still_held :: "nat \<Rightarrow> 'v process \<Rightarrow> bool" where
  "still_held a p \<longleftrightarrow> (\<exists>ob. pr_heap p a = Some ob \<and> \<not> Object_CheckDeferredDestructionConditionsMet ob)"

lemma still_held_release: "still_held a p \<Longrightarrow> still_held a (snd (tAccessManagedRef_dtor E ref p))"
  by (auto simp: still_held_def tAccessManagedRef_dtor_def ref_release_def set_manager_def
      split: option.splits sum.splits)

lemma CheckDeferred_result:
  assumes "env_ok E" and "process_ok p" and "ref_resource ref = Some a" and "a \<in> dom (pr_heap p)"
    and "map_of (deferredCloseSessionMap (pr_registry p)) h \<in> {None, Some a}"
    and "CheckDeferredSessionDestructionReady E h (ref, p) = (Inr (), (ref', p'))"
  shows "gone a p' \<or> still_held a p'"
proof -
  obtain ob where ob: "pr_heap p a = Some ob" using assms(4) by blast
  show ?thesis
  proof (cases "Object_CheckDeferredDestructionConditionsMet ob")
    case False
    then have "p' = p"
      using assms(3,6) ob by (auto simp: CheckDeferredSessionDestructionReady_def split: sum.splits)
    with False ob show ?thesis by (simp add: still_held_def)
  next
    case True
    let ?q = "p\<lparr>pr_registry := registry_undefer h (pr_registry p)\<rparr>"
    have found: "map_of (deferredCloseSessionMap (pr_registry p)) h = Some a"
      using assms(3,5,6) ob True
      by (auto simp: CheckDeferredSessionDestructionReady_def cpp_assert_def split: sum.splits if_splits)
    obtain ref'' where "ReleaseAndWaitForAllReferencesGone E ref ?q = (Inr ref'', p')"
      using assms(3,6) ob True
      by (auto simp: CheckDeferredSessionDestructionReady_def split: sum.splits prod.splits)
    then show ?thesis
      using ReleaseAndWait_gone [OF assms(1) registry_undefer_ok(1) [OF assms(2) found] assms(3)
          registry_undefer_ok(2) [OF assms(2) found]] by blast
  qed
qed

text \<open>
  C19.  Deferred sessions are destroyed.  In any state with the invariant of the process, when a user buffer of a session whose destruction is
  deferred is released successfully, then either the session is destroyed and out of both tables, or
  the user still holds buffers of it: no deferred session is left behind without a buffer whose
  release would destroy it.
\<close>

theorem deferred_sessions_are_destroyed:
  assumes "process_ok p" and "env_ok E"
    and "map_of (sessionMap (pr_registry p)) h = None" and "map_of (deferredCloseSessionMap (pr_registry p)) h = Some a"
    and "easyrdma_ReleaseUserBufferRegionToIdle E h region p = (Inr (code, Some ()), p')"
  shows "(a \<notin> dom (pr_heap p') \<and> a \<notin> snd ` set (registered p')) \<or>
    (\<exists>ob. pr_heap p' a = Some ob \<and> \<not> Object_CheckDeferredDestructionConditionsMet ob)"
proof -
  note ok = assms(1)
  have "a \<in> snd ` set (deferredCloseSessionMap (pr_registry p))" using assms(4) by (force dest: map_of_SomeD)
  then have live: "a \<in> dom (pr_heap p)" using ok unfolding process_ok_def maps_ok_def by blast
  let ?body = "\<lambda>\<rho>. bind_out (on_region (the region) Region_Release \<rho>) (\<lambda>_ \<rho>.
     if ref_destructionPending (fst \<rho>) then CheckDeferredSessionDestructionReady E h \<rho> else (Inr (), \<rho>))"
  obtain q where call: "with_session E h CheckDeferred_Yes ?body p = (Inr (), q)"
    and p': "p' = UpdateLastError (env_tid E) RdmaError_new q"
    using assms(5) unfolding easyrdma_ReleaseUserBufferRegionToIdle_def api_call_def
    by (auto simp: Let_def split: if_splits prod.splits sum.splits exn.splits)
  then obtain ref p1 where got: "GetSession E h kAccess_Exclusive CheckDeferred_Yes p = (Inr ref, p1)"
    and exit: "release_on_exit E (?body (ref, p1)) = (Inr (), q)"
    by (auto simp: with_session_def bind_out_def split: prod.splits sum.splits)
  have ref: "ref_resource ref = Some a" "after_wait E a p p1" "ref_destructionPending ref"
    using GetSession_waits(2) [OF assms(2) ok got refl] assms(3,4) by (auto split: if_splits)
  obtain ref' p3 where body: "?body (ref, p1) = (Inr (), (ref', p3))"
    and q: "q = snd (tAccessManagedRef_dtor E ref' p3)"
    using exit by (auto simp: release_on_exit_def split: prod.splits sum.splits exn.splits)
  obtain r \<rho> where region: "on_region (the region) Region_Release (ref, p1) = (r, \<rho>)"
    by (rule that [OF surjective_pairing])
  then have "fst \<rho> = ref" by (auto simp: on_region_def split: option.splits prod.splits)
  then obtain p2 where \<rho>: "\<rho> = (ref, p2)" by (cases \<rho>) auto
  have st: "stable p1 p2" using on_region_stable [of "(ref, p1)" "the region" Region_Release] region \<rho> by simp
  have p2: "process_ok p2" "a \<in> dom (pr_heap p2)" "map_of (deferredCloseSessionMap (pr_registry p2)) h \<in> {None, Some a}"
    using st ref(2) live assms(4) process_ok_stable
    by (auto simp: after_wait_def stable_def map_le_def dom_def)
  have check: "CheckDeferredSessionDestructionReady E h (ref, p2) = (Inr (), (ref', p3))"
    using body ref(3) by (cases r) (auto simp: bind_out_def region \<rho>)
  have "gone a q \<or> still_held a q"
    using CheckDeferred_result [OF assms(2) p2(1) ref(1) p2(2,3) check] gone_stable [OF _ dtor_stable]
      still_held_release q by blast
  then show ?thesis by (simp add: p' gone_def still_held_def UpdateLastError_def registered_def)
qed

text \<open>A receiving session that was closed while the user held its first buffer.\<close>

definition demo_deferred :: "int process" where
  "demo_deferred = demo_process\<lparr>
     pr_registry := \<lparr>sessionMap = [], deferredCloseSessionMap = [(1, 4)], nextSession = 2\<rparr>,
     pr_heap := [4 \<mapsto> Connected_session ((ConnectedSession_new demo0)\<lparr>cs_direction := Receive, transferBuffers := Some demo_r1\<rparr>)
                  (linux_session_new None demo_poller)]\<rparr>"

definition demo_region :: easyrdma_InternalBufferRegion where
  "demo_region = \<lparr>rg_buffer = 4096, rg_bufferSize = 16, rg_usedSize = 16, internalReference1 = 1,
     internalReference2 = Some (4, 0)\<rparr>"

theorem deferred_sessions_are_destroyed_witness:
  "4 \<notin> dom (pr_heap (snd (easyrdma_ReleaseUserBufferRegionToIdle demo_env 1 (Some demo_region) demo_deferred)))"
proof -
  let ?run = "easyrdma_ReleaseUserBufferRegionToIdle demo_env 1 (Some demo_region) demo_deferred"
  have "fst ?run = Inr (0, Some ())" by code_simp
  then have run: "?run = (Inr (0, Some ()), snd ?run)" by (metis prod.collapse)
  have ok: "process_ok demo_deferred"
    by (simp add: demo_deferred_def process_ok_def maps_ok_def distinct_keys_def)
  have "case pr_heap (snd ?run) 4 of None \<Rightarrow> True | Some ob \<Rightarrow> Object_CheckDeferredDestructionConditionsMet ob"
    by code_simp
  moreover have "map_of (sessionMap (pr_registry demo_deferred)) 1 = None"
    "map_of (deferredCloseSessionMap (pr_registry demo_deferred)) 1 = Some 4"
    by (simp_all add: demo_deferred_def)
  ultimately show ?thesis
    using deferred_sessions_are_destroyed [OF ok demo_env_ok _ _ run] by auto
qed

end
