(* ===== verification/OutputTheorems.thy ===== *)
theory OutputTheorems
  imports ApiTheorems
begin

text \<open>The bounds of the buffers that callers give to the API for its results.\<close>

abbreviation nul :: char where "nul \<equiv> char_of (0::nat)"

section \<open>Error texts\<close>

lemma last_error_read:
  "fst (GetLastRdmaError tid RdmaError_new errs) = the_last_error tid errs"
  by (simp add: GetLastRdmaError_def Let_def RdmaError_Assign_def RdmaError_new_def)

lemma length_strncpy: "n \<le> length dst \<Longrightarrow> length (strncpy dst s n) = length dst"
  by (simp add: strncpy_def)

text \<open>
  C39.  The text of the last error stays within the caller's buffer.  A buffer that is more than
  one byte larger than the text gets the whole text and is filled with zero bytes to its size, so
  that the text is terminated; any other buffer is refused and left as it was, although a buffer
  one byte larger than the text has room for the text and its terminator.
\<close>

theorem error_text_fits:
  assumes "length dst = unat sz" and "descr = GetErrorDescription (the_last_error tid (pr_errors p))"
    and "Suc (length descr) < 2 ^ 64"
  shows "fst (easyrdma_GetLastErrorString tid (Some dst) sz p) =
    (if Suc (length descr) < unat sz
     then (easyrdma_Error_Success, Some (descr @ replicate (unat sz - length descr) nul))
     else (easyrdma_Error_InvalidSize, Some dst))
    \<and> (\<forall>out. snd (fst (easyrdma_GetLastErrorString tid (Some dst) sz p)) = Some out \<longrightarrow> length out = unat sz)
    \<and> the_last_error t (pr_errors (snd (easyrdma_GetLastErrorString tid (Some dst) sz p))) = the_last_error t (pr_errors p)"
proof -
  have size: "sz > of_nat (length descr) + 1 \<longleftrightarrow> Suc (length descr) < unat sz"
  proof -
    have "unat (of_nat (Suc (length descr)) :: u64) = Suc (length descr)"
      using assms(3) by (intro of_nat_inverse_word) simp
    then show ?thesis by (simp add: word_less_nat_alt add.commute)
  qed
  obtain status errs where read: "GetLastRdmaError tid RdmaError_new (pr_errors p) = (status, errs)" by fastforce
  then have "GetErrorDescription status = descr"
    using last_error_read [of tid "pr_errors p"] assms(2) by simp
  moreover have "the_last_error t errs = the_last_error t (pr_errors p)"
    using read by (auto simp: GetLastRdmaError_def Let_def)
  ultimately show ?thesis
    using size assms(1) read
    by (simp add: easyrdma_GetLastErrorString_def Let_def strncpy_def)
qed

theorem error_text_fits_witness:
  "fst (easyrdma_GetLastErrorString 7 (Some ''x'') 1 demo_process) = (easyrdma_Error_InvalidSize, Some ''x'')
   \<and> fst (easyrdma_GetLastErrorString 7 (Some ''xx'') 2 demo_process) = (easyrdma_Error_Success, Some (replicate 2 nul))"
proof -
  let ?descr = "GetErrorDescription (the_last_error 7 (pr_errors demo_process))"
  have "?descr = []" by code_simp
  then show ?thesis
    using error_text_fits [of "''x''" 1 ?descr 7 demo_process 7] error_text_fits [of "''xx''" 2 ?descr 7 demo_process 7]
    by simp
qed

section \<open>Addresses\<close>

lemma length_strncpy_address [simp]:
  "length dst = kAddressStringLength \<Longrightarrow> length (strncpy_address dst s) = kAddressStringLength"
  by (simp add: strncpy_address_def Let_def kAddressStringLength_def)

lemma strncpy_address_last:
  "length dst = kAddressStringLength \<Longrightarrow> last (strncpy_address dst s) = last dst"
  by (simp add: strncpy_address_def Let_def kAddressStringLength_def last_append last_drop)

text \<open>
  C38.  The interfaces are enumerated in two calls.  Without an array the call reports how many
  addresses there are; with an array of 64-byte strings it fills exactly the entries for which
  there is an address, in order and truncated to 63 characters, leaves the others and the last byte
  of each entry alone, and reports how many entries it filled.
\<close>

theorem enumerate_fills_array:
  assumes "EnumerateInterfaces (env_getaddrinfo E) (env_inet_ntop E) (compatible_address E p)
      (env_net_entries E) (env_getifaddrs E) family = Inr interfaces"
    and "length interfaces < 2 ^ 64" and "length array = unat n"
    and "\<forall>dst \<in> set array. length dst = kAddressStringLength"
  shows "fst (easyrdma_Enumerate E None (Some m) family p) = Inr (0, Some (None, of_nat (length interfaces)))
    \<and> (\<exists>out k. fst (easyrdma_Enumerate E (Some array) (Some n) family p) = Inr (0, Some (Some out, k))
         \<and> unat k = min (length interfaces) (unat n) \<and> length out = length array
         \<and> (\<forall>i < length array. length (out ! i) = kAddressStringLength \<and> last (out ! i) = last (array ! i)
              \<and> out ! i = (if i < length interfaces then strncpy_address (array ! i) (interfaces ! i) else array ! i)))"
proof -
  define k where "k = min (of_nat (length interfaces)) n"
  have "unat (of_nat (length interfaces) :: u64) = length interfaces"
    using assms(2) by (simp add: of_nat_inverse_word)
  then have k: "unat k = min (length interfaces) (unat n)"
    by (simp add: k_def min_def word_le_nat_alt)
  define out where "out = map2 strncpy_address (take (unat k) array) (take (unat k) interfaces) @ drop (unat k) array"
  have len: "length out = length array" using k assms(3) by (simp add: out_def)
  have entry: "out ! i = (if i < length interfaces then strncpy_address (array ! i) (interfaces ! i) else array ! i)"
    if "i < length array" for i
    using that k assms(3) by (auto simp: out_def nth_append)
  have "length (array ! i) = kAddressStringLength" if "i < length array" for i
    using assms(4) that by simp
  with entry have entries: "\<forall>i < length array. length (out ! i) = kAddressStringLength \<and> last (out ! i) = last (array ! i)
      \<and> out ! i = (if i < length interfaces then strncpy_address (array ! i) (interfaces ! i) else array ! i)"
    by (simp add: strncpy_address_last)
  have "fst (easyrdma_Enumerate E (Some array) (Some n) family p) = Inr (0, Some (Some out, k))"
    by (simp add: easyrdma_Enumerate_def api_call_def assms(1) Let_def out_def k_def RdmaError_new_def GetCode_def)
  moreover have "fst (easyrdma_Enumerate E None (Some m) family p) = Inr (0, Some (None, of_nat (length interfaces)))"
    by (simp add: easyrdma_Enumerate_def api_call_def assms(1) Let_def RdmaError_new_def GetCode_def)
  ultimately show ?thesis using k len entries by blast
qed

definition demo_lan :: "int env" where
  "demo_lan = demo_env\<lparr>env_net_entries := [\<lparr>ne_is_directory = True, ne_name = ''eth0'', ne_flags = ''0x1003'',
       ne_address = ''02:00:00:00:00:01'', ne_ifindex = ''2''\<rparr>],
     env_getifaddrs := Inr [\<lparr>ifa_name = ''eth0'', ifa_flags = 1, ifa_addr = Some ([2, 0, 0, 0, 10, 0, 0, 1] @ replicate 120 0)\<rparr>]\<rparr>"

theorem enumerate_fills_array_witness:
  "fst (easyrdma_Enumerate demo_lan None (Some 0) 0 demo_process) = Inr (0, Some (None, 1))
   \<and> (\<exists>out k. fst (easyrdma_Enumerate demo_lan (Some [replicate 64 nul]) (Some 1) 0 demo_process) = Inr (0, Some (Some out, k))
       \<and> out ! 0 = strncpy_address (replicate 64 nul) ''10.0.0.1'')"
proof -
  have "EnumerateInterfaces (env_getaddrinfo demo_lan) (env_inet_ntop demo_lan) (compatible_address demo_lan demo_process)
      (env_net_entries demo_lan) (env_getifaddrs demo_lan) 0 = Inr [''10.0.0.1'']"
    by code_simp
  from enumerate_fills_array [OF this, of "[replicate 64 nul]" 1 0] show ?thesis
    by (fastforce simp: kAddressStringLength_def)
qed

end
