(* ===== verification/WindowsCommon.thy ===== *)
theory WindowsCommon
  imports SessionBase Address
begin

text \<open>
  The common parts of the Windows back end: error translation
  (\<^verbatim>\<open>core/windows/RdmaErrorTranslation.cpp\<close>), the handling of results, overlapped operations, COM
  references and timeouts (\<^verbatim>\<open>core/windows/RdmaCommon.h\<close>) and the enumeration of interfaces
  (\<^verbatim>\<open>core/windows/RdmaEnumeration.cpp\<close>).

  The status codes of NetworkDirect and its calls are not part of the repository: the codes are the
  record \<open>nd_codes\<close>, the calls the record \<open>nd_calls\<close>, on a state \<open>'n\<close> of their own.
\<close>

section \<open>Status codes\<close>

record nd_codes =
  ND_PENDING :: int
  ND_SUCCESS :: int
  ND_TIMEOUT :: int
  ND_INVALID_PARAMETER :: int
  ND_NO_MEMORY :: int
  ND_INVALID_PARAMETER_MIX :: int
  ND_IO_TIMEOUT :: int
  ND_INTERNAL_ERROR :: int
  ND_INVALID_PARAMETER_n :: "int list"
  ND_CANCELED :: int
  ND_INVALID_ADDRESS :: int
  ND_TOO_MANY_ADDRESSES :: int
  ND_ADDRESS_ALREADY_EXISTS :: int
  ND_CONNECTION_REFUSED :: int
  ND_CONNECTION_INVALID :: int
  ND_CONNECTION_ABORTED :: int
  ND_NETWORK_UNREACHABLE :: int
  ND_CONNECTION_ACTIVE :: int
  ND_SHARING_VIOLATION :: int

text \<open>
  \<open>ND_INVALID_PARAMETER_n\<close> lists the ten codes for a numbered parameter.  Of equal keys in the
  initializer of a \<open>std::map\<close> the first one counts.
\<close>

definition errorTranslations_win :: "nd_codes \<Rightarrow> (int \<times> int) list" where
  "errorTranslations_win nd =
     [(ND_SUCCESS nd, easyrdma_Error_Success), (ND_TIMEOUT nd, easyrdma_Error_Timeout),
      (ND_INVALID_PARAMETER nd, easyrdma_Error_InvalidArgument), (ND_NO_MEMORY nd, easyrdma_Error_OutOfMemory),
      (ND_INVALID_PARAMETER_MIX nd, easyrdma_Error_InvalidArgument), (ND_IO_TIMEOUT nd, easyrdma_Error_Timeout),
      (ND_INTERNAL_ERROR nd, easyrdma_Error_InternalError)]
     @ map (\<lambda>code. (code, easyrdma_Error_InvalidArgument)) (ND_INVALID_PARAMETER_n nd)
     @ [(ND_CANCELED nd, easyrdma_Error_OperationCancelled), (ND_INVALID_ADDRESS nd, easyrdma_Error_InvalidAddress),
        (ND_TOO_MANY_ADDRESSES nd, easyrdma_Error_InvalidAddress),
        (ND_ADDRESS_ALREADY_EXISTS nd, easyrdma_Error_InvalidAddress),
        (ND_CONNECTION_REFUSED nd, easyrdma_Error_ConnectionRefused),
        (ND_CONNECTION_INVALID nd, easyrdma_Error_NotConnected),
        (ND_CONNECTION_ABORTED nd, easyrdma_Error_Disconnected),
        (ND_NETWORK_UNREACHABLE nd, easyrdma_Error_UnableToConnect),
        (ND_CONNECTION_ACTIVE nd, easyrdma_Error_AlreadyConnected),
        (ND_SHARING_VIOLATION nd, easyrdma_Error_AddressInUse),
        (0xC00000CC - 2 ^ 32, easyrdma_Error_InvalidAddress)]"

definition OSErrorToRdmaError_win :: "nd_codes \<Rightarrow> int \<Rightarrow> int" where
  "OSErrorToRdmaError_win nd osError =
     (case map_of (errorTranslations_win nd) osError of
        Some code \<Rightarrow> code | None \<Rightarrow> easyrdma_Error_OperatingSystemError)"

definition THROW_HRESULT_ERROR :: "nd_codes \<Rightarrow> string \<Rightarrow> int \<Rightarrow> int \<Rightarrow> exn" where
  "THROW_HRESULT_ERROR nd file line osError =
     RdmaException (RdmaError_of (OSErrorToRdmaError_win nd osError) osError file line)"

text \<open>An \<open>HRESULT\<close> is a signed number; \<open>FAILED\<close> is that it is negative.\<close>

definition HandleHR :: "nd_codes \<Rightarrow> string \<Rightarrow> int \<Rightarrow> int \<Rightarrow> exn + unit" where
  "HandleHR nd file line hr = (if hr < 0 then Inl (THROW_HRESULT_ERROR nd file line hr) else Inr ())"

section \<open>Objects and overlapped operations\<close>

text \<open>
  What the library holds: references to COM objects, one entry each, and event handles.
\<close>

record 'n win_world =
  nw_state :: 'n
  nw_refs :: "nat list"
  nw_events :: nat

text \<open>
  The calls of NetworkDirect and of the system.  Objects are numbers; a call that makes an object
  gives its result with the object.
\<close>

record 'n nd_calls =
  nd_codes_of :: nd_codes
  nd_CreateEvent :: "'n \<Rightarrow> (bool \<times> int) \<times> 'n"
  nd_GetOverlappedResult :: "nat \<Rightarrow> 'n \<Rightarrow> int \<times> 'n"
  nd_WaitForSingleObject :: "int \<Rightarrow> 'n \<Rightarrow> bool \<times> 'n"
  nd_OpenAdapter :: "RdmaAddress \<Rightarrow> 'n \<Rightarrow> (int \<times> nat) \<times> 'n"
  nd_CreateOverlappedFile :: "nat \<Rightarrow> 'n \<Rightarrow> int \<times> 'n"
  nd_Query :: "nat \<Rightarrow> 'n \<Rightarrow> (int \<times> u32 \<times> u32 \<times> u32) \<times> 'n"
  nd_CreateCompletionQueue :: "nat \<Rightarrow> u32 \<Rightarrow> 'n \<Rightarrow> (int \<times> nat) \<times> 'n"
  nd_CreateQueuePair :: "nat \<Rightarrow> nat \<Rightarrow> u32 \<Rightarrow> u32 \<Rightarrow> u32 \<Rightarrow> 'n \<Rightarrow> (int \<times> nat) \<times> 'n"
  nd_CreateConnector :: "nat \<Rightarrow> 'n \<Rightarrow> (int \<times> nat) \<times> 'n"
  nd_CreateListener :: "nat \<Rightarrow> 'n \<Rightarrow> (int \<times> nat) \<times> 'n"
  nd_CreateMemoryRegion :: "nat \<Rightarrow> 'n \<Rightarrow> (int \<times> nat) \<times> 'n"
  nd_Register :: "nat \<Rightarrow> u64 \<Rightarrow> u64 \<Rightarrow> 'n \<Rightarrow> int \<times> 'n"
  nd_Deregister :: "nat \<Rightarrow> 'n \<Rightarrow> int \<times> 'n"
  nd_Bind :: "nat \<Rightarrow> RdmaAddress \<Rightarrow> 'n \<Rightarrow> int \<times> 'n"
  nd_Listen :: "nat \<Rightarrow> 'n \<Rightarrow> int \<times> 'n"
  nd_GetConnectionRequest :: "nat \<Rightarrow> nat \<Rightarrow> 'n \<Rightarrow> int \<times> 'n"
  nd_Accept :: "nat \<Rightarrow> nat option \<Rightarrow> u8 list \<Rightarrow> 'n \<Rightarrow> int \<times> 'n"
  nd_Connect :: "nat \<Rightarrow> nat option \<Rightarrow> RdmaAddress \<Rightarrow> u8 list \<Rightarrow> 'n \<Rightarrow> int \<times> 'n"
  nd_CompleteConnect :: "nat \<Rightarrow> 'n \<Rightarrow> int \<times> 'n"
  nd_Disconnect :: "nat \<Rightarrow> 'n \<Rightarrow> int \<times> 'n"
  nd_NotifyDisconnect :: "nat \<Rightarrow> 'n \<Rightarrow> int \<times> 'n"
  nd_GetPrivateData :: "nat \<Rightarrow> 'n \<Rightarrow> (int \<times> u8 list) \<times> 'n"
  nd_GetLocalAddress :: "nat \<Rightarrow> 'n \<Rightarrow> (int \<times> u8 list) \<times> 'n"
  nd_GetPeerAddress :: "nat \<Rightarrow> 'n \<Rightarrow> (int \<times> u8 list) \<times> 'n"
  nd_CancelOverlappedRequests :: "nat \<Rightarrow> 'n \<Rightarrow> 'n"
  nd_Flush :: "nat \<Rightarrow> 'n \<Rightarrow> 'n"
  nd_Notify :: "nat \<Rightarrow> 'n \<Rightarrow> int \<times> 'n"
  nd_Receive :: "nat \<Rightarrow> nat \<Rightarrow> u64 \<Rightarrow> u32 \<Rightarrow> 'n \<Rightarrow> int \<times> 'n"
  nd_Send :: "nat \<Rightarrow> nat \<Rightarrow> u64 \<Rightarrow> u32 \<Rightarrow> 'n \<Rightarrow> int \<times> 'n"

definition RdmaCommon_win_h :: string where "RdmaCommon_win_h = ''core/windows/RdmaCommon.h''"

definition nd_call :: "('n \<Rightarrow> 'a \<times> 'n) \<Rightarrow> 'n win_world \<Rightarrow> 'a \<times> 'n win_world" where
  "nd_call f w = (case f (nw_state w) of (a, n) \<Rightarrow> (a, w\<lparr>nw_state := n\<rparr>))"

text \<open>\<open>AddRef\<close> and \<open>Release\<close> of an \<open>AutoRef\<close>; \<open>reset\<close> releases what it holds.\<close>

definition AddRef :: "nat \<Rightarrow> 'n win_world \<Rightarrow> 'n win_world" where
  "AddRef obj w = w\<lparr>nw_refs := obj # nw_refs w\<rparr>"

definition AutoRef_reset :: "nat option \<Rightarrow> 'n win_world \<Rightarrow> 'n win_world" where
  "AutoRef_reset handle w = (case handle of None \<Rightarrow> w | Some obj \<Rightarrow> w\<lparr>nw_refs := remove1 obj (nw_refs w)\<rparr>)"

text \<open>A checked call, and one that makes an object into an empty \<open>AutoRef\<close>.\<close>

definition checked ::
  "'n nd_calls \<Rightarrow> string \<Rightarrow> int \<Rightarrow> ('n \<Rightarrow> int \<times> 'n) \<Rightarrow> 'n win_world \<Rightarrow> (exn, unit, 'n win_world) outcome" where
  "checked nd file line f w = (case nd_call f w of (hr, w) \<Rightarrow> (HandleHR (nd_codes_of nd) file line hr, w))"

definition created ::
  "'n nd_calls \<Rightarrow> string \<Rightarrow> int \<Rightarrow> ('n \<Rightarrow> (int \<times> nat) \<times> 'n) \<Rightarrow> 'n win_world \<Rightarrow> (exn, nat, 'n win_world) outcome" where
  "created nd file line f w =
     (case nd_call f w of ((hr, obj), w) \<Rightarrow>
        if hr < 0 then (Inl (THROW_HRESULT_ERROR (nd_codes_of nd) file line hr), w) else (Inr obj, AddRef obj w))"

text \<open>The macro \<open>HandleHROverlapped\<close>: a pending operation is waited for.\<close>

definition overlapped_result :: "'n nd_calls \<Rightarrow> nat \<Rightarrow> int \<Rightarrow> 'n win_world \<Rightarrow> int \<times> 'n win_world" where
  "overlapped_result nd obj hr w =
     (if hr = ND_PENDING (nd_codes_of nd) then nd_call (nd_GetOverlappedResult nd obj) w else (hr, w))"

definition HandleHROverlapped ::
  "'n nd_calls \<Rightarrow> string \<Rightarrow> int \<Rightarrow> nat \<Rightarrow> ('n \<Rightarrow> int \<times> 'n) \<Rightarrow> 'n win_world \<Rightarrow> (exn, unit, 'n win_world) outcome" where
  "HandleHROverlapped nd file line obj f w =
     (case nd_call f w of (hr, w) \<Rightarrow>
        (case overlapped_result nd obj hr w of (hr, w) \<Rightarrow> (HandleHR (nd_codes_of nd) file line hr, w)))"

definition HandleHROverlappedWithTimeoutInternal ::
  "'n nd_calls \<Rightarrow> nat \<Rightarrow> int \<Rightarrow> string \<Rightarrow> int \<Rightarrow> int \<Rightarrow> 'n win_world \<Rightarrow> (exn, unit, 'n win_world) outcome" where
  "HandleHROverlappedWithTimeoutInternal nd obj timeoutMs file line hr w =
     (if hr = ND_PENDING (nd_codes_of nd) then
        (case (if timeoutMs \<noteq> -1 then nd_call (nd_WaitForSingleObject nd timeoutMs) w else (True, w)) of
           (False, w) \<Rightarrow> (Inl (RDMA_THROW file line easyrdma_Error_Timeout), w)
         | (True, w) \<Rightarrow>
             (case nd_call (nd_GetOverlappedResult nd obj) w of (hr, w) \<Rightarrow>
                (HandleHR (nd_codes_of nd) file line hr, w)))
      else (HandleHR (nd_codes_of nd) file line hr, w))"

definition HandleHROverlappedWithTimeout ::
  "'n nd_calls \<Rightarrow> string \<Rightarrow> int \<Rightarrow> nat \<Rightarrow> int \<Rightarrow> ('n \<Rightarrow> int \<times> 'n) \<Rightarrow> 'n win_world \<Rightarrow> (exn, unit, 'n win_world) outcome" where
  "HandleHROverlappedWithTimeout nd file line obj timeoutMs f w =
     (case nd_call f w of (hr, w) \<Rightarrow> HandleHROverlappedWithTimeoutInternal nd obj timeoutMs file line hr w)"

text \<open>A block with an \<open>OverlappedWrapper\<close>, whose event is closed on every way out; \<open>put\<close> and \<open>get\<close> reach the world.\<close>

definition with_overlapped ::
  "'n nd_calls \<Rightarrow> ('s \<Rightarrow> 'n win_world) \<Rightarrow> ('n win_world \<Rightarrow> 's \<Rightarrow> 's) \<Rightarrow> ('s \<Rightarrow> (exn, 'a, 's) outcome) \<Rightarrow>
   's \<Rightarrow> (exn, 'a, 's) outcome" where
  "with_overlapped nd get put body s =
     (case nd_call (nd_CreateEvent nd) (get s) of ((ok, lastError), w) \<Rightarrow>
        if \<not> ok then (Inl (THROW_HRESULT_ERROR (nd_codes_of nd) RdmaCommon_win_h 94 lastError), put w s)
        else
          (case body (put (w\<lparr>nw_events := Suc (nw_events w)\<rparr>) s) of (r, s) \<Rightarrow>
             (r, put ((get s)\<lparr>nw_events := nw_events (get s) - 1\<rparr>) s)))"

section \<open>Timeouts\<close>

text \<open>
  \<open>TimeoutCalculator\<close>; the clock counts milliseconds.  The conversion to 32 bits is the identity
  for the values that occur, which are between zero and the timeout.
\<close>

record TimeoutCalculator =
  tc_timeoutMs :: int
  tc_start :: int

definition RDMA_TIMEOUT_INFINITE :: int where "RDMA_TIMEOUT_INFINITE = -1"

definition getRemainingMs :: "TimeoutCalculator \<Rightarrow> int \<Rightarrow> int" where
  "getRemainingMs tc now =
     (if tc_timeoutMs tc = RDMA_TIMEOUT_INFINITE then tc_timeoutMs tc
      else signed (of_int (max 0 (tc_timeoutMs tc - (now - tc_start tc))) :: 32 word))"

definition timedOut :: "TimeoutCalculator \<Rightarrow> int \<Rightarrow> bool" where
  "timedOut tc now \<longleftrightarrow> tc_timeoutMs tc \<noteq> RDMA_TIMEOUT_INFINITE \<and> getRemainingMs tc now = 0"

section \<open>Memory and enumeration\<close>

definition AllocateAlignedMemory_win :: "(u64 \<times> u8 list) option \<Rightarrow> exn + u64 \<times> u8 list" where
  "AllocateAlignedMemory_win block =
     (case block of None \<Rightarrow> Inl (RDMA_THROW RdmaCommon_win_h 206 easyrdma_Error_OutOfMemory) | Some b \<Rightarrow> Inr b)"

definition RdmaEnumeration_win_cpp :: string where
  "RdmaEnumeration_win_cpp = ''core/windows/RdmaEnumeration.cpp''"

text \<open>
  The list is the result of \<open>NdQueryAddressList\<close>, in its order.  The constants of the address
  families differ between the systems, so the two functions of \<^verbatim>\<open>RdmaAddress.h\<close> that depend on them
  are arguments: \<open>RdmaAddressFamilyToNative\<close> and \<open>SockAddrToIpAddrString\<close>.
\<close>

fun filter_addresses :: "(u8 list \<Rightarrow> exn + string) \<Rightarrow> int \<Rightarrow> u8 list list \<Rightarrow> exn + string list" where
  "filter_addresses addr_string native [] = Inr []"
| "filter_addresses addr_string native (sa # rest) =
     (if native \<noteq> AF_UNSPEC \<and> native \<noteq> sa_family sa then filter_addresses addr_string native rest
      else bind_res (addr_string sa) (\<lambda>s.
        bind_res (filter_addresses addr_string native rest) (\<lambda>more. Inr (s # more))))"

definition EnumerateInterfaces_win ::
  "nd_codes \<Rightarrow> (int \<Rightarrow> exn + int) \<Rightarrow> (u8 list \<Rightarrow> exn + string) \<Rightarrow> int \<times> u8 list list \<Rightarrow> int \<Rightarrow> exn + string list" where
  "EnumerateInterfaces_win nd to_native addr_string query filterAddressFamily =
     bind_res (to_native filterAddressFamily) (\<lambda>native.
       bind_res (HandleHR nd RdmaEnumeration_win_cpp 17 (fst query)) (\<lambda>_.
         filter_addresses addr_string native (snd query)))"

end
