(* ===== verification/WindowsSession.thy ===== *)
theory WindowsSession
  imports WindowsCommon LinuxEndpoints
begin

text \<open>
  The Windows back end on NetworkDirect: \<^verbatim>\<open>core/windows/RdmaConnectedSession.{h,cpp}\<close>,
  \<^verbatim>\<open>core/windows/RdmaConnector.{h,cpp}\<close>, \<^verbatim>\<open>core/windows/RdmaListener.{h,cpp}\<close> and
  \<^verbatim>\<open>core/windows/RdmaMemoryRegion.h\<close>.  Names that the Linux back end has too carry the suffix
  \<open>_win\<close>.  The line of a throw in a macro that spans lines is the first of them.
\<close>

section \<open>State\<close>

record win_session =
  ws_adapter :: "nat option"
  ws_adapterFile :: bool
  ws_connector :: "nat option"
  ws_cq :: "nat option"
  ws_qp :: "nat option"
  ws_eventHandler :: bool
  ws_connectionHandler :: bool
  ws_closing :: bool
  ws_remoteAddress :: RdmaAddress

type_synonym 'n wconn = "win_session \<times> 'n win_world"
type_synonym 'n win_state = "ConnectedSession \<times> (win_session \<times> 'n win_world)"
type_synonym ('n, 'a) win_op = "ConnectedSession \<times> (win_session \<times> 'n win_world) \<Rightarrow>
  (exn, 'a, ConnectedSession \<times> (win_session \<times> 'n win_world)) outcome"

datatype win_handler = Event_handler_win | Connection_handler_win
datatype ND2_REQUEST_TYPE = Nd2RequestTypeReceive | Nd2RequestTypeSend | Nd2RequestType_other nat

record ND2_RESULT =
  nr_status :: int
  nr_bytes :: u32
  nr_type :: ND2_REQUEST_TYPE
  nr_context :: buffer_ref

text \<open>
  What else the environment does: threads, memory, waits in the base class and the results of the
  completion queue.
\<close>

record 'n win_env =
  we_nd :: "'n nd_calls"
  we_GetResults :: "nat \<Rightarrow> 'n \<Rightarrow> ND2_RESULT option \<times> 'n"
  we_start_thread :: "exn + unit"
  we_join :: "win_handler \<Rightarrow> ConnectedSession \<Rightarrow> ConnectedSession"
  we_memory :: "u64 \<Rightarrow> (u64 \<times> u8 list) option"
  we_wait_transfer :: "ConnectedSession \<Rightarrow> bool \<times> ConnectedSession"
  we_wait_credit :: "RdmaBufferQueue \<Rightarrow> bool \<times> RdmaBufferQueue"
  we_regain :: "tAccessManager \<Rightarrow> tAccessManager"

abbreviation we_codes :: "'n win_env \<Rightarrow> nd_codes" where
  "we_codes we \<equiv> nd_codes_of (we_nd we)"

definition ConnectedSession_win_cpp :: string where
  "ConnectedSession_win_cpp = ''core/windows/RdmaConnectedSession.cpp''"
definition Connector_win_cpp :: string where "Connector_win_cpp = ''core/windows/RdmaConnector.cpp''"
definition Listener_win_cpp :: string where "Listener_win_cpp = ''core/windows/RdmaListener.cpp''"

text \<open>A block with an overlapped structure on a connection, on a session, on a listener.\<close>

definition overlapped_conn :: "'n win_env \<Rightarrow> ('l \<times> 'n win_world \<Rightarrow> (exn, 'a, 'l \<times> 'n win_world) outcome) \<Rightarrow>
    'l \<times> 'n win_world \<Rightarrow> (exn, 'a, 'l \<times> 'n win_world) outcome" where
  "overlapped_conn we = with_overlapped (we_nd we) snd (\<lambda>w (l, _). (l, w))"

definition on_world :: "('n win_world \<Rightarrow> (exn, 'a, 'n win_world) outcome) \<Rightarrow>
    'l \<times> 'n win_world \<Rightarrow> (exn, 'a, 'l \<times> 'n win_world) outcome" where
  "on_world f = (\<lambda>(l, w). case f w of (r, w) \<Rightarrow> (r, (l, w)))"

definition on_wconn :: "('n wconn \<Rightarrow> (exn, 'a, 'n wconn) outcome) \<Rightarrow> ('n, 'a) win_op" where
  "on_wconn f = (\<lambda>(s, c). case f c of (r, c') \<Rightarrow> (r, (s, c')))"

text \<open>A dereference of an \<open>AutoRef\<close>.\<close>

definition through :: "('l \<Rightarrow> nat option) \<Rightarrow> (nat \<Rightarrow> 'l \<times> 'n win_world \<Rightarrow> (exn, 'a, 'l \<times> 'n win_world) outcome) \<Rightarrow>
    'l \<times> 'n win_world \<Rightarrow> (exn, 'a, 'l \<times> 'n win_world) outcome" where
  "through ref f c = (case ref (fst c) of None \<Rightarrow> (Inl (Crash ''null interface''), c) | Some obj \<Rightarrow> f obj c)"

section \<open>Queue pairs and memory\<close>

definition store_cq :: "nat \<Rightarrow> 'n wconn \<Rightarrow> 'n wconn" where "store_cq obj = (\<lambda>(l, w). (l\<lparr>ws_cq := Some obj\<rparr>, w))"
definition store_qp :: "nat \<Rightarrow> 'n wconn \<Rightarrow> 'n wconn" where "store_qp obj = (\<lambda>(l, w). (l\<lparr>ws_qp := Some obj\<rparr>, w))"

definition SetupQueuePair_win :: "'n win_env \<Rightarrow> 'n wconn \<Rightarrow> (exn, unit, 'n wconn) outcome" where
  "SetupQueuePair_win we c =
     (case cpp_assert ''!cq.get() && !qp.get()'' (ws_cq (fst c) = None \<and> ws_qp (fst c) = None) of Inl e \<Rightarrow> (Inl e, c)
      | Inr _ \<Rightarrow>
        overlapped_conn we (through ws_adapter (\<lambda>adapter c.
          case nd_call (nd_Query (we_nd we) adapter) (snd c) of ((hr, maxCq, maxInitiator, inlineThreshold), w) \<Rightarrow>
            case HandleHR (we_codes we) ConnectedSession_win_cpp 92 hr of Inl e \<Rightarrow> (Inl e, (fst c, w))
            | Inr _ \<Rightarrow>
              let queueDepth = min maxCq maxInitiator in
              bind_out (on_world (created (we_nd we) ConnectedSession_win_cpp 100
                          (nd_CreateCompletionQueue (we_nd we) adapter queueDepth)) (fst c, w)) (\<lambda>cq c.
                bind_out (on_world (created (we_nd we) ConnectedSession_win_cpp 109
                            (nd_CreateQueuePair (we_nd we) adapter cq queueDepth 2 inlineThreshold)) (store_cq cq c))
                  (\<lambda>qp c. (Inr (), store_qp qp c))))) c)"

definition DestroyQP_win :: "'n wconn \<Rightarrow> 'n wconn" where
  "DestroyQP_win = (\<lambda>(l, w).
     (l\<lparr>ws_qp := None, ws_cq := None\<rparr>, AutoRef_reset (ws_cq l) (AutoRef_reset (ws_qp l) w)))"

text \<open>
  The region that \<open>CreateMemoryRegion\<close> makes; when registering fails its reference is released.
\<close>

definition CreateMemoryRegion_win :: "'n win_env \<Rightarrow> u64 \<Rightarrow> u64 \<Rightarrow> 'n wconn \<Rightarrow> (exn, nat, 'n wconn) outcome" where
  "CreateMemoryRegion_win we buffer len =
     through ws_adapter (\<lambda>adapter c.
       bind_out (on_world (created (we_nd we) ConnectedSession_win_cpp 206
                   (nd_CreateMemoryRegion (we_nd we) adapter)) c) (\<lambda>mr c.
         case overlapped_conn we (on_world (HandleHROverlapped (we_nd we) ConnectedSession_win_cpp 211 mr
                (nd_Register (we_nd we) mr buffer len))) c of
           (Inl e, (l, w)) \<Rightarrow> (Inl e, (l, if catchable e then AutoRef_reset (Some mr) w else w))
         | (Inr _, c) \<Rightarrow> (Inr mr, c)))"

text \<open>The destructor of a memory region; a driver that refuses to deregister it fails an assertion.\<close>

definition RdmaMemoryRegion_win_h :: string where "RdmaMemoryRegion_win_h = ''core/windows/RdmaMemoryRegion.h''"

definition RdmaMemoryRegion_win_dtor :: "'n win_env \<Rightarrow> nat \<Rightarrow> 'n wconn \<Rightarrow> (exn, unit, 'n wconn) outcome" where
  "RdmaMemoryRegion_win_dtor we mr c =
     (case overlapped_conn we (on_world (HandleHROverlapped (we_nd we) RdmaMemoryRegion_win_h 19 mr
              (nd_Deregister (we_nd we) mr))) c of
        (Inl e, c) \<Rightarrow> (cpp_assert ''0'' False, c)
      | (Inr _, (l, w)) \<Rightarrow> (Inr (), (l, AutoRef_reset (Some mr) w)))"

text \<open>\<open>ULONG\<close> has 32 bits.\<close>

definition sge_length :: "Direction \<Rightarrow> RdmaBuffer \<Rightarrow> u32" where
  "sge_length dir b = ucast (if dir = Receive then bufferSize b else usedBytes b)"

definition QueueToQp_win :: "'n win_env \<Rightarrow> Direction \<Rightarrow> nat \<Rightarrow> RdmaBuffer \<Rightarrow> 'n wconn \<Rightarrow> (exn, unit, 'n wconn) outcome" where
  "QueueToQp_win we dir i b =
     through ws_qp (\<lambda>qp. on_world (checked (we_nd we) ConnectedSession_win_cpp 231
       (if dir = Receive then nd_Receive (we_nd we) qp i (buf_ptr b) (sge_length dir b)
        else nd_Send (we_nd we) qp i (buf_ptr b) (sge_length dir b))))"

definition PollForReceive_win :: "int \<Rightarrow> ('n, unit) win_op" where
  "PollForReceive_win timeoutMs \<sigma> = (Inl (RDMA_THROW ConnectedSession_win_cpp 250 easyrdma_Error_InternalError), \<sigma>)"

text \<open>
  The virtual functions as the base class calls them.  The references to memory regions belong to
  the buffers and are not counted here.
\<close>

definition win_services :: "'n win_env \<Rightarrow> 'n wconn \<Rightarrow> (win_session \<times> 'n win_world) services" where
  "win_services we c =
     \<lparr>svc_QueueToQp = QueueToQp_win we, svc_memalign = we_memory we,
      svc_CreateMemoryRegion = (\<lambda>buffer len. bind_res (fst (CreateMemoryRegion_win we buffer len c)) (\<lambda>_. Inr ())),
      svc_SetupQueuePair = SetupQueuePair_win we,
      svc_wait_transfer = (\<lambda>(s, c). case we_wait_transfer we s of (timeout, s') \<Rightarrow> (timeout, (s', c))),
      svc_wait_credit = we_wait_credit we, svc_PollForReceive = PollForReceive_win, svc_regain = we_regain we,
      svc_CreatePriorityThread = (\<lambda>_. we_start_thread we)\<rparr>"

section \<open>Handler threads\<close>

definition CreatePriorityThread_win :: "(exn + unit) \<Rightarrow> exn + unit" where
  "CreatePriorityThread_win start = start"

definition nd_status :: "nd_codes \<Rightarrow> ND2_RESULT \<Rightarrow> RdmaError" where
  "nd_status codes res =
     (if nr_status res \<noteq> ND_SUCCESS codes
      then RdmaError_Assign RdmaError_new
             (RdmaError_of (OSErrorToRdmaError_win codes (nr_status res)) (nr_status res) ConnectedSession_win_cpp 165)
      else RdmaError_new)"

definition nd_bytes :: "ND2_RESULT \<Rightarrow> RdmaError \<Rightarrow> ConnectedSession \<Rightarrow> exn + u64" where
  "nd_bytes res completionStatus s =
     (case nr_type res of
        Nd2RequestTypeReceive \<Rightarrow> Inr (ucast (nr_bytes res))
      | Nd2RequestTypeSend \<Rightarrow>
          if IsSuccess completionStatus then
            (case referenced_buffer (nr_context res) s of
               None \<Rightarrow> Inl (Crash ''dangling context'') | Some b \<Rightarrow> Inr (usedBytes b))
          else Inr 0
      | Nd2RequestType_other _ \<Rightarrow> Inl (RDMA_THROW ConnectedSession_win_cpp 179 easyrdma_Error_InternalError))"

definition process_result :: "nd_codes \<Rightarrow> ND2_RESULT \<Rightarrow> ConnectedSession \<Rightarrow> (exn, callback_call list, ConnectedSession) outcome" where
  "process_result codes res s =
     (let completionStatus = nd_status codes res in
      case nd_bytes res completionStatus s of
        Inl e \<Rightarrow> (Inl e, s)
      | Inr bytesTransferred \<Rightarrow>
          (case nr_context res of
             TransferBuffer i \<Rightarrow>
               (case on_transfer (queue_only (RdmaBuffer_HandleCompletion i completionStatus bytesTransferred)) (s, ()) of
                  (r, (s, _)) \<Rightarrow> (r, s))
           | CreditBuffer i \<Rightarrow>
               (case on_credit (queue_only (RdmaBuffer_HandleCompletion i completionStatus bytesTransferred)) (s, ()) of
                  (r, (s, _)) \<Rightarrow> (r, s))))"

text \<open>
  The two nested loops of the event handler as one: a result is processed and the queue asked again;
  when there is none, the thread waits for a notification.
\<close>

fun EventHandler_loop ::
  "'n win_env \<Rightarrow> nat \<Rightarrow> callback_call list \<Rightarrow> 'n win_state \<Rightarrow> (exn + callback_call list) option \<times> 'n win_state" where
  "EventHandler_loop we 0 calls \<sigma> = (None, \<sigma>)"
| "EventHandler_loop we (Suc n) calls (s, (l, w)) =
     (if ws_closing l then (Some (Inr calls), (s, (l, w)))
      else case ws_cq l of None \<Rightarrow> (Some (Inr calls), (s, (l, w)))
      | Some cq \<Rightarrow>
        (case nd_call (we_GetResults we cq) w of
           (Some res, w) \<Rightarrow>
             (case process_result (we_codes we) res s of
                (Inl e, s) \<Rightarrow> (Some (thread_exit e calls), (s, (l, w)))
              | (Inr new, s) \<Rightarrow> EventHandler_loop we n (calls @ new) (s, (l, w)))
         | (None, w) \<Rightarrow>
             (case HandleHROverlapped (we_nd we) ConnectedSession_win_cpp 183 cq (nd_Notify (we_nd we) cq) w of
                (Inl e, w) \<Rightarrow> (Some (thread_exit e calls), (s, (l, w)))
              | (Inr _, w) \<Rightarrow> EventHandler_loop we n calls (s, (l, w)))))"

text \<open>The overlapped structure is made before the \<open>try\<close> block: a failure leaves the thread function.\<close>

definition EventHandlerThread_win ::
  "'n win_env \<Rightarrow> nat \<Rightarrow> 'n win_state \<Rightarrow> (exn + callback_call list) option \<times> 'n win_state" where
  "EventHandlerThread_win we fuel = (\<lambda>(s, (l, w)).
     case nd_call (nd_CreateEvent (we_nd we)) w of ((ok, lastError), w) \<Rightarrow>
       if \<not> ok then (Some (Inl (Crash ''exception in a thread'')), (s, (l, w)))
       else
         (case EventHandler_loop we fuel [] (s, (l, w\<lparr>nw_events := Suc (nw_events w)\<rparr>)) of (r, (s, (l, w))) \<Rightarrow>
            (r, (s, (l, w\<lparr>nw_events := nw_events w - 1\<rparr>)))))"

definition connection_handler_body :: "'n win_env \<Rightarrow> ('n, callback_call list) win_op" where
  "connection_handler_body we \<sigma> =
     bind_out (on_wconn (through ws_connector (\<lambda>k. on_world (HandleHROverlapped (we_nd we) ConnectedSession_win_cpp 144 k
                 (nd_NotifyDisconnect (we_nd we) k)))) \<sigma>) (\<lambda>_ (s, c).
       case HandleDisconnect s of Inl e \<Rightarrow> (Inl e, (s, c))
       | Inr (calls, s) \<Rightarrow>
           (case on_wconn (through ws_connector (\<lambda>k. on_world (HandleHROverlapped (we_nd we) ConnectedSession_win_cpp 148 k
                   (nd_Disconnect (we_nd we) k)))) (s, c) of
              (Inl e, \<sigma>) \<Rightarrow> (if catchable e then Inr calls else Inl e, \<sigma>)
            | (Inr _, \<sigma>) \<Rightarrow> (Inr calls, \<sigma>)))"

definition ConnectionHandlerThread_win :: "'n win_env \<Rightarrow> 'n win_state \<Rightarrow> (exn + callback_call list) \<times> 'n win_state" where
  "ConnectionHandlerThread_win we = (\<lambda>(s, (l, w)).
     case nd_call (nd_CreateEvent (we_nd we)) w of ((ok, lastError), w) \<Rightarrow>
       if \<not> ok then (Inl (Crash ''exception in a thread''), (s, (l, w)))
       else
         (case connection_handler_body we (s, (l, w\<lparr>nw_events := Suc (nw_events w)\<rparr>)) of (r, (s, (l, w))) \<Rightarrow>
            (case r of Inl e \<Rightarrow> thread_exit e [] | Inr calls \<Rightarrow> Inr calls, (s, (l, w\<lparr>nw_events := nw_events w - 1\<rparr>)))))"

end
