(* ===== verification/WindowsEndpoints.thy ===== *)
theory WindowsEndpoints
  imports WindowsSession
begin

text \<open>
  Connecting, accepting and destroying on Windows: the rest of
  \<^verbatim>\<open>core/windows/RdmaConnectedSession.cpp\<close>, \<^verbatim>\<open>core/windows/RdmaConnector.cpp\<close> and
  \<^verbatim>\<open>core/windows/RdmaListener.cpp\<close>.
\<close>

section \<open>Connected sessions\<close>

text \<open>The local variable \<open>connector\<close> is the argument; the buffer of 1024 bytes holds any private data.\<close>

definition AcquireAndValidateConnectionData :: "'n win_env \<Rightarrow> nat \<Rightarrow> Direction \<Rightarrow> 'n wconn \<Rightarrow> (exn, unit, 'n wconn) outcome" where
  "AcquireAndValidateConnectionData we connector dir =
     overlapped_conn we (\<lambda>(l, w).
       case nd_call (nd_GetPrivateData (we_nd we) connector) w of ((hr, bytes), w) \<Rightarrow>
         (case overlapped_result (we_nd we) connector hr w of (hr, w) \<Rightarrow>
            (case HandleHR (we_codes we) ConnectedSession_win_cpp 242 hr of Inl e \<Rightarrow> (Inl e, (l, w))
             | Inr _ \<Rightarrow> (ValidateConnectionData bytes dir, (l, w)))))"

definition PostConnect_win :: "'n win_env \<Rightarrow> ('n, unit) win_op" where
  "PostConnect_win we = (\<lambda>(s, (l, w)).
     case ws_connector l of None \<Rightarrow> (Inl (Crash ''null interface''), (s, (l, w)))
     | Some k \<Rightarrow>
       (case nd_call (nd_GetPeerAddress (we_nd we) k) w of ((hr, sa), w) \<Rightarrow>
          case HandleHR (we_codes we) ConnectedSession_win_cpp 131 hr of Inl e \<Rightarrow> (Inl e, (s, (l, w)))
          | Inr _ \<Rightarrow>
            let l = l\<lparr>ws_remoteAddress := RdmaAddress_of_sockaddr sa\<rparr> in
            (case cpp_assert ''!eventHandler.joinable()'' (\<not> ws_eventHandler l) of Inl e \<Rightarrow> (Inl e, (s, (l, w)))
             | Inr _ \<Rightarrow>
               (case CreatePriorityThread_win (we_start_thread we) of Inl e \<Rightarrow> (Inl e, (s, (l, w)))
                | Inr _ \<Rightarrow>
                  let l = l\<lparr>ws_eventHandler := True\<rparr>; s = BasePostConnect s in
                  (case CreatePriorityThread_win (we_start_thread we) of Inl e \<Rightarrow> (Inl e, (s, (l, w)))
                   | Inr _ \<Rightarrow> (Inr (), (s, (l\<lparr>ws_connectionHandler := True\<rparr>, w))))))))"

text \<open>The disconnection in \<open>Destroy\<close>, whose exceptions are swallowed.\<close>

definition disconnect_quietly :: "'n win_env \<Rightarrow> int \<Rightarrow> string \<Rightarrow> nat \<Rightarrow> 'n wconn \<Rightarrow> (exn, unit, 'n wconn) outcome" where
  "disconnect_quietly we line file k c =
     (case overlapped_conn we (on_world (HandleHROverlapped (we_nd we) file line k (nd_Disconnect (we_nd we) k))) c of
        (Inl e, c) \<Rightarrow> (if catchable e then Inr () else Inl e, c)
      | (Inr _, c) \<Rightarrow> (Inr (), c))"

definition join_win :: "'n win_env \<Rightarrow> win_handler \<Rightarrow> bool \<Rightarrow> ConnectedSession \<Rightarrow> ConnectedSession" where
  "join_win we h joinable s = (if joinable then we_join we h s else s)"

text \<open>What \<open>Destroy\<close> releases after the connection handler has ended.\<close>

definition release_interfaces :: "'n win_env \<Rightarrow> 'n wconn \<Rightarrow> 'n wconn" where
  "release_interfaces we = (\<lambda>(l, w).
     let w = AutoRef_reset (ws_connector l) w;
         w = (case ws_qp l of None \<Rightarrow> w | Some qp \<Rightarrow> AutoRef_reset (Some qp) (snd (nd_call (\<lambda>n. ((), nd_Flush (we_nd we) qp n)) w)));
         w = (case ws_cq l of None \<Rightarrow> w
              | Some cq \<Rightarrow> AutoRef_reset (Some cq) (snd (nd_call (\<lambda>n. ((), nd_CancelOverlappedRequests (we_nd we) cq n)) w))) in
     (l\<lparr>ws_connector := None, ws_qp := None, ws_cq := None\<rparr>, w))"

definition Destroy_win :: "'n win_env \<Rightarrow> ('n, unit) win_op" where
  "Destroy_win we = (\<lambda>(s, (l, w)).
     let l = l\<lparr>ws_closing := True\<rparr> in
     case (case ws_connector l of None \<Rightarrow> (Inr (), (l, w))
           | Some k \<Rightarrow> disconnect_quietly we 55 ConnectedSession_win_cpp k (l, w)) of
       (Inl e, c) \<Rightarrow> (Inl e, (s, c))
     | (Inr _, (l, w)) \<Rightarrow>
       let s = join_win we Connection_handler_win (ws_connectionHandler l) s in
       (case release_interfaces we (l\<lparr>ws_connectionHandler := False\<rparr>, w) of (l, w) \<Rightarrow>
          let s = join_win we Event_handler_win (ws_eventHandler l) s in
          (Inr (), (s, (l\<lparr>ws_eventHandler := False, ws_adapterFile := False\<rparr>, w)))))"

text \<open>After \<open>Destroy\<close> the members are destroyed, of which only the adapter still holds a reference.\<close>

definition release_adapter :: "'n win_state \<Rightarrow> 'n win_state" where
  "release_adapter = (\<lambda>(s, (l, w)). (s, (l\<lparr>ws_adapter := None\<rparr>, AutoRef_reset (ws_adapter l) w)))"

definition RdmaConnectedSession_win_dtor :: "'n win_env \<Rightarrow> ('n, unit) win_op" where
  "RdmaConnectedSession_win_dtor we \<sigma> =
     (case Destroy_win we \<sigma> of (Inl e, \<sigma>) \<Rightarrow> (Inl e, \<sigma>) | (Inr _, \<sigma>) \<Rightarrow> (Inr (), release_adapter \<sigma>))"

text \<open>A constructor that throws after the object is destroyed again.\<close>

definition undo_construction :: "'n win_env \<Rightarrow> (exn, 'a, 'n win_state) outcome \<Rightarrow> (exn, 'a, 'n win_state) outcome" where
  "undo_construction we res =
     (case res of
        (Inl e, \<sigma>) \<Rightarrow>
          if \<not> catchable e then (Inl e, \<sigma>)
          else (case RdmaConnectedSession_win_dtor we \<sigma> of (Inl e', \<sigma>) \<Rightarrow> (Inl e', \<sigma>) | (Inr _, \<sigma>) \<Rightarrow> (Inl e, \<sigma>))
      | (Inr a, \<sigma>) \<Rightarrow> (Inr a, \<sigma>))"

definition win_session_new :: win_session where
  "win_session_new = \<lparr>ws_adapter = None, ws_adapterFile = False, ws_connector = None, ws_cq = None, ws_qp = None,
     ws_eventHandler = False, ws_connectionHandler = False, ws_closing = False, ws_remoteAddress = RdmaAddress_new\<rparr>"

definition overlapped_session :: "'n win_env \<Rightarrow> ('n, 'a) win_op \<Rightarrow> ('n, 'a) win_op" where
  "overlapped_session we = with_overlapped (we_nd we) (\<lambda>(s, (l, w)). w) (\<lambda>w (s, (l, _)). (s, (l, w)))"

definition accept_handshake_win :: "'n win_env \<Rightarrow> Direction \<Rightarrow> nat \<Rightarrow> int \<Rightarrow> ('n, unit) win_op" where
  "accept_handshake_win we dir incoming timeoutMs \<sigma> =
     bind_out (PreConnect (win_services we (snd \<sigma>)) dir \<sigma>) (\<lambda>_ \<sigma>.
       bind_out (on_wconn (AcquireAndValidateConnectionData we incoming dir) \<sigma>) (\<lambda>_ \<sigma>.
         overlapped_session we (\<lambda>\<sigma>.
           bind_out (on_wconn (on_world (HandleHROverlappedWithTimeout (we_nd we) ConnectedSession_win_cpp 32 incoming timeoutMs
                       (nd_Accept (we_nd we) incoming (ws_qp (fst (snd \<sigma>))) (cs_connectionData (fst \<sigma>))))) \<sigma>)
             (\<lambda>_ \<sigma>. PostConnect_win we \<sigma>)) \<sigma>))"

text \<open>The accepting constructor; it takes references of its own to the adapter and the connector.\<close>

definition RdmaConnectedSession_accept_win ::
  "'n win_env \<Rightarrow> tAccessManager \<Rightarrow> Direction \<Rightarrow> nat \<Rightarrow> nat \<Rightarrow> u8 list \<Rightarrow> int \<Rightarrow> 'n win_world \<Rightarrow>
   (exn, unit, 'n win_state) outcome" where
  "RdmaConnectedSession_accept_win we m dir adapter incoming connectionData timeoutMs w =
     undo_construction we
       (accept_handshake_win we dir incoming timeoutMs
         (ConnectedSession_new_data connectionData m,
          (win_session_new\<lparr>ws_adapter := Some adapter, ws_adapterFile := True, ws_connector := Some incoming\<rparr>,
           AddRef incoming (AddRef adapter w))))"

definition GetLocalAddress_win :: "'n win_env \<Rightarrow> 'n wconn \<Rightarrow> (exn, RdmaAddress, 'n wconn) outcome" where
  "GetLocalAddress_win we =
     through ws_connector (\<lambda>k (l, w).
       case nd_call (nd_GetLocalAddress (we_nd we) k) w of ((hr, sa), w) \<Rightarrow>
         (bind_res (HandleHR (we_codes we) ConnectedSession_win_cpp 194 hr) (\<lambda>_. Inr (RdmaAddress_of_sockaddr sa)), (l, w)))"

definition GetRemoteAddress_win :: "win_session \<Rightarrow> RdmaAddress" where
  "GetRemoteAddress_win l = ws_remoteAddress l"

section \<open>The connector\<close>

definition connector_setup_win :: "'n win_env \<Rightarrow> RdmaAddress \<Rightarrow> 'n wconn \<Rightarrow> (exn, unit, 'n wconn) outcome" where
  "connector_setup_win we addr =
     overlapped_conn we (\<lambda>c.
       bind_out (on_world (created (we_nd we) Connector_win_cpp 17 (nd_OpenAdapter (we_nd we) addr)) c) (\<lambda>adapter (l, w).
         bind_out (on_world (checked (we_nd we) Connector_win_cpp 22 (nd_CreateOverlappedFile (we_nd we) adapter))
                     (l\<lparr>ws_adapter := Some adapter\<rparr>, w)) (\<lambda>_ (l, w).
           bind_out (on_world (created (we_nd we) Connector_win_cpp 24 (nd_CreateConnector (we_nd we) adapter))
                       (l\<lparr>ws_adapterFile := True\<rparr>, w)) (\<lambda>k (l, w).
             on_world (checked (we_nd we) Connector_win_cpp 29 (nd_Bind (we_nd we) k addr))
               (l\<lparr>ws_connector := Some k\<rparr>, w)))))"

definition RdmaConnector_win_new ::
  "'n win_env \<Rightarrow> tAccessManager \<Rightarrow> RdmaAddress \<Rightarrow> 'n win_world \<Rightarrow> (exn, connector_flags, 'n win_state) outcome" where
  "RdmaConnector_win_new we m addr w =
     undo_construction we
       (bind_out (on_wconn (connector_setup_win we addr) (ConnectedSession_new m, (win_session_new, w)))
          (\<lambda>_ \<sigma>. (Inr \<lparr>everConnected = False, connectInProgress = False\<rparr>, \<sigma>)))"

definition Connector_Cancel_win :: "'n win_env \<Rightarrow> connector_flags \<Rightarrow> ('n, callback_call list) win_op" where
  "Connector_Cancel_win we k = (\<lambda>(s, c).
     case (if everConnected k then (Inr (), c)
           else through ws_connector (\<lambda>obj (l, w).
             disconnect_quietly we 85 Connector_win_cpp obj
               (l, snd (nd_call (\<lambda>n. ((), nd_CancelOverlappedRequests (we_nd we) obj n)) w))) c) of
       (Inl e, c) \<Rightarrow> (Inl e, (s, c))
     | (Inr _, c) \<Rightarrow> (case BaseCancel s of Inl e \<Rightarrow> (Inl e, (s, c)) | Inr (calls, s) \<Rightarrow> (Inr calls, (s, c))))"

definition win_manager_of :: "'n win_state \<Rightarrow> tAccessManager" where
  "win_manager_of \<sigma> = cs_accessManager (fst \<sigma>)"

definition put_win_manager :: "tAccessManager \<Rightarrow> 'n win_state \<Rightarrow> 'n win_state" where
  "put_win_manager m \<sigma> = ((fst \<sigma>)\<lparr>cs_accessManager := m\<rparr>, snd \<sigma>)"

text \<open>The inner block of \<open>Connect\<close>, with the access suspended.\<close>

definition connect_block_win :: "'n win_env \<Rightarrow> Direction \<Rightarrow> RdmaAddress \<Rightarrow> int \<Rightarrow> ('n, unit) win_op" where
  "connect_block_win we dir remote timeoutMs =
     overlapped_session we (\<lambda>\<sigma>.
       on_wconn (through ws_connector (\<lambda>k c.
         bind_out (on_world (HandleHROverlappedWithTimeout (we_nd we) Connector_win_cpp 53 k timeoutMs
                     (nd_Connect (we_nd we) k (ws_qp (fst c)) remote (cs_connectionData (fst \<sigma>)))) c) (\<lambda>_ c.
           bind_out (AcquireAndValidateConnectionData we k dir c) (\<lambda>_ c.
             on_world (HandleHROverlapped (we_nd we) Connector_win_cpp 66 k (nd_CompleteConnect (we_nd we) k)) c)))) \<sigma>)"

definition connect_attempt_win ::
  "'n win_env \<Rightarrow> nat \<Rightarrow> Direction \<Rightarrow> RdmaAddress \<Rightarrow> int \<Rightarrow> ('n, unit) win_op" where
  "connect_attempt_win we tid dir remote timeoutMs \<sigma> =
     bind_out (PreConnect (win_services we (snd \<sigma>)) dir \<sigma>) (\<lambda>_ \<sigma>.
       bind_out (access_suspended (we_regain we) tid win_manager_of put_win_manager
                   (connect_block_win we dir remote timeoutMs) \<sigma>) (\<lambda>_ \<sigma>.
         PostConnect_win we \<sigma>))"

definition Connect_win ::
  "'n win_env \<Rightarrow> nat \<Rightarrow> Direction \<Rightarrow> RdmaAddress \<Rightarrow> int \<Rightarrow>
   connector_flags \<times> 'n win_state \<Rightarrow> (exn, unit, connector_flags \<times> 'n win_state) outcome" where
  "Connect_win we tid dir remote timeoutMs = (\<lambda>(k, \<sigma>).
     if everConnected k then (Inl (RDMA_THROW Connector_win_cpp 42 easyrdma_Error_AlreadyConnected), (k, \<sigma>))
     else if connectInProgress k
     then (Inl (RDMA_THROW Connector_win_cpp 45 easyrdma_Error_InvalidOperation), (k, \<sigma>))
     else
       case connect_attempt_win we tid dir remote timeoutMs \<sigma> of
         (Inr _, \<sigma>) \<Rightarrow> (Inr (), (k\<lparr>everConnected := True, connectInProgress := False\<rparr>, \<sigma>))
       | (Inl e, \<sigma>) \<Rightarrow>
           if \<not> catchable e then (Inl e, (k\<lparr>connectInProgress := True\<rparr>, \<sigma>))
           else
             let k = k\<lparr>connectInProgress := False\<rparr> in
             (case Connector_Cancel_win we k \<sigma> of
                (Inl e', \<sigma>) \<Rightarrow> (Inl e', (k, \<sigma>))
              | (Inr _, (s, c)) \<Rightarrow> (Inl e, (k, (s, DestroyQP_win c)))))"

section \<open>The listener\<close>

record win_listener =
  lw_adapter :: "nat option"
  lw_adapterFile :: bool
  lw_listen :: "nat option"
  lw_acceptInProgress :: bool
  lw_connectionData :: "u8 list"
  lw_accessManager :: tAccessManager

text \<open>The members of a listener whose constructor throws are destroyed.\<close>

definition release_listener :: "win_listener \<times> 'n win_world \<Rightarrow> 'n win_world" where
  "release_listener = (\<lambda>(ln, w). AutoRef_reset (lw_adapter ln) (AutoRef_reset (lw_listen ln) w))"

definition listener_setup_win :: "'n win_env \<Rightarrow> RdmaAddress \<Rightarrow> win_listener \<times> 'n win_world \<Rightarrow>
    (exn, unit, win_listener \<times> 'n win_world) outcome" where
  "listener_setup_win we addr =
     overlapped_conn we (\<lambda>c.
       bind_out (on_world (created (we_nd we) Listener_win_cpp 15 (nd_OpenAdapter (we_nd we) addr)) c) (\<lambda>adapter (ln, w).
         bind_out (on_world (checked (we_nd we) Listener_win_cpp 20 (nd_CreateOverlappedFile (we_nd we) adapter))
                     (ln\<lparr>lw_adapter := Some adapter\<rparr>, w)) (\<lambda>_ (ln, w).
           bind_out (on_world (created (we_nd we) Listener_win_cpp 22 (nd_CreateListener (we_nd we) adapter))
                       (ln\<lparr>lw_adapterFile := True\<rparr>, w)) (\<lambda>obj (ln, w).
             bind_out (on_world (checked (we_nd we) Listener_win_cpp 26 (nd_Bind (we_nd we) obj addr))
                         (ln\<lparr>lw_listen := Some obj\<rparr>, w)) (\<lambda>_ c.
               on_world (checked (we_nd we) Listener_win_cpp 30 (nd_Listen (we_nd we) obj)) c)))))"

definition RdmaListener_win_new ::
  "'n win_env \<Rightarrow> tAccessManager \<Rightarrow> RdmaAddress \<Rightarrow> 'n win_world \<Rightarrow> (exn, win_listener, 'n win_world) outcome" where
  "RdmaListener_win_new we m addr w =
     (case listener_setup_win we addr
             (\<lparr>lw_adapter = None, lw_adapterFile = False, lw_listen = None, lw_acceptInProgress = False,
               lw_connectionData = [], lw_accessManager = m\<rparr>, w) of
        (Inl e, c) \<Rightarrow> (Inl e, if catchable e then release_listener c else snd c)
      | (Inr _, (ln, w)) \<Rightarrow> (Inr ln, w))"

definition put_win_listener_manager :: "tAccessManager \<Rightarrow> win_listener \<times> 'n win_world \<Rightarrow> win_listener \<times> 'n win_world" where
  "put_win_listener_manager m c = ((fst c)\<lparr>lw_accessManager := m\<rparr>, snd c)"

text \<open>
  The \<open>try\<close> block of \<open>Accept\<close> with its handler; \<open>incoming\<close> is the local \<open>AutoRef\<close>.
\<close>

definition accept_try_win ::
  "'n win_env \<Rightarrow> tAccessManager \<Rightarrow> Direction \<Rightarrow> int \<Rightarrow> nat \<Rightarrow> nat \<Rightarrow> win_listener \<times> 'n win_world \<Rightarrow>
   (exn, ConnectedSession \<times> win_session, win_listener \<times> 'n win_world) outcome" where
  "accept_try_win we m dir timeoutMs adapter incoming =
     through lw_listen (\<lambda>obj (ln, w).
       case bind_out (HandleHROverlappedWithTimeout (we_nd we) Listener_win_cpp 53 incoming timeoutMs
                        (nd_GetConnectionRequest (we_nd we) obj incoming) w) (\<lambda>_ w.
              case RdmaConnectedSession_accept_win we m dir adapter incoming (lw_connectionData ln) timeoutMs w of
                (Inl e, (s, (l, w))) \<Rightarrow> (Inl e, w)
              | (Inr _, (s, (l, w))) \<Rightarrow> (Inr (s, l), w)) of
         (Inr session, w) \<Rightarrow> (Inr session, (ln\<lparr>lw_acceptInProgress := False\<rparr>, w))
       | (Inl e, w) \<Rightarrow>
           if \<not> catchable e then (Inl e, (ln, w))
           else (Inl e, (ln\<lparr>lw_acceptInProgress := False\<rparr>,
                         snd (nd_call (\<lambda>n. ((), nd_CancelOverlappedRequests (we_nd we) obj n)) w))))"

definition Accept_win ::
  "'n win_env \<Rightarrow> tAccessManager \<Rightarrow> nat \<Rightarrow> Direction \<Rightarrow> int \<Rightarrow> win_listener \<times> 'n win_world \<Rightarrow>
   (exn, ConnectedSession \<times> win_session, win_listener \<times> 'n win_world) outcome" where
  "Accept_win we m tid dir timeoutMs = (\<lambda>(ln, w).
     if lw_acceptInProgress ln then (Inl (RDMA_THROW Listener_win_cpp 41 easyrdma_Error_InvalidOperation), (ln, w))
     else
       overlapped_conn we (through lw_adapter (\<lambda>adapter c.
         bind_out (on_world (created (we_nd we) Listener_win_cpp 46 (nd_CreateConnector (we_nd we) adapter)) c) (\<lambda>incoming c.
           case access_suspended (we_regain we) tid (\<lambda>c. lw_accessManager (fst c)) put_win_listener_manager
                  (accept_try_win we m dir timeoutMs adapter incoming) c of
             (r, (ln, w)) \<Rightarrow> (r, (ln, AutoRef_reset (Some incoming) w)))))
       (ln\<lparr>lw_acceptInProgress := True\<rparr>, w))"

definition Listener_GetLocalAddress_win :: "'n win_env \<Rightarrow> win_listener \<times> 'n win_world \<Rightarrow>
    (exn, RdmaAddress, win_listener \<times> 'n win_world) outcome" where
  "Listener_GetLocalAddress_win we =
     through lw_listen (\<lambda>obj (ln, w).
       case nd_call (nd_GetLocalAddress (we_nd we) obj) w of ((hr, sa), w) \<Rightarrow>
         (bind_res (HandleHR (we_codes we) Listener_win_cpp 69 hr) (\<lambda>_. Inr (RdmaAddress_of_sockaddr sa)), (ln, w)))"

definition Listener_GetRemoteAddress_win :: "win_listener \<Rightarrow> RdmaAddress" where
  "Listener_GetRemoteAddress_win ln = RdmaAddress_new"

definition Listener_Cancel_win :: "'n win_env \<Rightarrow> win_listener \<times> 'n win_world \<Rightarrow> (exn, unit, win_listener \<times> 'n win_world) outcome" where
  "Listener_Cancel_win we =
     through lw_listen (\<lambda>obj (ln, w).
       (Inr (), (ln, snd (nd_call (\<lambda>n. ((), nd_CancelOverlappedRequests (we_nd we) obj n)) w))))"

end
