(* ===== verification/WindowsLemmas.thy ===== *)
theory WindowsLemmas
  imports WindowsEndpoints LinuxLemmas
begin

text \<open>
  What the operations of the Windows back end do to the references and event handles the library
  holds.  The predicate \<open>holds\<close> says that an object under construction has added exactly the
  references in its members to the world it started in; every operation keeps it, and the
  destructor gives all of them back.
\<close>

section \<open>References\<close>

definition held :: "nat option \<Rightarrow> nat list" where
  "held ref = (case ref of None \<Rightarrow> [] | Some obj \<Rightarrow> [obj])"

definition session_refs :: "win_session \<Rightarrow> nat list" where
  "session_refs l = held (ws_adapter l) @ held (ws_connector l) @ held (ws_cq l) @ held (ws_qp l)"

definition listener_refs :: "win_listener \<Rightarrow> nat list" where
  "listener_refs ln = held (lw_adapter ln) @ held (lw_listen ln)"

text \<open>
  Against the world it started in, an object holds exactly the references of its members and
  \<open>k\<close> event handles.
\<close>

definition holds :: "('l \<Rightarrow> nat list) \<Rightarrow> nat \<Rightarrow> 'n win_world \<Rightarrow> 'l \<times> 'n win_world \<Rightarrow> bool" where
  "holds refs k w0 c \<longleftrightarrow> mset (nw_refs (snd c)) = mset (refs (fst c)) + mset (nw_refs w0)
     \<and> nw_events (snd c) = nw_events w0 + k"

definition balanced :: "'n win_world \<Rightarrow> 'n win_world \<Rightarrow> bool" where
  "balanced w w' \<longleftrightarrow> mset (nw_refs w') = mset (nw_refs w) \<and> nw_events w' = nw_events w"

lemma held_simps [simp]: "held None = []" "held (Some x) = [x]"
  by (simp_all add: held_def)

lemma holds_nd_call: "holds refs k w0 (l, w) \<Longrightarrow> nd_call f w = (a, w') \<Longrightarrow> holds refs k w0 (l, w')"
  by (auto simp: holds_def nd_call_def split: prod.splits)

lemma holds_snd_nd_call [simp]: "holds refs k w0 (l, snd (nd_call f w)) = holds refs k w0 (l, w)"
  by (auto simp: holds_def nd_call_def split: prod.splits)

lemma keeps_on_world:
  assumes "\<And>l w. holds refs k w0 (l, w) \<Longrightarrow> holds refs k w0 (l, snd (f w))"
  shows "keeps (holds refs k w0) (on_world f)"
proof
  fix c :: "'a \<times> 'b win_world" assume "holds refs k w0 c"
  with assms show "holds refs k w0 (snd (on_world f c))"
    by (cases c) (simp add: on_world_def case_prod_unfold)
qed

lemma keeps_checked: "keeps (holds refs k w0) (on_world (checked nd file line f))"
  by (rule keeps_on_world) (simp add: checked_def case_prod_unfold)

lemma keeps_overlapped: "keeps (holds refs k w0) (on_world (HandleHROverlapped nd file line obj f))"
  by (rule keeps_on_world) (simp add: HandleHROverlapped_def overlapped_result_def case_prod_unfold)

lemma keeps_overlapped_timeout:
  "keeps (holds refs k w0) (on_world (HandleHROverlappedWithTimeout nd file line obj timeoutMs f))"
  by (rule keeps_on_world)
    (auto simp: HandleHROverlappedWithTimeout_def HandleHROverlappedWithTimeoutInternal_def case_prod_unfold split: bool.split)

lemma keeps_through: "(\<And>obj. keeps P (f obj)) \<Longrightarrow> keeps P (through ref f)"
  by (auto simp: through_def keeps_def split: option.split)

text \<open>
  \<open>runs P f Q E\<close>: from a state in \<open>P\<close> the operation ends in \<open>Q\<close> of its result, or throws in \<open>E\<close>.
\<close>

definition runs :: "('c \<Rightarrow> bool) \<Rightarrow> ('c \<Rightarrow> ('e, 'a, 'c) outcome) \<Rightarrow> ('a \<Rightarrow> 'c \<Rightarrow> bool) \<Rightarrow> ('c \<Rightarrow> bool) \<Rightarrow> bool" where
  "runs P f Q E \<longleftrightarrow> (\<forall>c. P c \<longrightarrow> (case f c of (Inl e, c') \<Rightarrow> E c' | (Inr a, c') \<Rightarrow> Q a c'))"

lemma runs_bind: "runs P f Q E \<Longrightarrow> (\<And>a. runs (Q a) (g a) R E) \<Longrightarrow> runs P (\<lambda>c. bind_out (f c) g) R E"
  unfolding runs_def
proof (intro allI impI)
  fix c assume step: "\<forall>c. P c \<longrightarrow> (case f c of (Inl e, c') \<Rightarrow> E c' | (Inr a, c') \<Rightarrow> Q a c')" and "P c"
    and more: "\<And>a. \<forall>c. Q a c \<longrightarrow> (case g a c of (Inl e, c') \<Rightarrow> E c' | (Inr b, c') \<Rightarrow> R b c')"
  obtain r c1 where f: "f c = (r, c1)" by (cases "f c")
  with step \<open>P c\<close> have "case r of Inl e \<Rightarrow> E c1 | Inr a \<Rightarrow> Q a c1" by force
  with more show "case bind_out (f c) g of (Inl e, c') \<Rightarrow> E c' | (Inr b, c') \<Rightarrow> R b c'"
    by (cases r) (simp_all add: f bind_out_def)
qed

lemma runs_pre: "runs P f Q E \<Longrightarrow> (\<And>c. P' c \<Longrightarrow> P c) \<Longrightarrow> runs P' f Q E"
  by (simp add: runs_def)

lemma runs_after: "runs P f Q E \<Longrightarrow> (\<And>c. P' c \<Longrightarrow> P (u c)) \<Longrightarrow> runs P' (\<lambda>c. f (u c)) Q E"
  by (simp add: runs_def)

lemma runs_update: "runs P f Q E \<Longrightarrow> (\<And>l w. P' (l, w) \<Longrightarrow> P (u l, w)) \<Longrightarrow> runs P' (\<lambda>(l, w). f (u l, w)) Q E"
  by (simp add: runs_def)

lemma keeps_runs: "keeps P f \<longleftrightarrow> runs P f (\<lambda>_. P) P"
proof -
  have "(case r of Inl e \<Rightarrow> x | Inr a \<Rightarrow> x) = x" for r :: "'e + 'f" and x :: bool by (cases r) simp_all
  then show ?thesis by (simp add: runs_def keeps_def case_prod_unfold)
qed

lemma keeps_runs_pre: "keeps P f \<Longrightarrow> (\<And>c. P' c \<Longrightarrow> P c) \<Longrightarrow> runs P' f (\<lambda>_. P) P"
  using keeps_runs runs_pre by metis

text \<open>The event of an overlapped block is closed on every way out.\<close>

lemma runs_with_event:
  assumes "runs (\<lambda>c. holds refs (Suc k) w0 c \<and> Q (fst c)) body (\<lambda>_. holds refs (Suc k) w0) (holds refs (Suc k) w0)"
  shows "runs (\<lambda>c. holds refs k w0 c \<and> Q (fst c)) (overlapped_conn we body) (\<lambda>_. holds refs k w0) (holds refs k w0)"
  unfolding runs_def
proof (intro allI impI)
  fix c :: "'a \<times> 'b win_world" assume c: "holds refs k w0 c \<and> Q (fst c)"
  obtain l w where lw: "c = (l, w)" by (cases c)
  obtain ok err w1 where ev: "nd_call (nd_CreateEvent (we_nd we)) w = ((ok, err), w1)"
    by (metis prod.collapse)
  let ?w = "w1\<lparr>nw_events := Suc (nw_events w1)\<rparr>"
  have w1: "holds refs k w0 (l, w1)" by (rule holds_nd_call [OF _ ev]) (use c lw in simp)
  then have "holds refs (Suc k) w0 (l, ?w) \<and> Q l" using c lw by (simp add: holds_def)
  then have "case body (l, ?w) of (Inl e, c) \<Rightarrow> holds refs (Suc k) w0 c | (Inr a, c) \<Rightarrow> holds refs (Suc k) w0 c"
    using assms by (simp add: runs_def)
  then show "case overlapped_conn we body c of (Inl e, c) \<Rightarrow> holds refs k w0 c | (Inr a, c) \<Rightarrow> holds refs k w0 c"
    using w1 by (auto simp: overlapped_conn_def with_overlapped_def lw ev holds_def split: prod.splits sum.splits)
qed

lemma keeps_with_event:
  assumes "keeps (holds refs (Suc k) w0) body"
  shows "keeps (holds refs k w0) (overlapped_conn we body)"
  using runs_with_event [of refs k w0 "\<lambda>_. True" body we] assms by (simp add: keeps_runs)

text \<open>A new object is one more reference until it is stored.\<close>

lemma runs_created:
  "runs (\<lambda>c. holds refs k w0 c \<and> Q (fst c)) (on_world (created nd file line f))
     (\<lambda>obj c. holds (\<lambda>l. obj # refs l) k w0 c \<and> Q (fst c)) (holds refs k w0)"
  by (auto simp: runs_def on_world_def created_def AddRef_def holds_def nd_call_def split: prod.splits if_splits)

lemma runs_checked:
  "runs (\<lambda>c. holds refs k w0 c \<and> Q (fst c)) (on_world (checked nd file line f))
     (\<lambda>_ c. holds refs k w0 c \<and> Q (fst c)) (holds refs k w0)"
  by (auto simp: runs_def on_world_def checked_def holds_def nd_call_def split: prod.splits sum.splits)

text \<open>A step on an updated object, followed by the rest.\<close>

lemma runs_bind_update:
  "runs P (\<lambda>(l, w). f (u l, w)) Q E \<Longrightarrow> (\<And>a. runs (Q a) (g a) R E) \<Longrightarrow> runs P (\<lambda>(l, w). bind_out (f (u l, w)) g) R E"
  unfolding case_prod_unfold by (rule runs_bind)

lemma runs_through: "(\<And>obj. runs (\<lambda>c. P c \<and> ref (fst c) = Some obj) (f obj) Q E) \<Longrightarrow> (\<And>c. P c \<Longrightarrow> E c) \<Longrightarrow> runs P (through ref f) Q E"
  by (auto simp: runs_def through_def split: option.splits)

lemma keeps_SetupQueuePair_win: "keeps (holds session_refs k w0) (SetupQueuePair_win we)"
proof -
  let ?Q = "\<lambda>l. ws_cq l = None \<and> ws_qp l = None"
  let ?H = "holds session_refs (Suc k) w0"
  let ?cq = "\<lambda>a d. created (we_nd we) ConnectedSession_win_cpp 100 (nd_CreateCompletionQueue (we_nd we) a d)"
  let ?qp = "\<lambda>a cq d t. created (we_nd we) ConnectedSession_win_cpp 109 (nd_CreateQueuePair (we_nd we) a cq d 2 t)"
  have "runs (\<lambda>c. holds (\<lambda>l. cq # session_refs l) (Suc k) w0 c \<and> ?Q (fst c))
      (\<lambda>c. bind_out (on_world (?qp a cq d t) (store_cq cq c)) (\<lambda>qp c. (Inr (), store_qp qp c))) (\<lambda>_. ?H) ?H" for a cq d t
  proof (rule runs_bind)
    show "runs (\<lambda>c. holds (\<lambda>l. cq # session_refs l) (Suc k) w0 c \<and> ?Q (fst c)) (\<lambda>c. on_world (?qp a cq d t) (store_cq cq c))
        (\<lambda>obj c. holds (\<lambda>l. obj # session_refs l) (Suc k) w0 c \<and> ws_qp (fst c) = None) ?H"
      by (rule runs_after [OF runs_created]) (simp add: store_cq_def holds_def session_refs_def case_prod_unfold)
    show "runs (\<lambda>c. holds (\<lambda>l. qp # session_refs l) (Suc k) w0 c \<and> ws_qp (fst c) = None)
        (\<lambda>c. (Inr (), store_qp qp c)) (\<lambda>_. ?H) ?H" for qp
      by (auto simp: runs_def store_qp_def holds_def session_refs_def)
  qed
  then have made: "runs (\<lambda>c. ?H c \<and> ?Q (fst c)) (\<lambda>c. bind_out (on_world (?cq a d) c) (\<lambda>cq c.
      bind_out (on_world (?qp a cq d t) (store_cq cq c)) (\<lambda>qp c. (Inr (), store_qp qp c)))) (\<lambda>_. ?H) ?H" for a d t
    by (rule runs_bind [OF runs_created])
  have "runs (\<lambda>c. ?H c \<and> ?Q (fst c)) (through ws_adapter (\<lambda>adapter c.
          case nd_call (nd_Query (we_nd we) adapter) (snd c) of ((hr, maxCq, maxInitiator, inlineThreshold), w) \<Rightarrow>
            case HandleHR (we_codes we) ConnectedSession_win_cpp 92 hr of Inl e \<Rightarrow> (Inl e, (fst c, w))
            | Inr _ \<Rightarrow>
              let queueDepth = min maxCq maxInitiator in
              bind_out (on_world (?cq adapter queueDepth) (fst c, w)) (\<lambda>cq c.
                bind_out (on_world (?qp adapter cq queueDepth inlineThreshold) (store_cq cq c))
                  (\<lambda>qp c. (Inr (), store_qp qp c))))) (\<lambda>_. ?H) ?H" (is "runs _ (through _ ?body) _ _")
  proof (rule runs_through)
    fix adapter
    show "runs (\<lambda>c. (?H c \<and> ?Q (fst c)) \<and> ws_adapter (fst c) = Some adapter) (?body adapter) (\<lambda>_. ?H) ?H"
      unfolding runs_def
    proof (intro allI impI)
      fix c :: "'a wconn" assume c: "(?H c \<and> ?Q (fst c)) \<and> ws_adapter (fst c) = Some adapter"
      obtain hr maxCq maxInitiator t w where q: "nd_call (nd_Query (we_nd we) adapter) (snd c) = ((hr, maxCq, maxInitiator, t), w)"
        by (metis prod_cases4 surj_pair)
      have w: "?H (fst c, w)" by (rule holds_nd_call [OF _ q]) (use c in simp)
      from made [of adapter "min maxCq maxInitiator" t] c w
      show "case ?body adapter c of (Inl e, c') \<Rightarrow> ?H c' | (Inr a, c') \<Rightarrow> ?H c'"
        by (cases "HandleHR (we_codes we) ConnectedSession_win_cpp 92 hr") (simp_all add: q runs_def Let_def)
    qed
  qed simp
  from runs_with_event [OF this, of we] show ?thesis
    by (simp add: SetupQueuePair_win_def keeps_runs runs_def cpp_assert_def)
qed

lemma keeps_QueueToQp_win: "keeps (holds refs k w0) (QueueToQp_win we dir i b)"
  unfolding QueueToQp_win_def by (intro keeps_through keeps_checked)

text \<open>The Windows session implements the interface of the base class.\<close>

interpretation win: backend "win_services we c" "holds session_refs k w0" for we c k w0
proof
  fix \<sigma> :: "'a win_state" and timeoutMs :: int
  show "keeps_conn (holds session_refs k w0) (svc_PollForReceive (win_services we c) timeoutMs)"
    by (simp add: win_services_def PollForReceive_win_def keeps_def)
  assume "holds session_refs k w0 (snd \<sigma>)"
  then show "holds session_refs k w0 (snd (snd (svc_wait_transfer (win_services we c) \<sigma>)))"
    by (cases \<sigma>) (simp add: win_services_def split: prod.split)
qed (simp_all add: win_services_def keeps_QueueToQp_win keeps_SetupQueuePair_win)

lemma keeps_PreConnect_win:
  "keeps_conn (holds session_refs k w0) (\<lambda>\<sigma>. PreConnect (win_services we (snd \<sigma>)) dir \<sigma>)"
proof
  fix \<sigma> :: "'a win_state" assume "holds session_refs k w0 (snd \<sigma>)"
  then show "holds session_refs k w0 (snd (snd (PreConnect (win_services we (snd \<sigma>)) dir \<sigma>)))"
    by (rule keeps_snd [OF win.PreConnect_keeps])
qed

lemma keeps_private_data: "keeps (holds refs k w0) (AcquireAndValidateConnectionData we connector dir :: 'n wconn \<Rightarrow> _)"
  unfolding AcquireAndValidateConnectionData_def
  by (intro keeps_with_event) (auto simp: overlapped_result_def case_prod_unfold split: sum.split)


section \<open>Sessions\<close>

lemma keeps_on_wconn: "keeps P f \<Longrightarrow> keeps (\<lambda>\<sigma>. P (snd \<sigma>)) (on_wconn f)"
  by (simp add: keeps_def on_wconn_def case_prod_unfold)

lemma keeps_on_wconn_state: "(\<And>\<sigma>. keeps P (f \<sigma>)) \<Longrightarrow> keeps (\<lambda>\<sigma>. P (snd \<sigma>)) (\<lambda>\<sigma>. on_wconn (f \<sigma>) \<sigma>)"
  by (simp add: keeps_def on_wconn_def case_prod_unfold)

lemma keeps_overlapped_session:
  assumes "keeps (\<lambda>\<sigma>. holds refs (Suc k) w0 (snd \<sigma>)) f"
  shows "keeps (\<lambda>\<sigma>. holds refs k w0 (snd \<sigma>)) (overlapped_session we f)"
proof
  fix \<sigma> :: "'a win_state" assume own: "holds refs k w0 (snd \<sigma>)"
  obtain s l w where \<sigma>: "\<sigma> = (s, (l, w))" by (metis prod_cases3)
  obtain ok err w1 where ev: "nd_call (nd_CreateEvent (we_nd we)) w = ((ok, err), w1)"
    by (metis prod.collapse)
  let ?\<sigma> = "(s, (l, w1\<lparr>nw_events := Suc (nw_events w1)\<rparr>))"
  have w1: "holds refs k w0 (l, w1)" by (rule holds_nd_call [OF _ ev]) (use own \<sigma> in simp)
  then have "holds refs (Suc k) w0 (snd ?\<sigma>)" by (simp add: holds_def)
  with assms have "holds refs (Suc k) w0 (snd (snd (f ?\<sigma>)))" unfolding keeps_def by blast
  with w1 show "holds refs k w0 (snd (snd (overlapped_session we f \<sigma>)))"
    by (auto simp: overlapped_session_def with_overlapped_def \<sigma> ev holds_def case_prod_unfold)
qed

lemma holds_session_fields [simp]:
  "holds session_refs k w0 (l\<lparr>ws_remoteAddress := a\<rparr>, w) = holds session_refs k w0 (l, w)"
  "holds session_refs k w0 (l\<lparr>ws_eventHandler := b\<rparr>, w) = holds session_refs k w0 (l, w)"
  "holds session_refs k w0 (l\<lparr>ws_connectionHandler := b\<rparr>, w) = holds session_refs k w0 (l, w)"
  "holds session_refs k w0 (l\<lparr>ws_closing := b\<rparr>, w) = holds session_refs k w0 (l, w)"
  "holds session_refs k w0 (l\<lparr>ws_adapterFile := b\<rparr>, w) = holds session_refs k w0 (l, w)"
  by (simp_all add: holds_def session_refs_def)

lemma keeps_PostConnect_win: "keeps (\<lambda>\<sigma>. holds session_refs k w0 (snd \<sigma>)) (PostConnect_win we)"
proof
  fix \<sigma> :: "'a win_state" assume "holds session_refs k w0 (snd \<sigma>)"
  then show "holds session_refs k w0 (snd (snd (PostConnect_win we \<sigma>)))"
    by (cases \<sigma>) (auto simp: PostConnect_win_def Let_def case_prod_unfold split: option.split sum.split)
qed

lemma keeps_accept_handshake: "keeps (\<lambda>\<sigma>. holds session_refs k w0 (snd \<sigma>)) (accept_handshake_win we dir incoming timeoutMs)"
  unfolding accept_handshake_win_def
  by (intro keeps_bind keeps_PreConnect_win keeps_on_wconn keeps_private_data keeps_overlapped_session
      keeps_on_wconn_state keeps_overlapped_timeout keeps_PostConnect_win)

lemma keeps_connect_block: "keeps (\<lambda>\<sigma>. holds session_refs k w0 (snd \<sigma>)) (connect_block_win we dir remote timeoutMs)"
proof -
  have conn: "keeps (holds session_refs n w0) (\<lambda>c. on_world (HandleHROverlappedWithTimeout nd src ln obj timeoutMs (f c)) c)"
    for n nd src ln obj and f :: "'a wconn \<Rightarrow> _"
    using keeps_overlapped_timeout unfolding keeps_def by blast
  show ?thesis
    unfolding connect_block_win_def
    by (intro keeps_overlapped_session keeps_on_wconn_state keeps_through keeps_bind conn keeps_private_data keeps_overlapped)
qed

lemma keeps_connect_attempt:
  "keeps (\<lambda>\<sigma>. holds session_refs k w0 (snd \<sigma>)) (connect_attempt_win we tid dir remote timeoutMs)"
  unfolding connect_attempt_win_def
  by (intro keeps_bind keeps_PreConnect_win keeps_suspended keeps_connect_block keeps_PostConnect_win)
    (simp add: put_win_manager_def)

lemma keeps_disconnect: "keeps (holds refs k w0) (disconnect_quietly we line file obj)"
proof -
  have "keeps (holds refs k w0)
      (overlapped_conn we (on_world (HandleHROverlapped (we_nd we) file line obj (nd_Disconnect (we_nd we) obj))))"
    by (intro keeps_with_event keeps_overlapped)
  then show ?thesis
    by (auto simp: keeps_def disconnect_quietly_def split: prod.splits sum.splits) (metis snd_conv)+
qed

lemma disconnect_quietly_quiet: "fst (disconnect_quietly we line file obj c) = Inr ()"
  by (auto simp: disconnect_quietly_def overlapped_conn_def with_overlapped_def on_world_def HandleHROverlapped_def
      HandleHR_def THROW_HRESULT_ERROR_def catchable_def case_prod_unfold split: sum.split)

lemma holds_DestroyQP: "holds session_refs k w0 c \<Longrightarrow> holds session_refs k w0 (DestroyQP_win c)"
  by (cases c) (auto simp: holds_def session_refs_def DestroyQP_win_def AutoRef_reset_def held_def split: option.splits)

lemma keeps_Connector_Cancel: "keeps (\<lambda>\<sigma>. holds session_refs k w0 (snd \<sigma>)) (Connector_Cancel_win we flags)"
proof
  fix \<sigma> :: "'a win_state" assume own: "holds session_refs k w0 (snd \<sigma>)"
  obtain s c where \<sigma>: "\<sigma> = (s, c)" by (cases \<sigma>)
  have "keeps (holds session_refs k w0) (through ws_connector (\<lambda>obj (l, w).
             disconnect_quietly we 85 Connector_win_cpp obj
               (l, snd (nd_call (\<lambda>n. ((), nd_CancelOverlappedRequests (we_nd we) obj n)) w))))"
    using keeps_disconnect [of session_refs k w0 we] by (intro keeps_through) (auto simp: keeps_def)
  then have "holds session_refs k w0 (snd (if everConnected flags then (Inr (), c) else through ws_connector (\<lambda>obj (l, w).
             disconnect_quietly we 85 Connector_win_cpp obj
               (l, snd (nd_call (\<lambda>n. ((), nd_CancelOverlappedRequests (we_nd we) obj n)) w))) c))" (is "holds _ _ _ (snd ?res)")
    using own \<sigma> by (cases c) (simp add: keeps_def)
  moreover obtain r c' where "?res = (r, c')" by (cases ?res)
  ultimately show "holds session_refs k w0 (snd (snd (Connector_Cancel_win we flags \<sigma>)))"
    by (simp add: Connector_Cancel_win_def \<sigma> split: sum.split)
qed

lemma keeps_Connect_win: "keeps (\<lambda>(k, \<sigma>). holds session_refs n w0 (snd \<sigma>)) (Connect_win we tid dir remote timeoutMs)"
proof
  fix x :: "connector_flags \<times> 'a win_state" assume "case x of (k, \<sigma>) \<Rightarrow> holds session_refs n w0 (snd \<sigma>)"
  then obtain k \<sigma> where x: "x = (k, \<sigma>)" and own: "holds session_refs n w0 (snd \<sigma>)" by (cases x) auto
  obtain r \<sigma>1 where a: "connect_attempt_win we tid dir remote timeoutMs \<sigma> = (r, \<sigma>1)"
    by (cases "connect_attempt_win we tid dir remote timeoutMs \<sigma>")
  from keepsD [OF keeps_connect_attempt own a] have own1: "holds session_refs n w0 (snd \<sigma>1)" .
  obtain r2 s2 c2 where c: "Connector_Cancel_win we (k\<lparr>connectInProgress := False\<rparr>) \<sigma>1 = (r2, (s2, c2))"
    by (metis prod_cases3)
  from keepsD [OF keeps_Connector_Cancel own1 c] have "holds session_refs n w0 c2" by simp
  with own own1 holds_DestroyQP show "case snd (Connect_win we tid dir remote timeoutMs x) of (k, \<sigma>) \<Rightarrow> holds session_refs n w0 (snd \<sigma>)"
    by (cases c2) (auto simp: Connect_win_def x a c Let_def split: sum.split)
qed

lemma release_interfaces_holds:
  assumes "holds session_refs k w0 c"
  shows "holds (\<lambda>l. held (ws_adapter l)) k w0 (release_interfaces we c)" and "ws_adapter (fst (release_interfaces we c)) = ws_adapter (fst c)"
proof -
  obtain l w where c: "c = (l, w)" by (cases c)
  show "ws_adapter (fst (release_interfaces we c)) = ws_adapter (fst c)" by (simp add: release_interfaces_def c Let_def)
  show "holds (\<lambda>l. held (ws_adapter l)) k w0 (release_interfaces we c)"
    using assms
    by (auto simp: holds_def session_refs_def release_interfaces_def c Let_def AutoRef_reset_def nd_call_def held_def split: option.splits)
qed

text \<open>The destructor gives everything back, whatever the driver answers.\<close>

lemma dtor_balances:
  assumes "holds session_refs 0 w0 (snd \<sigma>)"
  shows "\<exists>\<sigma>'. RdmaConnectedSession_win_dtor we \<sigma> = (Inr (), \<sigma>') \<and> balanced w0 (snd (snd \<sigma>'))"
proof -
  obtain s l w where \<sigma>: "\<sigma> = (s, (l, w))" by (metis prod_cases3)
  let ?d = "case ws_connector l of None \<Rightarrow> (Inr (), (l\<lparr>ws_closing := True\<rparr>, w))
     | Some k \<Rightarrow> disconnect_quietly we 55 ConnectedSession_win_cpp k (l\<lparr>ws_closing := True\<rparr>, w)"
  have "fst ?d = Inr ()" by (simp add: disconnect_quietly_quiet split: option.split)
  then obtain l1 w1 where d: "?d = (Inr (), (l1, w1))" by (metis prod.collapse)
  have "holds session_refs 0 w0 (l1, w1)"
  proof (cases "ws_connector l")
    case None
    with d assms \<sigma> show ?thesis by auto
  next
    case (Some obj)
    with d keepsD [OF keeps_disconnect, of session_refs 0 w0 "(l\<lparr>ws_closing := True\<rparr>, w)"] assms \<sigma> show ?thesis by auto
  qed
  then have "holds session_refs 0 w0 (l1\<lparr>ws_connectionHandler := False\<rparr>, w1)" by simp
  note own = release_interfaces_holds [OF this, of we]
  obtain l2 w2 where R: "release_interfaces we (l1\<lparr>ws_connectionHandler := False\<rparr>, w1) = (l2, w2)"
    by (cases "release_interfaces we (l1\<lparr>ws_connectionHandler := False\<rparr>, w1)")
  obtain s' l' where run: "RdmaConnectedSession_win_dtor we \<sigma> = (Inr (), (s', (l', AutoRef_reset (ws_adapter l2) w2)))"
    by (simp add: RdmaConnectedSession_win_dtor_def Destroy_win_def \<sigma> Let_def d R release_adapter_def)
  have "balanced w0 (AutoRef_reset (ws_adapter l2) w2)"
    using own(1) R by (cases "ws_adapter l2") (simp_all add: holds_def balanced_def AutoRef_reset_def)
  with run show ?thesis by auto
qed


section \<open>Constructors\<close>

lemma runs_connector_setup:
  "runs (\<lambda>c. holds session_refs k w0 c \<and> ws_adapter (fst c) = None \<and> ws_connector (fst c) = None)
     (connector_setup_win we addr) (\<lambda>_. holds session_refs k w0) (holds session_refs k w0)"
proof -
  let ?H = "holds session_refs (Suc k) w0"
  have bind: "runs (\<lambda>c. holds (\<lambda>l. obj # session_refs l) (Suc k) w0 c \<and> ws_connector (fst c) = None)
      (\<lambda>(l, w). on_world (checked (we_nd we) Connector_win_cpp 29 f) (l\<lparr>ws_connector := Some obj\<rparr>, w)) (\<lambda>_. ?H) ?H" for obj f
    by (rule runs_update [OF keeps_checked [unfolded keeps_runs]]) (simp add: holds_def session_refs_def)
  have adapter: "runs (\<lambda>c. holds (\<lambda>l. obj # session_refs l) (Suc k) w0 c \<and> ws_adapter (fst c) = None \<and> ws_connector (fst c) = None)
      (\<lambda>(l, w). on_world (checked (we_nd we) Connector_win_cpp 22 f) (l\<lparr>ws_adapter := Some obj\<rparr>, w))
      (\<lambda>_ c. ?H c \<and> ws_connector (fst c) = None) ?H" for obj f
    by (rule runs_update [OF runs_checked]) (simp add: holds_def session_refs_def)
  have "runs (\<lambda>c. ?H c \<and> ws_connector (fst c) = None)
      (\<lambda>(l, w). on_world (created (we_nd we) Connector_win_cpp 24 f) (l\<lparr>ws_adapterFile := True\<rparr>, w))
      (\<lambda>obj c. holds (\<lambda>l. obj # session_refs l) (Suc k) w0 c \<and> ws_connector (fst c) = None) ?H" for f
    by (rule runs_update [OF runs_created]) simp
  note steps = runs_bind [OF runs_created [where Q = "\<lambda>l. ws_adapter l = None \<and> ws_connector l = None"]]
    runs_bind_update [OF adapter] runs_bind_update [OF this] bind
  show ?thesis
    unfolding connector_setup_win_def by (rule runs_with_event) (intro steps)
qed

lemma runs_listener_setup:
  "runs (\<lambda>c. holds listener_refs k w0 c \<and> lw_adapter (fst c) = None \<and> lw_listen (fst c) = None)
     (listener_setup_win we addr) (\<lambda>_. holds listener_refs k w0) (holds listener_refs k w0)"
proof -
  let ?H = "holds listener_refs (Suc k) w0"
  have adapter: "runs (\<lambda>c. holds (\<lambda>l. obj # listener_refs l) (Suc k) w0 c \<and> lw_adapter (fst c) = None \<and> lw_listen (fst c) = None)
      (\<lambda>(l, w). on_world (checked (we_nd we) Listener_win_cpp 20 f) (l\<lparr>lw_adapter := Some obj\<rparr>, w))
      (\<lambda>_ c. ?H c \<and> lw_listen (fst c) = None) ?H" for obj f
    by (rule runs_update [OF runs_checked]) (simp add: holds_def listener_refs_def)
  have made: "runs (\<lambda>c. ?H c \<and> lw_listen (fst c) = None)
      (\<lambda>(l, w). on_world (created (we_nd we) Listener_win_cpp 22 f) (l\<lparr>lw_adapterFile := True\<rparr>, w))
      (\<lambda>obj c. holds (\<lambda>l. obj # listener_refs l) (Suc k) w0 c \<and> lw_listen (fst c) = None) ?H" for f
    by (rule runs_update [OF runs_created]) (simp add: holds_def listener_refs_def)
  have bound: "runs (\<lambda>c. holds (\<lambda>l. obj # listener_refs l) (Suc k) w0 c \<and> lw_listen (fst c) = None)
      (\<lambda>(l, w). on_world (checked (we_nd we) Listener_win_cpp 26 f) (l\<lparr>lw_listen := Some obj\<rparr>, w)) (\<lambda>_. ?H) ?H" for obj f
    by (rule runs_update [OF keeps_checked [unfolded keeps_runs]]) (simp add: holds_def listener_refs_def)
  note steps = runs_bind [OF runs_created [where Q = "\<lambda>l. lw_adapter l = None \<and> lw_listen l = None"]]
    runs_bind_update [OF adapter] runs_bind_update [OF made] runs_bind_update [OF bound] keeps_checked [unfolded keeps_runs]
  show ?thesis
    unfolding listener_setup_win_def by (rule runs_with_event) (intro steps)
qed

lemma undo_balances:
  assumes "holds session_refs 0 w (snd (snd res))" and "undo_construction we res = (r, \<sigma>)"
  shows "case r of Inl e \<Rightarrow> catchable e \<longrightarrow> balanced w (snd (snd \<sigma>)) | Inr a \<Rightarrow> holds session_refs 0 w (snd \<sigma>)"
proof -
  obtain r0 \<sigma>0 where res: "res = (r0, \<sigma>0)" by (cases res)
  with assms(1) obtain \<sigma>1 where "RdmaConnectedSession_win_dtor we \<sigma>0 = (Inr (), \<sigma>1)" "balanced w (snd (snd \<sigma>1))"
    using dtor_balances [of w \<sigma>0 we] by auto
  with assms res show ?thesis by (auto simp: undo_construction_def split: sum.splits if_splits)
qed

end
