(* ===== verification/WindowsTheorems.thy ===== *)
theory WindowsTheorems
  imports Transitions WindowsLemmas LinuxTheorems AccessTheorems
begin

text \<open>
  What the Windows back end guarantees: references to NetworkDirect objects and event handles are
  balanced over the life of connectors, listeners and accepted sessions, failed calls become
  described errors, and buffers are posted as on Linux as long as their lengths fit into 32 bits.
\<close>

section \<open>A concrete environment\<close>

text \<open>A driver that accepts every call and answers at once; its state counts the bytes posted.\<close>

definition demo_codes :: nd_codes where
  "demo_codes = \<lparr>ND_PENDING = 259, ND_SUCCESS = 0, ND_TIMEOUT = 258, ND_INVALID_PARAMETER = -3, ND_NO_MEMORY = -4,
     ND_INVALID_PARAMETER_MIX = -5, ND_IO_TIMEOUT = -6, ND_INTERNAL_ERROR = -7,
     ND_INVALID_PARAMETER_n = [-8, -9, -10, -11, -12, -13, -14, -15, -16, -17], ND_CANCELED = -18,
     ND_INVALID_ADDRESS = -19, ND_TOO_MANY_ADDRESSES = -20, ND_ADDRESS_ALREADY_EXISTS = -21,
     ND_CONNECTION_REFUSED = -22, ND_CONNECTION_INVALID = -23, ND_CONNECTION_ABORTED = -24,
     ND_NETWORK_UNREACHABLE = -25, ND_CONNECTION_ACTIVE = -26, ND_SHARING_VIOLATION = -27\<rparr>"

definition quiet_nd :: "int nd_calls" where
  "quiet_nd = \<lparr>nd_codes_of = demo_codes, nd_CreateEvent = (\<lambda>n. ((True, 0), n)),
     nd_GetOverlappedResult = (\<lambda>_ n. (0, n)), nd_WaitForSingleObject = (\<lambda>_ n. (True, n)),
     nd_OpenAdapter = (\<lambda>_ n. ((0, 1), n)), nd_CreateOverlappedFile = (\<lambda>_ n. (0, n)),
     nd_Query = (\<lambda>_ n. ((0, 128, 64, 16), n)), nd_CreateCompletionQueue = (\<lambda>_ _ n. ((0, 2), n)),
     nd_CreateQueuePair = (\<lambda>_ _ _ _ _ n. ((0, 3), n)), nd_CreateConnector = (\<lambda>_ n. ((0, 4), n)),
     nd_CreateListener = (\<lambda>_ n. ((0, 5), n)), nd_CreateMemoryRegion = (\<lambda>_ n. ((0, 6), n)),
     nd_Register = (\<lambda>_ _ _ n. (0, n)), nd_Deregister = (\<lambda>_ n. (0, n)), nd_Bind = (\<lambda>_ _ n. (0, n)), nd_Listen = (\<lambda>_ n. (0, n)),
     nd_GetConnectionRequest = (\<lambda>_ _ n. (259, n)), nd_Accept = (\<lambda>_ _ _ n. (0, n)),
     nd_Connect = (\<lambda>_ _ _ _ n. (-22, n)), nd_CompleteConnect = (\<lambda>_ n. (0, n)), nd_Disconnect = (\<lambda>_ n. (0, n)),
     nd_NotifyDisconnect = (\<lambda>_ n. (0, n)), nd_GetPrivateData = (\<lambda>_ n. ((0, []), n)),
     nd_GetLocalAddress = (\<lambda>_ n. ((0, []), n)), nd_GetPeerAddress = (\<lambda>_ n. ((0, []), n)),
     nd_CancelOverlappedRequests = (\<lambda>_ n. n), nd_Flush = (\<lambda>_ n. n), nd_Notify = (\<lambda>_ n. (0, n)),
     nd_Receive = (\<lambda>_ i p len n. (0, n + uint len)), nd_Send = (\<lambda>_ i p len n. (0, n + uint len))\<rparr>"

definition quiet_win :: "int nd_calls \<Rightarrow> int win_env" where
  "quiet_win nd = \<lparr>we_nd = nd, we_GetResults = (\<lambda>_ n. (None, n)), we_start_thread = Inr (),
     we_join = (\<lambda>_ s. s), we_memory = (\<lambda>_. None), we_wait_transfer = (\<lambda>s. (True, s)),
     we_wait_credit = (\<lambda>q. (True, q)), we_regain = id\<rparr>"

definition empty_win_world :: "int win_world" where
  "empty_win_world = \<lparr>nw_state = 0, nw_refs = [], nw_events = 0\<rparr>"

section \<open>The life of a connector\<close>

lemma EventHandler_loop_holds:
  "holds session_refs k w0 (snd \<sigma>) \<Longrightarrow> holds session_refs k w0 (snd (snd (EventHandler_loop we n calls \<sigma>)))"
proof (induction n arbitrary: calls \<sigma>)
  case (Suc n)
  obtain s l w where \<sigma>: "\<sigma> = (s, (l, w))" by (metis prod_cases3)
  have own: "holds session_refs k w0 (l, w)" using Suc.prems \<sigma> by simp
  show ?case
  proof (cases "ws_closing l \<or> ws_cq l = None")
    case False
    then obtain cq where cq: "ws_cq l = Some cq" and open': "\<not> ws_closing l" by auto
    obtain res w1 where g: "nd_call (we_GetResults we cq) w = (res, w1)" by (rule that [OF surjective_pairing])
    have own1: "holds session_refs k w0 (l, w1)" by (rule holds_nd_call [OF own g])
    obtain r w2 where n: "HandleHROverlapped (we_nd we) ConnectedSession_win_cpp 183 cq (nd_Notify (we_nd we) cq) w1 = (r, w2)"
      by (rule that [OF surjective_pairing])
    from n have "on_world (HandleHROverlapped (we_nd we) ConnectedSession_win_cpp 183 cq (nd_Notify (we_nd we) cq)) (l, w1) = (r, (l, w2))"
      by (simp add: on_world_def)
    from keepsD [OF keeps_overlapped own1 this] have own2: "holds session_refs k w0 (l, w2)" .
    have more: "holds session_refs k w0 (l, v) \<Longrightarrow> holds session_refs k w0 (snd (snd (EventHandler_loop we n c (s', (l, v)))))" for c s' v
      using Suc.IH [of "(s', (l, v))"] by simp
    show ?thesis
      by (cases res) (auto simp: \<sigma> open' cq g n own1 own2 more split: sum.split prod.split)
  qed (use own in \<open>auto simp: \<sigma>\<close>)
qed simp

lemma event_opened: "holds refs k w0 (l, w) \<Longrightarrow> holds refs (Suc k) w0 (l, w\<lparr>nw_events := Suc (nw_events w)\<rparr>)"
  by (simp add: holds_def)

lemma event_closed: "holds refs (Suc k) w0 (l, w) \<Longrightarrow> holds refs k w0 (l, w\<lparr>nw_events := nw_events w - 1\<rparr>)"
  by (simp add: holds_def)

lemma EventHandlerThread_holds:
  assumes "holds session_refs k w0 (snd \<sigma>)"
  shows "holds session_refs k w0 (snd (snd (EventHandlerThread_win we n \<sigma>)))"
proof -
  obtain s l w where \<sigma>: "\<sigma> = (s, (l, w))" by (metis prod_cases3)
  obtain ok err w1 where ev: "nd_call (nd_CreateEvent (we_nd we)) w = ((ok, err), w1)" by (metis prod.collapse)
  have own: "holds session_refs k w0 (l, w1)" by (rule holds_nd_call [OF _ ev]) (use assms \<sigma> in simp)
  obtain r s2 l2 w2 where loop: "EventHandler_loop we n [] (s, (l, w1\<lparr>nw_events := Suc (nw_events w1)\<rparr>)) = (r, (s2, (l2, w2)))"
    by (metis prod_cases4)
  with EventHandler_loop_holds [of "Suc k" w0 "(s, (l, w1\<lparr>nw_events := Suc (nw_events w1)\<rparr>))" we n "[]"] event_opened [OF own]
  have "holds session_refs (Suc k) w0 (l2, w2)" by simp
  from event_closed [OF this] own show ?thesis by (simp add: EventHandlerThread_win_def \<sigma> ev loop)
qed

lemma keeps_connection_handler: "keeps_conn (holds session_refs k w0) (connection_handler_body we)"
proof -
  have wait: "keeps_conn (holds session_refs k w0) (on_wconn (through ws_connector (\<lambda>j. on_world (HandleHROverlapped (we_nd we) src ln j (f j)))))"
    for src ln f by (intro keeps_on_wconn keeps_through keeps_overlapped)
  have "keeps_conn (holds session_refs k w0) (\<lambda>(s, c). case HandleDisconnect s of Inl e \<Rightarrow> (Inl e, (s, c))
       | Inr (calls, s) \<Rightarrow>
           (case on_wconn (through ws_connector (\<lambda>j. on_world (HandleHROverlapped (we_nd we) src ln j (f j)))) (s, c) of
              (Inl e, \<sigma>) \<Rightarrow> (if catchable e then Inr calls else Inl e, \<sigma>)
            | (Inr _, \<sigma>) \<Rightarrow> (Inr calls, \<sigma>)))" for src ln f
    using keeps_snd [OF wait] by (auto simp: keeps_def case_prod_unfold split: sum.split)
  from keeps_bind [OF wait this] show ?thesis unfolding connection_handler_body_def by simp
qed

lemma ConnectionHandlerThread_holds:
  assumes "holds session_refs k w0 (snd \<sigma>)"
  shows "holds session_refs k w0 (snd (snd (ConnectionHandlerThread_win we \<sigma>)))"
proof -
  obtain s l w where \<sigma>: "\<sigma> = (s, (l, w))" by (metis prod_cases3)
  obtain ok err w1 where ev: "nd_call (nd_CreateEvent (we_nd we)) w = ((ok, err), w1)" by (metis prod.collapse)
  have own: "holds session_refs k w0 (l, w1)" by (rule holds_nd_call [OF _ ev]) (use assms \<sigma> in simp)
  obtain r s2 l2 w2 where body: "connection_handler_body we (s, (l, w1\<lparr>nw_events := Suc (nw_events w1)\<rparr>)) = (r, (s2, (l2, w2)))"
    by (metis prod_cases4)
  from keepsD [OF keeps_connection_handler _ body, of "Suc k" w0] event_opened [OF own]
  have "holds session_refs (Suc k) w0 (l2, w2)" by simp
  from event_closed [OF this] own show ?thesis by (simp add: ConnectionHandlerThread_win_def \<sigma> ev body)
qed

text \<open>
  What can happen to a session between construction and destruction: a call of its user, an attempt
  to connect, a cancellation, and a run of one of its handler threads.  \<open>PostConfigure\<close> is not
  overridden on Windows.
\<close>

inductive win_use :: "'n win_env \<Rightarrow> 'n win_state \<Rightarrow> 'n win_state \<Rightarrow> bool" for we where
  win_call: "session_call (win_services we (snd \<sigma>)) (BasePostConfigure (win_services we (snd \<sigma>))) \<sigma> \<sigma>' \<Longrightarrow> win_use we \<sigma> \<sigma>'"
| win_connect: "Connect_win we tid dir remote timeoutMs (k, \<sigma>) = (r, (k', \<sigma>')) \<Longrightarrow> win_use we \<sigma> \<sigma>'"
| win_cancel: "win_use we \<sigma> (snd (Connector_Cancel_win we k \<sigma>))"
| win_event_thread: "win_use we \<sigma> (snd (EventHandlerThread_win we n \<sigma>))"
| win_connection_thread: "win_use we \<sigma> (snd (ConnectionHandlerThread_win we \<sigma>))"

interpretation win_life: invariant_system "\<lambda>\<sigma>. holds session_refs 0 w0 (snd \<sigma>)" "win_use we" "\<lambda>\<sigma>. holds session_refs 0 w0 (snd \<sigma>)" for w0 we
proof
  fix \<sigma> \<sigma>' :: "'a win_state"
  assume "holds session_refs 0 w0 (snd \<sigma>)" and "win_use we \<sigma> \<sigma>'"
  from this(2,1) show "holds session_refs 0 w0 (snd \<sigma>')"
  proof cases
    case win_call
    then show ?thesis
      using win.session_call_keeps win.BasePostConfigure_keeps \<open>holds session_refs 0 w0 (snd \<sigma>)\<close> by blast
  next
    case (win_connect tid dir remote timeoutMs k r k')
    from keepsD [OF keeps_Connect_win _ this, of 0 w0] \<open>holds session_refs 0 w0 (snd \<sigma>)\<close> show ?thesis by simp
  qed (auto intro: keeps_snd [OF keeps_Connector_Cancel] EventHandlerThread_holds ConnectionHandlerThread_holds)
qed

lemma used_session_balanced:
  assumes "holds session_refs 0 w (snd \<sigma>)" and "(win_use we)\<^sup>*\<^sup>* \<sigma> \<sigma>'"
  shows "\<exists>\<sigma>''. RdmaConnectedSession_win_dtor we \<sigma>' = (Inr (), \<sigma>'') \<and> balanced w (snd (snd \<sigma>''))"
  by (rule dtor_balances [OF win_life.reachable_inv [OF assms]])

text \<open>
  C16.  A connector holds exactly what it gives back.  When its constructor throws, every reference to an
  adapter, connector or queue and every event handle it took has been released; when it succeeds,
  then after any use of it, attempts to connect, transfers, cancellations and runs of its handler
  threads in any order, with whatever answers of the driver, the destructor ends normally and has
  released all of them.
\<close>

theorem connector_references_balanced:
  assumes "RdmaConnector_win_new we m addr w = (r, \<sigma>)" and "(win_use we)\<^sup>*\<^sup>* \<sigma> \<sigma>'"
  shows "case r of Inl e \<Rightarrow> catchable e \<longrightarrow> balanced w (snd (snd \<sigma>))
     | Inr k \<Rightarrow> \<exists>\<sigma>''. RdmaConnectedSession_win_dtor we \<sigma>' = (Inr (), \<sigma>'') \<and> balanced w (snd (snd \<sigma>''))"
proof -
  let ?res = "bind_out (on_wconn (connector_setup_win we addr) (ConnectedSession_new m, (win_session_new, w)))
      (\<lambda>_ \<sigma>. (Inr \<lparr>everConnected = False, connectInProgress = False\<rparr> :: exn + connector_flags, \<sigma>))"
  obtain r1 c1 where c: "connector_setup_win we addr (win_session_new, w) = (r1, c1)"
    by (cases "connector_setup_win we addr (win_session_new, w)")
  have "holds session_refs 0 w (win_session_new, w)" by (simp add: holds_def session_refs_def win_session_new_def)
  with runs_connector_setup [of 0 w we addr, unfolded runs_def] c have "holds session_refs 0 w c1"
    by (cases r1) (force simp: win_session_new_def)+
  then have "holds session_refs 0 w (snd (snd ?res))" by (cases r1) (simp_all add: on_wconn_def c)
  note made = undo_balances [OF this assms(1) [unfolded RdmaConnector_win_new_def]]
  show ?thesis
  proof (cases r)
    case (Inr k)
    with made have "holds session_refs 0 w (snd \<sigma>)" by simp
    from used_session_balanced [OF this assms(2)] Inr show ?thesis by simp
  qed (use made in simp)
qed

definition demo_win_connector :: "(exn, connector_flags, int win_state) outcome" where
  "demo_win_connector = RdmaConnector_win_new (quiet_win quiet_nd) demo_manager RdmaAddress_new empty_win_world"

theorem connector_references_balanced_witness:
  "\<exists>\<sigma>''. RdmaConnectedSession_win_dtor (quiet_win quiet_nd)
       (snd (Connector_Cancel_win (quiet_win quiet_nd) \<lparr>everConnected = False, connectInProgress = False\<rparr> (snd demo_win_connector)))
     = (Inr (), \<sigma>'') \<and> balanced empty_win_world (snd (snd \<sigma>''))"
proof -
  have "case fst demo_win_connector of Inl e \<Rightarrow> False | Inr _ \<Rightarrow> True" by code_simp
  then obtain k where k: "fst demo_win_connector = Inr k" by (auto split: sum.splits)
  have used: "(win_use (quiet_win quiet_nd))\<^sup>*\<^sup>* (snd demo_win_connector)
      (snd (Connector_Cancel_win (quiet_win quiet_nd) \<lparr>everConnected = False, connectInProgress = False\<rparr> (snd demo_win_connector)))"
    by (rule r_into_rtranclp) (rule win_cancel)
  from connector_references_balanced [OF demo_win_connector_def [symmetric, THEN trans, OF surjective_pairing] used] k
  show ?thesis by simp
qed

section \<open>Listeners and accepted sessions\<close>

lemma balanced_holds: "balanced w w' \<longleftrightarrow> holds (\<lambda>_. []) 0 w (x, w')"
  by (simp add: balanced_def holds_def)

lemma holds_balanced: "balanced w w1 \<Longrightarrow> holds refs k w1 c \<Longrightarrow> holds refs k w c"
  by (simp add: balanced_def holds_def)

lemma balanced_trans: "balanced w w1 \<Longrightarrow> balanced w1 w2 \<Longrightarrow> balanced w w2"
  by (simp add: balanced_def)

lemma overlapped_timeout_balanced:
  assumes "HandleHROverlappedWithTimeout nd file line obj timeoutMs f w = (r, w')"
  shows "balanced w w'"
proof -
  have "on_world (HandleHROverlappedWithTimeout nd file line obj timeoutMs f) ((), w) = (r, ((), w'))"
    by (simp add: on_world_def assms)
  from keepsD [OF keeps_overlapped_timeout _ this, of "\<lambda>_. []" 0 w] show ?thesis
    by (simp add: balanced_holds [of _ _ "()"] holds_def)
qed

text \<open>What an operation that makes a session leaves behind: the session's references or nothing.\<close>

definition session_or_nothing :: "'n win_world \<Rightarrow> exn + ConnectedSession \<times> win_session \<Rightarrow> 'n win_world \<Rightarrow> bool" where
  "session_or_nothing w r w' \<longleftrightarrow>
     (case r of Inl e \<Rightarrow> catchable e \<longrightarrow> balanced w w' | Inr (s, l) \<Rightarrow> holds session_refs 0 w (l, w'))"

lemma accept_constructor_balanced:
  assumes "RdmaConnectedSession_accept_win we m dir adapter incoming connectionData timeoutMs w = (r, \<sigma>)"
  shows "case r of Inl e \<Rightarrow> catchable e \<longrightarrow> balanced w (snd (snd \<sigma>)) | Inr a \<Rightarrow> holds session_refs 0 w (snd \<sigma>)"
proof (rule undo_balances [OF _ assms [unfolded RdmaConnectedSession_accept_win_def]])
  have "holds session_refs 0 w (win_session_new\<lparr>ws_adapter := Some adapter, ws_adapterFile := True, ws_connector := Some incoming\<rparr>,
      AddRef incoming (AddRef adapter w))"
    by (simp add: holds_def session_refs_def win_session_new_def AddRef_def)
  then show "holds session_refs 0 w (snd (snd (accept_handshake_win we dir incoming timeoutMs
      (ConnectedSession_new_data connectionData m,
       (win_session_new\<lparr>ws_adapter := Some adapter, ws_adapterFile := True, ws_connector := Some incoming\<rparr>,
        AddRef incoming (AddRef adapter w))))))"
    using keeps_accept_handshake [of 0 w we dir incoming timeoutMs] by (simp add: keeps_def)
qed

lemma accept_try_balanced:
  assumes "accept_try_win we m dir timeoutMs adapter incoming (ln, w) = (r, (ln', w'))"
  shows "session_or_nothing w r w'"
proof (cases "lw_listen ln")
  case None
  with assms show ?thesis by (auto simp: accept_try_win_def through_def session_or_nothing_def catchable_def)
next
  case (Some obj)
  obtain r1 w1 where 1: "HandleHROverlappedWithTimeout (we_nd we) Listener_win_cpp 53 incoming timeoutMs
      (nd_GetConnectionRequest (we_nd we) obj incoming) w = (r1, w1)" by (rule that [OF surjective_pairing])
  obtain r2 s l w2 where 2: "RdmaConnectedSession_accept_win we m dir adapter incoming (lw_connectionData ln) timeoutMs w1 = (r2, (s, (l, w2)))"
    by (metis prod_cases3)
  note b1 = overlapped_timeout_balanced [OF 1] and b2 = accept_constructor_balanced [OF 2]
  have cancelled: "balanced w v \<Longrightarrow> balanced w (snd (nd_call (\<lambda>n. ((), nd_CancelOverlappedRequests (we_nd we) obj n)) v))" for v
    by (simp add: balanced_def nd_call_def)
  show ?thesis
  proof (cases r1)
    case (Inl e)
    with assms Some 1 cancelled [OF b1] show ?thesis
      by (auto simp: accept_try_win_def through_def session_or_nothing_def split: if_splits)
  next
    case (Inr u)
    from b1 b2 have "case r2 of Inl e \<Rightarrow> catchable e \<longrightarrow> balanced w w2 | Inr a \<Rightarrow> holds session_refs 0 w (l, w2)"
      by (auto intro: balanced_trans holds_balanced split: sum.splits)
    with assms Some 1 Inr 2 cancelled [of w2] show ?thesis
      by (cases r2) (auto simp: accept_try_win_def through_def session_or_nothing_def split: if_splits)
  qed
qed

lemma accept_suspended_balanced:
  assumes "access_suspended regain tid (\<lambda>c. lw_accessManager (fst c)) put_win_listener_manager
      (accept_try_win we m dir timeoutMs adapter incoming) (ln, w) = (r, (ln', w'))"
  shows "session_or_nothing w r w'"
proof (cases "SuspendAccess tid (lw_accessManager ln)")
  case (Inl e)
  with assms show ?thesis by (auto simp: access_suspended_def session_or_nothing_def balanced_def)
next
  case (Inr k)
  obtain r1 ln1 w1 where "accept_try_win we m dir timeoutMs adapter incoming (ln\<lparr>lw_accessManager := k\<rparr>, w) = (r1, (ln1, w1))"
    by (metis prod_cases3)
  with assms Inr accept_try_balanced [OF this] show ?thesis
    by (auto simp: access_suspended_def put_win_listener_manager_def split: prod.splits)
qed

text \<open>Releasing the local connector and closing the event.\<close>

lemma session_or_nothing_close:
  assumes "mset (nw_refs w1) = add_mset obj (mset (nw_refs w))" and "nw_events w1 = Suc (nw_events w)"
    and "session_or_nothing w1 r w2"
  shows "session_or_nothing w r ((AutoRef_reset (Some obj) w2)\<lparr>nw_events := nw_events w2 - 1\<rparr>)"
  using assms by (auto simp: session_or_nothing_def balanced_def holds_def AutoRef_reset_def split: sum.splits)

lemma Accept_win_leaves:
  assumes "Accept_win we m tid dir timeoutMs (ln, w) = (r, (ln', w'))"
  shows "session_or_nothing w r w'"
proof (cases "lw_acceptInProgress ln")
  case True
  with assms show ?thesis by (auto simp: Accept_win_def session_or_nothing_def balanced_def)
next
  case False
  obtain ok err w1 where ev: "nd_call (nd_CreateEvent (we_nd we)) w = ((ok, err), w1)" by (metis prod.collapse)
  then have w1: "nw_refs w1 = nw_refs w" "nw_events w1 = nw_events w" by (auto simp: nd_call_def split: prod.splits)
  note run = assms [unfolded Accept_win_def overlapped_conn_def with_overlapped_def]
  show ?thesis
  proof (cases "ok \<and> lw_adapter ln \<noteq> None")
    case none: False
    with run False ev w1 show ?thesis
      by (auto simp: session_or_nothing_def balanced_def through_def split: if_splits)
  next
    case True
    then obtain adapter where a: "lw_adapter ln = Some adapter" by auto
    let ?ln = "ln\<lparr>lw_acceptInProgress := True\<rparr>" and ?w = "w1\<lparr>nw_events := Suc (nw_events w1)\<rparr>"
    obtain r2 w2 where cr: "created (we_nd we) Listener_win_cpp 46 (nd_CreateConnector (we_nd we) adapter) ?w = (r2, w2)"
      by (rule that [OF surjective_pairing])
    show ?thesis
    proof (cases r2)
      case (Inl e)
      with run False ev True a cr w1 show ?thesis
        by (auto simp: session_or_nothing_def balanced_def through_def on_world_def created_def nd_call_def split: prod.splits if_splits)
    next
      case (Inr incoming)
      with cr w1 have w2: "mset (nw_refs w2) = add_mset incoming (mset (nw_refs w))" "nw_events w2 = Suc (nw_events w)"
        by (auto simp: created_def AddRef_def nd_call_def split: prod.splits if_splits)
      obtain r3 ln3 w3 where t: "access_suspended (we_regain we) tid (\<lambda>c. lw_accessManager (fst c)) put_win_listener_manager
          (accept_try_win we m dir timeoutMs adapter incoming) (?ln, w2) = (r3, (ln3, w3))" by (metis prod_cases3)
      from session_or_nothing_close [OF w2 accept_suspended_balanced [OF t]] run False ev True a cr Inr t show ?thesis
        by (auto simp: through_def on_world_def AutoRef_reset_def)
    qed
  qed
qed


text \<open>
  C17.  Accepting is balanced too.  A call of \<open>Accept\<close> that throws, at whatever step of the handshake,
  leaves no reference and no event handle behind; the session of a successful one holds exactly what
  its destructor releases, after any use of it.
\<close>

theorem accept_references_balanced:
  assumes "Accept_win we m tid dir timeoutMs (ln, w) = (r, (ln', w'))"
  shows "case r of Inl e \<Rightarrow> catchable e \<longrightarrow> balanced w w'
     | Inr (s, l) \<Rightarrow> (\<forall>\<sigma>'. (win_use we)\<^sup>*\<^sup>* (s, (l, w')) \<sigma>' \<longrightarrow>
         (\<exists>\<sigma>''. RdmaConnectedSession_win_dtor we \<sigma>' = (Inr (), \<sigma>'') \<and> balanced w (snd (snd \<sigma>''))))"
proof (cases r)
  case (Inl e)
  with Accept_win_leaves [OF assms] show ?thesis by (simp add: session_or_nothing_def)
next
  case (Inr p)
  obtain s l where p: "p = (s, l)" by (cases p)
  with Inr Accept_win_leaves [OF assms] have "holds session_refs 0 w (snd (s, (l, w')))" by (simp add: session_or_nothing_def)
  from used_session_balanced [OF this] Inr p show ?thesis by simp
qed

definition demo_listener :: win_listener where
  "demo_listener = \<lparr>lw_adapter = Some 1, lw_adapterFile = True, lw_listen = Some 5, lw_acceptInProgress = False,
     lw_connectionData = [], lw_accessManager = demo1\<rparr>"

text \<open>A driver on which the queue pair cannot be made, after everything else of the session was.\<close>

definition no_qp_win :: "int win_env" where
  "no_qp_win = quiet_win (quiet_nd\<lparr>nd_CreateQueuePair := \<lambda>_ _ _ _ _ n. ((-4, 0), n)\<rparr>)"

theorem accept_references_balanced_witness:
  "balanced empty_win_world (snd (snd (Accept_win no_qp_win demo1 1 Send 10 (demo_listener, empty_win_world))))"
proof -
  let ?run = "Accept_win no_qp_win demo1 1 Send 10 (demo_listener, empty_win_world)"
  let ?w = "\<lparr>nw_state = 0, nw_refs = [4], nw_events = 1\<rparr>"
  let ?accept = "RdmaConnectedSession_accept_win no_qp_win demo1 Send 1 4 [] 10 ?w"
  have "case fst ?accept of Inl e \<Rightarrow> catchable e | Inr _ \<Rightarrow> False" by code_simp
  then obtain e s l w' where accept: "?accept = (Inl e, (s, (l, w')))" "catchable e" by (cases ?accept) (auto split: sum.splits)
  have "case SuspendAccess 1 demo1 of Inl e \<Rightarrow> False | Inr m \<Rightarrow> True" by code_simp
  then obtain m' where "SuspendAccess 1 demo1 = Inr m'" by (cases "SuspendAccess 1 demo1") simp_all
  with accept have failed: "case fst ?run of Inl e \<Rightarrow> catchable e | Inr _ \<Rightarrow> False"
    by (simp add: Accept_win_def demo_listener_def overlapped_conn_def with_overlapped_def nd_call_def through_def on_world_def
        created_def AddRef_def access_suspended_def put_win_listener_manager_def accept_try_win_def empty_win_world_def
        HandleHROverlappedWithTimeout_def HandleHROverlappedWithTimeoutInternal_def HandleHR_def
        no_qp_win_def quiet_win_def quiet_nd_def demo_codes_def split: prod.split)
  obtain r ln w where run: "?run = (r, (ln, w))" by (metis prod_cases3)
  with accept_references_balanced [OF run] failed show ?thesis by (cases r) simp_all
qed

text \<open>A listener whose constructor throws has released its adapter and its listening object.\<close>

lemma failed_listener_balanced:
  assumes "RdmaListener_win_new we m addr w = (Inl e, w')" and "catchable e"
  shows "balanced w w'"
proof -
  let ?ln = "\<lparr>lw_adapter = None, lw_adapterFile = False, lw_listen = None, lw_acceptInProgress = False,
      lw_connectionData = [], lw_accessManager = m\<rparr>"
  obtain r ln1 w1 where run: "listener_setup_win we addr (?ln, w) = (r, (ln1, w1))" by (metis prod_cases3)
  have "holds listener_refs 0 w (?ln, w)" by (simp add: holds_def listener_refs_def)
  with runs_listener_setup [of 0 w we addr, unfolded runs_def] run have "holds listener_refs 0 w (ln1, w1)"
    by (cases r) force+
  then have "balanced w (release_listener (ln1, w1))"
    by (auto simp: holds_def listener_refs_def balanced_def release_listener_def AutoRef_reset_def held_def split: option.splits)
  with assms run show ?thesis by (auto simp: RdmaListener_win_new_def split: sum.splits)
qed

text \<open>
  A flaw of \<open>Accept\<close>: the flag \<open>acceptInProgress\<close> is set before the connector is made, outside the
  \<open>try\<close> block that clears it.  When \<open>CreateConnector\<close> fails, every later call of \<open>Accept\<close> on this
  listener is refused as an invalid operation, whatever the driver answers then.
\<close>

theorem failed_accept_blocks_listener:
  fixes we :: "'n win_env"
  assumes "\<not> lw_acceptInProgress ln" and "lw_adapter ln = Some adapter"
    and "nd_CreateEvent (we_nd we) (nw_state w) = ((True, err), n1)"
    and "nd_CreateConnector (we_nd we) adapter n1 = ((hr, obj), n2)" and "hr < 0"
  shows "\<exists>e ln' w'. Accept_win we m tid dir timeoutMs (ln, w) = (Inl e, (ln', w')) \<and> catchable e
     \<and> (\<forall>(we' :: 'n win_env) m' tid' dir' timeoutMs' w''. Accept_win we' m' tid' dir' timeoutMs' (ln', w'')
          = (Inl (RDMA_THROW Listener_win_cpp 41 easyrdma_Error_InvalidOperation), (ln', w'')))"
proof -
  obtain e w' where "Accept_win we m tid dir timeoutMs (ln, w) = (Inl e, (ln\<lparr>lw_acceptInProgress := True\<rparr>, w'))" "catchable e"
    using assms by (auto simp: Accept_win_def overlapped_conn_def with_overlapped_def nd_call_def through_def on_world_def
        created_def THROW_HRESULT_ERROR_def catchable_def)
  moreover have "Accept_win we' m' tid' dir' timeoutMs' (ln\<lparr>lw_acceptInProgress := True\<rparr>, w'')
      = (Inl (RDMA_THROW Listener_win_cpp 41 easyrdma_Error_InvalidOperation), (ln\<lparr>lw_acceptInProgress := True\<rparr>, w''))"
    for we' :: "'n win_env" and m' tid' dir' timeoutMs' w''
    by (simp add: Accept_win_def)
  ultimately show ?thesis by blast
qed

theorem failed_accept_blocks_listener_witness:
  "\<exists>e ln' w'. Accept_win (quiet_win (quiet_nd\<lparr>nd_CreateConnector := \<lambda>_ n. ((-4, 0), n)\<rparr>)) demo_manager 1 Send 10
       (demo_listener, empty_win_world) = (Inl e, (ln', w'))
     \<and> Accept_win (quiet_win quiet_nd) demo_manager 1 Send 10 (ln', w')
         = (Inl (RDMA_THROW Listener_win_cpp 41 easyrdma_Error_InvalidOperation), (ln', w'))"
  using failed_accept_blocks_listener [of demo_listener 1 "quiet_win (quiet_nd\<lparr>nd_CreateConnector := \<lambda>_ n. ((-4, 0), n)\<rparr>)"
      empty_win_world 0 0 "-4" 0 0 demo_manager 1 Send 10]
  by (fastforce simp: demo_listener_def quiet_win_def quiet_nd_def empty_win_world_def)

text \<open>
  A memory region is one reference: none when it could not be registered, none after its destructor.
\<close>

lemma overlapped_event_balanced:
  assumes "overlapped_conn we (on_world (HandleHROverlapped (we_nd we) src ln obj f)) c = (r, c')" and "holds refs k w c"
  shows "holds refs k w c'"
proof -
  have "keeps (holds refs k w) (overlapped_conn we (on_world (HandleHROverlapped (we_nd we) src ln obj f)))"
    by (intro keeps_with_event keeps_overlapped)
  from keepsD [OF this assms(2,1)] show ?thesis .
qed

lemma holds_one_reset: "holds (\<lambda>_. [obj]) 0 w (l, w1) \<Longrightarrow> balanced w (AutoRef_reset (Some obj) w1)"
  by (simp add: holds_def balanced_def AutoRef_reset_def)

lemma memory_region_balanced:
  assumes "CreateMemoryRegion_win we buffer len c = (r, c')"
  shows "case r of Inl e \<Rightarrow> catchable e \<longrightarrow> balanced (snd c) (snd c')
     | Inr mr \<Rightarrow> (case RdmaMemoryRegion_win_dtor we mr c' of (Inl e, _) \<Rightarrow> \<not> catchable e | (Inr _, c'') \<Rightarrow> balanced (snd c) (snd c''))"
proof (cases "ws_adapter (fst c)")
  case None
  with assms show ?thesis by (auto simp: CreateMemoryRegion_win_def through_def catchable_def)
next
  case (Some adapter)
  let ?w = "snd c"
  obtain r1 c1 where cr: "on_world (created (we_nd we) ConnectedSession_win_cpp 206 (nd_CreateMemoryRegion (we_nd we) adapter)) c = (r1, c1)"
    by (rule that [OF surjective_pairing])
  have made: "case r1 of Inl e \<Rightarrow> balanced ?w (snd c1) | Inr mr \<Rightarrow> holds (\<lambda>_. [mr]) 0 ?w c1"
    using cr by (cases c) (auto simp: on_world_def created_def AddRef_def nd_call_def balanced_def holds_def split: prod.splits if_splits)
  show ?thesis
  proof (cases r1)
    case (Inl e)
    with assms Some cr made show ?thesis by (auto simp: CreateMemoryRegion_win_def through_def)
  next
    case (Inr mr)
    obtain r2 l2 w2 where reg: "overlapped_conn we (on_world (HandleHROverlapped (we_nd we) ConnectedSession_win_cpp 211 mr
        (nd_Register (we_nd we) mr buffer len))) c1 = (r2, (l2, w2))" by (metis prod_cases3)
    have own: "holds (\<lambda>_. [mr]) 0 ?w (l2, w2)" using overlapped_event_balanced [OF reg] made Inr by simp
    obtain r3 l3 w3 where dereg: "overlapped_conn we (on_world (HandleHROverlapped (we_nd we) RdmaMemoryRegion_win_h 19 mr
        (nd_Deregister (we_nd we) mr))) (l2, w2) = (r3, (l3, w3))" by (metis prod_cases3)
    note released = holds_one_reset [OF own] holds_one_reset [OF overlapped_event_balanced [OF dereg own]]
    show ?thesis
      using assms Some cr Inr reg dereg released
      by (cases r2; cases r3) (auto simp: CreateMemoryRegion_win_def through_def RdmaMemoryRegion_win_dtor_def catchable_def)
  qed
qed

section \<open>The back ends post alike\<close>

text \<open>
  The two drivers agree on a queue pair: posting the same range of memory has the same effect on the
  common state, and one reports a failure exactly when the other does.
\<close>

definition same_posting :: "'n verbs \<Rightarrow> nat \<Rightarrow> 'n nd_calls \<Rightarrow> nat \<Rightarrow> bool" where
  "same_posting vb i nd qp \<longleftrightarrow> (\<forall>j p len n.
     snd (nd_Send nd qp j p len n) = snd (vb_post_send vb i j p (ucast len) n)
     \<and> (fst (nd_Send nd qp j p len n) < 0 \<longleftrightarrow> fst (fst (vb_post_send vb i j p (ucast len) n)) = -1)
     \<and> snd (nd_Receive nd qp j p len n) = snd (vb_post_recv vb i j p (ucast len) n)
     \<and> (fst (nd_Receive nd qp j p len n) < 0 \<longleftrightarrow> fst (fst (vb_post_recv vb i j p (ucast len) n)) = -1))"

lemma ucast_ucast_small:
  assumes "len < 2 ^ 32"
  shows "ucast (ucast len :: u32) = (len :: u64)"
proof -
  have "unat len < 2 ^ 32" using assms by (simp add: word_less_nat_alt)
  then show ?thesis
    by (intro word_unat_eq_iff [THEN iffD2]) (simp add: unsigned_ucast_eq unsigned_take_bit_eq take_bit_nat_eq_self)
qed

text \<open>
  C34.  On both systems a buffer is posted as the same work request: a send of its used bytes, a receive of
  its whole length.  With drivers that agree, \<open>QueueToQp\<close> of the Windows session succeeds exactly
  when that of the Linux session does, and leaves the driver in the same state, for every buffer
  whose lengths are below \<open>2 ^ 32\<close>.
\<close>

theorem backends_post_alike:
  assumes "same_posting vb i (we_nd we) qp" and "cm_id l = Some i" and "ws_qp lw = Some qp"
    and "dir \<in> {Send, Receive}" and "usedBytes b < 2 ^ 32" and "bufferSize b < 2 ^ 32"
    and "w_state w = nw_state ww"
    and "QueueToQp vb dir j b (l, w) = (r, (l', w'))" and "QueueToQp_win we dir j b (lw, ww) = (rw, (lw', ww'))"
  shows "w_state w' = nw_state ww' \<and> ((\<exists>e. r = Inl e) \<longleftrightarrow> (\<exists>e. rw = Inl e))"
proof -
  have wrap: "ucast (ucast (usedBytes b) :: u32) = usedBytes b" "ucast (ucast (bufferSize b) :: u32) = bufferSize b"
    using assms by (simp_all add: ucast_ucast_small)
  note same = assms(1) [unfolded same_posting_def, rule_format, of j "buf_ptr b" "sge_length dir b" "nw_state ww"]
  note defs = QueueToQp_def QueueToQp_win_def with_id_def through_def handled_def kernel_def on_world_def checked_def nd_call_def
  show ?thesis
  proof (cases "dir = Send")
    case True
    with same assms wrap show ?thesis
      by (auto simp: defs sge_length_def HandleError_def HandleHR_def split: prod.splits if_splits)
  next
    case False
    with assms have "dir = Receive" by simp
    with same assms wrap show ?thesis
      by (auto simp: defs sge_length_def HandleError_def HandleHR_def split: prod.splits if_splits)
  qed
qed


definition counting_verbs :: "int verbs" where
  "counting_verbs = quiet_verbs\<lparr>vb_post_send := \<lambda>_ _ _ len v. ((0, 0), v + uint len),
     vb_post_recv := \<lambda>_ _ _ len v. ((0, 0), v + uint len)\<rparr>"

definition demo_transfer :: RdmaBuffer where
  "demo_transfer = (RdmaBufferExternal_new 4096)\<lparr>bufferSize := 32, usedBytes := 7\<rparr>"

lemma same_posting_demo: "same_posting counting_verbs 3 quiet_nd 3"
  by (simp add: same_posting_def counting_verbs_def quiet_nd_def uint_up_ucast is_up)

theorem backends_post_alike_witness:
  "w_state (snd (snd (QueueToQp counting_verbs Send 0 demo_transfer (linux_session_new (Some 3) demo_poller, quiet_world))))
   = nw_state (snd (snd (QueueToQp_win (quiet_win quiet_nd) Send 0 demo_transfer (win_session_new\<lparr>ws_qp := Some 3\<rparr>, empty_win_world))))"
proof -
  obtain r l' w' where 1: "QueueToQp counting_verbs Send 0 demo_transfer (linux_session_new (Some 3) demo_poller, quiet_world) = (r, (l', w'))"
    by (metis prod_cases3)
  obtain rw lw' ww' where 2: "QueueToQp_win (quiet_win quiet_nd) Send 0 demo_transfer (win_session_new\<lparr>ws_qp := Some 3\<rparr>, empty_win_world)
      = (rw, (lw', ww'))" by (metis prod_cases3)
  show ?thesis
    unfolding 1 2 snd_conv
    by (rule backends_post_alike [where qp = 3 and i = 3, OF _ _ _ _ _ _ _ 1 2, THEN conjunct1])
      (simp_all add: same_posting_demo quiet_win_def linux_session_new_def demo_transfer_def quiet_world_def empty_win_world_def)
qed

text \<open>A receive buffer of four gigabytes is posted on Windows as one of no bytes.\<close>

lemma receive_of_four_gigabytes: "sge_length Receive (b\<lparr>bufferSize := 2 ^ 32\<rparr>) = 0"
  by (simp add: sge_length_def)

section \<open>Errors\<close>

lemma known_code_described:
  assumes "code \<in> set known_codes" and "code \<noteq> 0"
  shows "\<exists>descr rest. (code, descr) \<in> set errorStringTranslations
     \<and> GetErrorDescription (RdmaError_of code subcode file line) = descr @ newline @ rest"
proof -
  from assms(1) obtain descr where descr: "(code, descr) \<in> set errorStringTranslations"
    unfolding known_codes_table [symmetric] by auto
  have "distinct (map fst errorStringTranslations)" by code_simp
  with descr have "map_of errorStringTranslations code = Some descr" by (simp add: map_of_is_SomeI)
  with assms(2) descr show ?thesis
    by (auto simp: GetErrorDescription_def ConvertToErrorString_def GetCode_def
        easyrdma_Error_Success_def RdmaError_of_def IsError_def)
qed

lemma OSErrorToRdmaError_win_known: "OSErrorToRdmaError_win nd hr \<in> set known_codes"
proof (cases "map_of (errorTranslations_win nd) hr")
  case None
  then show ?thesis by (simp add: OSErrorToRdmaError_win_def error_code_defs known_codes_def)
next
  case (Some code)
  then have "code \<in> snd ` set (errorTranslations_win nd)" by (force dest: map_of_SomeD)
  also have "\<dots> \<subseteq> set known_codes" by (auto simp: errorTranslations_win_def error_code_defs known_codes_def)
  finally show ?thesis using Some by (simp add: OSErrorToRdmaError_win_def)
qed

lemma OSErrorToRdmaError_win_error:
  assumes "hr < 0" and "0 \<le> ND_SUCCESS nd"
  shows "OSErrorToRdmaError_win nd hr \<noteq> 0"
proof -
  have "(hr, 0) \<notin> set (errorTranslations_win nd)"
    using assms by (auto simp: errorTranslations_win_def error_code_defs)
  then show ?thesis
    by (auto simp: OSErrorToRdmaError_win_def easyrdma_Error_OperatingSystemError_def dest: map_of_SomeD split: option.split)
qed

text \<open>
  Every failed call of NetworkDirect or of the system is reported: whatever the numbers of the status
  codes are, a negative result becomes an exception that keeps it as the subcode and whose error code
  is a non-zero one that the table of error texts describes.
\<close>

theorem windows_errors_are_described:
  assumes "hr < 0" and "0 \<le> ND_SUCCESS nd"
  shows "\<exists>s descr rest. HandleHR nd file line hr = Inl (RdmaException s) \<and> IsError s \<and> errorSubCode s = hr
     \<and> (errorCode s, descr) \<in> set errorStringTranslations \<and> GetErrorDescription s = descr @ newline @ rest"
proof -
  let ?s = "RdmaError_of (OSErrorToRdmaError_win nd hr) hr file line"
  have "HandleHR nd file line hr = Inl (RdmaException ?s)" "IsError ?s" "errorSubCode ?s = hr"
    using assms OSErrorToRdmaError_win_error [OF assms]
    by (simp_all add: HandleHR_def THROW_HRESULT_ERROR_def) (simp add: RdmaError_of_def)
  moreover from known_code_described [OF OSErrorToRdmaError_win_known OSErrorToRdmaError_win_error [OF assms], of hr "file" "line"]
  obtain descr rest where "(errorCode ?s, descr) \<in> set errorStringTranslations" "GetErrorDescription ?s = descr @ newline @ rest"
    by (auto simp only: errorCode_of)
  ultimately show ?thesis by blast
qed

theorem windows_errors_are_described_witness:
  "\<exists>s descr rest. HandleHR demo_codes ''a.cpp'' 1 (-22) = Inl (RdmaException s) \<and> IsError s \<and> errorSubCode s = -22
     \<and> (errorCode s, descr) \<in> set errorStringTranslations \<and> GetErrorDescription s = descr @ newline @ rest"
  by (rule windows_errors_are_described) (simp_all add: demo_codes_def)

end
